(* ===== verification/Prelude.thy ===== *)
theory Prelude
  imports Main "HOL-Library.Sublist"
begin

text \<open>
  Shared base of the development: the Go error values, the sequencing of fallible
  state-passing code, the collections of rewrite rules that the component theories fill,
  and generic lemmas on lists and maps.

  Go functions that read or change the world are modelled as functions of type
  \<open>'s \<Rightarrow> 'r \<times> 's\<close>; a \<open>(T, error)\<close> return is \<open>go_error + 'T\<close>, and the early return
  \<open>if err != nil { return err }\<close> is \<open>ebind\<close>.
\<close>

section \<open>Rule collections\<close>

named_theorems redis_simps \<open>documented effects of the Redis commands\<close>
named_theorems db_simps \<open>what leaves the tables of the database alone\<close>
named_theorems script_defs \<open>definitions of the Lua scripts\<close>
named_theorems key_defs \<open>definitions of the Redis key names\<close>

section \<open>Go errors\<close>

text \<open>
  The sentinel errors of the packages, one constructor each, so that \<open>errors.Is\<close> is a
  constructor test; \<open>ErrDuplicatedKey\<close> is gorm's, \<open>ErrService\<close> is an error handed on from a client library (Redis, the
  database, the language model), \<open>ErrDecode\<close> a failed \<open>json.Unmarshal\<close>, \<open>ErrText\<close> an
  \<open>errors.New\<close> made on the spot, \<open>ErrPanic\<close> a run-time panic.
\<close>

datatype go_error =
    ErrQuotaExhausted | ErrInvalidReservation
  | ErrConversationBusy | ErrLeaseLost
  | ErrInvalidRequest | ErrMessageTooLarge | ErrConversationNotFound | ErrNotStarted
  | ErrInvalidCredentials | ErrInvalidCaptcha | ErrInvalidCode | ErrEmailInUse | ErrRateLimited
  | ErrUnauthorized | ErrMailUnavailable | ErrDuplicatedKey
  | ErrService | ErrDecode | ErrText string | ErrPanic

type_synonym ('s, 'a) io = "'s \<Rightarrow> (go_error + 'a) \<times> 's"

definition ebind :: "('s, 'a) io \<Rightarrow> ('a \<Rightarrow> ('s, 'b) io) \<Rightarrow> ('s, 'b) io" where
  "ebind m k s = (case m s of (Inl e, s') \<Rightarrow> (Inl e, s') | (Inr x, s') \<Rightarrow> k x s')"

lemma ebind_Inl [simp]: "m s = (Inl e, s') \<Longrightarrow> ebind m k s = (Inl e, s')"
  by (simp add: ebind_def)

lemma ebind_Inr [simp]: "m s = (Inr x, s') \<Longrightarrow> ebind m k s = k x s'"
  by (simp add: ebind_def)

lemma ebind_eq_Inr:
  "ebind m k s = (Inr y, s') \<longleftrightarrow> (\<exists>x s1. m s = (Inr x, s1) \<and> k x s1 = (Inr y, s'))"
  by (auto simp: ebind_def split: prod.splits sum.splits)

section \<open>Lists and maps\<close>

text \<open>The elements at which a predicate holds, cut at the first failure from the right.\<close>

definition rdropWhile :: "('a \<Rightarrow> bool) \<Rightarrow> 'a list \<Rightarrow> 'a list" where
  "rdropWhile P xs = rev (dropWhile P (rev xs))"

lemma rdropWhile_Nil [simp]: "rdropWhile P [] = []"
  by (simp add: rdropWhile_def)

lemma rdropWhile_append_last:
  "rdropWhile P (xs @ [x]) = (if P x then rdropWhile P xs else xs @ [x])"
  by (simp add: rdropWhile_def)

lemma rdropWhile_prefix: "\<exists>ys. xs = rdropWhile P xs @ ys"
proof -
  have "xs = rev (takeWhile P (rev xs) @ dropWhile P (rev xs))" by simp
  then have "xs = rdropWhile P xs @ rev (takeWhile P (rev xs))"
    by (simp add: rdropWhile_def del: takeWhile_dropWhile_id)
  then show ?thesis by blast
qed

lemma last_rdropWhile: "rdropWhile P xs \<noteq> [] \<Longrightarrow> \<not> P (last (rdropWhile P xs))"
  using hd_dropWhile [of P "rev xs"] by (simp add: rdropWhile_def last_rev)

lemma hd_rdropWhile: "rdropWhile P xs \<noteq> [] \<Longrightarrow> hd (rdropWhile P xs) = hd xs"
  by (metis hd_append2 rdropWhile_prefix)

lemma rdropWhile_all: "rdropWhile P xs = [] \<longleftrightarrow> (\<forall>x \<in> set xs. P x)"
  by (simp add: rdropWhile_def dropWhile_eq_Nil_conv)

lemma rdropWhile_id: "xs \<noteq> [] \<Longrightarrow> \<not> P (last xs) \<Longrightarrow> rdropWhile P xs = xs"
  by (cases xs rule: rev_cases) (simp_all add: rdropWhile_append_last)

lemma dropWhile_id: "xs \<noteq> [] \<Longrightarrow> \<not> P (hd xs) \<Longrightarrow> dropWhile P xs = xs"
  by (cases xs) simp_all

lemma map_upd_idem: "m k = Some v \<Longrightarrow> m(k \<mapsto> v) = m"
  by auto

end
