(* ===== verification/Go_Strings.thy ===== *)
theory Go_Strings
  imports Prelude
begin

text \<open>
  Go strings. A Go string is a sequence of bytes, so it is an Isabelle \<open>string\<close> (a list
  of 8-bit characters) and \<open>length\<close> is Go's \<open>len\<close>. Ranging over a string and counting its
  runes decode UTF-8 the way package \<open>unicode/utf8\<close> does (a byte that starts no
  well-formed sequence is one rune \<open>U+FFFD\<close> of width 1). The functions of package
  \<open>strings\<close> that the program calls are translated here: \<open>TrimSpace\<close>, \<open>Index\<close>,
  \<open>SplitN\<close>, \<open>HasPrefix\<close>, \<open>Join\<close>, and the decimal formatting of \<open>fmt\<close>.
\<close>

section \<open>Bytes and runes\<close>

type_synonym rune = nat

definition code :: "char \<Rightarrow> nat" where
  "code c = of_char c"

definition chr :: "nat \<Rightarrow> char" where
  "chr n = char_of n"

lemma code_chr [simp]: "n < 256 \<Longrightarrow> code (chr n) = n"
  by (simp add: code_def chr_def)

lemma chr_code [simp]: "chr (code c) = c"
  by (simp add: code_def chr_def)

lemma chr_inject [simp]: "m < 256 \<Longrightarrow> n < 256 \<Longrightarrow> chr m = chr n \<longleftrightarrow> m = n"
  by (metis code_chr)

lemma code_inject [simp]: "code c = code d \<longleftrightarrow> c = d"
  by (simp add: code_def)

definition rune_error :: rune where
  "rune_error = 0xFFFD"

text \<open>Is there a next byte, and does it lie in the given range?\<close>

fun next_in :: "nat \<Rightarrow> nat \<Rightarrow> string \<Rightarrow> bool" where
  "next_in lo hi [] = False"
| "next_in lo hi (c # cs) = (lo \<le> code c \<and> code c \<le> hi)"

text \<open>The number of continuation bytes, and the range of the first of them, by lead byte.\<close>

definition lead_info :: "nat \<Rightarrow> (nat \<times> nat \<times> nat) option" where
  "lead_info b =
     (if 0xC2 \<le> b \<and> b \<le> 0xDF then Some (1, 0x80, 0xBF)
      else if b = 0xE0 then Some (2, 0xA0, 0xBF)
      else if b = 0xED then Some (2, 0x80, 0x9F)
      else if 0xE1 \<le> b \<and> b \<le> 0xEF then Some (2, 0x80, 0xBF)
      else if b = 0xF0 then Some (3, 0x90, 0xBF)
      else if b = 0xF4 then Some (3, 0x80, 0x8F)
      else if 0xF1 \<le> b \<and> b \<le> 0xF3 then Some (3, 0x80, 0xBF)
      else None)"

definition cont_ok :: "nat \<Rightarrow> nat \<Rightarrow> nat \<Rightarrow> string \<Rightarrow> bool" where
  "cont_ok n lo hi cs =
     (next_in lo hi cs \<and> (2 \<le> n \<longrightarrow> next_in 0x80 0xBF (drop 1 cs)) \<and>
      (3 \<le> n \<longrightarrow> next_in 0x80 0xBF (drop 2 cs)))"

definition lead_bits :: "nat \<Rightarrow> nat \<Rightarrow> nat" where
  "lead_bits n b = (if n = 1 then b - 0xC0 else if n = 2 then b - 0xE0 else b - 0xF0)"

text \<open>\<open>utf8.DecodeRuneInString\<close>: the rune and its width in bytes, for a non-empty string.\<close>

definition decode_rune :: "char \<Rightarrow> string \<Rightarrow> rune \<times> nat" where
  "decode_rune c cs =
     (let b = code c in
      if b < 0x80 then (b, 1)
      else case lead_info b of
        None \<Rightarrow> (rune_error, 1)
      | Some (n, lo, hi) \<Rightarrow>
          if cont_ok n lo hi cs
          then (foldl (\<lambda>acc d. acc * 64 + (code d - 0x80)) (lead_bits n b) (take n cs), Suc n)
          else (rune_error, 1))"

text \<open>A string cut into the pieces a \<open>range\<close> loop visits: each rune with its bytes.\<close>

fun segs :: "string \<Rightarrow> (rune \<times> string) list" where
  "segs [] = []"
| "segs (c # cs) =
     (let (r, n) = decode_rune c cs in (r, c # take (n - 1) cs) # segs (drop (n - 1) cs))"

definition runes :: "string \<Rightarrow> rune list" where
  "runes s = map fst (segs s)"

definition rune_count :: "string \<Rightarrow> nat" where
  "rune_count s = length (segs s)"

definition unsegs :: "(rune \<times> string) list \<Rightarrow> string" where
  "unsegs gs = concat (map snd gs)"

lemma unsegs_segs [simp]: "unsegs (segs s) = s"
proof (induction s rule: segs.induct)
  case 1
  then show ?case by (simp add: unsegs_def)
next
  case (2 c cs)
  obtain r n where d: "decode_rune c cs = (r, n)" by fastforce
  with 2 have "unsegs (segs (drop (n - 1) cs)) = drop (n - 1) cs" by simp
  with d show ?case by (simp add: unsegs_def)
qed

lemma segs_eq_Nil [simp]: "segs s = [] \<longleftrightarrow> s = []"
  by (cases s) (auto simp: split_beta Let_def)

subsection \<open>Cutting at a rune boundary\<close>

text \<open>
  A prefix or a suffix of a string that starts and ends at rune boundaries decodes to
  the corresponding part of the pieces: UTF-8 pieces do not depend on what follows them.
\<close>

lemma decode_rune_width: "decode_rune c cs = (r, n) \<Longrightarrow> 1 \<le> n \<and> n \<le> Suc (length cs)"
proof -
  have "cont_ok m lo hi cs \<Longrightarrow> lead_info b = Some (m, lo, hi) \<Longrightarrow> m \<le> length cs" for m lo hi b
    by (cases cs; cases "tl cs"; cases "tl (tl cs)")
      (auto simp: cont_ok_def lead_info_def split: if_splits)
  then show "decode_rune c cs = (r, n) \<Longrightarrow> 1 \<le> n \<and> n \<le> Suc (length cs)"
    by (auto simp: decode_rune_def Let_def split: if_splits option.splits)
qed

lemma segs_drop: "drop k (segs s) = segs (unsegs (drop k (segs s)))"
proof (induction s arbitrary: k rule: segs.induct)
  case 1
  then show ?case by (simp add: unsegs_def)
next
  case (2 c cs)
  obtain r n where d: "decode_rune c cs = (r, n)" by fastforce
  show ?case
  proof (cases k)
    case 0
    then show ?thesis by (metis drop0 unsegs_segs)
  next
    case (Suc j)
    with 2 [of _ r n] d show ?thesis by simp
  qed
qed

lemma next_in_append_mono: "next_in lo hi xs \<Longrightarrow> next_in lo hi (xs @ ys)"
  by (cases xs) auto

lemma next_in_take: "0 < k \<Longrightarrow> next_in lo hi (take k xs) = next_in lo hi xs"
  by (cases xs; cases k) auto

lemma cont_ok_take: "n \<le> k \<Longrightarrow> 1 \<le> n \<Longrightarrow> cont_ok n lo hi (take k cs) = cont_ok n lo hi cs"
  by (auto simp: cont_ok_def next_in_take drop_take)

lemma cont_ok_append: "cont_ok n lo hi xs \<Longrightarrow> cont_ok n lo hi (xs @ ys)"
  by (cases xs; cases "tl xs"; cases "tl (tl xs)") (auto simp: cont_ok_def intro: next_in_append_mono)

lemma lead_info_pos: "lead_info b = Some (n, lo, hi) \<Longrightarrow> 1 \<le> n"
  by (auto simp: lead_info_def split: if_splits)

lemma decode_rune_take:
  assumes "decode_rune c cs = (r, n)" and "n \<le> Suc k"
  shows "decode_rune c (take k cs) = (r, n)"
proof (cases "lead_info (code c)")
  case None
  with assms show ?thesis by (simp add: decode_rune_def Let_def split: if_splits)
next
  case (Some x)
  then obtain m lo hi where x: "lead_info (code c) = Some (m, lo, hi)" by (cases x) auto
  show ?thesis
  proof (cases "cont_ok m lo hi cs")
    case True
    with assms x lead_info_pos [OF x] show ?thesis
      by (auto simp: decode_rune_def Let_def cont_ok_take min_def split: if_splits)
  next
    case False
    have "\<not> cont_ok m lo hi (take k cs)"
      using False cont_ok_append [of m lo hi "take k cs" "drop k cs"] by auto
    with assms x False show ?thesis by (simp add: decode_rune_def Let_def split: if_splits)
  qed
qed

lemma segs_take: "take k (segs s) = segs (unsegs (take k (segs s)))"
proof (induction s arbitrary: k rule: segs.induct)
  case 1
  then show ?case by (simp add: unsegs_def)
next
  case (2 c cs)
  obtain r n where d: "decode_rune c cs = (r, n)" by fastforce
  show ?case
  proof (cases k)
    case 0
    then show ?thesis by (simp add: unsegs_def)
  next
    case (Suc j)
    let ?rest = "unsegs (take j (segs (drop (n - 1) cs)))"
    from 2 d have IH: "take j (segs (drop (n - 1) cs)) = segs ?rest" by auto
    have w: "1 \<le> n" "n \<le> Suc (length cs)" using decode_rune_width [OF d] by auto
    have "unsegs (segs (drop (n - 1) cs)) =
        ?rest @ unsegs (drop j (segs (drop (n - 1) cs)))"
      by (metis append_take_drop_id concat_append map_append unsegs_def)
    then obtain ys where ys: "drop (n - 1) cs = ?rest @ ys" by auto
    then have cs: "cs = (take (n - 1) cs @ ?rest) @ ys"
      by (metis append.assoc append_take_drop_id)
    let ?k = "length (take (n - 1) cs @ ?rest)"
    have tk: "take ?k cs = take (n - 1) cs @ ?rest"
      by (metis append_eq_conv_conj cs)
    have "n \<le> Suc ?k" using w by (simp add: min_def)
    with decode_rune_take [OF d] tk have d': "decode_rune c (take (n - 1) cs @ ?rest) = (r, n)"
      by metis
    have t: "take (n - 1) (take (n - 1) cs @ ?rest) = take (n - 1) cs"
      and u: "drop (n - 1) (take (n - 1) cs @ ?rest) = ?rest"
      using w by (simp_all add: min_def)
    have "unsegs (take k (segs (c # cs))) = c # take (n - 1) cs @ ?rest"
      using d Suc by (simp add: unsegs_def)
    then have "segs (unsegs (take k (segs (c # cs)))) = (r, c # take (n - 1) cs) # segs ?rest"
      using d' t u by simp
    with d Suc IH show ?thesis by simp
  qed
qed

section \<open>Package strings\<close>

subsection \<open>TrimSpace\<close>

text \<open>\<open>unicode.IsSpace\<close>.\<close>

definition is_space :: "rune \<Rightarrow> bool" where
  "is_space r \<longleftrightarrow> (9 \<le> r \<and> r \<le> 13) \<or> r = 32 \<or> r = 0x85 \<or> r = 0xA0 \<or> r = 0x1680 \<or>
     (0x2000 \<le> r \<and> r \<le> 0x200A) \<or> r = 0x2028 \<or> r = 0x2029 \<or> r = 0x202F \<or> r = 0x205F \<or>
     r = 0x3000"

abbreviation space_seg :: "rune \<times> string \<Rightarrow> bool" where
  "space_seg g \<equiv> is_space (fst g)"

definition trim_space :: "string \<Rightarrow> string" where
  "trim_space s = unsegs (rdropWhile space_seg (dropWhile space_seg (segs s)))"

lemma segs_trim_space:
  "segs (trim_space s) = rdropWhile space_seg (dropWhile space_seg (segs s))"
proof -
  let ?d = "dropWhile space_seg (segs s)"
  obtain k where k: "?d = drop k (segs s)" by (metis dropWhile_eq_drop)
  obtain ys where "?d = rdropWhile space_seg ?d @ ys" using rdropWhile_prefix by blast
  then have r: "rdropWhile space_seg ?d = take (length (rdropWhile space_seg ?d)) ?d"
    by (metis append_eq_conv_conj)
  have "?d = segs (unsegs ?d)" using k segs_drop by metis
  then show ?thesis unfolding trim_space_def using r segs_take by metis
qed

lemma trim_space_idem [simp]: "trim_space (trim_space s) = trim_space s"
proof -
  let ?d = "dropWhile space_seg (segs s)"
  let ?t = "rdropWhile space_seg ?d"
  show ?thesis
  proof (cases "?t = []")
    case True
    then have e: "trim_space s = []" by (simp add: trim_space_def unsegs_def)
    show ?thesis unfolding e by (simp add: trim_space_def unsegs_def)
  next
    case False
    then have "?d \<noteq> []" using rdropWhile_Nil by metis
    then have "\<not> space_seg (hd ?d)" using hd_dropWhile by blast
    with False have "\<not> space_seg (hd ?t)" by (simp add: hd_rdropWhile)
    with False have a: "dropWhile space_seg ?t = ?t" by (rule dropWhile_id)
    have "rdropWhile space_seg ?t = ?t"
      by (rule rdropWhile_id [where P = space_seg]) (use False last_rdropWhile [OF False] in blast)+
    with a have "trim_space (trim_space s) = unsegs (segs (trim_space s))"
      by (simp add: trim_space_def [of "trim_space s"] segs_trim_space)
    then show ?thesis by simp
  qed
qed

lemma trim_space_Nil [simp]: "trim_space [] = []"
  by (simp add: trim_space_def unsegs_def)

lemma rune_count_trim: "rune_count (trim_space s) \<le> rune_count s"
proof -
  have "length (rdropWhile space_seg xs) \<le> length xs" for xs
    by (simp add: rdropWhile_def length_dropWhile_le [THEN le_trans])
  then show ?thesis
    by (simp add: rune_count_def segs_trim_space) (meson le_trans length_dropWhile_le)
qed

text \<open>A string that is empty or all blank; the code's test \<open>TrimSpace(s) == ""\<close>.\<close>

lemma trim_space_empty_iff: "trim_space s = [] \<longleftrightarrow> (\<forall>r \<in> set (runes s). is_space r)"
proof -
  have "trim_space s = [] \<longleftrightarrow> segs (trim_space s) = []" by simp
  also have "\<dots> \<longleftrightarrow> (\<forall>g \<in> set (dropWhile space_seg (segs s)). space_seg g)"
    by (simp only: segs_trim_space rdropWhile_all)
  also have "\<dots> \<longleftrightarrow> (\<forall>g \<in> set (segs s). space_seg g)"
  proof (cases "dropWhile space_seg (segs s) = []")
    case True
    then show ?thesis by (metis dropWhile_eq_Nil_conv list.set(1) empty_iff)
  next
    case False
    then have "hd (dropWhile space_seg (segs s)) \<in> set (dropWhile space_seg (segs s))" by simp
    with False hd_dropWhile [of space_seg "segs s"] set_dropWhileD show ?thesis by metis
  qed
  finally show ?thesis by (simp add: runes_def)
qed

subsection \<open>Index, HasPrefix, SplitN, Join\<close>

definition has_prefix :: "string \<Rightarrow> string \<Rightarrow> bool" where
  "has_prefix s pre \<longleftrightarrow> take (length pre) s = pre"

lemma has_prefix_append [simp]: "has_prefix (pre @ s) pre"
  by (simp add: has_prefix_def)

text \<open>\<open>strings.Index\<close>: the first byte position of a substring; \<open>None\<close> is Go's -1.\<close>

fun str_index :: "string \<Rightarrow> string \<Rightarrow> nat option" where
  "str_index s sub =
     (if has_prefix s sub then Some 0
      else case s of [] \<Rightarrow> None | _ # cs \<Rightarrow> map_option Suc (str_index cs sub))"

declare str_index.simps [simp del]

lemma str_index_Some:
  "str_index s sub = Some i \<Longrightarrow> has_prefix (drop i s) sub \<and> (\<forall>j < i. \<not> has_prefix (drop j s) sub)"
proof (induction s sub arbitrary: i rule: str_index.induct)
  case (1 s sub)
  show ?case
  proof (cases "has_prefix s sub")
    case True
    with "1.prems" show ?thesis by (simp add: str_index.simps)
  next
    case False
    with "1.prems" obtain c cs k
      where s: "s = c # cs" and k: "str_index cs sub = Some k" "i = Suc k"
      by (auto simp: str_index.simps [of s] split: list.splits)
    from "1.IH" [OF False s k(1)] k(2) False s show ?thesis
      by (auto simp: less_Suc_eq_0_disj)
  qed
qed

lemma str_index_None: "str_index s sub = None \<longleftrightarrow> (\<forall>j \<le> length s. \<not> has_prefix (drop j s) sub)"
proof (induction s)
  case Nil
  then show ?case by (simp add: str_index.simps)
next
  case (Cons c cs)
  have "(\<forall>j \<le> length (c # cs). \<not> has_prefix (drop j (c # cs)) sub) \<longleftrightarrow>
      \<not> has_prefix (c # cs) sub \<and> (\<forall>j \<le> length cs. \<not> has_prefix (drop j cs) sub)"
    by (metis Suc_le_mono drop0 drop_Suc_Cons length_Cons le0 not0_implies_Suc)
  with Cons show ?case by (simp add: str_index.simps [of "c # cs"])
qed

text \<open>\<open>strings.SplitN\<close> for a one-byte separator and \<open>n > 0\<close>.\<close>

fun split_n :: "nat \<Rightarrow> char \<Rightarrow> string \<Rightarrow> string list" where
  "split_n 0 sep s = []"
| "split_n (Suc 0) sep s = [s]"
| "split_n (Suc (Suc n)) sep s =
     (if sep \<in> set s
      then takeWhile (\<lambda>c. c \<noteq> sep) s # split_n (Suc n) sep (tl (dropWhile (\<lambda>c. c \<noteq> sep) s))
      else [s])"

lemma takeWhile_sep: "sep \<notin> set a \<Longrightarrow> takeWhile (\<lambda>c. c \<noteq> sep) (a @ sep # b) = a"
  by (induction a) auto

lemma dropWhile_sep: "sep \<notin> set a \<Longrightarrow> dropWhile (\<lambda>c. c \<noteq> sep) (a @ sep # b) = sep # b"
  by (induction a) auto

lemma split_n_cut:
  "sep \<notin> set a \<Longrightarrow> split_n (Suc (Suc n)) sep (a @ sep # b) = a # split_n (Suc n) sep b"
  by (simp add: takeWhile_sep dropWhile_sep)

lemma length_split_n: "length (split_n n sep s) \<le> n"
  by (induction n sep s rule: split_n.induct) auto

fun join :: "string \<Rightarrow> string list \<Rightarrow> string" where
  "join sep [] = []"
| "join sep [x] = x"
| "join sep (x # y # ys) = x @ sep @ join sep (y # ys)"

lemma join_split_n: "0 < n \<Longrightarrow> join [sep] (split_n n sep s) = s"
proof (induction n sep s rule: split_n.induct)
  case (3 n sep s)
  show ?case
  proof (cases "sep \<in> set s")
    case True
    let ?r = "tl (dropWhile (\<lambda>c. c \<noteq> sep) s)"
    from True have ne: "dropWhile (\<lambda>c. c \<noteq> sep) s \<noteq> []"
      by (auto simp: dropWhile_eq_Nil_conv)
    then have d: "dropWhile (\<lambda>c. c \<noteq> sep) s = sep # ?r"
      using hd_dropWhile [OF ne] by (metis list.collapse)
    have "split_n (Suc n) sep ?r \<noteq> []" by (cases n) auto
    then obtain y ys where y: "split_n (Suc n) sep ?r = y # ys" by (meson neq_Nil_conv)
    with "3.IH" True have "join [sep] (y # ys) = ?r" by simp
    with True y have "join [sep] (split_n (Suc (Suc n)) sep s) =
        takeWhile (\<lambda>c. c \<noteq> sep) s @ sep # ?r" by simp
    also have "\<dots> = s" using d by (metis takeWhile_dropWhile_id)
    finally show ?thesis .
  qed simp
qed simp_all

section \<open>Decimal numbers\<close>

definition digit :: "nat \<Rightarrow> char" where
  "digit d = chr (48 + d)"

definition undigit :: "char \<Rightarrow> nat" where
  "undigit c = code c - 48"

definition is_digit :: "char \<Rightarrow> bool" where
  "is_digit c \<longleftrightarrow> 48 \<le> code c \<and> code c \<le> 57"

lemma digit_simps [simp]:
  "d < 10 \<Longrightarrow> undigit (digit d) = d" "d < 10 \<Longrightarrow> is_digit (digit d)"
  by (simp_all add: digit_def undigit_def is_digit_def)

fun show_nat :: "nat \<Rightarrow> string" where
  "show_nat n = (if n < 10 then [digit n] else show_nat (n div 10) @ [digit (n mod 10)])"

declare show_nat.simps [simp del]

definition parse_nat :: "string \<Rightarrow> nat" where
  "parse_nat s = foldl (\<lambda>acc c. acc * 10 + undigit c) 0 s"

lemma parse_nat_snoc [simp]: "parse_nat (s @ [c]) = parse_nat s * 10 + undigit c"
  by (simp add: parse_nat_def)

lemma parse_show_nat [simp]: "parse_nat (show_nat n) = n"
proof (induction n rule: show_nat.induct)
  case (1 n)
  then show ?case
    by (cases "n < 10") (simp_all add: show_nat.simps [of n], simp add: parse_nat_def)
qed

lemma show_nat_digits: "c \<in> set (show_nat n) \<Longrightarrow> is_digit c"
proof (induction n rule: show_nat.induct)
  case (1 n)
  then show ?case by (cases "n < 10") (auto simp: show_nat.simps [of n])
qed

lemma show_nat_inject [simp]: "show_nat m = show_nat n \<longleftrightarrow> m = n"
  by (metis parse_show_nat)

lemma length_show_nat: "n < 10 ^ k \<Longrightarrow> 0 < k \<Longrightarrow> length (show_nat n) \<le> k"
proof (induction n arbitrary: k rule: show_nat.induct)
  case (1 n)
  show ?case
  proof (cases "n < 10")
    case True
    with 1 show ?thesis by (simp add: show_nat.simps [of n])
  next
    case False
    with "1.prems" obtain j where j: "k = Suc j" "0 < j" by (cases k; cases "k - 1") auto
    with "1.prems" have "n div 10 < 10 ^ j" by (simp add: less_mult_imp_div_less mult.commute)
    with "1.IH" False j show ?thesis by (simp add: show_nat.simps [of n])
  qed
qed

text \<open>\<open>fmt\<close>'s \<open>%0wd\<close> for a natural number.\<close>

definition pad_nat :: "nat \<Rightarrow> nat \<Rightarrow> string" where
  "pad_nat w n = (let s = show_nat n in replicate (w - length s) (digit 0) @ s)"

lemma parse_nat_zeros: "parse_nat (replicate k (digit 0) @ s) = parse_nat s"
proof -
  have "foldl (\<lambda>acc c. acc * 10 + undigit c) 0 (replicate k (digit 0)) = 0"
    by (induction k) simp_all
  then show ?thesis by (simp add: parse_nat_def)
qed

lemma parse_pad_nat [simp]: "parse_nat (pad_nat w n) = n"
  by (simp add: pad_nat_def Let_def parse_nat_zeros)

lemma pad_nat_inject [simp]: "pad_nat w m = pad_nat w n \<longleftrightarrow> m = n"
  by (metis parse_pad_nat)

lemma pad_nat_digits: "c \<in> set (pad_nat w n) \<Longrightarrow> is_digit c"
  by (auto simp: pad_nat_def Let_def dest: show_nat_digits)

lemma length_pad_nat: "n < 10 ^ w \<Longrightarrow> 0 < w \<Longrightarrow> length (pad_nat w n) = w"
  using length_show_nat [of n w] by (simp add: pad_nat_def Let_def)

section \<open>Literals outside ASCII\<close>

text \<open>The UTF-8 bytes of a code point; \<open>utf8\<close> writes the literals of the source.\<close>

definition utf8_char :: "nat \<Rightarrow> string" where
  "utf8_char r =
     (if r < 0x80 then [chr r]
      else if r < 0x800 then [chr (0xC0 + r div 64), chr (0x80 + r mod 64)]
      else if r < 0x10000 then
        [chr (0xE0 + r div 4096), chr (0x80 + r div 64 mod 64), chr (0x80 + r mod 64)]
      else [chr (0xF0 + r div 262144), chr (0x80 + r div 4096 mod 64), chr (0x80 + r div 64 mod 64),
        chr (0x80 + r mod 64)])"

definition utf8 :: "nat list \<Rightarrow> string" where
  "utf8 rs = concat (map utf8_char rs)"

section \<open>Plain words\<close>

text \<open>Printable ASCII without spaces: what identifiers, hexadecimal digests and dates are made of.\<close>

definition printable :: "string \<Rightarrow> bool" where
  "printable s = list_all (\<lambda>c. 33 \<le> code c \<and> code c < 127) s"

lemma printable_simps [simp]:
  "printable []" "printable (c # s) \<longleftrightarrow> 33 \<le> code c \<and> code c < 127 \<and> printable s"
  "printable (s @ t) \<longleftrightarrow> printable s \<and> printable t"
  by (simp_all add: printable_def)

lemma segs_printable: "printable s \<Longrightarrow> segs s = map (\<lambda>c. (code c, [c])) s"
  by (induction s) (simp_all add: decode_rune_def)

lemma trim_printable: "printable s \<Longrightarrow> trim_space s = s"
proof -
  assume p: "printable s"
  have ns: "\<not> is_space (fst g)" if "g \<in> set (segs s)" for g
    using p that by (auto simp: segs_printable printable_def list_all_iff is_space_def)
  have "dropWhile (\<lambda>g. is_space (fst g)) (segs s) = segs s"
    using ns by (cases "segs s") auto
  moreover have "rdropWhile (\<lambda>g. is_space (fst g)) (segs s) = segs s"
  proof (cases "segs s = []")
    case False
    then show ?thesis using ns [OF last_in_set [OF False]] by (intro rdropWhile_id) simp_all
  qed simp
  ultimately show ?thesis by (simp add: trim_space_def)
qed

lemma rune_count_printable: "printable s \<Longrightarrow> rune_count s = length s"
  by (simp add: rune_count_def segs_printable)

end
