(* ===== verification/Go_Time.thy ===== *)
theory Go_Time
  imports Go_Strings
begin

text \<open>
  Instants and Beijing dates. A Go \<open>time.Time\<close> is its number of nanoseconds since the
  Unix epoch (its location only selects how it is printed). The program reads dates in the
  fixed zone \<open>Asia/Shanghai\<close>, eight hours ahead of UTC with no daylight saving
  (\<open>time.FixedZone\<close>), so a Beijing date is a day number, and \<open>AddDate\<close> with days
  moves it by whole days. The civil calendar is the proleptic Gregorian one, as in Go.
\<close>

type_synonym time = int
type_synonym day = int

section \<open>Days of the fixed zone\<close>

definition second :: int where
  "second = 1000000000"

definition day_length :: int where
  "day_length = 86400 * second"

definition beijing_offset :: int where
  "beijing_offset = 8 * 60 * 60 * second"

text \<open>\<open>conversation.BeijingDate\<close>, as the number of its day.\<close>

definition beijing_day :: "time \<Rightarrow> day" where
  "beijing_day t = (t + beijing_offset) div day_length"

text \<open>The instant a Beijing date stands for: its midnight in the zone.\<close>

definition day_start :: "day \<Rightarrow> time" where
  "day_start d = d * day_length - beijing_offset"

text \<open>\<open>Time.Unix\<close>, in seconds.\<close>

definition unix :: "time \<Rightarrow> int" where
  "unix t = t div second"

lemma beijing_day_bounds: "day_start (beijing_day t) \<le> t \<and> t < day_start (beijing_day t + 1)"
proof -
  let ?a = "t + beijing_offset"
  have "0 \<le> ?a mod day_length" "?a mod day_length < day_length"
    by (simp_all add: day_length_def second_def)
  moreover have "?a = ?a div day_length * day_length + ?a mod day_length" by simp
  moreover have "(?a div day_length + 1) * day_length = ?a div day_length * day_length + day_length"
    by (simp add: distrib_right)
  ultimately show ?thesis unfolding day_start_def beijing_day_def by linarith
qed

lemma beijing_day_start [simp]: "beijing_day (day_start d) = d"
  by (simp add: beijing_day_def day_start_def day_length_def second_def)

lemma beijing_day_unique:
  assumes "day_start d \<le> t" and "t < day_start (d + 1)"
  shows "beijing_day t = d"
proof -
  let ?r = "t + beijing_offset - d * day_length"
  have "0 \<le> ?r" "?r < day_length"
    using assms by (simp_all add: day_start_def algebra_simps)
  then show ?thesis
    unfolding beijing_day_def by (intro int_div_pos_eq [of _ _ _ ?r]) simp_all
qed

lemma beijing_day_mono: "t \<le> u \<Longrightarrow> beijing_day t \<le> beijing_day u"
  by (simp add: beijing_day_def zdiv_mono1 day_length_def second_def)

section \<open>Civil dates\<close>

text \<open>
  Day number to year, month and day. Days are counted from 1 March of year 0, so that the
  leap day ends a year: a cycle of 400 years has 146097 days, a century of it 36524 (the
  fourth one day more), four years 1461 (the last of a century one day less).
\<close>

definition cycle_year :: "int \<Rightarrow> int" where
  "cycle_year e =
     (let c = min 3 (e div 36524); r = e - 36524 * c; q = r div 1461; s = r - 1461 * q
      in 100 * c + 4 * q + min 3 (s div 365))"

definition year_start :: "int \<Rightarrow> int" where
  "year_start y = 36524 * (y div 100) + 1461 * ((y mod 100) div 4) + 365 * ((y mod 100) mod 4)"

record civil =
  cyear :: int
  cmonth :: int
  cday :: int

definition civil_of_day :: "day \<Rightarrow> civil" where
  "civil_of_day n =
     (let z = n + 719468; era = z div 146097; e = z mod 146097;
          y = cycle_year e; doy = e - year_start y; mp = (5 * doy + 2) div 153;
          d = doy - (153 * mp + 2) div 5 + 1; m = (if mp < 10 then mp + 3 else mp - 9)
      in \<lparr>cyear = y + era * 400 + (if m \<le> 2 then 1 else 0), cmonth = m, cday = d\<rparr>)"

definition day_of_civil :: "civil \<Rightarrow> day" where
  "day_of_civil c =
     (let y = cyear c - (if cmonth c \<le> 2 then 1 else 0); era = y div 400; yoe = y mod 400;
          mp = (if 2 < cmonth c then cmonth c - 3 else cmonth c + 9);
          doy = (153 * mp + 2) div 5 + cday c - 1
      in era * 146097 + year_start yoe + doy - 719468)"


subsection \<open>The two conversions are inverse\<close>

lemma div_bounds:
  assumes "0 < (k::int)"
  shows "k * (x div k) \<le> x" and "x < k * (x div k) + k"
proof -
  have "x = k * (x div k) + x mod k" by simp
  moreover have "0 \<le> x mod k" "x mod k < k" using assms by simp_all
  ultimately show "k * (x div k) \<le> x" "x < k * (x div k) + k" by linarith+
qed

lemma year_start_split:
  assumes "0 \<le> c" "0 \<le> q" "q \<le> 24" "0 \<le> n" "n \<le> 3"
  shows "year_start (100 * c + 4 * q + n) = 36524 * c + 1461 * q + 365 * n"
proof -
  have "(100 * c + 4 * q + n) div 100 = c" "(100 * c + 4 * q + n) mod 100 = 4 * q + n"
    using assms by (auto intro!: int_div_pos_eq [of _ _ _ "4 * q + n"] int_mod_pos_eq [of _ _ c])
  moreover have "(4 * q + n) div 4 = q" "(4 * q + n) mod 4 = n"
    using assms by (auto intro!: int_div_pos_eq [of _ _ _ n] int_mod_pos_eq [of _ _ q])
  ultimately show ?thesis by (simp add: year_start_def)
qed

lemma min3_cut:
  assumes "0 < (k::int)" "0 \<le> x" "x < 4 * k + j" "0 \<le> j" "j \<le> 1"
  shows "0 \<le> min 3 (x div k)" and "min 3 (x div k) \<le> 3" and "0 \<le> x - k * min 3 (x div k)"
    and "x - k * min 3 (x div k) < k + j"
    and "k \<le> x - k * min 3 (x div k) \<Longrightarrow> min 3 (x div k) = 3"
proof -
  let ?a = "x div k"
  have a: "k * ?a \<le> x" "x < k * ?a + k" using div_bounds [OF assms(1)] by auto
  have "0 \<le> ?a" using assms(1,2) by (simp add: pos_imp_zdiv_nonneg_iff)
  then show "0 \<le> min 3 ?a" "min 3 ?a \<le> 3" by simp_all
  show "0 \<le> x - k * min 3 ?a" "x - k * min 3 ?a < k + j"
    "k \<le> x - k * min 3 ?a \<Longrightarrow> min 3 ?a = 3"
  proof (atomize (full), cases "?a \<le> 3")
    case True
    then show "0 \<le> x - k * min 3 ?a \<and> x - k * min 3 ?a < k + j \<and>
        (k \<le> x - k * min 3 ?a \<longrightarrow> min 3 ?a = 3)"
      using a assms(4) by (simp add: min_def)
  next
    case False
    then have "k * 4 \<le> k * ?a" using assms(1) by (intro mult_left_mono) auto
    then have "k * 4 \<le> x" using a by linarith
    with False show "0 \<le> x - k * min 3 ?a \<and> x - k * min 3 ?a < k + j \<and>
        (k \<le> x - k * min 3 ?a \<longrightarrow> min 3 ?a = 3)"
      using assms by (simp add: min_def)
  qed
qed

text \<open>A day of the cycle, decomposed into century, four years, year and day of the year.\<close>

lemma cycle_split:
  assumes "0 \<le> e" "e < 146097"
  obtains c q n d where "cycle_year e = 100 * c + 4 * q + n"
    and "e = 36524 * c + 1461 * q + 365 * n + d"
    and "0 \<le> c" "c \<le> 3" "0 \<le> q" "q \<le> 24" "0 \<le> n" "n \<le> 3" "0 \<le> d" "d \<le> 365"
    and "d = 365 \<Longrightarrow> n = 3" and "1461 * q + 365 * n + d = 36524 \<Longrightarrow> c = 3"
proof -
  define c where "c = min 3 (e div 36524)"
  define r where "r = e - 36524 * c"
  define q where "q = r div 1461"
  define s where "s = r - 1461 * q"
  define n where "n = min 3 (s div 365)"
  have c: "0 \<le> c" "c \<le> 3" "0 \<le> r" "r \<le> 36524" "r = 36524 \<Longrightarrow> c = 3"
    using min3_cut [of 36524 e 1] assms unfolding r_def c_def by auto
  have "1461 * q \<le> r" "r < 1461 * q + 1461" using div_bounds [of 1461 r] by (simp_all add: q_def)
  then have q: "0 \<le> q" "q \<le> 24" "0 \<le> s" "s \<le> 1460" using c(3,4) unfolding s_def by linarith+
  have n: "0 \<le> n" "n \<le> 3" "0 \<le> s - 365 * n" "s - 365 * n \<le> 365" "s - 365 * n = 365 \<Longrightarrow> n = 3"
    using min3_cut [of 365 s 1] q unfolding n_def by auto
  show thesis
  proof (rule that [of c q n "s - 365 * n"])
    show "cycle_year e = 100 * c + 4 * q + n"
      unfolding cycle_year_def Let_def n_def s_def q_def r_def c_def by simp
    show "e = 36524 * c + 1461 * q + 365 * n + (s - 365 * n)" by (simp add: s_def r_def)
    show "1461 * q + 365 * n + (s - 365 * n) = 36524 \<Longrightarrow> c = 3"
      using c(5) by (simp add: s_def)
  qed (use c q n in auto)
qed

text \<open>A day of the cycle lies in its year: at most 365 days after the year's first.\<close>

lemma cycle_year_bounds:
  assumes "0 \<le> e" "e < 146097"
  shows "0 \<le> cycle_year e \<and> cycle_year e < 400 \<and> year_start (cycle_year e) \<le> e \<and>
    e - year_start (cycle_year e) \<le> 365"
  using assms by (rule cycle_split) (simp add: year_start_split)

lemma month_cut:
  defines "mp \<equiv> \<lambda>doy::int. (5 * doy + 2) div 153"
  shows "153 * mp doy \<le> 5 * doy + 2" and "5 * doy + 2 < 153 * mp doy + 153"
    and "5 * ((153 * mp doy + 2) div 5) \<le> 153 * mp doy + 2"
    and "153 * mp doy + 2 < 5 * ((153 * mp doy + 2) div 5) + 5"
  unfolding mp_def by (rule div_bounds, simp)+

lemma month_bounds:
  assumes "0 \<le> doy" "doy \<le> (365::int)"
  shows "0 \<le> (5 * doy + 2) div 153 \<and> (5 * doy + 2) div 153 \<le> 11"
    and "0 \<le> doy - (153 * ((5 * doy + 2) div 153) + 2) div 5"
    and "doy - (153 * ((5 * doy + 2) div 153) + 2) div 5 \<le> 30"
  using assms month_cut [of doy] by linarith+

lemma civil_fields:
  "1 \<le> cmonth (civil_of_day n) \<and> cmonth (civil_of_day n) \<le> 12 \<and>
   1 \<le> cday (civil_of_day n) \<and> cday (civil_of_day n) \<le> 31"
proof -
  define e where "e = (n + 719468) mod 146097"
  define doy where "doy = e - year_start (cycle_year e)"
  have "0 \<le> e" "e < 146097" by (simp_all add: e_def)
  then have "0 \<le> doy" "doy \<le> 365" using cycle_year_bounds [of e] by (auto simp: doy_def)
  from month_bounds [OF this] show ?thesis
    unfolding civil_of_day_def Let_def
    by (simp add: e_def [symmetric] doy_def [symmetric] del: One_nat_def)
qed

theorem day_of_civil_of_day [simp]: "day_of_civil (civil_of_day n) = n"
proof -
  define z where "z = n + 719468"
  define e where "e = z mod 146097"
  define y where "y = cycle_year e"
  define doy where "doy = e - year_start y"
  define mp where "mp = (5 * doy + 2) div 153"
  define m where "m = (if mp < 10 then mp + 3 else mp - 9)"
  have "0 \<le> e" "e < 146097" by (simp_all add: e_def)
  then have y: "0 \<le> y" "y < 400" and "0 \<le> doy" "doy \<le> 365"
    using cycle_year_bounds [of e] by (auto simp: doy_def y_def)
  from month_bounds(1) [OF this(3,4)] have mp: "0 \<le> mp" "mp \<le> 11" by (auto simp: mp_def)
  have era: "y div 400 = 0" "y mod 400 = y"
    using y by simp_all
  have mpm: "(if 2 < m then m - 3 else m + 9) = mp"
    using mp by (auto simp: m_def)
  have c: "civil_of_day n = \<lparr>cyear = y + z div 146097 * 400 + (if m \<le> 2 then 1 else 0),
      cmonth = m, cday = doy - (153 * mp + 2) div 5 + 1\<rparr>"
    unfolding civil_of_day_def Let_def m_def mp_def doy_def y_def e_def z_def by simp
  have "day_of_civil (civil_of_day n) = z div 146097 * 146097 + (year_start y + doy) - 719468"
    unfolding c day_of_civil_def mpm [symmetric] by (simp add: Let_def era)
  also have "\<dots> = n" by (simp add: doy_def e_def z_def)
  finally show ?thesis .
qed

lemma civil_of_day_inject [simp]: "civil_of_day m = civil_of_day n \<longleftrightarrow> m = n"
  by (metis day_of_civil_of_day)

section \<open>Printing and reading dates\<close>

definition is_leap :: "int \<Rightarrow> bool" where
  "is_leap y \<longleftrightarrow> y mod 4 = 0 \<and> (y mod 100 \<noteq> 0 \<or> y mod 400 = 0)"

definition days_in :: "int \<Rightarrow> int \<Rightarrow> int" where
  "days_in m y =
     (if m = 2 then (if is_leap y then 29 else 28)
      else if m = 4 \<or> m = 6 \<or> m = 9 \<or> m = 11 then 30 else 31)"

lemma leap_day:
  assumes "0 \<le> e" "e < 146097" "e - year_start (cycle_year e) = 365"
  shows "is_leap (cycle_year e + 1 + 400 * k)"
proof -
  from assms(1,2) obtain c q n d where y: "cycle_year e = 100 * c + 4 * q + n"
    and e: "e = 36524 * c + 1461 * q + 365 * n + d"
    and b: "0 \<le> c" "c \<le> 3" "0 \<le> q" "q \<le> 24" "0 \<le> n" "n \<le> 3" "0 \<le> d" "d \<le> 365"
    and last: "d = 365 \<Longrightarrow> n = 3" "1461 * q + 365 * n + d = 36524 \<Longrightarrow> c = 3"
    using cycle_split by metis
  have "year_start (cycle_year e) = 36524 * c + 1461 * q + 365 * n"
    unfolding y using b by (intro year_start_split)
  then have "d = 365" using assms(3) e by linarith
  then have n: "n = 3" using last(1) by simp
  have "q \<le> 23 \<or> c = 3 \<and> q = 24" using \<open>d = 365\<close> n last(2) b(4) by force
  moreover have "cycle_year e + 1 + 400 * k = (25 * c + q + 1 + 100 * k) * 4"
    by (simp add: y n)
  then have "(cycle_year e + 1 + 400 * k) mod 4 = 0" by (metis mod_mult_self2_is_0)
  moreover have "cycle_year e + 1 + 400 * k = (4 * q + 4) + (c + 4 * k) * 100"
    by (simp add: y n)
  then have "(cycle_year e + 1 + 400 * k) mod 100 = (4 * q + 4) mod 100"
    by (metis mod_mult_self1)
  moreover have "c = 3 \<and> q = 24 \<Longrightarrow> (cycle_year e + 1 + 400 * k) mod 400 = 0" by (simp add: y n)
  moreover have "q \<le> 23 \<Longrightarrow> (4 * q + 4) mod 100 \<noteq> 0" using b(3) by simp
  ultimately show ?thesis unfolding is_leap_def by metis
qed

lemma month_length:
  assumes "0 \<le> doy" "doy \<le> (365::int)" and "mp = (5 * doy + 2) div 153"
  shows "mp \<in> {0, 2, 4, 5, 7, 9, 10} \<Longrightarrow> doy - (153 * mp + 2) div 5 \<le> 30"
    and "mp \<in> {1, 3, 6, 8} \<Longrightarrow> doy - (153 * mp + 2) div 5 \<le> 29"
    and "mp = 11 \<Longrightarrow> doy - (153 * mp + 2) div 5 = doy - 337"
proof -
  have "5 * doy + 2 < 153 * mp + 153" using month_cut [of doy] assms(3) by simp
  then show "mp \<in> {0, 2, 4, 5, 7, 9, 10} \<Longrightarrow> doy - (153 * mp + 2) div 5 \<le> 30"
    "mp \<in> {1, 3, 6, 8} \<Longrightarrow> doy - (153 * mp + 2) div 5 \<le> 29"
    "mp = 11 \<Longrightarrow> doy - (153 * mp + 2) div 5 = doy - 337"
    by auto
qed

lemma civil_day_in_month:
  "cday (civil_of_day n) \<le> days_in (cmonth (civil_of_day n)) (cyear (civil_of_day n))"
proof -
  define z where "z = n + 719468"
  define e where "e = z mod 146097"
  define y where "y = cycle_year e"
  define doy where "doy = e - year_start y"
  define mp where "mp = (5 * doy + 2) div 153"
  define m where "m = (if mp < 10 then mp + 3 else mp - 9)"
  have e: "0 \<le> e" "e < 146097" by (simp_all add: e_def)
  then have d: "0 \<le> doy" "doy \<le> 365"
    using cycle_year_bounds [of e] by (auto simp: doy_def y_def)
  from month_bounds(1) [OF this] have mp: "0 \<le> mp" "mp \<le> 11" by (auto simp: mp_def)
  have c: "civil_of_day n = \<lparr>cyear = y + z div 146097 * 400 + (if m \<le> 2 then 1 else 0),
      cmonth = m, cday = doy - (153 * mp + 2) div 5 + 1\<rparr>"
    unfolding civil_of_day_def Let_def m_def mp_def doy_def y_def e_def z_def by simp
  consider "mp \<in> {0, 2, 4, 5, 7, 9, 10}" | "mp \<in> {1, 3, 6, 8}" | "mp = 11"
  proof -
    have "mp = 0 \<or> mp = 1 \<or> mp = 2 \<or> mp = 3 \<or> mp = 4 \<or> mp = 5 \<or> mp = 6 \<or> mp = 7 \<or>
        mp = 8 \<or> mp = 9 \<or> mp = 10 \<or> mp = 11"
      using mp by presburger
    then show thesis using that by blast
  qed
  then show ?thesis
  proof cases
    case 1
    with month_length(1) [OF d mp_def] show ?thesis unfolding c by (auto simp: days_in_def m_def)
  next
    case 2
    with month_length(2) [OF d mp_def] show ?thesis unfolding c by (auto simp: days_in_def m_def)
  next
    case 3
    have "doy = 365 \<Longrightarrow> is_leap (y + z div 146097 * 400 + 1)"
      using leap_day [OF e, of "z div 146097"] by (simp add: doy_def y_def algebra_simps)
    with 3 d show ?thesis unfolding c by (cases "doy = 365") (auto simp: days_in_def m_def)
  qed
qed

text \<open>\<open>Format("2006-01-02")\<close>.\<close>

definition fmt_date :: "day \<Rightarrow> string" where
  "fmt_date n =
     (let c = civil_of_day n in
      (if cyear c < 0 then ''-'' @ pad_nat 4 (nat (- cyear c)) else pad_nat 4 (nat (cyear c))) @
      ''-'' @ pad_nat 2 (nat (cmonth c)) @ ''-'' @ pad_nat 2 (nat (cday c)))"

text \<open>\<open>time.ParseInLocation("2006-01-02", value, beijingLocation)\<close>.\<close>

definition parse_date :: "string \<Rightarrow> day option" where
  "parse_date s =
     (if length s = 10 \<and> list_all is_digit (take 4 s) \<and> s ! 4 = CHR ''-'' \<and>
         list_all is_digit (take 2 (drop 5 s)) \<and> s ! 7 = CHR ''-'' \<and>
         list_all is_digit (drop 8 s)
      then let y = int (parse_nat (take 4 s)); m = int (parse_nat (take 2 (drop 5 s)));
               d = int (parse_nat (drop 8 s))
           in if 1 \<le> m \<and> m \<le> 12 \<and> 1 \<le> d \<and> d \<le> days_in m y
              then Some (day_of_civil \<lparr>cyear = y, cmonth = m, cday = d\<rparr>) else None
      else None)"

text \<open>Dates with a four-digit year, the ones the layout can express.\<close>

definition layout_day :: "day \<Rightarrow> bool" where
  "layout_day n \<longleftrightarrow> 0 \<le> cyear (civil_of_day n) \<and> cyear (civil_of_day n) < 10000"

lemma fmt_date_split:
  assumes "layout_day n"
  defines "c \<equiv> civil_of_day n"
  shows "fmt_date n = pad_nat 4 (nat (cyear c)) @ ''-'' @ pad_nat 2 (nat (cmonth c)) @ ''-'' @
      pad_nat 2 (nat (cday c))"
    and "length (pad_nat 4 (nat (cyear c))) = 4" and "length (pad_nat 2 (nat (cmonth c))) = 2"
    and "length (pad_nat 2 (nat (cday c))) = 2"
proof -
  have f: "0 \<le> cyear c" "cyear c < 10000" "1 \<le> cmonth c" "cmonth c \<le> 12" "1 \<le> cday c" "cday c \<le> 31"
    using assms civil_fields [of n] by (auto simp: layout_day_def)
  then show "fmt_date n = pad_nat 4 (nat (cyear c)) @ ''-'' @ pad_nat 2 (nat (cmonth c)) @ ''-'' @
      pad_nat 2 (nat (cday c))"
    by (simp add: fmt_date_def Let_def c_def)
  show "length (pad_nat 4 (nat (cyear c))) = 4" "length (pad_nat 2 (nat (cmonth c))) = 2"
    "length (pad_nat 2 (nat (cday c))) = 2"
    using f by (auto intro!: length_pad_nat)
qed

theorem parse_fmt_date: "layout_day n \<Longrightarrow> parse_date (fmt_date n) = Some n"
proof -
  assume n: "layout_day n"
  let ?c = "civil_of_day n"
  let ?Y = "pad_nat 4 (nat (cyear ?c))" and ?M = "pad_nat 2 (nat (cmonth ?c))"
    and ?D = "pad_nat 2 (nat (cday ?c))"
  note s = fmt_date_split [OF n]
  have f: "fmt_date n = (?Y @ ''-'') @ ?M @ ''-'' @ ?D" using s(1) by simp
  have len: "length (fmt_date n) = 10" using s by simp
  have y: "take 4 (fmt_date n) = ?Y" "fmt_date n ! 4 = CHR ''-''"
    using s by (simp_all add: nth_append)
  have d5: "drop 5 (fmt_date n) = ?M @ ''-'' @ ?D" unfolding f using s by simp
  have m: "take 2 (drop 5 (fmt_date n)) = ?M" using d5 s by simp
  have "fmt_date n ! 7 = drop 5 (fmt_date n) ! 2" using len by simp
  then have m': "fmt_date n ! 7 = CHR ''-''" using d5 s by (simp add: nth_append)
  have "drop 8 (fmt_date n) = drop 3 (drop 5 (fmt_date n))" by simp
  then have d: "drop 8 (fmt_date n) = ?D" using d5 s by simp
  have g: "0 \<le> cyear ?c" "1 \<le> cmonth ?c" "cmonth ?c \<le> 12" "1 \<le> cday ?c"
    using n civil_fields [of n] by (auto simp: layout_day_def)
  have dig: "list_all is_digit (pad_nat w k)" for w k
    using pad_nat_digits by (auto simp: list_all_iff)
  have "day_of_civil \<lparr>cyear = cyear ?c, cmonth = cmonth ?c, cday = cday ?c\<rparr> = n"
    using day_of_civil_of_day [of n] by (cases ?c) simp
  then show ?thesis
    unfolding parse_date_def len y m m' d using g civil_day_in_month [of n]
    by (simp add: dig Let_def)
qed

lemma fmt_date_inject:
  "layout_day m \<Longrightarrow> layout_day n \<Longrightarrow> fmt_date m = fmt_date n \<longleftrightarrow> m = n"
  by (metis option.inject parse_fmt_date)

end
