(* ===== verification/Documents.thy ===== *)
theory Documents
  imports Go_Time
begin

text \<open>
  The data of package \<open>internal/conversation\<close> (\<open>conversation.go\<close>) and the JSON documents
  the services keep in Redis. A Go slice is an option: \<open>None\<close> is the nil slice, which
  \<open>json.Marshal\<close> writes as \<open>null\<close>, while an empty slice is written as \<open>[]\<close>. A JSON
  document is the record of its fields; a field that holds an array is a \<open>jfield\<close>, because
  the Lua scripts decode and re-encode it with cjson, which cannot tell an empty array from
  an empty object.
\<close>

section \<open>Conversations\<close>

record identity =
  id_channel :: string
  id_external :: string

record scope =
  sc_identity :: identity
  sc_conversation :: string

record turn =
  tn_id :: string
  tn_role :: string
  tn_content :: string
  tn_created :: time
  tn_conversation :: string
  tn_speaker_kind :: string
  tn_speaker :: string
  tn_batch :: string
  tn_sequence :: nat
  tn_display :: string
  tn_avatar :: string

type_synonym 'a slice = "'a list option"

definition elems :: "'a slice \<Rightarrow> 'a list" where
  "elems xs = (case xs of None \<Rightarrow> [] | Some ys \<Rightarrow> ys)"

definition append1 :: "'a slice \<Rightarrow> 'a \<Rightarrow> 'a slice" where
  "append1 xs x = Some (elems xs @ [x])"

lemma elems_simps [simp]: "elems None = []" "elems (Some ys) = ys"
  by (simp_all add: elems_def)

lemma elems_append1 [simp]: "elems (append1 xs x) = elems xs @ [x]"
  by (simp add: append1_def)

record batch =
  bt_id :: string
  bt_request :: string
  bt_conversation :: string
  bt_planned :: "string slice"
  bt_user :: turn
  bt_messages :: "turn slice"
  bt_status :: string
  bt_code :: string
  bt_created :: time
  bt_updated :: time

definition role_user :: string where "role_user = ''user''"
definition role_assistant :: string where "role_assistant = ''assistant''"
definition speaker_user :: string where "speaker_user = ''user''"
definition speaker_character :: string where "speaker_character = ''character''"

definition batch_generating :: string where "batch_generating = ''generating''"
definition batch_complete :: string where "batch_complete = ''complete''"
definition batch_partial :: string where "batch_partial = ''partial''"
definition batch_failed :: string where "batch_failed = ''failed''"

lemmas status_defs = batch_generating_def batch_complete_def batch_partial_def batch_failed_def

definition max_external_id :: nat where "max_external_id = 128"
definition default_conversation :: string where "default_conversation = ''direct-haruhi''"

datatype begin_state = BeginStarted | BeginExisting

definition zero_turn :: turn where
  "zero_turn = \<lparr>tn_id = [], tn_role = [], tn_content = [], tn_created = 0, tn_conversation = [],
     tn_speaker_kind = [], tn_speaker = [], tn_batch = [], tn_sequence = 0, tn_display = [],
     tn_avatar = []\<rparr>"

definition zero_batch :: batch where
  "zero_batch = \<lparr>bt_id = [], bt_request = [], bt_conversation = [], bt_planned = None,
     bt_user = zero_turn, bt_messages = None, bt_status = [], bt_code = [], bt_created = 0,
     bt_updated = 0\<rparr>"

text \<open>\<open>IsSupportedChannel\<close>.\<close>

definition is_supported_channel :: "string \<Rightarrow> bool" where
  "is_supported_channel channel \<longleftrightarrow> channel = ''api'' \<or> channel = ''wechat''"

section \<open>JSON documents\<close>

datatype 'a jfield = JAbsent | JNull | JArray "'a list" | JObject

record batch_doc =
  bd_id :: string
  bd_request :: string
  bd_conversation :: string
  bd_planned :: "string jfield"
  bd_user :: turn
  bd_messages :: "turn jfield"
  bd_status :: string
  bd_code :: string
  bd_created :: time
  bd_updated :: time

text \<open>\<open>json.Marshal\<close> of a slice and \<open>json.Unmarshal\<close> into one.\<close>

definition marshal_slice :: "'a slice \<Rightarrow> 'a jfield" where
  "marshal_slice xs = (case xs of None \<Rightarrow> JNull | Some ys \<Rightarrow> JArray ys)"

text \<open>An absent field leaves the slice as it was; an object is a type error.\<close>

fun unmarshal_slice :: "'a slice \<Rightarrow> 'a jfield \<Rightarrow> 'a slice option" where
  "unmarshal_slice old JAbsent = Some old"
| "unmarshal_slice old JNull = Some None"
| "unmarshal_slice old (JArray ys) = Some (Some ys)"
| "unmarshal_slice old JObject = None"

definition marshal_batch :: "batch \<Rightarrow> batch_doc" where
  "marshal_batch b = \<lparr>bd_id = bt_id b, bd_request = bt_request b,
     bd_conversation = bt_conversation b, bd_planned = marshal_slice (bt_planned b),
     bd_user = bt_user b, bd_messages = marshal_slice (bt_messages b), bd_status = bt_status b,
     bd_code = bt_code b, bd_created = bt_created b, bd_updated = bt_updated b\<rparr>"

text \<open>\<open>json.Unmarshal(data, &batch)\<close> into a batch that already has values.\<close>

definition unmarshal_batch :: "batch \<Rightarrow> batch_doc \<Rightarrow> batch option" where
  "unmarshal_batch old d =
     (case (unmarshal_slice (bt_planned old) (bd_planned d),
            unmarshal_slice (bt_messages old) (bd_messages d)) of
        (Some p, Some m) \<Rightarrow>
          Some \<lparr>bt_id = bd_id d, bt_request = bd_request d, bt_conversation = bd_conversation d,
             bt_planned = p, bt_user = bd_user d, bt_messages = m, bt_status = bd_status d,
             bt_code = bd_code d, bt_created = bd_created d, bt_updated = bd_updated d\<rparr>
      | _ \<Rightarrow> None)"

text \<open>
  A type error does not stop \<open>json.Unmarshal\<close>: the field keeps its value, the others are
  read, and the error is reported at the end. The pair is the batch afterwards and success.
\<close>

definition unmarshal_into :: "batch \<Rightarrow> batch_doc \<Rightarrow> batch \<times> bool" where
  "unmarshal_into old d =
     (let p = unmarshal_slice (bt_planned old) (bd_planned d);
          m = unmarshal_slice (bt_messages old) (bd_messages d)
      in (\<lparr>bt_id = bd_id d, bt_request = bd_request d, bt_conversation = bd_conversation d,
           bt_planned = (case p of None \<Rightarrow> bt_planned old | Some x \<Rightarrow> x), bt_user = bd_user d,
           bt_messages = (case m of None \<Rightarrow> bt_messages old | Some x \<Rightarrow> x), bt_status = bd_status d,
           bt_code = bd_code d, bt_created = bd_created d, bt_updated = bd_updated d\<rparr>,
          p \<noteq> None \<and> m \<noteq> None))"

lemma unmarshal_into_batch:
  "unmarshal_batch old d = (case unmarshal_into old d of (b, ok) \<Rightarrow> if ok then Some b else None)"
  by (auto simp: unmarshal_into_def unmarshal_batch_def Let_def split: option.splits)

lemma unmarshal_marshal_slice [simp]: "unmarshal_slice old (marshal_slice xs) = Some xs"
  by (cases xs) (simp_all add: marshal_slice_def)

lemma unmarshal_marshal_batch [simp]: "unmarshal_batch old (marshal_batch b) = Some b"
  by (simp add: unmarshal_batch_def marshal_batch_def)

subsection \<open>The view of cjson\<close>

text \<open>
  The elements Lua sees in a decoded field (\<open>#t\<close> on \<open>cjson.null\<close> is an error, \<open>None\<close>), and
  the field that encoding a table writes: an empty table becomes an object.
\<close>

fun lua_items :: "'a jfield \<Rightarrow> 'a list option" where
  "lua_items JAbsent = Some []"
| "lua_items JNull = None"
| "lua_items (JArray xs) = Some xs"
| "lua_items JObject = Some []"

definition lua_table :: "'a list \<Rightarrow> 'a jfield" where
  "lua_table xs = (if xs = [] then JObject else JArray xs)"

text \<open>A field that a script decodes and encodes without touching it.\<close>

fun lua_relay :: "'a jfield \<Rightarrow> 'a jfield" where
  "lua_relay (JArray xs) = lua_table xs"
| "lua_relay f = f"

definition lua_reencode :: "batch_doc \<Rightarrow> batch_doc" where
  "lua_reencode d = d\<lparr>bd_planned := lua_relay (bd_planned d), bd_messages := lua_relay (bd_messages d)\<rparr>"

text \<open>
  The script idiom \<open>local t = doc[f] or {}; if #t == 0 then doc[f] = nil end\<close>: afterwards the
  field is absent or a non-empty array. \<open>None\<close> is the Lua error on \<open>cjson.null\<close>.
\<close>

definition drop_empty :: "'a jfield \<Rightarrow> 'a jfield option" where
  "drop_empty f = map_option (\<lambda>xs. if xs = [] then JAbsent else JArray xs) (lua_items f)"

text \<open>Fields that Go can decode and whose elements Lua can count.\<close>

definition ok_field :: "'a jfield \<Rightarrow> bool" where
  "ok_field f \<longleftrightarrow> f = JAbsent \<or> (\<exists>xs. f = JArray xs)"

definition field_elems :: "'a jfield \<Rightarrow> 'a list" where
  "field_elems f = (case f of JArray xs \<Rightarrow> xs | _ \<Rightarrow> [])"

lemma field_elems_simps [simp]:
  "field_elems JAbsent = []" "field_elems JNull = []" "field_elems JObject = []"
  "field_elems (JArray xs) = xs"
  by (simp_all add: field_elems_def)

lemma ok_field_items: "ok_field f \<Longrightarrow> lua_items f = Some (field_elems f)"
  by (auto simp: ok_field_def)

lemma ok_field_unmarshal: "ok_field f \<Longrightarrow> \<exists>xs. unmarshal_slice old f = Some xs"
  by (auto simp: ok_field_def)

definition tidy_field :: "'a list \<Rightarrow> 'a jfield" where
  "tidy_field xs = (if xs = [] then JAbsent else JArray xs)"

lemma tidy_field_simps [simp]: "ok_field (tidy_field xs)" "field_elems (tidy_field xs) = xs"
  by (simp_all add: tidy_field_def ok_field_def)

lemma drop_empty_eq: "ok_field f \<Longrightarrow> drop_empty f = Some (tidy_field (field_elems f))"
  by (cases f) (simp_all add: drop_empty_def ok_field_def tidy_field_def)

lemma unmarshal_tidy:
  "unmarshal_slice old (tidy_field xs) = Some (if xs = [] then old else Some xs)"
  by (simp add: tidy_field_def)

end
