(* ===== verification/Redis.thy ===== *)
theory Redis
  imports Documents
begin

text \<open>
  The Redis server, a service outside the repository, as the interface the program uses:
  a record of its commands over an unknown server state \<open>'s\<close>, with the view \<open>r_view\<close> of
  what each key holds and the server clock. The locale \<open>redis_service\<close> states the
  documented effect of each command on the view; nothing else is known of the server. The
  theory ends with a reference server that meets the contract, used to show that the
  hypothesis of the properties can hold.
\<close>

section \<open>Keyspace\<close>

text \<open>
  A value stored by the program: raw text, a decimal integer (what \<open>INCR\<close> and \<open>HINCRBY\<close>
  read and write), or a JSON document.
\<close>

record pending =
  pv_email :: string
  pv_password_hash :: string
  pv_code_hash :: string
  pv_attempts :: nat

datatype blob =
    Raw string | Num int | TurnDoc turn | BatchDoc batch_doc | PendingDoc pending

datatype rval =
    RString blob | RHash "string \<rightharpoonup> blob" | RList "blob list" | RSet "string list"

text \<open>A key holds a value and perhaps the instant (server milliseconds) at which it expires.\<close>

type_synonym keyspace = "string \<rightharpoonup> rval \<times> int option"

definition value_at :: "keyspace \<Rightarrow> string \<Rightarrow> rval option" where
  "value_at ks k = map_option fst (ks k)"

definition deadline :: "keyspace \<Rightarrow> string \<Rightarrow> int option" where
  "deadline ks k = (case ks k of None \<Rightarrow> None | Some (_, d) \<Rightarrow> d)"

definition store :: "string \<Rightarrow> rval \<Rightarrow> keyspace \<Rightarrow> keyspace" where
  "store k v ks = ks(k \<mapsto> (v, deadline ks k))"

definition put :: "string \<Rightarrow> rval \<Rightarrow> int option \<Rightarrow> keyspace \<Rightarrow> keyspace" where
  "put k v d ks = ks(k \<mapsto> (v, d))"

definition drop_key :: "string \<Rightarrow> keyspace \<Rightarrow> keyspace" where
  "drop_key k ks = ks(k := None)"

text \<open>\<open>EXPIRE\<close> and its kin: an instant that is not in the future deletes the key.\<close>

definition expire_key :: "int \<Rightarrow> string \<Rightarrow> int \<Rightarrow> keyspace \<Rightarrow> keyspace" where
  "expire_key now k d ks =
     (case ks k of
        None \<Rightarrow> ks
      | Some (v, _) \<Rightarrow> if d \<le> now then drop_key k ks else ks(k \<mapsto> (v, Some d)))"

text \<open>The keys that are still there at a later instant.\<close>

definition purge :: "int \<Rightarrow> keyspace \<Rightarrow> keyspace" where
  "purge now ks = (\<lambda>k. case ks k of
      None \<Rightarrow> None
    | Some (v, d) \<Rightarrow> (case d of Some t \<Rightarrow> if t \<le> now then None else Some (v, d) | None \<Rightarrow> Some (v, d)))"

text \<open>The passage of time: every key is as it was, or gone.\<close>

definition aged :: "keyspace \<Rightarrow> keyspace \<Rightarrow> bool" where
  "aged ks ks' \<longleftrightarrow> (\<forall>k. ks' k = ks k \<or> ks' k = None)"

lemma aged_refl [simp]: "aged ks ks"
  by (simp add: aged_def)

lemma aged_trans: "aged a b \<Longrightarrow> aged b c \<Longrightarrow> aged a c"
  unfolding aged_def by metis

lemma aged_purge [simp]: "aged ks (purge t ks)"
  by (auto simp: aged_def purge_def split: option.splits)

subsection \<open>Typed reading\<close>

text \<open>A command on a key of another type is an error; a missing key reads as empty.\<close>

definition is_string_key :: "keyspace \<Rightarrow> string \<Rightarrow> bool" where
  "is_string_key ks k = (case value_at ks k of None \<Rightarrow> True | Some (RString _) \<Rightarrow> True | _ \<Rightarrow> False)"

definition is_hash_key :: "keyspace \<Rightarrow> string \<Rightarrow> bool" where
  "is_hash_key ks k = (case value_at ks k of None \<Rightarrow> True | Some (RHash _) \<Rightarrow> True | _ \<Rightarrow> False)"

definition is_list_key :: "keyspace \<Rightarrow> string \<Rightarrow> bool" where
  "is_list_key ks k = (case value_at ks k of None \<Rightarrow> True | Some (RList _) \<Rightarrow> True | _ \<Rightarrow> False)"

definition is_set_key :: "keyspace \<Rightarrow> string \<Rightarrow> bool" where
  "is_set_key ks k = (case value_at ks k of None \<Rightarrow> True | Some (RSet _) \<Rightarrow> True | _ \<Rightarrow> False)"

definition string_of :: "keyspace \<Rightarrow> string \<Rightarrow> blob option" where
  "string_of ks k = (case value_at ks k of Some (RString b) \<Rightarrow> Some b | _ \<Rightarrow> None)"

definition hash_of :: "keyspace \<Rightarrow> string \<Rightarrow> string \<rightharpoonup> blob" where
  "hash_of ks k = (case value_at ks k of Some (RHash h) \<Rightarrow> h | _ \<Rightarrow> Map.empty)"

definition list_of :: "keyspace \<Rightarrow> string \<Rightarrow> blob list" where
  "list_of ks k = (case value_at ks k of Some (RList xs) \<Rightarrow> xs | _ \<Rightarrow> [])"

definition set_of :: "keyspace \<Rightarrow> string \<Rightarrow> string list" where
  "set_of ks k = (case value_at ks k of Some (RSet xs) \<Rightarrow> xs | _ \<Rightarrow> [])"

definition num_of :: "blob option \<Rightarrow> int option" where
  "num_of b = (case b of None \<Rightarrow> Some 0 | Some (Num n) \<Rightarrow> Some n | _ \<Rightarrow> None)"

definition in_int64 :: "int \<Rightarrow> bool" where
  "in_int64 n \<longleftrightarrow> - (2 ^ 63) \<le> n \<and> n < 2 ^ 63"

text \<open>\<open>LRANGE\<close> with its negative indices, counted from the end.\<close>

definition redis_range :: "int \<Rightarrow> int \<Rightarrow> 'a list \<Rightarrow> 'a list" where
  "redis_range start stop xs =
     (let n = int (length xs);
          a = (if start < 0 then max 0 (n + start) else start);
          b = (if stop < 0 then n + stop else min stop (n - 1))
      in if b < a then [] else take (nat (b - a + 1)) (drop (nat a) xs))"

lemma redis_range_all [simp]: "redis_range 0 (- 1) xs = xs"
  by (cases xs) (simp_all add: redis_range_def Let_def nat_add_distrib)

lemma redis_range_last:
  assumes "0 < n"
  shows "redis_range (- int n) (- 1) xs = drop (length xs - n) xs"
proof (cases "xs = []")
  case True
  then show ?thesis by (simp add: redis_range_def)
next
  case False
  define a where "a = max 0 (int (length xs) - int n)"
  have a: "nat a = length xs - n" "a = int (length xs - n)" by (auto simp: a_def)
  have "redis_range (- int n) (- 1) xs = take (nat (int (length xs) - a)) (drop (nat a) xs)"
  proof -
    have "0 < int (length xs)" using False by simp
    then have "\<not> int (length xs) - 1 < a" using assms unfolding a_def by linarith
    then show ?thesis using assms by (simp add: redis_range_def Let_def a_def)
  qed
  also have "\<dots> = drop (length xs - n) xs" unfolding a(1) by (simp add: a(2))
  finally show ?thesis .
qed

definition no_fields :: "(string \<rightharpoonup> blob) \<Rightarrow> bool" where
  [code del]: "no_fields h \<longleftrightarrow> dom h = {}"

subsection \<open>Reading after writing\<close>

lemma value_at_simps [redis_simps]:
  "value_at (store k v ks) k' = (if k' = k then Some v else value_at ks k')"
  "value_at (put k v d ks) k' = (if k' = k then Some v else value_at ks k')"
  "value_at (drop_key k ks) k' = (if k' = k then None else value_at ks k')"
  by (simp_all add: value_at_def store_def put_def drop_key_def)

lemma store_store [redis_simps]: "store k v (store k w ks) = store k v ks"
  by (auto simp: store_def deadline_def)

lemma put_store [redis_simps]: "put k v d (store k w ks) = put k v d ks"
  "put k v d (put k w d' ks) = put k v d ks" "store k v (put k w d ks) = put k v d ks"
  by (auto simp: put_def store_def deadline_def)

lemma drop_store [redis_simps]: "drop_key k (store k w ks) = drop_key k ks"
  "drop_key k (put k w d ks) = drop_key k ks" "drop_key k (drop_key k ks) = drop_key k ks"
  by (auto simp: put_def store_def drop_key_def)

lemma value_at_expire:
  "value_at (expire_key now k d ks) k' = (if k' = k \<and> d \<le> now then None else value_at ks k')"
  by (auto simp: value_at_def expire_key_def drop_key_def split: option.splits)

lemma value_at_expire_live [redis_simps]:
  "now < d \<Longrightarrow> value_at (expire_key now k d ks) k' = value_at ks k'"
  by (simp add: value_at_expire)

lemma deadline_simps [redis_simps]:
  "deadline (store k v ks) k' = deadline ks k'"
  "deadline (put k v d ks) k' = (if k' = k then d else deadline ks k')"
  "deadline (drop_key k ks) k' = (if k' = k then None else deadline ks k')"
  by (auto simp: deadline_def store_def put_def drop_key_def)

lemma deadline_expire [redis_simps]:
  "now < d \<Longrightarrow> deadline (expire_key now k d ks) k' =
     (if k' = k \<and> value_at ks k \<noteq> None then Some d else deadline ks k')"
  by (auto simp: deadline_def value_at_def expire_key_def split: option.splits)

lemma purge_value:
  "value_at (purge now ks) k =
     (case deadline ks k of Some t \<Rightarrow> if t \<le> now then None else value_at ks k | None \<Rightarrow> value_at ks k)"
  by (auto simp: purge_def value_at_def deadline_def split: option.splits)

lemma purge_other: "deadline ks k = None \<Longrightarrow> purge now ks k = ks k"
  by (auto simp: purge_def deadline_def split: option.splits)

text \<open>Typed reading depends on \<open>value_at\<close> only.\<close>

lemmas typed_defs = is_string_key_def is_hash_key_def is_list_key_def is_set_key_def
  string_of_def hash_of_def list_of_def set_of_def

lemma typed_store [redis_simps]:
  "is_string_key (store k v ks) k' = (if k' = k then \<exists>b. v = RString b else is_string_key ks k')"
  "is_hash_key (store k v ks) k' = (if k' = k then \<exists>h. v = RHash h else is_hash_key ks k')"
  "is_list_key (store k v ks) k' = (if k' = k then \<exists>xs. v = RList xs else is_list_key ks k')"
  "is_set_key (store k v ks) k' = (if k' = k then \<exists>A. v = RSet A else is_set_key ks k')"
  by (auto simp: typed_defs value_at_simps split: rval.splits)

lemma typed_put [redis_simps]:
  "is_string_key (put k v d ks) k' = (if k' = k then \<exists>b. v = RString b else is_string_key ks k')"
  "is_hash_key (put k v d ks) k' = (if k' = k then \<exists>h. v = RHash h else is_hash_key ks k')"
  "is_list_key (put k v d ks) k' = (if k' = k then \<exists>xs. v = RList xs else is_list_key ks k')"
  "is_set_key (put k v d ks) k' = (if k' = k then \<exists>A. v = RSet A else is_set_key ks k')"
  by (auto simp: typed_defs value_at_simps split: rval.splits)

lemma typed_drop [redis_simps]:
  "is_string_key (drop_key k ks) k' = (k' = k \<or> is_string_key ks k')"
  "is_hash_key (drop_key k ks) k' = (k' = k \<or> is_hash_key ks k')"
  "is_list_key (drop_key k ks) k' = (k' = k \<or> is_list_key ks k')"
  "is_set_key (drop_key k ks) k' = (k' = k \<or> is_set_key ks k')"
  by (auto simp: typed_defs value_at_simps split: rval.splits)

lemma content_store [redis_simps]:
  "string_of (store k (RString b) ks) k' = (if k' = k then Some b else string_of ks k')"
  "hash_of (store k (RHash h) ks) k' = (if k' = k then h else hash_of ks k')"
  "list_of (store k (RList xs) ks) k' = (if k' = k then xs else list_of ks k')"
  "set_of (store k (RSet A) ks) k' = (if k' = k then A else set_of ks k')"
  by (auto simp: typed_defs value_at_simps)

lemma content_put [redis_simps]:
  "string_of (put k (RString b) d ks) k' = (if k' = k then Some b else string_of ks k')"
  by (auto simp: typed_defs value_at_simps)

lemma content_other [redis_simps]:
  "k' \<noteq> k \<Longrightarrow> string_of (store k v ks) k' = string_of ks k'"
  "k' \<noteq> k \<Longrightarrow> hash_of (store k v ks) k' = hash_of ks k'"
  "k' \<noteq> k \<Longrightarrow> list_of (store k v ks) k' = list_of ks k'"
  "k' \<noteq> k \<Longrightarrow> set_of (store k v ks) k' = set_of ks k'"
  "k' \<noteq> k \<Longrightarrow> string_of (put k v d ks) k' = string_of ks k'"
  "k' \<noteq> k \<Longrightarrow> hash_of (put k v d ks) k' = hash_of ks k'"
  "k' \<noteq> k \<Longrightarrow> list_of (put k v d ks) k' = list_of ks k'"
  "k' \<noteq> k \<Longrightarrow> set_of (put k v d ks) k' = set_of ks k'"
  by (auto simp: typed_defs value_at_simps)

lemma content_drop [redis_simps]:
  "string_of (drop_key k ks) k' = (if k' = k then None else string_of ks k')"
  "hash_of (drop_key k ks) k' = (if k' = k then Map.empty else hash_of ks k')"
  "list_of (drop_key k ks) k' = (if k' = k then [] else list_of ks k')"
  "set_of (drop_key k ks) k' = (if k' = k then [] else set_of ks k')"
  by (auto simp: typed_defs value_at_simps)

lemma typed_expire [redis_simps]:
  assumes "now < d"
  shows "is_string_key (expire_key now k d ks) k' = is_string_key ks k'"
    and "is_hash_key (expire_key now k d ks) k' = is_hash_key ks k'"
    and "is_list_key (expire_key now k d ks) k' = is_list_key ks k'"
    and "is_set_key (expire_key now k d ks) k' = is_set_key ks k'"
    and "string_of (expire_key now k d ks) k' = string_of ks k'"
    and "hash_of (expire_key now k d ks) k' = hash_of ks k'"
    and "list_of (expire_key now k d ks) k' = list_of ks k'"
    and "set_of (expire_key now k d ks) k' = set_of ks k'"
  using assms by (simp_all add: typed_defs value_at_expire_live)

text \<open>Keys a change leaves alone.\<close>

definition same_but :: "string set \<Rightarrow> keyspace \<Rightarrow> keyspace \<Rightarrow> bool" where
  "same_but A ks ks' \<longleftrightarrow> (\<forall>k. k \<notin> A \<longrightarrow> ks' k = ks k)"

lemma same_but_refl [simp]: "same_but A ks ks"
  by (simp add: same_but_def)

lemma same_but_ops [redis_simps]:
  "same_but A ks (store k v ks') = same_but A ks ks'" if "k \<in> A"
  using that by (auto simp: same_but_def store_def)

lemma same_but_put [redis_simps]:
  "same_but A ks (put k v d ks') = same_but A ks ks'" if "k \<in> A"
  using that by (auto simp: same_but_def put_def)

lemma same_but_drop [redis_simps]:
  "same_but A ks (drop_key k ks') = same_but A ks ks'" if "k \<in> A"
  using that by (auto simp: same_but_def drop_key_def)

lemma same_but_expire [redis_simps]:
  "same_but A ks (expire_key now k d ks') = same_but A ks ks'" if "k \<in> A"
  using that by (auto simp: same_but_def expire_key_def drop_key_def split: option.splits)

lemma same_but_trans: "same_but A ks ks' \<Longrightarrow> same_but B ks' ks'' \<Longrightarrow> same_but (A \<union> B) ks ks''"
  by (auto simp: same_but_def)

lemma same_but_typed:
  assumes "same_but A ks ks'" "k \<notin> A"
  shows "value_at ks' k = value_at ks k" "hash_of ks' k = hash_of ks k"
    "is_hash_key ks' k = is_hash_key ks k" "string_of ks' k = string_of ks k"
    "is_string_key ks' k = is_string_key ks k" "list_of ks' k = list_of ks k"
    "is_list_key ks' k = is_list_key ks k" "set_of ks' k = set_of ks k"
    "is_set_key ks' k = is_set_key ks k" "deadline ks' k = deadline ks k"
  using assms by (simp_all add: typed_defs value_at_def deadline_def same_but_def)

section \<open>The service\<close>

text \<open>
  What happens to one round trip: it is served and answered, the request is lost, or the
  request is served and the answer lost. The client reports the last two as an error.
\<close>

datatype delivery = Delivered | LostRequest | LostReply

record 's redis =
  r_view :: "'s \<Rightarrow> keyspace"
  r_clock :: "'s \<Rightarrow> int"
  r_arrive :: "'s \<Rightarrow> delivery \<times> 's"
  r_get :: "string \<Rightarrow> 's \<Rightarrow> blob option"
  r_exists :: "string \<Rightarrow> 's \<Rightarrow> bool"
  r_set :: "string \<Rightarrow> blob \<Rightarrow> int option \<Rightarrow> 's \<Rightarrow> 's"
  r_setnx :: "string \<Rightarrow> blob \<Rightarrow> int option \<Rightarrow> 's \<Rightarrow> bool \<times> 's"
  r_del :: "string \<Rightarrow> 's \<Rightarrow> 's"
  r_incr :: "string \<Rightarrow> 's \<Rightarrow> int \<times> 's"
  r_pexpire :: "string \<Rightarrow> int \<Rightarrow> 's \<Rightarrow> 's"
  r_expireat :: "string \<Rightarrow> int \<Rightarrow> 's \<Rightarrow> 's"
  r_pttl :: "string \<Rightarrow> 's \<Rightarrow> int option"
  r_hget :: "string \<Rightarrow> string \<Rightarrow> 's \<Rightarrow> blob option"
  r_hset :: "string \<Rightarrow> string \<Rightarrow> blob \<Rightarrow> 's \<Rightarrow> 's"
  r_hdel :: "string \<Rightarrow> string \<Rightarrow> 's \<Rightarrow> 's"
  r_hincrby :: "string \<Rightarrow> string \<Rightarrow> int \<Rightarrow> 's \<Rightarrow> int \<times> 's"
  r_rpush :: "string \<Rightarrow> blob \<Rightarrow> 's \<Rightarrow> 's"
  r_lrange :: "string \<Rightarrow> int \<Rightarrow> int \<Rightarrow> 's \<Rightarrow> blob list"
  r_llen :: "string \<Rightarrow> 's \<Rightarrow> nat"
  r_sadd :: "string \<Rightarrow> string \<Rightarrow> 's \<Rightarrow> 's"
  r_srem :: "string \<Rightarrow> string \<Rightarrow> 's \<Rightarrow> 's"
  r_smembers :: "string \<Rightarrow> 's \<Rightarrow> string list"

text \<open>One round trip of the Go client: run a command or script, or report an error.\<close>

definition round_trip ::
  "('s, 'z) redis_scheme \<Rightarrow> ('s \<Rightarrow> 'a option \<times> 's) \<Rightarrow> ('s, 'a) io" where
  "round_trip R script s =
     (case r_arrive R s of
        (Delivered, s1) \<Rightarrow>
          (case script s1 of (None, s2) \<Rightarrow> (Inl ErrService, s2) | (Some x, s2) \<Rightarrow> (Inr x, s2))
      | (LostRequest, s1) \<Rightarrow> (Inl ErrService, s1)
      | (LostReply, s1) \<Rightarrow> (Inl ErrService, snd (script s1)))"

text \<open>A read as a script that leaves the server as it is, and a write with no result.\<close>

definition reading :: "('s \<Rightarrow> 'a) \<Rightarrow> 's \<Rightarrow> 'a option \<times> 's" where
  "reading f s = (Some (f s), s)"

definition writing :: "('s \<Rightarrow> 's) \<Rightarrow> 's \<Rightarrow> unit option \<times> 's" where
  "writing f s = (Some (), f s)"

lemma round_trip_served:
  "r_arrive R s = (Delivered, s1) \<Longrightarrow> round_trip R script s =
     (case script s1 of (None, s2) \<Rightarrow> (Inl ErrService, s2) | (Some x, s2) \<Rightarrow> (Inr x, s2))"
  by (simp add: round_trip_def)

lemma round_trip_lost:
  "r_arrive R s = (LostRequest, s1) \<Longrightarrow> round_trip R script s = (Inl ErrService, s1)"
  "r_arrive R s = (LostReply, s1) \<Longrightarrow> round_trip R script s = (Inl ErrService, snd (script s1))"
  by (simp_all add: round_trip_def)

text \<open>A round trip runs its script once, or not at all.\<close>

lemma round_trip_state:
  "snd (round_trip R script s) \<in> {snd (r_arrive R s), snd (script (snd (r_arrive R s)))}"
  by (auto simp: round_trip_def split: prod.splits delivery.splits option.splits)

lemma round_trip_keeps:
  assumes "P (snd (r_arrive R s))" "P (snd (r_arrive R s)) \<Longrightarrow> P (snd (script (snd (r_arrive R s))))"
  shows "P (snd (round_trip R script s))"
  using assms round_trip_state [of R script s] by auto

section \<open>The contract\<close>

locale redis_service =
  fixes R :: "('s, 'z) redis_scheme"
  assumes live: "deadline (r_view R s) k = Some d \<Longrightarrow> r_clock R s < d"
    and get [redis_simps]: "is_string_key (r_view R s) k \<Longrightarrow> r_get R k s = string_of (r_view R s) k"
    and exists [redis_simps]: "r_exists R k s \<longleftrightarrow> value_at (r_view R s) k \<noteq> None"
    and set [redis_simps]: "(\<forall>t. px = Some t \<longrightarrow> 0 < t) \<Longrightarrow>
      r_view R (r_set R k v px s) =
      put k (RString v) (map_option (\<lambda>t. r_clock R s + t) px) (r_view R s)"
    and setnx [redis_simps]: "fst (r_setnx R k v px s) \<longleftrightarrow> value_at (r_view R s) k = None"
    and setnx_view [redis_simps]: "(\<forall>t. px = Some t \<longrightarrow> 0 < t) \<Longrightarrow>
      r_view R (snd (r_setnx R k v px s)) =
      (if value_at (r_view R s) k = None
       then put k (RString v) (map_option (\<lambda>t. r_clock R s + t) px) (r_view R s) else r_view R s)"
    and del [redis_simps]: "r_view R (r_del R k s) = drop_key k (r_view R s)"
    and incr [redis_simps]:
      "is_string_key (r_view R s) k \<Longrightarrow> num_of (string_of (r_view R s) k) = Some n \<Longrightarrow>
       in_int64 (n + 1) \<Longrightarrow> fst (r_incr R k s) = n + 1"
    and incr_view [redis_simps]:
      "is_string_key (r_view R s) k \<Longrightarrow> num_of (string_of (r_view R s) k) = Some n \<Longrightarrow>
       in_int64 (n + 1) \<Longrightarrow>
       r_view R (snd (r_incr R k s)) = store k (RString (Num (n + 1))) (r_view R s)"
    and pexpire [redis_simps]:
      "r_view R (r_pexpire R k t s) = expire_key (r_clock R s) k (r_clock R s + t) (r_view R s)"
    and expireat [redis_simps]:
      "r_view R (r_expireat R k t s) = expire_key (r_clock R s) k (1000 * t) (r_view R s)"
    and pttl [redis_simps]:
      "r_pttl R k s = map_option (\<lambda>d. d - r_clock R s) (deadline (r_view R s) k)"
    and hget [redis_simps]: "is_hash_key (r_view R s) k \<Longrightarrow> r_hget R k f s = hash_of (r_view R s) k f"
    and hset [redis_simps]: "is_hash_key (r_view R s) k \<Longrightarrow>
      r_view R (r_hset R k f v s) = store k (RHash ((hash_of (r_view R s) k)(f \<mapsto> v))) (r_view R s)"
    and hdel [redis_simps]: "is_hash_key (r_view R s) k \<Longrightarrow>
      r_view R (r_hdel R k f s) =
      (let h = (hash_of (r_view R s) k)(f := None)
       in if no_fields h then drop_key k (r_view R s) else store k (RHash h) (r_view R s))"
    and hincrby [redis_simps]:
      "is_hash_key (r_view R s) k \<Longrightarrow> num_of (hash_of (r_view R s) k f) = Some n \<Longrightarrow>
       in_int64 (n + d) \<Longrightarrow> fst (r_hincrby R k f d s) = n + d"
    and hincrby_view [redis_simps]:
      "is_hash_key (r_view R s) k \<Longrightarrow> num_of (hash_of (r_view R s) k f) = Some n \<Longrightarrow>
       in_int64 (n + d) \<Longrightarrow>
       r_view R (snd (r_hincrby R k f d s)) =
       store k (RHash ((hash_of (r_view R s) k)(f \<mapsto> Num (n + d)))) (r_view R s)"
    and rpush [redis_simps]: "is_list_key (r_view R s) k \<Longrightarrow>
      r_view R (r_rpush R k v s) = store k (RList (list_of (r_view R s) k @ [v])) (r_view R s)"
    and lrange [redis_simps]:
      "is_list_key (r_view R s) k \<Longrightarrow> r_lrange R k a b s = redis_range a b (list_of (r_view R s) k)"
    and llen [redis_simps]:
      "is_list_key (r_view R s) k \<Longrightarrow> r_llen R k s = length (list_of (r_view R s) k)"
    and sadd [redis_simps]: "is_set_key (r_view R s) k \<Longrightarrow>
      r_view R (r_sadd R k m s) =
      store k (RSet (List.insert m (set_of (r_view R s) k))) (r_view R s)"
    and srem [redis_simps]: "is_set_key (r_view R s) k \<Longrightarrow>
      r_view R (r_srem R k m s) =
      (let A = removeAll m (set_of (r_view R s) k)
       in if A = [] then drop_key k (r_view R s) else store k (RSet A) (r_view R s))"
    and smembers: "is_set_key (r_view R s) k \<Longrightarrow>
      set (r_smembers R k s) = set (set_of (r_view R s) k) \<and> distinct (r_smembers R k s)"
    and clocks [redis_simps]:
      "r_clock R (r_set R k v px s) = r_clock R s" "r_clock R (r_del R k s) = r_clock R s"
      "r_clock R (snd (r_setnx R k v px s)) = r_clock R s"
      "r_clock R (snd (r_incr R k s)) = r_clock R s" "r_clock R (r_pexpire R k t s) = r_clock R s"
      "r_clock R (r_expireat R k t s) = r_clock R s" "r_clock R (r_hset R k f v s) = r_clock R s"
      "r_clock R (r_hdel R k f s) = r_clock R s"
      "r_clock R (snd (r_hincrby R k f d s)) = r_clock R s"
      "r_clock R (r_rpush R k v s) = r_clock R s" "r_clock R (r_sadd R k m s) = r_clock R s"
      "r_clock R (r_srem R k m s) = r_clock R s"
    and apart [redis_simps]:
      "same_but {k} (r_view R s) (r_view R (r_set R k v px s))"
      "same_but {k} (r_view R s) (r_view R (snd (r_setnx R k v px s)))"
      "same_but {k} (r_view R s) (r_view R (r_del R k s))"
      "same_but {k} (r_view R s) (r_view R (snd (r_incr R k s)))"
      "same_but {k} (r_view R s) (r_view R (r_pexpire R k t s))"
      "same_but {k} (r_view R s) (r_view R (r_expireat R k t s))"
      "same_but {k} (r_view R s) (r_view R (r_hset R k f v s))"
      "same_but {k} (r_view R s) (r_view R (r_hdel R k f s))"
      "same_but {k} (r_view R s) (r_view R (snd (r_hincrby R k f d s)))"
      "same_but {k} (r_view R s) (r_view R (r_rpush R k v s))"
      "same_but {k} (r_view R s) (r_view R (r_sadd R k m s))"
      "same_but {k} (r_view R s) (r_view R (r_srem R k m s))"
begin

text \<open>A key that holds something is live: its deadline lies ahead.\<close>

lemma deadline_ahead: "deadline (r_view R s) k = Some d \<Longrightarrow> \<not> d \<le> r_clock R s"
  using live by fastforce

end

text \<open>
  A server on which, between the round trips of the caller at hand, only time passes: keys
  expire and nothing else happens. What other callers do in between is the subject of the
  properties about sequences of scripts, which do not use this law.
\<close>

locale quiet_redis = redis_service +
  assumes arrive [redis_simps]:
      "r_view R (snd (r_arrive R s)) = purge (r_clock R (snd (r_arrive R s))) (r_view R s)"
    and arrive_clock: "r_clock R s \<le> r_clock R (snd (r_arrive R s))"

end
