(* ===== verification/Redis_Reference.thy ===== *)
theory Redis_Reference
  imports Redis
begin

text \<open>
  A reference server that meets the contract of \<open>Redis\<close>: a keyspace, a clock and a script
  of the deliveries and delays to come. It carries the witnesses of the properties whose
  hypothesis is the contract; the model itself never mentions it.
\<close>

record ref_server =
  rf_keys :: keyspace
  rf_clock :: int
  rf_net :: "(delivery \<times> nat) list"

definition ref_view :: "('x ref_server_scheme) \<Rightarrow> keyspace" where
  "ref_view s = purge (rf_clock s) (rf_keys s)"

definition ref_apply :: "(keyspace \<Rightarrow> keyspace) \<Rightarrow> ('x ref_server_scheme) \<Rightarrow> ('x ref_server_scheme)" where
  "ref_apply f s = s\<lparr>rf_keys := f (ref_view s)\<rparr>"

definition ref_guard :: "bool \<Rightarrow> (keyspace \<Rightarrow> keyspace) \<Rightarrow> ('x ref_server_scheme) \<Rightarrow> ('x ref_server_scheme)" where
  "ref_guard g f s = (if g then ref_apply f s else s)"

definition ref_arrive :: "('x ref_server_scheme) \<Rightarrow> delivery \<times> ('x ref_server_scheme)" where
  "ref_arrive s =
     (case rf_net s of
        [] \<Rightarrow> (Delivered, s)
      | (d, t) # net \<Rightarrow> (d, s\<lparr>rf_clock := rf_clock s + int t, rf_net := net\<rparr>))"

definition ref_incr :: "string \<Rightarrow> ('x ref_server_scheme) \<Rightarrow> int \<times> ('x ref_server_scheme)" where
  "ref_incr k s =
     (case num_of (string_of (ref_view s) k) of
        Some n \<Rightarrow> (n + 1, ref_guard (is_string_key (ref_view s) k)
                     (store k (RString (Num (n + 1)))) s)
      | None \<Rightarrow> (0, s))"

definition ref_hincrby :: "string \<Rightarrow> string \<Rightarrow> int \<Rightarrow> ('x ref_server_scheme) \<Rightarrow> int \<times> ('x ref_server_scheme)" where
  "ref_hincrby k f d s =
     (case num_of (hash_of (ref_view s) k f) of
        Some n \<Rightarrow> (n + d, ref_guard (is_hash_key (ref_view s) k)
                     (store k (RHash ((hash_of (ref_view s) k)(f \<mapsto> Num (n + d))))) s)
      | None \<Rightarrow> (0, s))"

definition ref_redis :: "'z \<Rightarrow> ('x ref_server_scheme, 'z) redis_scheme" where
  "ref_redis z = \<lparr>
     r_view = ref_view,
     r_clock = rf_clock,
     r_arrive = ref_arrive,
     r_get = (\<lambda>k s. string_of (ref_view s) k),
     r_exists = (\<lambda>k s. value_at (ref_view s) k \<noteq> None),
     r_set = (\<lambda>k v px s. ref_apply
        (put k (RString v) (map_option (\<lambda>t. rf_clock s + t) px)) s),
     r_setnx = (\<lambda>k v px s.
        if value_at (ref_view s) k = None
        then (True, ref_apply (put k (RString v) (map_option (\<lambda>t. rf_clock s + t) px)) s)
        else (False, s)),
     r_del = (\<lambda>k. ref_apply (drop_key k)),
     r_incr = ref_incr,
     r_pexpire = (\<lambda>k t s. ref_apply (expire_key (rf_clock s) k (rf_clock s + t)) s),
     r_expireat = (\<lambda>k t s. ref_apply (expire_key (rf_clock s) k (1000 * t)) s),
     r_pttl = (\<lambda>k s. map_option (\<lambda>d. d - rf_clock s) (deadline (ref_view s) k)),
     r_hget = (\<lambda>k f s. hash_of (ref_view s) k f),
     r_hset = (\<lambda>k f v s. ref_guard (is_hash_key (ref_view s) k)
        (store k (RHash ((hash_of (ref_view s) k)(f \<mapsto> v)))) s),
     r_hdel = (\<lambda>k f s. ref_guard (is_hash_key (ref_view s) k)
        (let h = (hash_of (ref_view s) k)(f := None)
         in if no_fields h then drop_key k else store k (RHash h)) s),
     r_hincrby = ref_hincrby,
     r_rpush = (\<lambda>k v s. ref_guard (is_list_key (ref_view s) k)
        (store k (RList (list_of (ref_view s) k @ [v]))) s),
     r_lrange = (\<lambda>k a b s. redis_range a b (list_of (ref_view s) k)),
     r_llen = (\<lambda>k s. length (list_of (ref_view s) k)),
     r_sadd = (\<lambda>k m s. ref_guard (is_set_key (ref_view s) k)
        (store k (RSet (List.insert m (set_of (ref_view s) k)))) s),
     r_srem = (\<lambda>k m s. ref_guard (is_set_key (ref_view s) k)
        (let A = removeAll m (set_of (ref_view s) k)
         in if A = [] then drop_key k else store k (RSet A)) s),
     r_smembers = (\<lambda>k s. remdups (set_of (ref_view s) k)),
     \<dots> = z\<rparr>"

section \<open>The reference server meets the contract\<close>

definition alive :: "int \<Rightarrow> keyspace \<Rightarrow> bool" where
  "alive now ks \<longleftrightarrow> (\<forall>k d. deadline ks k = Some d \<longrightarrow> now < d)"

lemma purge_alive: "alive now ks \<Longrightarrow> purge now ks = ks"
  by (rule ext) (force simp: alive_def deadline_def purge_def split: option.splits)

lemma alive_purge: "alive now (purge now ks)"
  by (auto simp: alive_def deadline_def purge_def split: option.splits if_splits)

lemma alive_ref_view: "alive (rf_clock s) (ref_view s)"
  by (simp add: ref_view_def alive_purge)

lemma alive_ops:
  "alive now ks \<Longrightarrow> alive now (store k v ks)"
  "alive now ks \<Longrightarrow> (\<forall>t. d = Some t \<longrightarrow> now < t) \<Longrightarrow> alive now (put k v d ks)"
  "alive now ks \<Longrightarrow> alive now (drop_key k ks)"
  "alive now ks \<Longrightarrow> alive now (expire_key now k t ks)"
  by (auto simp: alive_def deadline_def store_def put_def drop_key_def expire_key_def
      split: option.splits if_splits)

lemma alive_put_px:
  "(\<forall>t. px = Some t \<longrightarrow> 0 < t) \<Longrightarrow>
   alive (rf_clock s) (put k v (map_option ((+) (rf_clock s)) px) (ref_view s))"
  by (rule alive_ops(2) [OF alive_ref_view]) auto

lemma ref_view_apply: "alive (rf_clock s) (f (ref_view s)) \<Longrightarrow> ref_view (ref_apply f s) = f (ref_view s)"
  by (simp add: ref_apply_def ref_view_def [of "rf_keys_update _ _"] purge_alive)

lemma ref_view_guard:
  "g \<Longrightarrow> alive (rf_clock s) (f (ref_view s)) \<Longrightarrow> ref_view (ref_guard g f s) = f (ref_view s)"
  by (simp add: ref_guard_def ref_view_apply)

lemma ref_clock_simps [simp]:
  "rf_clock (ref_apply f s) = rf_clock s" "rf_clock (ref_guard g f s) = rf_clock s"
  "rf_clock (snd (ref_incr k s)) = rf_clock s" "rf_clock (snd (ref_hincrby k f' d s)) = rf_clock s"
  by (simp_all add: ref_apply_def ref_guard_def ref_incr_def ref_hincrby_def split: option.splits)

lemma purge_purge: "a \<le> b \<Longrightarrow> purge b (purge a ks) = purge b ks"
  by (rule ext) (auto simp: purge_def split: option.splits if_splits)

lemma ref_apply_apart:
  assumes "same_but A (ref_view s) (f (ref_view s))"
  shows "same_but A (ref_view s) (ref_view (ref_apply f s))"
proof -
  have "purge (rf_clock s) (f (ref_view s)) k = ref_view s k" if "k \<notin> A" for k
  proof -
    have "f (ref_view s) k = ref_view s k" using assms that by (simp add: same_but_def)
    then have "purge (rf_clock s) (f (ref_view s)) k = purge (rf_clock s) (ref_view s) k"
      by (simp add: purge_def)
    then show ?thesis by (simp add: purge_alive alive_ref_view)
  qed
  then show ?thesis by (simp add: same_but_def ref_apply_def ref_view_def [of "rf_keys_update _ _"])
qed

lemma ref_apart:
  "same_but {k} (ref_view s) (ref_view (ref_apply (store k v) s))"
  "same_but {k} (ref_view s) (ref_view (ref_apply (put k v d) s))"
  "same_but {k} (ref_view s) (ref_view (ref_apply (drop_key k) s))"
  "same_but {k} (ref_view s) (ref_view (ref_apply (expire_key t k d') s))"
  by (rule ref_apply_apart; simp add: redis_simps)+

lemma ref_guard_apart:
  "same_but {k} (ref_view s) (ref_view (ref_guard g (store k v) s))"
  "same_but {k} (ref_view s) (ref_view (ref_guard g (drop_key k) s))"
  by (simp_all add: ref_guard_def ref_apart)

interpretation ref: quiet_redis "ref_redis z"
proof unfold_locales
  fix s :: "'b ref_server_scheme" and k d
  show "deadline (r_view (ref_redis z) s) k = Some d \<Longrightarrow> r_clock (ref_redis z) s < d"
    using alive_ref_view [of s] by (simp add: ref_redis_def alive_def)
next
  fix s :: "'b ref_server_scheme"
  show "r_view (ref_redis z) (snd (r_arrive (ref_redis z) s)) =
      purge (r_clock (ref_redis z) (snd (r_arrive (ref_redis z) s))) (r_view (ref_redis z) s)"
    by (auto simp: ref_redis_def ref_arrive_def ref_view_def purge_purge split: list.splits)
  show "r_clock (ref_redis z) s \<le> r_clock (ref_redis z) (snd (r_arrive (ref_redis z) s))"
    by (auto simp: ref_redis_def ref_arrive_def split: list.splits)
qed (auto simp: ref_redis_def ref_view_apply ref_view_guard alive_ops alive_ref_view alive_put_px
    ref_incr_def ref_hincrby_def Let_def ref_apart ref_guard_apart
    same_but_ops same_but_put same_but_drop same_but_expire split: option.splits)

end
