(* ===== verification/Go_Env.thy ===== *)
theory Go_Env
  imports Redis_Reference
begin

text \<open>
  The rest of what the Go services take from outside the repository: the clock, the random
  source, SHA-256, the number scanner of \<open>fmt\<close> and package \<open>google/uuid\<close>, as fields next to
  the Redis commands. The locale \<open>go_env\<close> says that reading a clock or random bytes changes no
  stored data, and that a new UUID is a valid one.
\<close>

record 's env = "'s redis" +
  env_now :: "'s \<Rightarrow> time \<times> 's"
  env_random :: "nat \<Rightarrow> 's \<Rightarrow> string option \<times> 's"
  env_sha256 :: "string \<Rightarrow> string"
  env_scan_int :: "string \<Rightarrow> int option"
  env_uuid_ok :: "string \<Rightarrow> bool"
  env_uuid_new :: "'s \<Rightarrow> string \<times> 's"

locale go_env = redis_service R for R :: "('s, 'z) env_scheme" +
  assumes now_view [redis_simps]: "r_view R (snd (env_now R s)) = r_view R s"
    and now_clock [redis_simps]: "r_clock R (snd (env_now R s)) = r_clock R s"
    and random_view [redis_simps]: "r_view R (snd (env_random R n s)) = r_view R s"
    and random_clock [redis_simps]: "r_clock R (snd (env_random R n s)) = r_clock R s"
    and random_length: "fst (env_random R n s) = Some b \<Longrightarrow> length b = n"
    and uuid_view [redis_simps]: "r_view R (snd (env_uuid_new R s)) = r_view R s"
    and uuid_clock [redis_simps]: "r_clock R (snd (env_uuid_new R s)) = r_clock R s"
    and uuid_valid: "env_uuid_ok R (fst (env_uuid_new R s))"

locale quiet_env = go_env R + quiet_redis R for R :: "('s, 'z) env_scheme"

text \<open>A calm environment loses nothing on the way to Redis, and no time passes.\<close>

locale calm_env = quiet_env +
  assumes calm: "r_arrive R s = (Delivered, s)"
begin

lemma served: "round_trip R script s =
    (case script s of (None, s2) \<Rightarrow> (Inl ErrService, s2) | (Some x, s2) \<Rightarrow> (Inr x, s2))"
  by (rule round_trip_served [OF calm])

end

lemma redis_service_arrive: "redis_service (R\<lparr>r_arrive := f\<rparr>) = redis_service R"
  by (simp add: redis_service_def Let_def cong: if_cong)


section \<open>A reference environment\<close>

text \<open>
  The reference server with a wall clock and a pool of random bytes; the witnesses of the
  properties take the program's environment to be this one. The digest is the identity and
  the scanner reads digits: the contract asks nothing of them.
\<close>

record ref_world = ref_server +
  rw_now :: time
  rw_random :: string

definition ref_now :: "('x ref_world_scheme) \<Rightarrow> time \<times> ('x ref_world_scheme)" where
  "ref_now s = (rw_now s, s)"

definition ref_random :: "nat \<Rightarrow> ('x ref_world_scheme) \<Rightarrow> string option \<times> ('x ref_world_scheme)" where
  "ref_random n s =
     (if length (rw_random s) < n then (None, s)
      else (Some (take n (rw_random s)), s\<lparr>rw_random := drop n (rw_random s)\<rparr>))"

definition ref_scan :: "string \<Rightarrow> int option" where
  "ref_scan t = (if t \<noteq> [] \<and> list_all is_digit t then Some (int (parse_nat t)) else None)"

definition ref_uuid :: "string \<Rightarrow> bool" where
  "ref_uuid t \<longleftrightarrow> length t = 36"

definition ref_new_uuid :: "('x ref_world_scheme) \<Rightarrow> string \<times> ('x ref_world_scheme)" where
  "ref_new_uuid s = (replicate 36 (CHR ''0''), s)"

definition ref_env :: "'z \<Rightarrow> ('x ref_world_scheme, 'z) env_scheme" where
  "ref_env z = env.extend (ref_redis (env.fields ref_now ref_random id ref_scan ref_uuid ref_new_uuid)) z"

lemma ref_env_redis: "\<exists>y. ref_env z = ref_redis y"
  by (rule exI, simp add: ref_env_def env.defs ref_redis_def)

lemma ref_view_world: "ref_view (s\<lparr>rw_random := b\<rparr>) = ref_view s"
  by (simp add: ref_view_def)

interpretation ref_env: quiet_env "ref_env (z :: 'z) :: ('x ref_world_scheme, 'z) env_scheme"
proof -
  obtain y where y: "(ref_env z :: ('x ref_world_scheme, 'z) env_scheme) = ref_redis y"
    by (rule exE [OF ref_env_redis])
  have "quiet_redis (ref_env z :: ('x ref_world_scheme, 'z) env_scheme)"
    unfolding y by (rule ref.quiet_redis_axioms)
  moreover have "go_env (ref_env z :: ('x ref_world_scheme, 'z) env_scheme)"
  proof (intro go_env.intro go_env_axioms.intro)
    show "redis_service (ref_env z :: ('x ref_world_scheme, 'z) env_scheme)"
      unfolding y by (rule ref.redis_service_axioms)
  qed (auto simp: ref_env_def env.defs ref_redis_def ref_now_def ref_random_def ref_view_world ref_uuid_def
      ref_new_uuid_def split: if_splits)
  ultimately show "quiet_env (ref_env z :: ('x ref_world_scheme, 'z) env_scheme)"
    by (rule quiet_env.intro [rotated])
qed

text \<open>An empty server whose clock agrees with the wall clock, on a network that loses nothing.\<close>

definition ref_start :: "time \<Rightarrow> ref_world" where
  "ref_start now = \<lparr>rf_keys = Map.empty, rf_clock = now div 1000000, rf_net = [], rw_now = now,
     rw_random = replicate 512 (CHR ''7'')\<rparr>"

lemma ref_env_fields [simp]:
  "r_view (ref_env z) s = ref_view s" "r_clock (ref_env z) s = rf_clock s"
  "r_arrive (ref_env z) s = ref_arrive s"
  "env_now (ref_env z) = ref_now" "env_random (ref_env z) = ref_random"
  "env_sha256 (ref_env z) = id" "env_scan_int (ref_env z) = ref_scan"
  "env_uuid_ok (ref_env z) = ref_uuid" "env_uuid_new (ref_env z) = ref_new_uuid"
  by (simp_all add: ref_env_def env.defs ref_redis_def)

lemma ref_net_ops [simp]:
  "rf_net (r_set (ref_env z) k v px s) = rf_net s" "rf_net (r_del (ref_env z) k s) = rf_net s"
  "rf_net (snd (r_incr (ref_env z) k s)) = rf_net s" "rf_net (r_pexpire (ref_env z) k t s) = rf_net s"
  "rf_net (r_expireat (ref_env z) k t s) = rf_net s" "rf_net (r_hset (ref_env z) k f v s) = rf_net s"
  "rf_net (r_hdel (ref_env z) k f s) = rf_net s" "rf_net (snd (r_hincrby (ref_env z) k f d s)) = rf_net s"
  "rf_net (r_rpush (ref_env z) k v s) = rf_net s" "rf_net (r_sadd (ref_env z) k m s) = rf_net s"
  "rf_net (r_srem (ref_env z) k m s) = rf_net s" "rf_net (snd (r_setnx (ref_env z) k v px s)) = rf_net s"
  by (simp_all add: ref_env_def env.defs ref_redis_def ref_apply_def ref_guard_def ref_incr_def
      ref_hincrby_def split: option.splits)

lemma ref_clock_ops [simp]:
  "rf_clock (r_set (ref_env z) k v px s) = rf_clock s" "rf_clock (r_del (ref_env z) k s) = rf_clock s"
  "rf_clock (snd (r_incr (ref_env z) k s)) = rf_clock s" "rf_clock (r_pexpire (ref_env z) k t s) = rf_clock s"
  "rf_clock (r_expireat (ref_env z) k t s) = rf_clock s" "rf_clock (r_hset (ref_env z) k f v s) = rf_clock s"
  "rf_clock (r_hdel (ref_env z) k f s) = rf_clock s" "rf_clock (snd (r_hincrby (ref_env z) k f d s)) = rf_clock s"
  "rf_clock (r_rpush (ref_env z) k v s) = rf_clock s" "rf_clock (r_sadd (ref_env z) k m s) = rf_clock s"
  "rf_clock (r_srem (ref_env z) k m s) = rf_clock s" "rf_clock (snd (r_setnx (ref_env z) k v px s)) = rf_clock s"
  by (simp_all add: ref_env_def env.defs ref_redis_def ref_apply_def ref_guard_def ref_incr_def
      ref_hincrby_def split: option.splits)

lemma ref_arrive_Nil [simp]: "rf_net s = [] \<Longrightarrow> ref_arrive s = (Delivered, s)"
  by (simp add: ref_arrive_def)

lemma ref_start_simps [simp]:
  "ref_view (ref_start now) = Map.empty" "rf_clock (ref_start now) = now div 1000000"
  "ref_arrive (ref_start now) = (Delivered, ref_start now)"
  "ref_now (ref_start now) = (now, ref_start now)"
  by (simp_all add: ref_start_def ref_view_def purge_def ref_now_def ref_arrive_def fun_eq_iff)

lemma value_at_empty [simp]: "value_at Map.empty k = None"
  by (simp add: value_at_def)

section \<open>Hexadecimal\<close>

definition hex_digit :: "nat \<Rightarrow> char" where
  "hex_digit n = (if n < 10 then chr (48 + n) else chr (87 + n))"

definition hex_encode :: "string \<Rightarrow> string" where
  "hex_encode bs = concat (map (\<lambda>c. [hex_digit (code c div 16), hex_digit (code c mod 16)]) bs)"

lemma length_hex_encode: "length (hex_encode bs) = 2 * length bs"
  by (induction bs) (simp_all add: hex_encode_def)

lemma code_hex_digit: "n < 16 \<Longrightarrow> code (hex_digit n) = (if n < 10 then 48 + n else 87 + n)"
  by (simp add: hex_digit_def)

lemma hex_digit_inject:
  assumes "m < 16" "n < 16" "hex_digit m = hex_digit n"
  shows "m = n"
proof -
  have "code (hex_digit m) = code (hex_digit n)" using assms(3) by simp
  then show ?thesis using assms(1,2) by (simp add: code_hex_digit split: if_splits)
qed

lemma code_bound: "code c < 256"
  by (simp add: code_def)

lemma hex_byte_inject:
  assumes "hex_digit (code c div 16) = hex_digit (code d div 16)"
    and "hex_digit (code c mod 16) = hex_digit (code d mod 16)"
  shows "c = d"
proof -
  have "code c div 16 = code d div 16" "code c mod 16 = code d mod 16"
    using assms code_bound [of c] code_bound [of d] by (auto intro: hex_digit_inject)
  then have "code c = code d" by (metis div_mult_mod_eq)
  then show ?thesis by simp
qed

lemma hex_encode_inject [simp]: "hex_encode xs = hex_encode ys \<longleftrightarrow> xs = ys"
proof (induction xs arbitrary: ys)
  case Nil
  then show ?case by (cases ys) (simp_all add: hex_encode_def)
next
  case (Cons c xs)
  then show ?case by (cases ys) (auto simp: hex_encode_def intro: hex_byte_inject)
qed

end
