(* ===== verification/Quota.thy ===== *)
theory Quota
  imports Go_Env
begin

text \<open>
  Package \<open>internal/quota\<close> (\<open>quota.go\<close>): the daily quota ledger of a user, one Redis hash per
  Beijing day. The three Lua scripts are functions on the server state; \<open>Reserve\<close>,
  \<open>Settle\<close> and \<open>Snapshot\<close> are the Go methods around them.

  The hash has the counters \<open>committed\<close>, \<open>reserved\<close>, \<open>revision\<close> and one field per
  request. The abstract ledger of the second half is the map from requests to their
  state; the counters are shown to be its cardinalities.
\<close>

section \<open>Types\<close>

record subject =
  sj_user :: string
  sj_admin :: bool

definition outcome_pending :: string where "outcome_pending = ''pending''"
definition outcome_delivered :: string where "outcome_delivered = ''delivered''"
definition outcome_failed :: string where "outcome_failed = ''failed''"

lemmas outcome_defs = outcome_pending_def outcome_delivered_def outcome_failed_def

record snapshot =
  sn_unlimited :: bool
  sn_limit :: int
  sn_used :: int
  sn_remaining :: int
  sn_reset :: time
  sn_revision :: int

record reservation =
  rs_subject :: subject
  rs_key :: string
  rs_hash :: string
  rs_expires :: time
  rs_unlimited :: bool

record quota =
  q_prefix :: string
  q_limit :: int

definition zero_subject :: subject where
  "zero_subject = \<lparr>sj_user = [], sj_admin = False\<rparr>"

definition zero_reservation :: reservation where
  "zero_reservation = \<lparr>rs_subject = zero_subject, rs_key = [], rs_hash = [], rs_expires = 0,
     rs_unlimited = False\<rparr>"

definition zero_snapshot :: snapshot where
  "zero_snapshot = \<lparr>sn_unlimited = False, sn_limit = 0, sn_used = 0, sn_remaining = 0,
     sn_reset = 0, sn_revision = 0\<rparr>"

definition unlimited_snapshot :: snapshot where
  "unlimited_snapshot = zero_snapshot\<lparr>sn_unlimited := True\<rparr>"

section \<open>The scripts\<close>

text \<open>A script answers a Lua table: integers and texts, cut at the first \<open>nil\<close>.\<close>

datatype reply = RInt int | RText string

definition nil_or_int :: "int option \<Rightarrow> reply list" where
  "nil_or_int n = (case n of None \<Rightarrow> [] | Some i \<Rightarrow> [RInt i])"

text \<open>
  \<open>tonumber(redis.call('HGET', key, field) or '0')\<close> is \<open>num_of\<close> of the field: \<open>None\<close> is Lua's
  \<open>nil\<close>, and arithmetic on it aborts the script.
\<close>

definition lua_add :: "int option \<Rightarrow> int option \<Rightarrow> int option" where
  "lua_add a b = (case (a, b) of (Some x, Some y) \<Rightarrow> Some (x + y) | _ \<Rightarrow> None)"

definition f_committed :: string where "f_committed = ''committed''"
definition f_reserved :: string where "f_reserved = ''reserved''"
definition f_revision :: string where "f_revision = ''revision''"

definition st_reserved :: blob where "st_reserved = Raw ''reserved''"
definition st_delivered :: blob where "st_delivered = Raw ''delivered''"

definition reserve_script ::
  "('s, 'z) redis_scheme \<Rightarrow> string \<Rightarrow> string \<Rightarrow> string \<Rightarrow> int \<Rightarrow> int \<Rightarrow> int \<Rightarrow>
   's \<Rightarrow> reply list option \<times> 's" where
  "reserve_script R key previous request limit expires previous_expires s =
     (let state = r_hget R key request s;
          committed = num_of (r_hget R key f_committed s);
          reserved = num_of (r_hget R key f_reserved s);
          revision = num_of (r_hget R key f_revision s);
          used = lua_add committed reserved
      in if state \<noteq> None then
           (let s1 = r_expireat R key expires s
            in (map_option (\<lambda>u. [RInt 1, RInt u, RText ''current''] @ nil_or_int revision) used, s1))
         else if r_hget R previous request s \<noteq> None then
           (let s1 = r_expireat R previous previous_expires s
            in (map_option (\<lambda>u. [RInt 1, RInt u, RText ''previous''] @ nil_or_int revision) used, s1))
         else (case (committed, used) of
             (Some c, Some u) \<Rightarrow>
               if limit \<le> u then
                 (Some ([RInt 0, RInt u, RText ''exhausted''] @ nil_or_int revision), s)
               else
                 (let s1 = r_hset R key request st_reserved s;
                      (reserved', s2) = r_hincrby R key f_reserved 1 s1;
                      (revision', s3) = r_hincrby R key f_revision 1 s2;
                      s4 = r_expireat R key expires s3
                  in (Some [RInt 1, RInt (c + reserved'), RText ''current'', RInt revision'], s4))
           | _ \<Rightarrow> (None, s)))"

definition settle_script ::
  "('s, 'z) redis_scheme \<Rightarrow> string \<Rightarrow> string \<Rightarrow> string \<Rightarrow> int \<Rightarrow> 's \<Rightarrow> reply list option \<times> 's" where
  "settle_script R key request outcome expires s =
     (let state = r_hget R key request s;
          (committed, reserved, revision, s1) =
            (if state = Some st_reserved \<and> outcome = outcome_delivered then
               (let (reserved', t1) = r_hincrby R key f_reserved (- 1) s;
                    (committed', t2) = r_hincrby R key f_committed 1 t1;
                    t3 = r_hset R key request st_delivered t2;
                    (revision', t4) = r_hincrby R key f_revision 1 t3
                in (Some committed', Some reserved', Some revision', t4))
             else if state = Some st_reserved \<and> outcome = outcome_failed then
               (let (reserved', t1) = r_hincrby R key f_reserved (- 1) s;
                    t2 = r_hdel R key request t1;
                    (revision', t3) = r_hincrby R key f_revision 1 t2
                in (num_of (r_hget R key f_committed s), Some reserved', Some revision', t3))
             else
               (num_of (r_hget R key f_committed s), num_of (r_hget R key f_reserved s),
                num_of (r_hget R key f_revision s), s));
          s2 = (if r_exists R key s1 then r_expireat R key expires s1 else s1);
          reserved0 = map_option (\<lambda>n. if n < 0 then 0 else n) reserved
      in (map_option (\<lambda>u. [RInt u] @ nil_or_int revision) (lua_add committed reserved0), s2))"

definition snapshot_script ::
  "('s, 'z) redis_scheme \<Rightarrow> string \<Rightarrow> 's \<Rightarrow> reply list option \<times> 's" where
  "snapshot_script R key s =
     (let committed = num_of (r_hget R key f_committed s);
          reserved = num_of (r_hget R key f_reserved s);
          revision = num_of (r_hget R key f_revision s)
      in (map_option (\<lambda>u. [RInt u] @ nil_or_int revision) (lua_add committed reserved), s))"

section \<open>The Go methods\<close>

text \<open>\<open>NewRedis\<close>; the nil test of the client has no counterpart here.\<close>

definition new_quota :: "string \<Rightarrow> int \<Rightarrow> go_error + quota" where
  "new_quota pre limit =
     (if trim_space pre = [] then Inl (ErrText ''quota key prefix is required'')
      else if limit \<le> 0 then Inl (ErrText ''quota limit must be positive'')
      else Inr \<lparr>q_prefix = pre, q_limit = limit\<rparr>)"

text \<open>\<open>window\<close>: the key of the user's day, when it resets and when its key expires.\<close>

definition quota_key :: "quota \<Rightarrow> string \<Rightarrow> day \<Rightarrow> string" where
  "quota_key q user d = q_prefix q @ user @ '':'' @ fmt_date d"

definition window :: "quota \<Rightarrow> string \<Rightarrow> time \<Rightarrow> string \<times> time \<times> time" where
  "window q user now =
     (let d = beijing_day now in (quota_key q user d, day_start (d + 1), day_start (d + 2)))"

definition limited_snapshot :: "quota \<Rightarrow> int \<Rightarrow> int \<Rightarrow> time \<Rightarrow> snapshot" where
  "limited_snapshot q used revision reset =
     (let used = (if used < 0 then 0 else used);
          remaining = q_limit q - used;
          remaining = (if remaining < 0 then 0 else remaining)
      in \<lparr>sn_unlimited = False, sn_limit = q_limit q, sn_used = used, sn_remaining = remaining,
          sn_reset = reset, sn_revision = revision\<rparr>)"

text \<open>\<open>resultInt\<close> and \<open>resultInt64\<close> (\<open>int\<close> has 64 bits on the service's platforms).\<close>

fun result_int :: "(string \<Rightarrow> int option) \<Rightarrow> reply \<Rightarrow> go_error + int" where
  "result_int scan (RInt n) = Inr n"
| "result_int scan (RText t) =
     (case scan t of None \<Rightarrow> Inl (ErrText ''invalid quota integer'') | Some n \<Rightarrow> Inr n)"

definition request_field :: "('s, 'z) env_scheme \<Rightarrow> string \<Rightarrow> string" where
  "request_field R request_id = ''request:'' @ env_sha256 R request_id"

definition invalid_result :: go_error where
  "invalid_result = ErrText ''daily quota returned an invalid result''"

text \<open>The part of \<open>Reserve\<close> after the script answered.\<close>

definition reserve_result ::
  "(string \<Rightarrow> int option) \<Rightarrow> quota \<Rightarrow> reply list \<Rightarrow> subject \<Rightarrow> string \<Rightarrow>
   string \<times> time \<times> time \<Rightarrow> string \<times> time \<Rightarrow> reservation \<times> snapshot \<times> go_error option" where
  "reserve_result scan q result subject field win prev =
     (case (win, prev) of ((key, reset, expires), (previous_key, previous_expires)) \<Rightarrow>
      if length result < 4 then (zero_reservation, zero_snapshot, Some invalid_result)
      else case result_int scan (result ! 0) of
        Inl e \<Rightarrow> (zero_reservation, zero_snapshot, Some e)
      | Inr accepted \<Rightarrow>
        (case result_int scan (result ! 1) of
          Inl e \<Rightarrow> (zero_reservation, zero_snapshot, Some e)
        | Inr used \<Rightarrow>
          (case result_int scan (result ! 3) of
            Inl e \<Rightarrow> (zero_reservation, zero_snapshot, Some e)
          | Inr revision \<Rightarrow>
            (let snap = limited_snapshot q used revision reset in
             if accepted = 0 then (zero_reservation, snap, Some ErrQuotaExhausted)
             else
               (let (rkey, rexp) = (if result ! 2 = RText ''previous''
                                    then (previous_key, previous_expires) else (key, expires))
                in (\<lparr>rs_subject = subject, rs_key = rkey, rs_hash = field, rs_expires = rexp,
                     rs_unlimited = False\<rparr>, snap, None))))))"

definition reserve ::
  "('s, 'z) env_scheme \<Rightarrow> quota \<Rightarrow> subject \<Rightarrow> string \<Rightarrow> time \<Rightarrow>
   's \<Rightarrow> (reservation \<times> snapshot \<times> go_error option) \<times> 's" where
  "reserve R q subject request_id now s =
     (if sj_admin subject then
        ((zero_reservation\<lparr>rs_subject := subject, rs_unlimited := True\<rparr>, unlimited_snapshot, None), s)
      else if trim_space (sj_user subject) = [] \<or> trim_space request_id = [] then
        ((zero_reservation, zero_snapshot, Some ErrInvalidReservation), s)
      else
        (let (key, reset, expires) = window q (sj_user subject) now;
             (previous_key, _, previous_expires) = window q (sj_user subject) (now - day_length);
             field = request_field R request_id
         in case round_trip R (reserve_script R key previous_key field (q_limit q)
                                 (unix expires) (unix previous_expires)) s of
              (Inl e, s') \<Rightarrow> ((zero_reservation, zero_snapshot, Some e), s')
            | (Inr result, s') \<Rightarrow>
                (reserve_result (env_scan_int R) q result subject field
                   (key, reset, expires) (previous_key, previous_expires), s')))"

definition snapshot_of ::
  "(string \<Rightarrow> int option) \<Rightarrow> quota \<Rightarrow> reply list \<Rightarrow> time \<Rightarrow> go_error + snapshot" where
  "snapshot_of scan q result reset =
     (if length result < 2 then Inl invalid_result
      else case result_int scan (result ! 0) of
        Inl e \<Rightarrow> Inl e
      | Inr used \<Rightarrow>
        (case result_int scan (result ! 1) of
          Inl e \<Rightarrow> Inl e
        | Inr revision \<Rightarrow> Inr (limited_snapshot q used revision reset)))"

definition quota_snapshot ::
  "('s, 'z) env_scheme \<Rightarrow> quota \<Rightarrow> subject \<Rightarrow> time \<Rightarrow> ('s, snapshot) io" where
  "quota_snapshot R q subject now s =
     (if sj_admin subject then (Inr unlimited_snapshot, s)
      else if trim_space (sj_user subject) = [] then (Inl ErrInvalidReservation, s)
      else
        (let (key, reset, _) = window q (sj_user subject) now
         in case round_trip R (snapshot_script R key) s of
              (Inl e, s') \<Rightarrow> (Inl e, s')
            | (Inr result, s') \<Rightarrow> (snapshot_of (env_scan_int R) q result reset, s')))"

definition settle ::
  "('s, 'z) env_scheme \<Rightarrow> quota \<Rightarrow> reservation \<Rightarrow> string \<Rightarrow> time \<Rightarrow> ('s, snapshot) io" where
  "settle R q res outcome now s =
     (if rs_unlimited res \<or> sj_admin (rs_subject res) then (Inr unlimited_snapshot, s)
      else if rs_key res = [] \<or> rs_hash res = [] \<or> sj_user (rs_subject res) = [] then
        (Inl ErrInvalidReservation, s)
      else if outcome \<noteq> outcome_pending \<and> outcome \<noteq> outcome_delivered \<and> outcome \<noteq> outcome_failed then
        (Inl ErrInvalidReservation, s)
      else
        (case round_trip R (settle_script R (rs_key res) (rs_hash res) outcome
                              (unix (rs_expires res))) s of
           (Inl e, s') \<Rightarrow> (Inl e, s')
         | (Inr result, s') \<Rightarrow>
             (let (current_key, reset, _) = window q (sj_user (rs_subject res)) now
              in case snapshot_of (env_scan_int R) q result reset of
                   Inl e \<Rightarrow> (Inl e, s')
                 | Inr snap \<Rightarrow>
                     if current_key \<noteq> rs_key res then quota_snapshot R q (rs_subject res) now s'
                     else (Inr snap, s'))))"

lemmas quota_script_defs = reserve_script_def settle_script_def snapshot_script_def

end
