(* ===== verification/Quota_Ledger.thy ===== *)
theory Quota_Ledger
  imports Quota
begin

text \<open>
  What the quota ledger of a day promises, and that the scripts keep it. The abstract ledger
  maps each request of the day to \<open>Reserved\<close> or \<open>Charged\<close>; the abstract operations
  \<open>ledger_reserve\<close> and \<open>ledger_settle\<close> are the contract, and the scripts refine them: the
  counters of the hash are the numbers of requests in each state and their sum never passes
  the limit.
\<close>

section \<open>The abstract ledger\<close>

datatype status = Reserved | Charged

type_synonym ledger = "string \<rightharpoonup> status"

definition count_status :: "status \<Rightarrow> ledger \<Rightarrow> nat" where
  "count_status st m = card {q. m q = Some st}"

definition ledger_used :: "ledger \<Rightarrow> nat" where
  "ledger_used m = card (dom m)"

definition ledger_reserve :: "int \<Rightarrow> string \<Rightarrow> ledger \<Rightarrow> bool \<times> ledger" where
  "ledger_reserve limit q m =
     (if m q \<noteq> None then (True, m)
      else if limit \<le> int (ledger_used m) then (False, m)
      else (True, m(q \<mapsto> Reserved)))"

definition ledger_settle :: "string \<Rightarrow> string \<Rightarrow> ledger \<Rightarrow> ledger" where
  "ledger_settle q outcome m =
     (if m q = Some Reserved \<and> outcome = outcome_delivered then m(q \<mapsto> Charged)
      else if m q = Some Reserved \<and> outcome = outcome_failed then m(q := None)
      else m)"

lemma finite_status: "finite (dom m) \<Longrightarrow> finite {q. m q = Some st}"
  by (rule finite_subset [of _ "dom m"]) auto

lemma count_status_upd:
  assumes "finite (dom m)"
  shows "m q \<noteq> Some st \<Longrightarrow> count_status st (m(q \<mapsto> st)) = Suc (count_status st m)"
    and "st' \<noteq> st \<Longrightarrow> m q \<noteq> Some st \<Longrightarrow> count_status st (m(q \<mapsto> st')) = count_status st m"
    and "st' \<noteq> st \<Longrightarrow> m q = Some st \<Longrightarrow> Suc (count_status st (m(q \<mapsto> st'))) = count_status st m"
    and "m q = Some st \<Longrightarrow> Suc (count_status st (m(q := None))) = count_status st m"
    and "m q \<noteq> Some st \<Longrightarrow> count_status st (m(q := None)) = count_status st m"
proof -
  note fin = finite_status [OF assms]
  have ins: "{x. (m(q \<mapsto> st)) x = Some st} = insert q {x. m x = Some st}" by auto
  then show "m q \<noteq> Some st \<Longrightarrow> count_status st (m(q \<mapsto> st)) = Suc (count_status st m)"
    using fin by (simp add: count_status_def)
  have "st' \<noteq> st \<Longrightarrow> m q \<noteq> Some st \<Longrightarrow> {x. (m(q \<mapsto> st')) x = Some st} = {x. m x = Some st}" by auto
  then show "st' \<noteq> st \<Longrightarrow> m q \<noteq> Some st \<Longrightarrow> count_status st (m(q \<mapsto> st')) = count_status st m"
    by (simp add: count_status_def)
  have rem: "Suc (card ({x. m x = Some st} - {q})) = card {x. m x = Some st}" if "m q = Some st"
    using that fin by (intro card.remove [symmetric]) auto
  have "st' \<noteq> st \<Longrightarrow> {x. (m(q \<mapsto> st')) x = Some st} = {x. m x = Some st} - {q}" by auto
  then show "st' \<noteq> st \<Longrightarrow> m q = Some st \<Longrightarrow> Suc (count_status st (m(q \<mapsto> st'))) = count_status st m"
    using rem by (simp add: count_status_def)
  have "{x. (m(q := None)) x = Some st} = {x. m x = Some st} - {q}" by auto
  then show "m q = Some st \<Longrightarrow> Suc (count_status st (m(q := None))) = count_status st m"
    "m q \<noteq> Some st \<Longrightarrow> count_status st (m(q := None)) = count_status st m"
    using rem by (simp_all add: count_status_def)
qed

lemma ledger_used_sum: "finite (dom m) \<Longrightarrow> ledger_used m = count_status Reserved m + count_status Charged m"
proof -
  assume fin: "finite (dom m)"
  have "dom m = {q. m q = Some Reserved} \<union> {q. m q = Some Charged}"
    by (auto simp: dom_def) (metis status.exhaust)
  then show ?thesis
    unfolding ledger_used_def count_status_def
    using finite_status [OF fin] by (simp add: card_Un_disjoint disjoint_iff)
qed

lemma ledger_used_upd: "finite (dom m) \<Longrightarrow> m q = None \<Longrightarrow> ledger_used (m(q \<mapsto> st)) = Suc (ledger_used m)"
  by (simp add: ledger_used_def domIff)

text \<open>The contract keeps the limit, and a request never holds two units.\<close>

lemma ledger_reserve_limit:
  "finite (dom m) \<Longrightarrow> int (ledger_used m) \<le> limit \<Longrightarrow> int (ledger_used (snd (ledger_reserve limit q m))) \<le> limit"
  by (auto simp: ledger_reserve_def ledger_used_upd)

lemma ledger_settle_used: "finite (dom m) \<Longrightarrow> ledger_used (ledger_settle q outcome m) \<le> ledger_used m"
  by (auto simp: ledger_settle_def ledger_used_def insert_absorb domI card_Diff1_le)

section \<open>Reading the hash\<close>

definition is_request :: "string \<Rightarrow> bool" where
  "is_request f \<longleftrightarrow> has_prefix f ''request:''"

definition ledger_of :: "(string \<rightharpoonup> blob) \<Rightarrow> ledger" where
  "ledger_of h f =
     (if \<not> is_request f then None
      else if h f = Some st_reserved then Some Reserved
      else if h f = Some st_delivered then Some Charged else None)"

text \<open>The hash is a ledger: its counters count, its requests are in one of the two states.\<close>

definition ledger_wf :: "(string \<rightharpoonup> blob) \<Rightarrow> bool" where
  "ledger_wf h \<longleftrightarrow>
     finite (dom h) \<and>
     (\<forall>f. is_request f \<longrightarrow> h f = None \<or> h f = Some st_reserved \<or> h f = Some st_delivered) \<and>
     num_of (h f_committed) = Some (int (count_status Charged (ledger_of h))) \<and>
     num_of (h f_reserved) = Some (int (count_status Reserved (ledger_of h))) \<and>
     (\<exists>v. num_of (h f_revision) = Some v)"

definition ledger_revision :: "(string \<rightharpoonup> blob) \<Rightarrow> int" where
  "ledger_revision h = the (num_of (h f_revision))"

lemma status_neq [simp]: "st_reserved \<noteq> st_delivered" "st_delivered \<noteq> st_reserved"
  by (simp_all add: st_reserved_def st_delivered_def)

lemma outcome_neq [simp]:
  "outcome_delivered \<noteq> outcome_failed" "outcome_failed \<noteq> outcome_delivered"
  "outcome_pending \<noteq> outcome_delivered" "outcome_delivered \<noteq> outcome_pending"
  "outcome_pending \<noteq> outcome_failed" "outcome_failed \<noteq> outcome_pending"
  by (simp_all add: outcome_defs)

lemma field_neq [simp]:
  "f_committed \<noteq> f_reserved" "f_reserved \<noteq> f_committed" "f_committed \<noteq> f_revision"
  "f_revision \<noteq> f_committed" "f_reserved \<noteq> f_revision" "f_revision \<noteq> f_reserved"
  by (simp_all add: f_committed_def f_reserved_def f_revision_def)

lemma counter_not_request [simp]:
  "\<not> is_request f_committed" "\<not> is_request f_reserved" "\<not> is_request f_revision"
  by (simp_all add: is_request_def has_prefix_def f_committed_def f_reserved_def f_revision_def)

lemma request_neq [simp]:
  assumes "is_request q"
  shows "q \<noteq> f_committed" "q \<noteq> f_reserved" "q \<noteq> f_revision"
    "f_committed \<noteq> q" "f_reserved \<noteq> q" "f_revision \<noteq> q"
  using assms counter_not_request by blast+

lemma request_field_request: "is_request (request_field R x)"
  unfolding is_request_def request_field_def by (rule has_prefix_append)

lemma ledger_of_counter [simp]: "\<not> is_request f \<Longrightarrow> ledger_of (h(f := x)) = ledger_of h"
  by (rule ext) (simp add: ledger_of_def)

lemma ledger_of_upd [simp]:
  assumes "is_request q"
  shows "ledger_of (h(q \<mapsto> st_reserved)) = (ledger_of h)(q \<mapsto> Reserved)"
    and "ledger_of (h(q \<mapsto> st_delivered)) = (ledger_of h)(q \<mapsto> Charged)"
    and "ledger_of (h(q := None)) = (ledger_of h)(q := None)"
  using assms by (auto simp: ledger_of_def fun_eq_iff)

lemma ledger_of_empty [simp]: "ledger_of Map.empty = Map.empty"
  by (rule ext) (simp add: ledger_of_def)

lemma ledger_wf_empty: "ledger_wf Map.empty"
  by (simp add: ledger_wf_def num_of_def count_status_def)

lemma finite_ledger: "ledger_wf h \<Longrightarrow> finite (dom (ledger_of h))"
  by (rule finite_subset [of _ "dom h"]) (auto simp: ledger_wf_def ledger_of_def split: if_splits)

lemma ledger_None: "ledger_wf h \<Longrightarrow> is_request q \<Longrightarrow> ledger_of h q = None \<longleftrightarrow> h q = None"
  by (auto simp: ledger_wf_def ledger_of_def)

lemma ledger_Reserved: "is_request q \<Longrightarrow> ledger_of h q = Some Reserved \<longleftrightarrow> h q = Some st_reserved"
  by (auto simp: ledger_of_def)

lemma ledger_counters:
  assumes "ledger_wf h"
  shows "num_of (h f_committed) = Some (int (count_status Charged (ledger_of h)))"
    and "num_of (h f_reserved) = Some (int (count_status Reserved (ledger_of h)))"
    and "num_of (h f_revision) = Some (ledger_revision h)"
    and "lua_add (num_of (h f_committed)) (num_of (h f_reserved)) = Some (int (ledger_used (ledger_of h)))"
  using assms by (auto simp: ledger_wf_def ledger_revision_def lua_add_def
      ledger_used_sum [OF finite_ledger [OF assms]])

lemma num_of_Num [simp]: "num_of (Some (Num n)) = Some n"
  by (simp add: num_of_def)

subsection \<open>The three updates of the scripts\<close>

lemma ledger_wf_reserve:
  fixes v :: int
  assumes wf: "ledger_wf h" and q: "is_request q" "h q = None"
  defines "h' \<equiv> h(q \<mapsto> st_reserved, f_reserved \<mapsto> Num (int (count_status Reserved (ledger_of h)) + 1),
                 f_revision \<mapsto> Num v)"
  shows "ledger_wf h'" and "ledger_of h' = (ledger_of h)(q \<mapsto> Reserved)"
proof -
  note fin = finite_ledger [OF wf]
  have none: "ledger_of h q = None" using ledger_None [OF wf q(1)] q(2) by simp
  show l: "ledger_of h' = (ledger_of h)(q \<mapsto> Reserved)" unfolding h'_def using q(1) by simp
  have c: "count_status Reserved (ledger_of h') = Suc (count_status Reserved (ledger_of h))"
    "count_status Charged (ledger_of h') = count_status Charged (ledger_of h)"
    unfolding l using none fin by (simp_all add: count_status_upd)
  show "ledger_wf h'"
    unfolding ledger_wf_def c using wf q
    by (auto simp: h'_def ledger_wf_def)
qed

lemma ledger_wf_deliver:
  fixes v :: int
  assumes wf: "ledger_wf h" and q: "is_request q" "h q = Some st_reserved"
  defines "h' \<equiv> h(f_reserved \<mapsto> Num (int (count_status Reserved (ledger_of h)) - 1),
                 f_committed \<mapsto> Num (int (count_status Charged (ledger_of h)) + 1),
                 q \<mapsto> st_delivered, f_revision \<mapsto> Num v)"
  shows "ledger_wf h'" and "ledger_of h' = (ledger_of h)(q \<mapsto> Charged)"
proof -
  note fin = finite_ledger [OF wf]
  have res: "ledger_of h q = Some Reserved" using ledger_Reserved [OF q(1)] q(2) by simp
  show l: "ledger_of h' = (ledger_of h)(q \<mapsto> Charged)" unfolding h'_def using q(1) by simp
  have c: "Suc (count_status Reserved (ledger_of h')) = count_status Reserved (ledger_of h)"
    "count_status Charged (ledger_of h') = Suc (count_status Charged (ledger_of h))"
    unfolding l using res fin by (simp_all add: count_status_upd)
  have "int (count_status Reserved (ledger_of h)) - 1 = int (count_status Reserved (ledger_of h'))"
    using c(1) by linarith
  moreover have "h' f_reserved = Some (Num (int (count_status Reserved (ledger_of h)) - 1))"
    unfolding h'_def using q(1) by simp
  ultimately have r: "num_of (h' f_reserved) = Some (int (count_status Reserved (ledger_of h')))"
    by simp
  show "ledger_wf h'"
    unfolding ledger_wf_def c(2) r using wf q by (auto simp: h'_def ledger_wf_def)
qed

lemma ledger_wf_release:
  fixes v :: int
  assumes wf: "ledger_wf h" and q: "is_request q" "h q = Some st_reserved"
  defines "h' \<equiv> h(f_reserved \<mapsto> Num (int (count_status Reserved (ledger_of h)) - 1),
                 q := None, f_revision \<mapsto> Num v)"
  shows "ledger_wf h'" and "ledger_of h' = (ledger_of h)(q := None)"
proof -
  note fin = finite_ledger [OF wf]
  have res: "ledger_of h q = Some Reserved" using ledger_Reserved [OF q(1)] q(2) by simp
  show l: "ledger_of h' = (ledger_of h)(q := None)" unfolding h'_def using q(1) by simp
  have c: "Suc (count_status Reserved (ledger_of h')) = count_status Reserved (ledger_of h)"
    "count_status Charged (ledger_of h') = count_status Charged (ledger_of h)"
    unfolding l using res fin by (simp_all add: count_status_upd)
  have "int (count_status Reserved (ledger_of h)) - 1 = int (count_status Reserved (ledger_of h'))"
    using c(1) by linarith
  moreover have "h' f_reserved = Some (Num (int (count_status Reserved (ledger_of h)) - 1))"
    unfolding h'_def using q(1) by simp
  ultimately have r: "num_of (h' f_reserved) = Some (int (count_status Reserved (ledger_of h')))"
    by simp
  show "ledger_wf h'"
    unfolding ledger_wf_def c(2) r using wf q by (auto simp: h'_def ledger_wf_def)
qed

section \<open>The scripts refine the contract\<close>

text \<open>A key of the view holds a ledger that has seen the requests of \<open>m\<close>.\<close>

definition ledger_at :: "keyspace \<Rightarrow> string \<Rightarrow> ledger \<Rightarrow> bool" where
  "ledger_at ks key m \<longleftrightarrow>
     is_hash_key ks key \<and> ledger_wf (hash_of ks key) \<and> ledger_of (hash_of ks key) = m"

definition revision_at :: "keyspace \<Rightarrow> string \<Rightarrow> int" where
  "revision_at ks key = ledger_revision (hash_of ks key)"

text \<open>The answer of the reserve script for a contract step.\<close>

definition reserve_reply :: "bool \<times> ledger \<Rightarrow> string \<Rightarrow> int \<Rightarrow> reply list" where
  "reserve_reply am source revision =
     [RInt (if fst am then 1 else 0), RInt (int (ledger_used (snd am))), RText source, RInt revision]"

text \<open>
  Lua numbers are doubles, so a counter is exact up to \<open>2 ^ 53\<close>; the lemmas ask for counters
  below it.
\<close>

definition lua_exact :: "int \<Rightarrow> bool" where
  "lua_exact n \<longleftrightarrow> \<bar>n\<bar> < 2 ^ 53"

lemma lua_exact_int64:
  "lua_exact n \<Longrightarrow> in_int64 n" "lua_exact n \<Longrightarrow> in_int64 (n + 1)" "lua_exact n \<Longrightarrow> in_int64 (n - 1)"
  by (auto simp: lua_exact_def in_int64_def)

lemma lua_exact_room: "lua_exact n \<Longrightarrow> 0 \<le> k \<Longrightarrow> k < n \<Longrightarrow> in_int64 (k + 1)"
  by (auto simp: lua_exact_def in_int64_def)

lemma lua_exact_pred: "lua_exact n \<Longrightarrow> 0 < k \<Longrightarrow> k \<le> n \<Longrightarrow> in_int64 (k + - 1)"
  by (auto simp: lua_exact_def in_int64_def)

lemma num_of_Raw: "b = Some (Raw x) \<Longrightarrow> num_of b = None"
  by (simp add: num_of_def)

lemma ledger_atD:
  assumes "ledger_at ks key m"
  shows "is_hash_key ks key" "ledger_wf (hash_of ks key)" "ledger_of (hash_of ks key) = m"
    "finite (dom m)"
    "num_of (hash_of ks key f_committed) = Some (int (count_status Charged m))"
    "num_of (hash_of ks key f_reserved) = Some (int (count_status Reserved m))"
    "num_of (hash_of ks key f_revision) = Some (revision_at ks key)"
    "int (count_status Charged m) + int (count_status Reserved m) = int (ledger_used m)"
    "is_request f \<Longrightarrow> (hash_of ks key f = None \<longleftrightarrow> m f = None)"
    "is_request f \<Longrightarrow> (hash_of ks key f = Some st_reserved \<longleftrightarrow> m f = Some Reserved)"
proof -
  from assms show h: "is_hash_key ks key" "ledger_wf (hash_of ks key)" "ledger_of (hash_of ks key) = m"
    by (simp_all add: ledger_at_def)
  show fin: "finite (dom m)" using finite_ledger [OF h(2)] h(3) by simp
  show "num_of (hash_of ks key f_committed) = Some (int (count_status Charged m))"
    "num_of (hash_of ks key f_reserved) = Some (int (count_status Reserved m))"
    "num_of (hash_of ks key f_revision) = Some (revision_at ks key)"
    using ledger_counters [OF h(2)] h(3) by (simp_all add: revision_at_def)
  show "int (count_status Charged m) + int (count_status Reserved m) = int (ledger_used m)"
    using ledger_used_sum [OF fin] by simp
  show "is_request f \<Longrightarrow> (hash_of ks key f = None \<longleftrightarrow> m f = None)"
    using ledger_None [OF h(2)] h(3) by simp
  show "is_request f \<Longrightarrow> (hash_of ks key f = Some st_reserved \<longleftrightarrow> m f = Some Reserved)"
    using ledger_Reserved h(3) by blast
qed

lemma ledger_at_value:
  "value_at ks' key = value_at ks key \<Longrightarrow> ledger_at ks' key m = ledger_at ks key m"
  "value_at ks' key = value_at ks key \<Longrightarrow> revision_at ks' key = revision_at ks key"
  by (simp_all add: ledger_at_def revision_at_def typed_defs)

lemma ledger_at_missing: "value_at ks key = None \<Longrightarrow> ledger_at ks key Map.empty \<and> revision_at ks key = 0"
  by (simp add: ledger_at_def revision_at_def typed_defs ledger_wf_empty ledger_revision_def num_of_def)

lemma ledger_at_hash:
  "ledger_wf h \<Longrightarrow> ledger_at (store key (RHash h) ks) key (ledger_of h)"
  "num_of (h f_revision) = Some v \<Longrightarrow> revision_at (store key (RHash h) ks) key = v"
  by (simp_all add: ledger_at_def revision_at_def ledger_revision_def redis_simps)

context redis_service
begin

lemma reserve_script_recorded:
  assumes "ledger_at (r_view R s) key m" and "is_request q" and "m q \<noteq> None"
  shows "reserve_script R key previous q limit expires previous_expires s =
      (Some (reserve_reply (True, m) ''current'' (revision_at (r_view R s) key)), r_expireat R key expires s)"
proof -
  have "hash_of (r_view R s) key q \<noteq> None" using ledger_atD(9) [OF assms(1,2)] assms(3) by simp
  then obtain b where "hash_of (r_view R s) key q = Some b" by blast
  then show ?thesis using ledger_atD [OF assms(1)]
    by (simp add: reserve_script_def Let_def hget reserve_reply_def nil_or_int_def lua_add_def)
qed

lemma reserve_script_previous:
  assumes "ledger_at (r_view R s) key m" "ledger_at (r_view R s) previous mp"
    and "is_request q" "m q = None" "mp q \<noteq> None"
  shows "reserve_script R key previous q limit expires previous_expires s =
      (Some (reserve_reply (True, m) ''previous'' (revision_at (r_view R s) key)),
       r_expireat R previous previous_expires s)"
proof -
  have "hash_of (r_view R s) previous q \<noteq> None" using ledger_atD(9) [OF assms(2,3)] assms(5) by simp
  then obtain b where "hash_of (r_view R s) previous q = Some b" by blast
  then show ?thesis using ledger_atD [OF assms(1)] ledger_atD(1) [OF assms(2)] assms(3,4)
    by (simp add: reserve_script_def Let_def hget reserve_reply_def nil_or_int_def lua_add_def)
qed

lemma reserve_script_exhausted:
  assumes "ledger_at (r_view R s) key m" "ledger_at (r_view R s) previous mp"
    and "is_request q" "m q = None" "mp q = None" "limit \<le> int (ledger_used m)"
  shows "reserve_script R key previous q limit expires previous_expires s =
      (Some (reserve_reply (False, m) ''exhausted'' (revision_at (r_view R s) key)), s)"
  using ledger_atD [OF assms(1)] ledger_atD [OF assms(2)] assms(3-)
  by (simp add: reserve_script_def Let_def hget reserve_reply_def nil_or_int_def lua_add_def)

lemma reserve_script_fresh:
  assumes at: "ledger_at (r_view R s) key m" "ledger_at (r_view R s) previous mp"
    and q: "is_request q" "m q = None" "mp q = None" and room: "int (ledger_used m) < limit"
    and exact: "lua_exact limit" "lua_exact (revision_at (r_view R s) key)"
  obtains s' h where
    "reserve_script R key previous q limit expires previous_expires s =
      (Some (reserve_reply (True, m(q \<mapsto> Reserved)) ''current'' (revision_at (r_view R s) key + 1)),
       r_expireat R key expires s')"
    "r_clock R s' = r_clock R s"
    "r_view R s' = store key (RHash h) (r_view R s)"
    "ledger_wf h" "ledger_of h = m(q \<mapsto> Reserved)"
    "num_of (h f_revision) = Some (revision_at (r_view R s) key + 1)"
proof -
  let ?h = "hash_of (r_view R s) key"
  note d = ledger_atD [OF at(1)] and dp = ledger_atD [OF at(2)]
  define s1 where "s1 = r_hset R key q st_reserved s"
  define s2 where "s2 = snd (r_hincrby R key f_reserved 1 s1)"
  define s3 where "s3 = snd (r_hincrby R key f_revision 1 s2)"
  define h3 where "h3 = ?h(q \<mapsto> st_reserved, f_reserved \<mapsto> Num (int (count_status Reserved m) + 1),
    f_revision \<mapsto> Num (revision_at (r_view R s) key + 1))"
  have used: "0 \<le> int (count_status Charged m)" by simp
  have in1: "in_int64 (int (count_status Reserved m) + 1)"
    by (rule lua_exact_room [OF exact(1)]) (use d(8) room used in linarith)+
  have in2: "in_int64 (revision_at (r_view R s) key + 1)" using exact(2) by (rule lua_exact_int64)
  have v1: "r_view R s1 = store key (RHash (?h(q \<mapsto> st_reserved))) (r_view R s)"
    using d(1) by (simp add: s1_def redis_simps)
  have i2: "fst (r_hincrby R key f_reserved 1 s1) = int (count_status Reserved m) + 1"
    by (rule hincrby) (use d(6) q(1) in1 in \<open>simp_all add: v1 redis_simps\<close>)
  have "r_view R s2 = store key (RHash ((hash_of (r_view R s1) key)
      (f_reserved \<mapsto> Num (int (count_status Reserved m) + 1)))) (r_view R s1)"
    unfolding s2_def by (rule hincrby_view) (use d(6) q(1) in1 in \<open>simp_all add: v1 redis_simps\<close>)
  then have v2: "r_view R s2 = store key (RHash (?h(q \<mapsto> st_reserved,
      f_reserved \<mapsto> Num (int (count_status Reserved m) + 1)))) (r_view R s)"
    by (simp add: v1 redis_simps)
  have i3: "fst (r_hincrby R key f_revision 1 s2) = revision_at (r_view R s) key + 1"
    by (rule hincrby) (use d(7) q(1) in2 in \<open>simp_all add: v2 redis_simps\<close>)
  have "r_view R s3 = store key (RHash ((hash_of (r_view R s2) key)
      (f_revision \<mapsto> Num (revision_at (r_view R s) key + 1)))) (r_view R s2)"
    unfolding s3_def by (rule hincrby_view) (use d(7) q(1) in2 in \<open>simp_all add: v2 redis_simps\<close>)
  then have v3: "r_view R s3 = store key (RHash h3) (r_view R s)"
    by (simp add: v2 h3_def redis_simps)
  have c3: "r_clock R s3 = r_clock R s" by (simp add: s3_def s2_def s1_def redis_simps)
  have wf: "ledger_wf h3" "ledger_of h3 = m(q \<mapsto> Reserved)"
    using ledger_wf_reserve [OF d(2) q(1), of "revision_at (r_view R s) key + 1"] d(3,9) q
    by (simp_all add: h3_def)
  have "reserve_script R key previous q limit expires previous_expires s =
      (Some (reserve_reply (True, m(q \<mapsto> Reserved)) ''current'' (revision_at (r_view R s) key + 1)),
       r_expireat R key expires s3)"
    using d dp q room i2 i3
    by (simp add: reserve_script_def Let_def hget reserve_reply_def nil_or_int_def lua_add_def
        s1_def [symmetric] split_beta s2_def [symmetric] s3_def [symmetric] ledger_used_upd)
  moreover have "num_of (h3 f_revision) = Some (revision_at (r_view R s) key + 1)"
    using q(1) by (simp add: h3_def)
  ultimately show ?thesis using that [OF _ c3 v3 wf] by blast
qed

text \<open>Settling: no effect unless the request is held and the outcome is final.\<close>

lemma settle_script_idle:
  assumes "ledger_at (r_view R s) key m" "is_request q"
    and "m q \<noteq> Some Reserved \<or> outcome \<noteq> outcome_delivered \<and> outcome \<noteq> outcome_failed"
  shows "settle_script R key q outcome expires s =
      (Some [RInt (int (ledger_used m)), RInt (revision_at (r_view R s) key)],
       if r_exists R key s then r_expireat R key expires s else s)"
  using ledger_atD [OF assms(1)] assms(2,3)
  by (auto simp add: settle_script_def Let_def hget nil_or_int_def lua_add_def)

lemma settle_script_deliver:
  assumes at: "ledger_at (r_view R s) key m"
    and q: "is_request q" "m q = Some Reserved"
    and exact: "lua_exact (int (ledger_used m))" "lua_exact (revision_at (r_view R s) key)"
  obtains s' h where
    "settle_script R key q outcome_delivered expires s =
      (Some [RInt (int (ledger_used m)), RInt (revision_at (r_view R s) key + 1)],
       r_expireat R key expires s')"
    "r_clock R s' = r_clock R s"
    "r_view R s' = store key (RHash h) (r_view R s)"
    "ledger_wf h" "ledger_of h = m(q \<mapsto> Charged)"
    "num_of (h f_revision) = Some (revision_at (r_view R s) key + 1)"
proof -
  let ?h = "hash_of (r_view R s) key"
  note d = ledger_atD [OF at]
  define s1 where "s1 = snd (r_hincrby R key f_reserved (- 1) s)"
  define s2 where "s2 = snd (r_hincrby R key f_committed 1 s1)"
  define s3 where "s3 = r_hset R key q st_delivered s2"
  define s4 where "s4 = snd (r_hincrby R key f_revision 1 s3)"
  define h1 where "h1 = ?h(f_reserved \<mapsto> Num (int (count_status Reserved m) - 1))"
  define h2 where "h2 = h1(f_committed \<mapsto> Num (int (count_status Charged m) + 1))"
  define h4 where "h4 = h2(q \<mapsto> st_delivered, f_revision \<mapsto> Num (revision_at (r_view R s) key + 1))"
  have pos: "0 < count_status Reserved m"
    using count_status_upd(4) [OF d(4) q(2)] by linarith
  have in1: "in_int64 (int (count_status Reserved m) + - 1)"
    by (rule lua_exact_pred [OF exact(1)]) (use d(8) pos in linarith)+
  have in2: "in_int64 (int (count_status Charged m) + 1)"
    by (rule lua_exact_room [OF exact(1)]) (use d(8) pos in linarith)+
  have in4: "in_int64 (revision_at (r_view R s) key + 1)" using exact(2) by (rule lua_exact_int64)
  have qh: "?h q = Some st_reserved" using d(10) q by simp
  have i1: "fst (r_hincrby R key f_reserved (- 1) s) = int (count_status Reserved m) - 1"
    using hincrby [OF d(1,6) in1] by simp
  have v1: "r_view R s1 = store key (RHash h1) (r_view R s)"
    using hincrby_view [OF d(1,6) in1] by (simp add: s1_def h1_def)
  have i2: "fst (r_hincrby R key f_committed 1 s1) = int (count_status Charged m) + 1"
    by (rule hincrby) (use d(5) in2 in \<open>simp_all add: v1 redis_simps h1_def\<close>)
  have "r_view R s2 = store key (RHash ((hash_of (r_view R s1) key)
      (f_committed \<mapsto> Num (int (count_status Charged m) + 1)))) (r_view R s1)"
    unfolding s2_def by (rule hincrby_view) (use d(5) in2 in \<open>simp_all add: v1 redis_simps h1_def\<close>)
  then have v2: "r_view R s2 = store key (RHash h2) (r_view R s)"
    by (simp add: v1 h2_def redis_simps)
  have v3: "r_view R s3 = store key (RHash (h2(q \<mapsto> st_delivered))) (r_view R s)"
    by (simp add: s3_def v2 redis_simps)
  have i4: "fst (r_hincrby R key f_revision 1 s3) = revision_at (r_view R s) key + 1"
    by (rule hincrby) (use d(7) q(1) in4 in \<open>simp_all add: v3 redis_simps h1_def h2_def\<close>)
  have "r_view R s4 = store key (RHash ((hash_of (r_view R s3) key)
      (f_revision \<mapsto> Num (revision_at (r_view R s) key + 1)))) (r_view R s3)"
    unfolding s4_def
    by (rule hincrby_view) (use d(7) q(1) in4 in \<open>simp_all add: v3 redis_simps h1_def h2_def\<close>)
  then have v4: "r_view R s4 = store key (RHash h4) (r_view R s)"
    by (simp add: v3 h4_def redis_simps)
  have c4: "r_clock R s4 = r_clock R s"
    by (simp add: s4_def s3_def s2_def s1_def redis_simps)
  have wf: "ledger_wf h4" "ledger_of h4 = m(q \<mapsto> Charged)"
    using ledger_wf_deliver [OF d(2) q(1) qh, of "revision_at (r_view R s) key + 1"] d(3)
    by (simp_all add: h4_def h2_def h1_def)
  have rv: "num_of (h4 f_revision) = Some (revision_at (r_view R s) key + 1)"
    using q(1) by (simp add: h4_def)
  have ex: "r_exists R key s4" by (simp add: exists v4 redis_simps)
  have "settle_script R key q outcome_delivered expires s =
      (Some [RInt (int (ledger_used m)), RInt (revision_at (r_view R s) key + 1)],
       r_expireat R key expires s4)"
    using d(1,5,6,7,8) qh i1 i2 i4 ex pos
    by (simp add: settle_script_def Let_def hget nil_or_int_def lua_add_def split_beta
        s1_def [symmetric] s2_def [symmetric] s3_def [symmetric] s4_def [symmetric])
  then show ?thesis using that [OF _ c4 v4 wf rv] by blast
qed

lemma settle_script_release:
  assumes at: "ledger_at (r_view R s) key m"
    and q: "is_request q" "m q = Some Reserved"
    and exact: "lua_exact (int (ledger_used m))" "lua_exact (revision_at (r_view R s) key)"
  obtains s' h where
    "settle_script R key q outcome_failed expires s =
      (Some [RInt (int (ledger_used (m(q := None)))), RInt (revision_at (r_view R s) key + 1)],
       r_expireat R key expires s')"
    "r_clock R s' = r_clock R s"
    "r_view R s' = store key (RHash h) (r_view R s)"
    "ledger_wf h" "ledger_of h = m(q := None)"
    "num_of (h f_revision) = Some (revision_at (r_view R s) key + 1)"
proof -
  let ?h = "hash_of (r_view R s) key"
  note d = ledger_atD [OF at]
  define s1 where "s1 = snd (r_hincrby R key f_reserved (- 1) s)"
  define s2 where "s2 = r_hdel R key q s1"
  define s3 where "s3 = snd (r_hincrby R key f_revision 1 s2)"
  define h1 where "h1 = ?h(f_reserved \<mapsto> Num (int (count_status Reserved m) - 1))"
  define h3 where "h3 = h1(q := None, f_revision \<mapsto> Num (revision_at (r_view R s) key + 1))"
  have pos: "0 < count_status Reserved m"
    using count_status_upd(4) [OF d(4) q(2)] by linarith
  have in1: "in_int64 (int (count_status Reserved m) + - 1)"
    by (rule lua_exact_pred [OF exact(1)]) (use d(8) pos in linarith)+
  have in3: "in_int64 (revision_at (r_view R s) key + 1)" using exact(2) by (rule lua_exact_int64)
  have qh: "?h q = Some st_reserved" using d(10) q by simp
  have i1: "fst (r_hincrby R key f_reserved (- 1) s) = int (count_status Reserved m) - 1"
    using hincrby [OF d(1,6) in1] by simp
  have v1: "r_view R s1 = store key (RHash h1) (r_view R s)"
    using hincrby_view [OF d(1,6) in1] by (simp add: s1_def h1_def)
  have "f_reserved \<in> dom (h1(q := None))" using q(1) by (simp add: h1_def dom_def)
  then have "dom (h1(q := None)) \<noteq> {}" by blast
  then have v2: "r_view R s2 = store key (RHash (h1(q := None))) (r_view R s)"
    by (simp add: s2_def v1 redis_simps Let_def no_fields_def del: dom_eq_empty_conv)
  have i3: "fst (r_hincrby R key f_revision 1 s2) = revision_at (r_view R s) key + 1"
    by (rule hincrby) (use d(7) q(1) in3 in \<open>simp_all add: v2 redis_simps h1_def\<close>)
  have "r_view R s3 = store key (RHash ((hash_of (r_view R s2) key)
      (f_revision \<mapsto> Num (revision_at (r_view R s) key + 1)))) (r_view R s2)"
    unfolding s3_def
    by (rule hincrby_view) (use d(7) q(1) in3 in \<open>simp_all add: v2 redis_simps h1_def\<close>)
  then have v3: "r_view R s3 = store key (RHash h3) (r_view R s)"
    by (simp add: v2 h3_def redis_simps)
  have c3: "r_clock R s3 = r_clock R s"
    by (simp add: s3_def s2_def s1_def redis_simps)
  have wf: "ledger_wf h3" "ledger_of h3 = m(q := None)"
    using ledger_wf_release [OF d(2) q(1) qh, of "revision_at (r_view R s) key + 1"] d(3)
    by (simp_all add: h3_def h1_def)
  have rv: "num_of (h3 f_revision) = Some (revision_at (r_view R s) key + 1)"
    using q(1) by (simp add: h3_def)
  have ex: "r_exists R key s3" by (simp add: exists v3 redis_simps)
  have used: "int (ledger_used (m(q := None))) = int (ledger_used m) - 1"
  proof -
    have "finite (dom (m(q := None)))" using d(4) by simp
    moreover have "count_status Charged (m(q := None)) = count_status Charged m"
      by (rule count_status_upd(5) [OF d(4)]) (simp add: q(2))
    ultimately show ?thesis
      using count_status_upd(4) [OF d(4) q(2)] ledger_used_sum d(8) by fastforce
  qed
  have "settle_script R key q outcome_failed expires s =
      (Some [RInt (int (ledger_used (m(q := None)))), RInt (revision_at (r_view R s) key + 1)],
       r_expireat R key expires s3)"
    using d(1,5,6,7,8) qh i1 i3 ex pos used
    by (simp add: settle_script_def Let_def hget nil_or_int_def lua_add_def split_beta
        s1_def [symmetric] s2_def [symmetric] s3_def [symmetric])
  then show ?thesis using that [OF _ c3 v3 wf rv] by blast
qed

lemma snapshot_script_ledger:
  assumes "ledger_at (r_view R s) key m"
  shows "snapshot_script R key s =
    (Some [RInt (int (ledger_used m)), RInt (revision_at (r_view R s) key)], s)"
  using ledger_atD [OF assms]
  by (simp add: snapshot_script_def Let_def hget nil_or_int_def lua_add_def)

end

end
