(* ===== verification/Quota_Runs.thy ===== *)
theory Quota_Runs
  imports Quota_Ledger
begin

text \<open>
  The quota manager as its callers see it: each Go method against the abstract ledger, and
  the runs of any number of callers, with lost requests, lost replies and expiring keys.
  The run relation \<open>quota_run\<close> interleaves whole scripts, which is what Redis does: it runs a
  script to its end before the next command.
\<close>

section \<open>Keys of the day\<close>

lemma length_fmt_date: "layout_day d \<Longrightarrow> length (fmt_date d) = 10"
  using fmt_date_split [of d] by simp

lemma quota_key_inject:
  assumes "layout_day d" "layout_day d'"
  shows "quota_key q user d = quota_key q user' d' \<longleftrightarrow> user = user' \<and> d = d'"
proof
  assume "quota_key q user d = quota_key q user' d'"
  then have "(user @ '':'') @ fmt_date d = (user' @ '':'') @ fmt_date d'" by (simp add: quota_key_def)
  then have "user @ '':'' = user' @ '':'' \<and> fmt_date d = fmt_date d'"
    using assms by (simp add: length_fmt_date append_eq_append_conv)
  then show "user = user' \<and> d = d'" using assms fmt_date_inject by auto
qed simp

section \<open>What every script keeps\<close>

definition ledger_ok :: "int \<Rightarrow> int \<Rightarrow> keyspace \<Rightarrow> string \<Rightarrow> bool" where
  "ledger_ok limit n ks key \<longleftrightarrow>
     (\<exists>m. ledger_at ks key m \<and> int (ledger_used m) \<le> limit \<and>
          0 \<le> revision_at ks key \<and> revision_at ks key \<le> n)"

lemma ledger_okE:
  assumes "ledger_ok limit n ks key"
  obtains m where "ledger_at ks key m" "int (ledger_used m) \<le> limit"
    "0 \<le> revision_at ks key" "revision_at ks key \<le> n"
  using assms by (auto simp: ledger_ok_def)

lemma ledger_ok_value: "value_at ks' key = value_at ks key \<Longrightarrow> ledger_ok limit n ks' key = ledger_ok limit n ks key"
  using ledger_at_value [of ks' key ks] by (simp add: ledger_ok_def)

lemma ledger_ok_missing: "value_at ks key = None \<Longrightarrow> 0 \<le> limit \<Longrightarrow> 0 \<le> n \<Longrightarrow> ledger_ok limit n ks key"
proof -
  assume a: "value_at ks key = None" "0 \<le> limit" "0 \<le> n"
  have "int (ledger_used Map.empty) = 0" by (simp add: ledger_used_def)
  then show ?thesis
    unfolding ledger_ok_def using ledger_at_missing [OF a(1)] a(2,3) by (metis order_refl)
qed

lemma ledger_ok_mono: "ledger_ok limit n ks key \<Longrightarrow> n \<le> n' \<Longrightarrow> ledger_ok limit n' ks key"
  by (fastforce simp: ledger_ok_def)

lemma ledger_ok_nonneg: "ledger_ok limit n ks key \<Longrightarrow> 0 \<le> limit \<and> 0 \<le> n"
  by (auto simp: ledger_ok_def)

lemma ledger_ok_forget:
  assumes "ledger_ok limit n ks key" "value_at ks' key = value_at ks key \<or> value_at ks' key = None"
  shows "ledger_ok limit n ks' key"
  using assms ledger_ok_value [of ks' key ks limit n] ledger_ok_nonneg [OF assms(1)]
    ledger_ok_missing by blast

lemma ledger_ok_expire: "ledger_ok limit n ks key \<Longrightarrow> ledger_ok limit n (expire_key now k d ks) key"
  by (erule ledger_ok_forget) (auto simp: value_at_expire)

lemma ledger_ok_purge: "ledger_ok limit n ks key \<Longrightarrow> ledger_ok limit n (purge now ks) key"
  by (erule ledger_ok_forget) (auto simp: purge_value split: option.splits)

lemma ledger_ok_store:
  assumes "ledger_ok limit n ks k" "k = key \<Longrightarrow> ledger_wf h \<and> int (ledger_used (ledger_of h)) \<le> limit \<and>
     num_of (h f_revision) = Some v \<and> 0 \<le> v \<and> v \<le> n'" "n \<le> n'"
  shows "ledger_ok limit n' (store key (RHash h) ks) k"
proof (cases "k = key")
  case True
  then show ?thesis
    using assms(2) ledger_at_hash(1) [of h key ks] ledger_at_hash(2) [of h v key ks]
    by (auto simp: ledger_ok_def)
next
  case False
  then have "ledger_ok limit n (store key (RHash h) ks) k"
    using assms(1) ledger_ok_value [of "store key (RHash h) ks" k ks] by (simp add: redis_simps)
  then show ?thesis using assms(3) by (rule ledger_ok_mono)
qed

lemma lua_exact_le: "lua_exact n \<Longrightarrow> 0 \<le> k \<Longrightarrow> k \<le> n \<Longrightarrow> lua_exact k"
  by (auto simp: lua_exact_def)

context redis_service
begin

lemma reserve_script_ok:
  assumes ok: "ledger_ok limit n (r_view R s) key" "ledger_ok limit n (r_view R s) previous"
      "ledger_ok limit n (r_view R s) k"
    and q: "is_request q" and exact: "lua_exact limit" "lua_exact n"
  shows "ledger_ok limit (n + 1)
     (r_view R (snd (reserve_script R key previous q limit expires previous_expires s))) k"
proof -
  obtain m where m: "ledger_at (r_view R s) key m" "int (ledger_used m) \<le> limit"
    "0 \<le> revision_at (r_view R s) key" "revision_at (r_view R s) key \<le> n"
    using ok(1) by (rule ledger_okE)
  obtain mp where mp: "ledger_at (r_view R s) previous mp" using ok(2) by (rule ledger_okE)
  have ok': "ledger_ok limit (n + 1) (r_view R s) k" using ok(3) by (rule ledger_ok_mono) simp
  consider "m q \<noteq> None" | "m q = None" "mp q \<noteq> None"
    | "m q = None" "mp q = None" "limit \<le> int (ledger_used m)"
    | "m q = None" "mp q = None" "int (ledger_used m) < limit" by linarith
  then show ?thesis
  proof cases
    case 1
    then show ?thesis
      using ok' by (simp add: reserve_script_recorded [OF m(1) q] redis_simps ledger_ok_expire)
  next
    case 2
    then show ?thesis
      using ok' by (simp add: reserve_script_previous [OF m(1) mp q] redis_simps ledger_ok_expire)
  next
    case 3
    then show ?thesis using ok' by (simp add: reserve_script_exhausted [OF m(1) mp q])
  next
    case 4
    have rev: "lua_exact (revision_at (r_view R s) key)" using exact(2) m(3,4) by (rule lua_exact_le)
    obtain s' h where run: "reserve_script R key previous q limit expires previous_expires s =
        (Some (reserve_reply (True, m(q \<mapsto> Reserved)) ''current'' (revision_at (r_view R s) key + 1)),
         r_expireat R key expires s')" "r_clock R s' = r_clock R s"
        "r_view R s' = store key (RHash h) (r_view R s)"
      and h: "ledger_wf h" "ledger_of h = m(q \<mapsto> Reserved)"
        "num_of (h f_revision) = Some (revision_at (r_view R s) key + 1)"
      by (rule reserve_script_fresh [OF m(1) mp q 4 exact(1) rev])
    have "ledger_ok limit (n + 1) (r_view R s') k"
      unfolding run(3)
      by (rule ledger_ok_store [OF ok(3)])
        (use h m 4 ledger_used_upd [OF ledger_atD(4) [OF m(1)] 4(1)] in auto)
    then show ?thesis by (simp add: run(1) redis_simps ledger_ok_expire)
  qed
qed

lemma settle_script_ok:
  assumes ok: "ledger_ok limit n (r_view R s) key" "ledger_ok limit n (r_view R s) k"
    and q: "is_request q" and exact: "lua_exact limit" "lua_exact n"
  shows "ledger_ok limit (n + 1) (r_view R (snd (settle_script R key q outcome expires s))) k"
proof -
  obtain m where m: "ledger_at (r_view R s) key m" "int (ledger_used m) \<le> limit"
    "0 \<le> revision_at (r_view R s) key" "revision_at (r_view R s) key \<le> n"
    using ok(1) by (rule ledger_okE)
  have ok': "ledger_ok limit (n + 1) (r_view R s) k" using ok(2) by (rule ledger_ok_mono) simp
  have rev: "lua_exact (revision_at (r_view R s) key)" using exact(2) m(3,4) by (rule lua_exact_le)
  have used: "lua_exact (int (ledger_used m))" using exact(1) _ m(2) by (rule lua_exact_le) simp
  note fin = ledger_atD(4) [OF m(1)]
  have le: "int (ledger_used (ledger_settle q out m)) \<le> limit" for out
    using ledger_settle_used [OF fin, of q out] m(2) by linarith
  consider (idle) "m q \<noteq> Some Reserved \<or> outcome \<noteq> outcome_delivered \<and> outcome \<noteq> outcome_failed"
    | (deliver) "m q = Some Reserved" "outcome = outcome_delivered"
    | (release) "m q = Some Reserved" "outcome = outcome_failed" by blast
  then show ?thesis
  proof cases
    case idle
    then show ?thesis
      using ok' by (simp add: settle_script_idle [OF m(1) q] redis_simps ledger_ok_expire)
  next
    case deliver
    obtain s' h where run: "settle_script R key q outcome_delivered expires s =
        (Some [RInt (int (ledger_used m)), RInt (revision_at (r_view R s) key + 1)],
         r_expireat R key expires s')" "r_clock R s' = r_clock R s"
        "r_view R s' = store key (RHash h) (r_view R s)"
      and h: "ledger_wf h" "ledger_of h = m(q \<mapsto> Charged)"
        "num_of (h f_revision) = Some (revision_at (r_view R s) key + 1)"
      by (rule settle_script_deliver [OF m(1) q deliver(1) used rev])
    have "ledger_ok limit (n + 1) (r_view R s') k"
      unfolding run(3)
      by (rule ledger_ok_store [OF ok(2)])
        (use h m deliver le [of outcome_delivered] in \<open>auto simp: ledger_settle_def\<close>)
    then show ?thesis by (simp add: deliver run(1) redis_simps ledger_ok_expire)
  next
    case release
    obtain s' h where run: "settle_script R key q outcome_failed expires s =
        (Some [RInt (int (ledger_used (m(q := None)))), RInt (revision_at (r_view R s) key + 1)],
         r_expireat R key expires s')" "r_clock R s' = r_clock R s"
        "r_view R s' = store key (RHash h) (r_view R s)"
      and h: "ledger_wf h" "ledger_of h = m(q := None)"
        "num_of (h f_revision) = Some (revision_at (r_view R s) key + 1)"
      by (rule settle_script_release [OF m(1) q release(1) used rev])
    have "ledger_ok limit (n + 1) (r_view R s') k"
      unfolding run(3)
      by (rule ledger_ok_store [OF ok(2)])
        (use h m release le [of outcome_failed] in \<open>auto simp: ledger_settle_def\<close>)
    then show ?thesis by (simp add: release run(1) redis_simps ledger_ok_expire)
  qed
qed

lemma snapshot_script_state [simp]: "snd (snapshot_script R key s) = s"
  by (simp add: snapshot_script_def Let_def)

end

section \<open>One call against the contract\<close>

text \<open>What \<open>Reserve\<close> and \<open>Settle\<close> owe a caller whose round trip is answered.\<close>

definition issued_reservation :: "('s, 'z) env_scheme \<Rightarrow> quota \<Rightarrow> subject \<Rightarrow> string \<Rightarrow> day \<Rightarrow> reservation" where
  "issued_reservation R q subject request_id d =
     \<lparr>rs_subject = subject, rs_key = quota_key q (sj_user subject) d,
      rs_hash = request_field R request_id, rs_expires = day_start (d + 2), rs_unlimited = False\<rparr>"

lemma result_int_reply [simp]: "result_int scan (RInt n) = Inr n"
  by simp

lemma reserve_result_reply:
  "reserve_result scan q (reserve_reply (ok, m) source v) subject field (key, reset, expires)
      (previous_key, previous_expires) =
   (let snap = limited_snapshot q (int (ledger_used m)) v reset;
        (k, e) = (if source = ''previous'' then (previous_key, previous_expires) else (key, expires))
    in if ok then (\<lparr>rs_subject = subject, rs_key = k, rs_hash = field, rs_expires = e,
                     rs_unlimited = False\<rparr>, snap, None)
       else (zero_reservation, snap, Some ErrQuotaExhausted))"
  by (simp add: reserve_result_def reserve_reply_def Let_def)

lemma beijing_day_previous: "beijing_day (t - day_length) = beijing_day t - 1"
proof (rule beijing_day_unique)
  show "day_start (beijing_day t - 1) \<le> t - day_length" "t - day_length < day_start (beijing_day t - 1 + 1)"
    using beijing_day_bounds [of t] by (simp_all add: day_start_def algebra_simps)
qed

lemma window_day: "window q user now =
    (quota_key q user (beijing_day now), day_start (beijing_day now + 1), day_start (beijing_day now + 2))"
  by (simp add: window_def Let_def)

lemma window_previous: "window q user (now - day_length) =
    (quota_key q user (beijing_day now - 1), day_start (beijing_day now), day_start (beijing_day now + 1))"
  by (simp add: window_day beijing_day_previous add.commute)

lemma snapshot_of_reply: "snapshot_of scan q [RInt u, RInt v] reset = Inr (limited_snapshot q u v reset)"
  by (simp add: snapshot_of_def)

definition countable_subject :: "subject \<Rightarrow> bool" where
  "countable_subject subject \<longleftrightarrow> \<not> sj_admin subject \<and> trim_space (sj_user subject) \<noteq> []"

context go_env
begin

lemma reserve_unfold:
  assumes "countable_subject subject" "trim_space request_id \<noteq> []"
  shows "reserve R q subject request_id now s =
    (let d = beijing_day now; key = quota_key q (sj_user subject) d;
         previous = quota_key q (sj_user subject) (d - 1); field = request_field R request_id
     in case round_trip R (reserve_script R key previous field (q_limit q)
               (unix (day_start (d + 2))) (unix (day_start (d + 1)))) s of
          (Inl e, s') \<Rightarrow> ((zero_reservation, zero_snapshot, Some e), s')
        | (Inr result, s') \<Rightarrow>
            (reserve_result (env_scan_int R) q result subject field
               (key, day_start (d + 1), day_start (d + 2)) (previous, day_start (d + 1)), s'))"
  using assms unfolding reserve_def window_previous
  by (simp add: countable_subject_def window_day Let_def)

lemma reserve_script_contract:
  assumes today: "ledger_at (r_view R s1) key m" and before: "ledger_at (r_view R s1) previous mp" "mp f = None"
    and q: "is_request f" and exact: "lua_exact limit" "lua_exact (revision_at (r_view R s1) key)"
    and early: "r_clock R s1 < 1000 * expires"
    and res: "ledger_reserve limit f m = (ok, m')"
  shows "\<exists>v s' source. reserve_script R key previous f limit expires e' s1 =
        (Some (reserve_reply (ok, m') source v), s') \<and> source \<noteq> ''previous'' \<and>
      ledger_at (r_view R s') key m' \<and> same_but {key} (r_view R s1) (r_view R s')"
proof -
  have at_expire: "ledger_at (r_view R (r_expireat R key expires s')) key m'"
    if "ledger_at (r_view R s') key m'" "r_clock R s' = r_clock R s1" for s'
  proof -
    have "value_at (r_view R (r_expireat R key expires s')) key = value_at (r_view R s') key"
      using early that(2) by (simp add: redis_simps)
    then show ?thesis using that(1) ledger_at_value(1) by blast
  qed
  consider (rec) "m f \<noteq> None" "ok" "m' = m" | (full) "m f = None" "limit \<le> int (ledger_used m)" "\<not> ok" "m' = m"
    | (fresh) "m f = None" "int (ledger_used m) < limit" "ok" "m' = m(f \<mapsto> Reserved)"
    using res by (fastforce simp: ledger_reserve_def split: if_splits)
  then show ?thesis
  proof cases
    case rec
    then show ?thesis
      using reserve_script_recorded [OF today q rec(1)] today at_expire early by (auto simp: redis_simps)
  next
    case full
    then show ?thesis
      using reserve_script_exhausted [OF today before(1) q full(1) before(2) full(2)] today by auto
  next
    case fresh
    obtain s' h where sc: "reserve_script R key previous f limit expires e' s1 =
        (Some (reserve_reply (True, m(f \<mapsto> Reserved)) ''current'' (revision_at (r_view R s1) key + 1)),
         r_expireat R key expires s')"
      and c: "r_clock R s' = r_clock R s1" "r_view R s' = store key (RHash h) (r_view R s1)"
      and h: "ledger_wf h" "ledger_of h = m(f \<mapsto> Reserved)"
        "num_of (h f_revision) = Some (revision_at (r_view R s1) key + 1)"
      by (rule reserve_script_fresh [OF today before(1) q fresh(1) before(2) fresh(2) exact])
    have "ledger_at (r_view R s') key m'"
      using ledger_at_hash(1) [OF h(1), of key "r_view R s1"] h(2) c(2) fresh(4) by simp
    then have "ledger_at (r_view R (r_expireat R key expires s')) key m'" using c(1) by (rule at_expire)
    moreover have "same_but {key} (r_view R s1) (r_view R (r_expireat R key expires s'))"
      by (simp add: redis_simps c)
    ultimately show ?thesis
      unfolding sc using fresh(3,4) by (intro exI conjI) (auto simp del: redis_simps)
  qed
qed

lemma reserve_contract:
  assumes call: "countable_subject subject" "trim_space request_id \<noteq> []" "r_arrive R s = (Delivered, s1)"
    and today: "ledger_at (r_view R s1) (quota_key q (sj_user subject) (beijing_day now)) m"
    and before: "ledger_at (r_view R s1) (quota_key q (sj_user subject) (beijing_day now - 1)) mp"
      "mp (request_field R request_id) = None"
    and exact: "lua_exact (q_limit q)"
      "lua_exact (revision_at (r_view R s1) (quota_key q (sj_user subject) (beijing_day now)))"
    and early: "r_clock R s1 < 1000 * unix (day_start (beijing_day now + 2))"
    and res: "ledger_reserve (q_limit q) (request_field R request_id) m = (ok, m')"
  shows "\<exists>s' v. reserve R q subject request_id now s =
      ((if ok then issued_reservation R q subject request_id (beijing_day now) else zero_reservation,
        limited_snapshot q (int (ledger_used m')) v (day_start (beijing_day now + 1)),
        if ok then None else Some ErrQuotaExhausted), s') \<and>
      ledger_at (r_view R s') (quota_key q (sj_user subject) (beijing_day now)) m' \<and>
      same_but {quota_key q (sj_user subject) (beijing_day now)} (r_view R s1) (r_view R s')"
proof -
  let ?d = "beijing_day now"
  let ?key = "quota_key q (sj_user subject) ?d" and ?prev = "quota_key q (sj_user subject) (?d - 1)"
  let ?f = "request_field R request_id"
  obtain v s' source where r: "reserve_script R ?key ?prev ?f (q_limit q) (unix (day_start (?d + 2)))
        (unix (day_start (?d + 1))) s1 = (Some (reserve_reply (ok, m') source v), s')"
      "source \<noteq> ''previous''" "ledger_at (r_view R s') ?key m'" "same_but {?key} (r_view R s1) (r_view R s')"
    using reserve_script_contract [OF today before request_field_request exact early res] by blast
  have "reserve R q subject request_id now s =
      (reserve_result (env_scan_int R) q (reserve_reply (ok, m') source v) subject ?f
         (?key, day_start (?d + 1), day_start (?d + 2)) (?prev, day_start (?d + 1)), s')"
    unfolding reserve_unfold [OF call(1,2)] Let_def round_trip_served [OF call(3)] r(1) by simp
  then show ?thesis
    using r by (auto simp: reserve_result_reply Let_def issued_reservation_def)
qed

text \<open>A lost reply: the ledger has the request, the caller an error.\<close>

lemma reserve_lost_reply:
  assumes call: "countable_subject subject" "trim_space request_id \<noteq> []" "r_arrive R s = (LostReply, s1)"
    and today: "ledger_at (r_view R s1) (quota_key q (sj_user subject) (beijing_day now)) m"
    and before: "ledger_at (r_view R s1) (quota_key q (sj_user subject) (beijing_day now - 1)) mp"
      "mp (request_field R request_id) = None"
    and exact: "lua_exact (q_limit q)"
      "lua_exact (revision_at (r_view R s1) (quota_key q (sj_user subject) (beijing_day now)))"
    and early: "r_clock R s1 < 1000 * unix (day_start (beijing_day now + 2))"
    and res: "ledger_reserve (q_limit q) (request_field R request_id) m = (ok, m')"
  shows "\<exists>s'. reserve R q subject request_id now s = ((zero_reservation, zero_snapshot, Some ErrService), s') \<and>
      ledger_at (r_view R s') (quota_key q (sj_user subject) (beijing_day now)) m' \<and>
      same_but {quota_key q (sj_user subject) (beijing_day now)} (r_view R s1) (r_view R s')"
  using reserve_script_contract [OF today before request_field_request exact early res,
      of "unix (day_start (beijing_day now + 1))"]
  unfolding reserve_unfold [OF call(1,2)] Let_def round_trip_lost(2) [OF call(3)] by auto

text \<open>A request already held on the day before is answered from that day's ledger.\<close>

lemma reserve_previous_day:
  assumes call: "countable_subject subject" "trim_space request_id \<noteq> []" "r_arrive R s = (Delivered, s1)"
    and today: "ledger_at (r_view R s1) (quota_key q (sj_user subject) (beijing_day now)) m"
      "m (request_field R request_id) = None"
    and before: "ledger_at (r_view R s1) (quota_key q (sj_user subject) (beijing_day now - 1)) mp"
      "mp (request_field R request_id) \<noteq> None"
    and early: "r_clock R s1 < 1000 * unix (day_start (beijing_day now + 1))"
  shows "\<exists>s' v. reserve R q subject request_id now s =
      ((issued_reservation R q subject request_id (beijing_day now - 1),
        limited_snapshot q (int (ledger_used m)) v (day_start (beijing_day now + 1)), None), s') \<and>
      (\<forall>k. value_at (r_view R s') k = value_at (r_view R s1) k)"
proof -
  let ?d = "beijing_day now"
  let ?key = "quota_key q (sj_user subject) ?d" and ?prev = "quota_key q (sj_user subject) (?d - 1)"
  let ?f = "request_field R request_id"
  note run = reserve_script_previous [OF today(1) before(1) request_field_request today(2) before(2),
      of "q_limit q" "unix (day_start (?d + 2))" "unix (day_start (?d + 1))"]
  have "reserve R q subject request_id now s =
      (reserve_result (env_scan_int R) q (reserve_reply (True, m) ''previous'' (revision_at (r_view R s1) ?key))
         subject ?f (?key, day_start (?d + 1), day_start (?d + 2)) (?prev, day_start (?d + 1)),
       r_expireat R ?prev (unix (day_start (?d + 1))) s1)"
    unfolding reserve_unfold [OF call(1,2)] Let_def round_trip_served [OF call(3)] run by simp
  then show ?thesis
    using early by (auto simp: reserve_result_reply Let_def issued_reservation_def redis_simps add.commute)
qed

lemma settle_contract:
  assumes res: "countable_subject (rs_subject res)" "\<not> rs_unlimited res" "is_request (rs_hash res)"
      "rs_key res = quota_key q (sj_user (rs_subject res)) (beijing_day now)"
    and outcome: "outcome \<in> {outcome_pending, outcome_delivered, outcome_failed}"
    and arrive: "r_arrive R s = (Delivered, s1)"
    and at: "ledger_at (r_view R s1) (rs_key res) m"
    and exact: "lua_exact (int (ledger_used m))" "lua_exact (revision_at (r_view R s1) (rs_key res))"
    and early: "r_clock R s1 < 1000 * unix (rs_expires res)"
  shows "\<exists>s' v. settle R q res outcome now s =
      (Inr (limited_snapshot q (int (ledger_used (ledger_settle (rs_hash res) outcome m))) v
         (day_start (beijing_day now + 1))), s') \<and>
      ledger_at (r_view R s') (rs_key res) (ledger_settle (rs_hash res) outcome m) \<and>
      same_but {rs_key res} (r_view R s1) (r_view R s')"
proof -
  define key where "key = rs_key res"
  define f where "f = rs_hash res"
  define e where "e = unix (rs_expires res)"
  note folds = key_def [symmetric] f_def [symmetric] e_def [symmetric]
  note q = res(3) [unfolded folds] and at = at [unfolded folds] and exact = exact [unfolded folds]
  note early = early [unfolded folds]
  have expire: "ledger_at (r_view R (r_expireat R key e s')) key m'"
    "same_but {key} (r_view R s1) (r_view R (r_expireat R key e s'))"
    if "r_clock R s' = r_clock R s1" "r_view R s' = store key (RHash h) (r_view R s1)"
      "ledger_wf h" "ledger_of h = m'" for s' h m'
  proof -
    have "value_at (r_view R (r_expireat R key e s')) key = value_at (r_view R s') key"
      using early that(1) by (simp add: redis_simps)
    then show "ledger_at (r_view R (r_expireat R key e s')) key m'"
      using ledger_at_hash(1) [OF that(3), of key "r_view R s1"] that(2,4) ledger_at_value(1) by metis
    show "same_but {key} (r_view R s1) (r_view R (r_expireat R key e s'))"
      using that(2) by (simp add: redis_simps)
  qed
  have "\<exists>v s'. settle_script R key f outcome e s1 =
        (Some [RInt (int (ledger_used (ledger_settle f outcome m))), RInt v], s') \<and>
      ledger_at (r_view R s') key (ledger_settle f outcome m) \<and> same_but {key} (r_view R s1) (r_view R s')"
  proof -
    consider (idle) "m f \<noteq> Some Reserved \<or> outcome \<noteq> outcome_delivered \<and> outcome \<noteq> outcome_failed"
      | (deliver) "m f = Some Reserved" "outcome = outcome_delivered"
      | (release) "m f = Some Reserved" "outcome = outcome_failed" by blast
    then show ?thesis
    proof cases
      case idle
      have "value_at (r_view R (r_expireat R key e s1)) key = value_at (r_view R s1) key"
        using early by (simp add: redis_simps)
      then have "ledger_at (r_view R (r_expireat R key e s1)) key m"
        using at ledger_at_value(1) by blast
      moreover have "ledger_settle f outcome m = m" using idle by (auto simp: ledger_settle_def)
      ultimately show ?thesis using settle_script_idle [OF at q idle] at by (auto simp: redis_simps)
    next
      case deliver
      have m': "ledger_settle f outcome m = m(f \<mapsto> Charged)" "ledger_used (m(f \<mapsto> Charged)) = ledger_used m"
        using deliver by (auto simp: ledger_settle_def ledger_used_def insert_absorb domI)
      obtain s' h where sc: "settle_script R key f outcome_delivered e s1 =
          (Some [RInt (int (ledger_used m)), RInt (revision_at (r_view R s1) key + 1)], r_expireat R key e s')"
        and h: "r_clock R s' = r_clock R s1" "r_view R s' = store key (RHash h) (r_view R s1)"
          "ledger_wf h" "ledger_of h = m(f \<mapsto> Charged)"
          "num_of (h f_revision) = Some (revision_at (r_view R s1) key + 1)"
        by (rule settle_script_deliver [OF at q deliver(1) exact])
      show ?thesis
        using expire [OF h(1-4)] sc m' unfolding deliver(2) [symmetric] by auto
    next
      case release
      have m': "ledger_settle f outcome m = m(f := None)"
        using release by (auto simp: ledger_settle_def)
      obtain s' h where sc: "settle_script R key f outcome_failed e s1 =
          (Some [RInt (int (ledger_used (m(f := None)))), RInt (revision_at (r_view R s1) key + 1)],
           r_expireat R key e s')"
        and h: "r_clock R s' = r_clock R s1" "r_view R s' = store key (RHash h) (r_view R s1)"
          "ledger_wf h" "ledger_of h = m(f := None)"
          "num_of (h f_revision) = Some (revision_at (r_view R s1) key + 1)"
        by (rule settle_script_release [OF at q release(1) exact])
      show ?thesis
        using expire [OF h(1-4)] sc m' unfolding release(2) [symmetric] by auto
    qed
  qed
  then obtain v s' where r: "settle_script R key f outcome e s1 =
        (Some [RInt (int (ledger_used (ledger_settle f outcome m))), RInt v], s')"
      "ledger_at (r_view R s') key (ledger_settle f outcome m)" "same_but {key} (r_view R s1) (r_view R s')"
    by blast
  have nonempty: "f \<noteq> []" "key \<noteq> []" "sj_user (rs_subject res) \<noteq> []" "\<not> sj_admin (rs_subject res)"
    using q res(1,4) by (auto simp: is_request_def has_prefix_def key_def quota_key_def countable_subject_def)
  have "settle R q res outcome now s =
      (Inr (limited_snapshot q (int (ledger_used (ledger_settle f outcome m))) v (day_start (beijing_day now + 1))), s')"
    unfolding settle_def folds round_trip_served [OF arrive] r(1) window_day
    using res(2,4) outcome nonempty by (auto simp: snapshot_of_reply folds)
  then show ?thesis unfolding folds using r(2,3) by blast
qed

end

section \<open>Runs of any number of callers\<close>

text \<open>
  A run serves calls one after another, each under its own view of the time; a caller may
  settle any reservation that was handed out, at any time, as often as it likes. The last
  argument lists the reservations handed out, the number counts the calls.
\<close>

inductive quota_run ::
  "('s, 'z) env_scheme \<Rightarrow> quota \<Rightarrow> 's \<Rightarrow> nat \<Rightarrow> 's \<Rightarrow> reservation list \<Rightarrow> bool"
  for R :: "('s, 'z) env_scheme" and q :: quota and s0 :: 's
where
  run_start: "quota_run R q s0 0 s0 []"
| run_reserve: "quota_run R q s0 n s issued \<Longrightarrow>
    reserve R q subject request_id now s = ((res, snap, None), s') \<Longrightarrow>
    quota_run R q s0 (Suc n) s' (res # issued)"
| run_reserve_error: "quota_run R q s0 n s issued \<Longrightarrow>
    reserve R q subject request_id now s = ((res, snap, Some e), s') \<Longrightarrow>
    quota_run R q s0 (Suc n) s' issued"
| run_settle: "quota_run R q s0 n s issued \<Longrightarrow> res \<in> set issued \<Longrightarrow>
    settle R q res outcome now s = (r, s') \<Longrightarrow> quota_run R q s0 (Suc n) s' issued"
| run_snapshot: "quota_run R q s0 n s issued \<Longrightarrow>
    quota_snapshot R q subject now s = (r, s') \<Longrightarrow> quota_run R q s0 (Suc n) s' issued"

definition valid_reservation :: "quota \<Rightarrow> reservation \<Rightarrow> bool" where
  "valid_reservation q res \<longleftrightarrow>
     rs_unlimited res \<or>
     (\<exists>d. rs_key res = quota_key q (sj_user (rs_subject res)) d) \<and> is_request (rs_hash res)"

lemma reserve_valid:
  assumes "reserve R q subject request_id now s = ((res, snap, None), s')"
  shows "valid_reservation q res"
  using assms
  by (auto simp: reserve_def valid_reservation_def reserve_result_def window_day Let_def
      request_field_request split: if_splits prod.splits sum.splits)

lemma run_issued:
  assumes "quota_run R q s0 n s issued" "res \<in> set issued"
  shows "valid_reservation q res"
  using assms by (induction) (auto dest: reserve_valid)

definition ledgers_ok :: "quota \<Rightarrow> int \<Rightarrow> keyspace \<Rightarrow> bool" where
  "ledgers_ok q n ks \<longleftrightarrow> (\<forall>user d. ledger_ok (q_limit q) n ks (quota_key q user d))"

lemma ledgers_ok_mono: "ledgers_ok q n ks \<Longrightarrow> n \<le> n' \<Longrightarrow> ledgers_ok q n' ks"
  by (auto simp: ledgers_ok_def intro: ledger_ok_mono)

context quiet_env
begin

lemma arrive_ok: "ledgers_ok q n (r_view R s) \<Longrightarrow> ledgers_ok q n (r_view R (snd (r_arrive R s)))"
  by (simp add: ledgers_ok_def arrive ledger_ok_purge)

lemma round_trip_ok:
  assumes "ledgers_ok q n (r_view R s)" "n \<le> n'"
    and "\<And>s. ledgers_ok q n (r_view R s) \<Longrightarrow> ledgers_ok q n' (r_view R (snd (script s)))"
  shows "ledgers_ok q n' (r_view R (snd (round_trip R script s)))"
  by (rule round_trip_keeps)
    (use assms arrive_ok ledgers_ok_mono in blast)+

lemma snapshot_ok:
  assumes "ledgers_ok q n (r_view R s)"
  shows "ledgers_ok q n (r_view R (snd (quota_snapshot R q subject now s)))"
proof -
  have "ledgers_ok q n (r_view R (snd (round_trip R (snapshot_script R key) s)))" for key
    by (rule round_trip_ok [OF assms order_refl]) simp
  then show ?thesis
    using assms by (auto simp: quota_snapshot_def Let_def window_day split: prod.splits sum.splits)
      (metis snd_conv)+
qed

lemma arrive_value: "value_at (r_view R (snd (r_arrive R s))) k \<in> {value_at (r_view R s) k, None}"
  by (auto simp: arrive purge_value split: option.splits)

lemma snapshot_shape:
  assumes "0 \<le> q_limit q" "quota_snapshot R q subject now s = (r, s')"
  shows "(\<forall>k. value_at (r_view R s') k \<in> {value_at (r_view R s) k, None}) \<and>
    (case r of
       Inl e \<Rightarrow> \<not> sj_admin subject
     | Inr sn \<Rightarrow> if sj_admin subject then sn_unlimited sn \<and> s' = s
         else \<not> sn_unlimited sn \<and> sn_limit sn = q_limit q \<and> 0 \<le> sn_used sn \<and> 0 \<le> sn_remaining sn \<and>
           sn_remaining sn = max 0 (q_limit q - sn_used sn) \<and> now < sn_reset sn \<and>
           sn_reset sn \<le> now + day_length)"
proof -
  have e: "day_start (beijing_day now + 1) = day_start (beijing_day now) + day_length"
    by (simp add: day_start_def algebra_simps)
  have rt: "snd (round_trip R (snapshot_script R key) s) = snd (r_arrive R s)" for key
    using round_trip_state [of R "snapshot_script R key" s] by auto
  have state: "s' = s \<or> s' = snd (r_arrive R s)"
    using assms(2) rt by (auto simp: quota_snapshot_def Let_def window_day split: if_splits prod.splits sum.splits)
      (metis snd_conv)+
  have "value_at (r_view R s') k \<in> {value_at (r_view R s) k, None}" for k
    using state arrive_value [of s k] by auto
  moreover have "case r of
       Inl e \<Rightarrow> \<not> sj_admin subject
     | Inr sn \<Rightarrow> if sj_admin subject then sn_unlimited sn \<and> s' = s
         else \<not> sn_unlimited sn \<and> sn_limit sn = q_limit q \<and> 0 \<le> sn_used sn \<and> 0 \<le> sn_remaining sn \<and>
           sn_remaining sn = max 0 (q_limit q - sn_used sn) \<and> now < sn_reset sn \<and> sn_reset sn \<le> now + day_length"
    using assms beijing_day_bounds [of now] e
    by (auto simp: quota_snapshot_def window_day snapshot_of_def limited_snapshot_def Let_def
        unlimited_snapshot_def split: if_splits prod.splits sum.splits)
  ultimately show ?thesis by blast
qed

lemma reserve_ok:
  assumes "ledgers_ok q n (r_view R s)" and exact: "lua_exact (q_limit q)" "lua_exact n"
  shows "ledgers_ok q (n + 1) (r_view R (snd (reserve R q subject request_id now s)))"
proof (cases "countable_subject subject \<and> trim_space request_id \<noteq> []")
  case True
  have "ledgers_ok q (n + 1) (r_view R (snd (round_trip R
      (reserve_script R (quota_key q (sj_user subject) d) (quota_key q (sj_user subject) d')
         (request_field R request_id) (q_limit q) e e') s)))" for d d' e e'
    by (rule round_trip_ok [OF assms(1)])
      (simp_all add: ledgers_ok_def reserve_script_ok request_field_request exact)
  then show ?thesis
    using True by (auto simp: reserve_unfold Let_def split: prod.splits sum.splits) (metis snd_conv)+
next
  case False
  then show ?thesis
    using ledgers_ok_mono [OF assms(1), of "n + 1"]
    by (auto simp: reserve_def countable_subject_def)
qed

lemma settle_ok:
  assumes "ledgers_ok q n (r_view R s)" and exact: "lua_exact (q_limit q)" "lua_exact n"
    and res: "valid_reservation q res"
  shows "ledgers_ok q (n + 1) (r_view R (snd (settle R q res outcome now s)))"
proof (cases "rs_unlimited res")
  case True
  then show ?thesis using ledgers_ok_mono [OF assms(1), of "n + 1"] by (simp add: settle_def)
next
  case False
  then obtain d where d: "rs_key res = quota_key q (sj_user (rs_subject res)) d" "is_request (rs_hash res)"
    using res by (auto simp: valid_reservation_def)
  have rt: "ledgers_ok q (n + 1) (r_view R (snd (round_trip R
      (settle_script R (rs_key res) (rs_hash res) outcome (unix (rs_expires res))) s)))"
    by (rule round_trip_ok [OF assms(1)])
      (simp_all add: ledgers_ok_def settle_script_ok d exact)
  have keep: "ledgers_ok q (n + 1) (r_view R s)" using assms(1) by (rule ledgers_ok_mono) simp
  obtain r1 s1 where r1: "round_trip R
      (settle_script R (rs_key res) (rs_hash res) outcome (unix (rs_expires res))) s = (r1, s1)"
    by (cases "round_trip R (settle_script R (rs_key res) (rs_hash res) outcome (unix (rs_expires res))) s")
  have s1: "ledgers_ok q (n + 1) (r_view R s1)" using rt by (simp add: r1)
  show ?thesis
    using keep s1 snapshot_ok [OF s1]
    by (auto simp: settle_def r1 window_day split: sum.splits)
qed

lemma run_ledgers:
  assumes "quota_run R q s0 n s issued" "ledgers_ok q 0 (r_view R s0)"
    "lua_exact (q_limit q)" "lua_exact (int n)"
  shows "ledgers_ok q (int n) (r_view R s)"
  using assms
proof (induction)
  case run_start
  then show ?case by simp
next
  case (run_reserve n s issued subject request_id now res snap s')
  have "lua_exact (int n)" using run_reserve.prems(3) by (auto simp: lua_exact_def)
  then show ?case
    using run_reserve reserve_ok [of q "int n" s subject request_id now] by (simp add: add.commute)
next
  case (run_reserve_error n s issued subject request_id now res snap e s')
  have "lua_exact (int n)" using run_reserve_error.prems(3) by (auto simp: lua_exact_def)
  then show ?case
    using run_reserve_error reserve_ok [of q "int n" s subject request_id now] by (simp add: add.commute)
next
  case (run_settle n s issued res outcome now r s')
  have "lua_exact (int n)" using run_settle.prems(3) by (auto simp: lua_exact_def)
  then show ?case
    using run_settle settle_ok [of q "int n" s res outcome now] run_issued [of R q s0 n s issued res]
    by (simp add: add.commute)
next
  case (run_snapshot n s issued subject now r s')
  have "lua_exact (int n)" using run_snapshot.prems(3) by (auto simp: lua_exact_def)
  then have "ledgers_ok q (int n) (r_view R s')"
    using run_snapshot snapshot_ok [of q "int n" s subject now] by simp
  then show ?case by (rule ledgers_ok_mono) simp
qed

end

end
