(* ===== verification/Quota_Correct.thy ===== *)
theory Quota_Correct
  imports Quota_Runs
begin

text \<open>
  The properties of the quota manager, each with its witness on the reference environment.
\<close>

lemma empty_ledger [simp]: "ledger_at Map.empty key Map.empty" "revision_at Map.empty key = 0"
  using ledger_at_missing [of Map.empty key] by simp_all

lemma empty_ledgers: "0 \<le> q_limit q \<Longrightarrow> ledgers_ok q 0 Map.empty"
  by (simp add: ledgers_ok_def ledger_ok_missing)

definition demo_quota :: quota where
  "demo_quota = \<lparr>q_prefix = ''quota:'', q_limit = 2\<rparr>"

definition demo_subject :: subject where
  "demo_subject = \<lparr>sj_user = ''alice'', sj_admin = False\<rparr>"

definition demo_now :: time where "demo_now = 1700000000000000000"

abbreviation demo_env :: "ref_world env" where "demo_env \<equiv> ref_env ()"
abbreviation demo_start :: ref_world where "demo_start \<equiv> ref_start demo_now"

abbreviation demo_key :: string where
  "demo_key \<equiv> quota_key demo_quota (sj_user demo_subject) (beijing_day demo_now)"

lemma trim_words [simp]: "trim_space ''alice'' = ''alice''" "trim_space ''r1'' = ''r1''"
  by (simp_all add: trim_printable code_def)

lemma demo_facts [simp]:
  "countable_subject demo_subject" "q_limit demo_quota = 2" "q_prefix demo_quota = ''quota:''"
  "sj_user demo_subject = ''alice''" "sj_admin demo_subject = False"
  "lua_exact 2" "lua_exact 0" "lua_exact 1"
  by (simp_all add: countable_subject_def demo_subject_def demo_quota_def lua_exact_def)

lemma demo_times [simp]:
  "demo_now div 1000000 < 1000 * unix (day_start (beijing_day demo_now + 2))"
  "demo_now div 1000000 < 1000 * unix (day_start (beijing_day demo_now + 1))"
  by (simp_all add: demo_now_def unix_def day_start_def beijing_day_def day_length_def second_def
      beijing_offset_def)

text \<open>
  C2. No overspending: whatever sequence of calls the callers make, with whatever losses on
  the network, the ledger of every user and day is a ledger whose reserved and delivered
  requests together stay within the daily limit, as the counters of the hash say.
\<close>

theorem quota_never_overspent:
  assumes "quiet_env R" "quota_run R q s0 n s issued"
    and "0 \<le> q_limit q" "lua_exact (q_limit q)" "lua_exact (int n)"
    and "\<forall>user d. value_at (r_view R s0) (quota_key q user d) = None"
  shows "\<exists>m. ledger_at (r_view R s) (quota_key q user d) m \<and> int (ledger_used m) \<le> q_limit q"
proof -
  have "ledgers_ok q 0 (r_view R s0)"
    using assms(3,6) by (simp add: ledgers_ok_def ledger_ok_missing)
  then have "ledgers_ok q (int n) (r_view R s)"
    using quiet_env.run_ledgers [OF assms(1,2)] assms(4,5) by blast
  then show ?thesis by (auto simp: ledgers_ok_def ledger_ok_def)
qed

theorem quota_never_overspent_witness:
  "\<exists>s res m. quota_run demo_env demo_quota demo_start 1 s [res] \<and> ledger_at (r_view demo_env s) demo_key m \<and>
     int (ledger_used m) \<le> 2"
proof -
  obtain ok m' where lr: "ledger_reserve (q_limit demo_quota) (request_field demo_env ''r1'') Map.empty = (ok, m')"
    by (cases "ledger_reserve (q_limit demo_quota) (request_field demo_env ''r1'') Map.empty")
  then have ok by (simp add: ledger_reserve_def ledger_used_def)
  obtain s' v where "reserve demo_env demo_quota demo_subject ''r1'' demo_now demo_start =
      ((issued_reservation demo_env demo_quota demo_subject ''r1'' (beijing_day demo_now),
        limited_snapshot demo_quota (int (ledger_used m')) v (day_start (beijing_day demo_now + 1)), None), s')"
    using ref_env.reserve_contract [of demo_subject "''r1''" "()" demo_start demo_start demo_quota demo_now
        Map.empty Map.empty ok m'] lr \<open>ok\<close> demo_times by auto
  then have run: "quota_run demo_env demo_quota demo_start 1 s'
      [issued_reservation demo_env demo_quota demo_subject ''r1'' (beijing_day demo_now)]"
    using run_reserve [OF run_start] by fastforce
  have "\<exists>m. ledger_at (r_view demo_env s') demo_key m \<and> int (ledger_used m) \<le> q_limit demo_quota"
    by (rule quota_never_overspent [OF ref_env.quiet_env_axioms run]) simp_all
  then show ?thesis using run by auto
qed

text \<open>
  C3. \<open>Reserve\<close> meets the contract of the ledger: when the round trip is answered, the call
  answers and stores what \<open>ledger_reserve\<close> says (a known request again, a refusal at the limit,
  or a new reservation), with the usage after the call, and touches no other key.
\<close>

theorem reserve_meets_contract:
  assumes "go_env R" "countable_subject subject" "trim_space request_id \<noteq> []"
    and "r_arrive R s = (Delivered, s1)"
    and "ledger_at (r_view R s1) (quota_key q (sj_user subject) (beijing_day now)) m"
    and "ledger_at (r_view R s1) (quota_key q (sj_user subject) (beijing_day now - 1)) mp"
    and "mp (request_field R request_id) = None"
    and "lua_exact (q_limit q)"
    and "lua_exact (revision_at (r_view R s1) (quota_key q (sj_user subject) (beijing_day now)))"
    and "r_clock R s1 < 1000 * unix (day_start (beijing_day now + 2))"
    and "ledger_reserve (q_limit q) (request_field R request_id) m = (ok, m')"
  shows "\<exists>s' v. reserve R q subject request_id now s =
      ((if ok then issued_reservation R q subject request_id (beijing_day now) else zero_reservation,
        limited_snapshot q (int (ledger_used m')) v (day_start (beijing_day now + 1)),
        if ok then None else Some ErrQuotaExhausted), s') \<and>
      ledger_at (r_view R s') (quota_key q (sj_user subject) (beijing_day now)) m' \<and>
      same_but {quota_key q (sj_user subject) (beijing_day now)} (r_view R s1) (r_view R s')"
  by (rule go_env.reserve_contract [OF assms])

theorem reserve_meets_contract_witness:
  "\<exists>s' v m'. reserve demo_env demo_quota demo_subject ''r1'' demo_now demo_start =
      ((issued_reservation demo_env demo_quota demo_subject ''r1'' (beijing_day demo_now),
        limited_snapshot demo_quota 1 v (day_start (beijing_day demo_now + 1)), None), s') \<and>
      ledger_at (r_view demo_env s') demo_key m' \<and> ledger_used m' = 1"
proof -
  let ?f = "request_field demo_env ''r1''"
  have lr: "ledger_reserve (q_limit demo_quota) ?f Map.empty = (True, [?f \<mapsto> Reserved])"
    by (simp add: ledger_reserve_def ledger_used_def)
  have "ledger_used [?f \<mapsto> Reserved] = 1" by (simp add: ledger_used_def)
  then show ?thesis
    using reserve_meets_contract [of demo_env demo_subject "''r1''" demo_start demo_start demo_quota demo_now
        Map.empty Map.empty, OF ref_env.go_env_axioms _ _ _ _ _ _ _ _ _ lr] demo_times
    by fastforce
qed

text \<open>
  C4. \<open>Settle\<close> meets the contract, for a reservation under the key of the day: a held request becomes delivered or is given back, exactly
  once; any other call leaves the ledger as it is. The snapshot is the one after the call.
\<close>

theorem settle_meets_contract:
  assumes "go_env R" "countable_subject (rs_subject res)" "\<not> rs_unlimited res" "is_request (rs_hash res)"
    and "rs_key res = quota_key q (sj_user (rs_subject res)) (beijing_day now)"
    and "outcome \<in> {outcome_pending, outcome_delivered, outcome_failed}"
    and "r_arrive R s = (Delivered, s1)"
    and "ledger_at (r_view R s1) (rs_key res) m"
    and "lua_exact (int (ledger_used m))" "lua_exact (revision_at (r_view R s1) (rs_key res))"
    and "r_clock R s1 < 1000 * unix (rs_expires res)"
  shows "\<exists>s' v. settle R q res outcome now s =
      (Inr (limited_snapshot q (int (ledger_used (ledger_settle (rs_hash res) outcome m))) v
         (day_start (beijing_day now + 1))), s') \<and>
      ledger_at (r_view R s') (rs_key res) (ledger_settle (rs_hash res) outcome m) \<and>
      same_but {rs_key res} (r_view R s1) (r_view R s')"
  by (rule go_env.settle_contract [OF assms])

definition demo_held :: ref_world where
  "demo_held = demo_start\<lparr>rf_keys := [demo_key \<mapsto>
     (RHash [request_field demo_env ''r1'' \<mapsto> st_reserved, f_reserved \<mapsto> Num 1, f_revision \<mapsto> Num 1], None)]\<rparr>"

lemma demo_held_facts:
  "ledger_at (r_view demo_env demo_held) demo_key [request_field demo_env ''r1'' \<mapsto> Reserved]"
  "revision_at (r_view demo_env demo_held) demo_key = 1"
  "r_arrive demo_env demo_held = (Delivered, demo_held)" "r_clock demo_env demo_held = demo_now div 1000000"
proof -
  let ?f = "request_field demo_env ''r1''"
  let ?h = "Map.empty(?f \<mapsto> st_reserved, f_reserved \<mapsto> Num 1, f_revision \<mapsto> Num 1)"
  have v: "ref_view demo_held = store demo_key (RHash ?h) Map.empty"
    by (rule ext) (simp add: demo_held_def ref_view_def purge_def store_def deadline_def split: option.splits)
  have h: "ledger_wf ?h" "ledger_of ?h = [?f \<mapsto> Reserved]"
    using ledger_wf_reserve [OF ledger_wf_empty request_field_request, of demo_env "''r1''" 1]
    by (simp_all add: count_status_def)
  show "ledger_at (r_view demo_env demo_held) demo_key [?f \<mapsto> Reserved]"
    using ledger_at_hash(1) [OF h(1)] h(2) by (simp add: v)
  show "revision_at (r_view demo_env demo_held) demo_key = 1"
    using ledger_at_hash(2) [of ?h 1 demo_key Map.empty] by (simp add: v)
  show "r_arrive demo_env demo_held = (Delivered, demo_held)" "r_clock demo_env demo_held = demo_now div 1000000"
    by (simp_all add: demo_held_def ref_start_def ref_arrive_def)
qed

theorem settle_meets_contract_witness:
  "\<exists>s' v. settle demo_env demo_quota
        (issued_reservation demo_env demo_quota demo_subject ''r1'' (beijing_day demo_now))
        outcome_delivered demo_now demo_held =
      (Inr (limited_snapshot demo_quota 1 v (day_start (beijing_day demo_now + 1))), s') \<and>
      ledger_at (r_view demo_env s') demo_key [request_field demo_env ''r1'' \<mapsto> Charged]"
proof -
  let ?f = "request_field demo_env ''r1''"
  let ?res = "issued_reservation demo_env demo_quota demo_subject ''r1'' (beijing_day demo_now)"
  have l: "ledger_settle ?f outcome_delivered [?f \<mapsto> Reserved] = [?f \<mapsto> Charged]"
    by (simp add: ledger_settle_def)
  have u: "ledger_used [?f \<mapsto> st] = 1" for st by (simp add: ledger_used_def)
  show ?thesis
    using settle_meets_contract [of demo_env ?res demo_quota demo_now outcome_delivered demo_held demo_held
        "[?f \<mapsto> Reserved]", OF ref_env.go_env_axioms] demo_held_facts demo_times
    by (simp add: issued_reservation_def request_field_request l u) blast
qed

text \<open>
  C5. A retry after a lost reply charges once: the first call reports an error although its
  reservation is stored; when the same request is sent again, the caller gets that
  reservation, and the ledger is the one after the first call.
\<close>

theorem reserve_retry_charges_once:
  assumes "go_env R" "countable_subject subject" "trim_space request_id \<noteq> []"
    and first: "r_arrive R s = (LostReply, s1)"
      "ledger_at (r_view R s1) (quota_key q (sj_user subject) (beijing_day now)) m"
      "ledger_at (r_view R s1) (quota_key q (sj_user subject) (beijing_day now - 1)) mp"
      "mp (request_field R request_id) = None" "m (request_field R request_id) = None"
      "int (ledger_used m) < q_limit q" "lua_exact (q_limit q)"
      "lua_exact (revision_at (r_view R s1) (quota_key q (sj_user subject) (beijing_day now)))"
      "r_clock R s1 < 1000 * unix (day_start (beijing_day now + 2))"
    and again: "s' = snd (reserve R q subject request_id now s)" "r_arrive R s' = (Delivered, s2)"
      "r_view R s2 = r_view R s'" "r_clock R s2 < 1000 * unix (day_start (beijing_day now + 2))"
      "lua_exact (revision_at (r_view R s2) (quota_key q (sj_user subject) (beijing_day now)))"
    and different: "quota_key q (sj_user subject) (beijing_day now - 1) \<noteq> quota_key q (sj_user subject) (beijing_day now)"
  shows "\<exists>s'' v. reserve R q subject request_id now s = ((zero_reservation, zero_snapshot, Some ErrService), s') \<and>
      reserve R q subject request_id now s' =
        ((issued_reservation R q subject request_id (beijing_day now),
          limited_snapshot q (int (ledger_used m) + 1) v (day_start (beijing_day now + 1)), None), s'') \<and>
      ledger_at (r_view R s'') (quota_key q (sj_user subject) (beijing_day now))
        (m(request_field R request_id \<mapsto> Reserved))"
proof -
  let ?f = "request_field R request_id" and ?key = "quota_key q (sj_user subject) (beijing_day now)"
  let ?prev = "quota_key q (sj_user subject) (beijing_day now - 1)"
  let ?m = "m(?f \<mapsto> Reserved)"
  have r1: "ledger_reserve (q_limit q) ?f m = (True, ?m)"
    using first(5,6) by (simp add: ledger_reserve_def)
  have r2: "ledger_reserve (q_limit q) ?f ?m = (True, ?m)" by (simp add: ledger_reserve_def)
  have s': "reserve R q subject request_id now s = ((zero_reservation, zero_snapshot, Some ErrService), s')"
    "ledger_at (r_view R s') ?key ?m" "same_but {?key} (r_view R s1) (r_view R s')"
    using go_env.reserve_lost_reply [OF assms(1-3) first(1-4,7-9) r1] again(1) by auto
  have prev: "ledger_at (r_view R s') ?prev mp"
    using first(3) same_but_typed(1) [OF s'(3), of ?prev] different ledger_at_value(1) by blast
  have used: "int (ledger_used ?m) = int (ledger_used m) + 1"
    using ledger_used_upd [OF ledger_atD(4) [OF first(2)] first(5)] by simp
  obtain s'' v where "reserve R q subject request_id now s' =
      ((issued_reservation R q subject request_id (beijing_day now),
        limited_snapshot q (int (ledger_used m) + 1) v (day_start (beijing_day now + 1)), None), s'')"
    "ledger_at (r_view R s'') ?key ?m"
    using go_env.reserve_contract [OF assms(1-3), of s' s2 q now ?m mp True ?m]
      again s'(2) prev first(4,7) r2 used by auto
  with s'(1) show ?thesis by blast
qed

definition demo_lossy :: ref_world where
  "demo_lossy = demo_start\<lparr>rf_net := [(LostReply, 0)]\<rparr>"

lemma demo_day: "beijing_day demo_now = 19676"
  by (simp add: demo_now_def beijing_day_def beijing_offset_def day_length_def second_def)

lemma demo_days: "layout_day 19676" "layout_day 19675"
  by code_simp+

lemma reserve_script_net:
  "rf_net (snd (reserve_script (ref_env z) key prev f limit e e' s)) = rf_net s"
  by (auto simp: reserve_script_def Let_def split_beta split: option.splits)

theorem reserve_retry_charges_once_witness:
  "\<exists>s' s'' v. reserve demo_env demo_quota demo_subject ''r1'' demo_now demo_lossy =
        ((zero_reservation, zero_snapshot, Some ErrService), s') \<and>
      reserve demo_env demo_quota demo_subject ''r1'' demo_now s' =
        ((issued_reservation demo_env demo_quota demo_subject ''r1'' (beijing_day demo_now),
          limited_snapshot demo_quota 1 v (day_start (beijing_day demo_now + 1)), None), s'') \<and>
      ledger_at (r_view demo_env s'') demo_key [request_field demo_env ''r1'' \<mapsto> Reserved]"
proof -
  let ?f = "request_field demo_env ''r1''"
  have lr: "ledger_reserve (q_limit demo_quota) ?f Map.empty = (True, [?f \<mapsto> Reserved])"
    by (simp add: ledger_reserve_def ledger_used_def)
  let ?s1 = "demo_lossy\<lparr>rf_net := []\<rparr>"
  have arr: "ref_arrive demo_lossy = (LostReply, ?s1)" by (simp add: demo_lossy_def ref_arrive_def)
  have s1: "?s1 = demo_start" by (simp add: demo_lossy_def ref_start_def)
  have differ: "quota_key demo_quota ''alice'' (beijing_day demo_now - 1) \<noteq>
      quota_key demo_quota ''alice'' (beijing_day demo_now)"
    using demo_days by (simp add: quota_key_inject demo_day)
  define s' where "s' = snd (reserve demo_env demo_quota demo_subject ''r1'' demo_now demo_lossy)"
  have s'_eq: "s' = snd (reserve_script demo_env demo_key
      (quota_key demo_quota ''alice'' (beijing_day demo_now - 1)) ?f 2
      (unix (day_start (beijing_day demo_now + 2))) (unix (day_start (beijing_day demo_now + 1))) demo_start)"
    using ref_env.reserve_unfold [of demo_subject "''r1''" "()" demo_quota demo_now demo_lossy]
    by (simp add: s'_def Let_def round_trip_lost(2) arr s1)
  have net: "rf_net s' = []"
    unfolding s'_eq reserve_script_net by (simp add: ref_start_def)
  have later: "rf_clock s' = demo_now div 1000000 \<and> revision_at (ref_view s') demo_key = 1"
  proof -
    obtain s3 h where sc: "reserve_script demo_env demo_key
        (quota_key demo_quota ''alice'' (beijing_day demo_now - 1)) ?f 2
        (unix (day_start (beijing_day demo_now + 2))) (unix (day_start (beijing_day demo_now + 1))) demo_start =
        (Some (reserve_reply (True, [?f \<mapsto> Reserved]) ''current'' (revision_at (r_view demo_env demo_start) demo_key + 1)),
         r_expireat demo_env demo_key (unix (day_start (beijing_day demo_now + 2))) s3)"
      and s3: "r_clock demo_env s3 = r_clock demo_env demo_start"
        "r_view demo_env s3 = store demo_key (RHash h) (r_view demo_env demo_start)"
      and h: "ledger_wf h" "ledger_of h = [?f \<mapsto> Reserved]"
        "num_of (h f_revision) = Some (revision_at (r_view demo_env demo_start) demo_key + 1)"
      by (rule ref_env.reserve_script_fresh [of "()" demo_start demo_key Map.empty
            "quota_key demo_quota ''alice'' (beijing_day demo_now - 1)" Map.empty ?f 2
            "unix (day_start (beijing_day demo_now + 2))" "unix (day_start (beijing_day demo_now + 1))"])
        (simp_all add: request_field_request ledger_used_def)
    have s': "s' = r_expireat demo_env demo_key (unix (day_start (beijing_day demo_now + 2))) s3"
      unfolding s'_eq sc by simp
    have "value_at (r_view demo_env s') demo_key = value_at (r_view demo_env s3) demo_key"
      unfolding s' ref_env.expireat using s3(1) by (intro value_at_expire_live) simp
    then have "revision_at (r_view demo_env s') demo_key = 1"
      using ledger_at_value(2) [of "r_view demo_env s'" demo_key "r_view demo_env s3"] s3(2)
        ledger_at_hash(2) [where h = h and v = 1 and key = demo_key and ks = "r_view demo_env demo_start"] h(3)
      by simp
    moreover have "r_clock demo_env s' = r_clock demo_env demo_start"
      unfolding s' ref_env.clocks by (rule s3(1))
    ultimately show ?thesis by simp
  qed
  show ?thesis
    using reserve_retry_charges_once [of demo_env demo_subject "''r1''" demo_lossy ?s1 demo_quota demo_now
        Map.empty Map.empty s' s', OF ref_env.go_env_axioms]
      arr s1 net later differ s'_def
    by (simp add: ledger_used_def) blast
qed

text \<open>
  C6. A request made before midnight and repeated after it is answered from the ledger of the
  day before: the caller gets that reservation and no ledger changes, so a conversation turn
  that spans midnight is charged to one day only.
\<close>

theorem reserve_across_midnight:
  assumes "go_env R" "countable_subject subject" "trim_space request_id \<noteq> []" "r_arrive R s = (Delivered, s1)"
    and "ledger_at (r_view R s1) (quota_key q (sj_user subject) (beijing_day now)) m"
      "m (request_field R request_id) = None"
    and "ledger_at (r_view R s1) (quota_key q (sj_user subject) (beijing_day now - 1)) mp"
      "mp (request_field R request_id) \<noteq> None"
    and "r_clock R s1 < 1000 * unix (day_start (beijing_day now + 1))"
  shows "\<exists>s' v. reserve R q subject request_id now s =
      ((issued_reservation R q subject request_id (beijing_day now - 1),
        limited_snapshot q (int (ledger_used m)) v (day_start (beijing_day now + 1)), None), s') \<and>
      (\<forall>k. value_at (r_view R s') k = value_at (r_view R s1) k)"
  by (rule go_env.reserve_previous_day [OF assms])

theorem reserve_across_midnight_witness:
  "\<exists>s' v. reserve demo_env demo_quota demo_subject ''r1'' (demo_now + day_length) demo_held =
      ((issued_reservation demo_env demo_quota demo_subject ''r1'' (beijing_day demo_now),
        limited_snapshot demo_quota 0 v (day_start (beijing_day demo_now + 2)), None), s')"
proof -
  have day: "beijing_day (demo_now + day_length) = 19677"
    by (simp add: demo_now_def beijing_day_def beijing_offset_def day_length_def second_def)
  have l: "layout_day 19677" by code_simp
  have "quota_key demo_quota ''alice'' 19676 \<noteq> quota_key demo_quota ''alice'' 19677"
    using demo_days(1) l by (simp add: quota_key_inject)
  then have "value_at (ref_view demo_held) (quota_key demo_quota ''alice'' 19677) = None"
    by (simp add: demo_held_def ref_view_def value_at_def purge_def demo_day)
  then have m: "ledger_at (ref_view demo_held) (quota_key demo_quota ''alice'' 19677) Map.empty"
    using ledger_at_missing by blast
  have t: "rf_clock demo_held < 1000 * unix (day_start 19678)"
    by (simp add: demo_held_def demo_now_def unix_def day_start_def day_length_def second_def beijing_offset_def)
  show ?thesis
    using reserve_across_midnight [of demo_env demo_subject "''r1''" demo_held demo_held demo_quota
        "demo_now + day_length" Map.empty "[request_field demo_env ''r1'' \<mapsto> Reserved]",
        OF ref_env.go_env_axioms]
      m t demo_held_facts by (simp add: day demo_day ledger_used_def) blast
qed

text \<open>
  One ledger per user and Beijing day, reset at the next midnight: two calls of \<open>window\<close>
  agree on the key exactly when user and Beijing day agree, the reset lies ahead within a day,
  and the ledger outlives its day by one.
\<close>

theorem window_one_ledger_per_day:
  assumes "layout_day (beijing_day t)" "layout_day (beijing_day t')"
    and "window q user t = (key, reset, expires)" "window q user' t' = (key', reset', expires')"
  shows "(key = key' \<longleftrightarrow> user = user' \<and> beijing_day t = beijing_day t') \<and>
     t < reset \<and> reset \<le> t + day_length \<and> expires = reset + day_length"
proof -
  have e: "day_start (beijing_day t + 1) = day_start (beijing_day t) + day_length"
    "day_start (beijing_day t + 2) = day_start (beijing_day t + 1) + day_length"
    by (simp_all add: day_start_def algebra_simps)
  then show ?thesis
    using assms beijing_day_bounds [of t] by (auto simp: window_day quota_key_inject)
qed

theorem window_one_ledger_per_day_witness:
  "fst (window demo_quota ''alice'' demo_now) \<noteq> fst (window demo_quota ''bob'' demo_now)"
  using window_one_ledger_per_day [of demo_now demo_now demo_quota "''alice''"
      "fst (window demo_quota ''alice'' demo_now)" "fst (snd (window demo_quota ''alice'' demo_now))"
      "snd (snd (window demo_quota ''alice'' demo_now))" "''bob''"
      "fst (window demo_quota ''bob'' demo_now)" "fst (snd (window demo_quota ''bob'' demo_now))"
      "snd (snd (window demo_quota ''bob'' demo_now))"] demo_days
  by (simp add: demo_day)

text \<open>
  Reading the quota changes nothing and its figures are consistent: an administrator's is
  unlimited; for anyone else the usage is at least 0, the rest is what the limit leaves, and
  the reset lies ahead. A call without a user is refused without asking Redis.
\<close>

theorem snapshot_figures:
  assumes "quiet_env R" "0 \<le> q_limit q" "quota_snapshot R q subject now s = (r, s')"
  shows "(\<forall>k. value_at (r_view R s') k \<in> {value_at (r_view R s) k, None}) \<and>
    (case r of
       Inl e \<Rightarrow> \<not> sj_admin subject
     | Inr sn \<Rightarrow> if sj_admin subject then sn_unlimited sn \<and> s' = s
         else \<not> sn_unlimited sn \<and> sn_limit sn = q_limit q \<and> 0 \<le> sn_used sn \<and> 0 \<le> sn_remaining sn \<and>
           sn_remaining sn = max 0 (q_limit q - sn_used sn) \<and> now < sn_reset sn \<and>
           sn_reset sn \<le> now + day_length)"
  by (rule quiet_env.snapshot_shape [OF assms])

theorem snapshot_figures_witness:
  "\<exists>sn. quota_snapshot demo_env demo_quota demo_subject demo_now demo_held = (Inr sn, demo_held) \<and>
     sn_used sn = 1 \<and> sn_remaining sn = max 0 (2 - sn_used sn)"
proof -
  have "quota_snapshot demo_env demo_quota demo_subject demo_now demo_held =
      (Inr (limited_snapshot demo_quota 1 1 (day_start (beijing_day demo_now + 1))), demo_held)"
    using ref_env.snapshot_script_ledger [OF demo_held_facts(1)] demo_held_facts(2,3)
    by (simp add: quota_snapshot_def window_day round_trip_served snapshot_of_reply ledger_used_def)
  from snapshot_figures [OF ref_env.quiet_env_axioms _ this] this
  show ?thesis by (auto simp: limited_snapshot_def)
qed

end
