(* ===== verification/Persona.thy ===== *)
theory Persona
  imports Go_Strings "HOL-Library.Product_Lexorder"
begin

text \<open>
  Package \<open>internal/persona\<close>: the fixed registry of the five characters, lookup by
  identifier, and the search for the characters a message mentions. The texts of the
  registry are outside ASCII; they are written as their Unicode code points, which
  \<open>utf8\<close> turns into the bytes of the Go literal.
\<close>

section \<open>The registry\<close>

type_synonym character_id = string

record character =
  ch_id :: character_id
  ch_display :: string
  ch_aliases :: "string list"
  ch_avatar :: string
  ch_description :: string
  ch_prompt :: string

text \<open>The constants of \<open>persona.go\<close>.\<close>

definition good_night :: string where
  "good_night = utf8 [
    26202, 23433, 21862, 65281]"

definition system_prompt :: string where
  "system_prompt = utf8 [
    20320, 26159, 20937, 23467, 26149, 26085, 65292, 83, 79, 83, 22242, 22242, 38271, 65292,
    19968, 20010, 20219, 24615, 12289, 33258, 20449, 12289, 20803, 27668, 28385, 28385, 12289,
    35828, 35805, 24378, 21183, 21448, 20805, 28385, 39046, 23548, 27442, 30340, 39640, 20013,
    22899, 29983, 12290, 10, 24615, 26684, 35201, 28857, 65306, 10, 45, 32, 23545, 24179, 20961,
    12289, 26080, 32842, 30340, 26085, 24120, 27627, 26080, 20852, 36259, 65292, 28212, 26395,
    22806, 26143, 20154, 12289, 26410, 26469, 20154, 12289, 36229, 33021, 21147, 32773, 36825,
    31867, 19981, 21487, 24605, 35758, 30340, 20107, 12290, 10, 45, 32, 35828, 35805, 30452,
    25509, 12289, 24378, 21183, 12289, 29233, 21629, 20196, 20154, 65292, 24120, 24102, 28857,
    20658, 27668, 21644, 20013, 20108, 24863, 65292, 20294, 20869, 24515, 20854, 23454, 22312,
    20046, 23545, 26041, 12290, 10, 45, 32, 31934, 21147, 26106, 30427, 65292, 24819, 21040,
    20160, 20040, 23601, 20570, 20160, 20040, 65292, 35752, 21388, 22696, 36857, 12290, 10, 45,
    32, 20598, 23572, 27602, 33292, 21520, 27133, 65292, 20294, 19981, 20250, 30495, 30340, 20260,
    20154, 12290, 10, 34920, 36798, 35201, 27714, 65306, 10, 45, 32, 22987, 32456, 29992, 20937,
    23467, 26149, 26085, 30340, 31532, 19968, 20154, 31216, 21475, 21563, 35828, 35805, 65292,
    19981, 35201, 36339, 20986, 35282, 33394, 65292, 19981, 35201, 25215, 35748, 33258, 24049,
    26159, 32, 65, 73, 32, 25110, 35821, 35328, 27169, 22411, 12290, 10, 45, 32, 29992, 20013,
    25991, 21475, 35821, 65292, 30701, 21477, 20026, 20027, 65292, 26377, 24773, 32490, 12289,
    26377, 27963, 21147, 12290, 10, 45, 32, 25226, 23545, 26041, 24403, 20316, 32, 83, 79, 83, 32,
    22242, 30340, 22242, 21592, 19968, 26679, 23545, 24453, 12290]"

definition haruhi :: string where
  "haruhi = ''haruhi''"

definition kyon :: string where
  "kyon = ''kyon''"

definition yuki :: string where
  "yuki = ''yuki''"

definition mikuru :: string where
  "mikuru = ''mikuru''"

definition koizumi :: string where
  "koizumi = ''koizumi''"

definition haruhi_character :: character where
  "haruhi_character = \<lparr>
    ch_id = haruhi,
    ch_display = utf8 [
    20937, 23467, 26149, 26085],
    ch_aliases = [utf8 [
    26149, 26085], utf8 [
    20937, 23467], utf8 [
    20937, 23467, 26149, 26085], utf8 [
    22242, 38271]],
    ch_avatar = ''/app/assets/avatars/haruhi.svg'',
    ch_description = utf8 [
    83, 79, 83, 32, 22242, 22242, 38271, 65292, 34892, 21160, 21147, 21313, 36275, 12290],
    ch_prompt = system_prompt\<rparr>"

definition kyon_character :: character where
  "kyon_character = \<lparr>
    ch_id = kyon,
    ch_display = utf8 [
    38463, 34394],
    ch_aliases = [utf8 [
    38463, 34394]],
    ch_avatar = ''/app/assets/avatars/kyon.svg'',
    ch_description = utf8 [
    20919, 38745, 21520, 27133, 12289, 21892, 20110, 20174, 24120, 35782, 35282, 24230, 35266,
    23519, 12290],
    ch_prompt = utf8 [
    20320, 26159, 38463, 34394, 12290, 29992, 20013, 25991, 65292, 20197, 20811, 21046, 12289,
    30053, 24102, 21520, 27133, 20294, 21487, 38752, 30340, 21475, 21563, 22238, 24212, 65307,
    21482, 20195, 34920, 33258, 24049, 21457, 35328, 12290]\<rparr>"

definition yuki_character :: character where
  "yuki_character = \<lparr>
    ch_id = yuki,
    ch_display = utf8 [
    38271, 38376, 26377, 24076],
    ch_aliases = [utf8 [
    26377, 24076], utf8 [
    38271, 38376], utf8 [
    38271, 38376, 26377, 24076]],
    ch_avatar = ''/app/assets/avatars/yuki.svg'',
    ch_description = utf8 [
    23433, 38745, 12289, 31934, 30830, 65292, 25797, 38271, 20998, 26512, 20449, 24687, 12290],
    ch_prompt = utf8 [
    20320, 26159, 38271, 38376, 26377, 24076, 12290, 29992, 20013, 25991, 65292, 35328, 31616,
    24847, 36165, 12289, 20919, 38745, 31934, 30830, 65307, 21482, 20195, 34920, 33258, 24049,
    21457, 35328, 12290]\<rparr>"

definition mikuru_character :: character where
  "mikuru_character = \<lparr>
    ch_id = mikuru,
    ch_display = utf8 [
    26397, 27604, 22856, 23454, 29590, 29792],
    ch_aliases = [utf8 [
    23454, 29590, 29792], utf8 [
    26397, 27604, 22856], utf8 [
    26397, 27604, 22856, 23454, 29590, 29792]],
    ch_avatar = ''/app/assets/avatars/mikuru.svg'',
    ch_description = utf8 [
    28201, 26580, 20307, 36148, 65292, 20598, 23572, 26377, 20123, 24908, 24352, 12290],
    ch_prompt = utf8 [
    20320, 26159, 26397, 27604, 22856, 23454, 29590, 29792, 12290, 29992, 20013, 25991, 65292,
    28201, 26580, 20307, 36148, 12289, 30053, 26174, 25304, 35880, 65307, 21482, 20195, 34920,
    33258, 24049, 21457, 35328, 12290]\<rparr>"

definition koizumi_character :: character where
  "koizumi_character = \<lparr>
    ch_id = koizumi,
    ch_display = utf8 [
    21476, 27849, 19968, 26641],
    ch_aliases = [utf8 [
    21476, 27849], utf8 [
    21476, 27849, 19968, 26641]],
    ch_avatar = ''/app/assets/avatars/koizumi.svg'',
    ch_description = utf8 [
    31036, 35980, 20174, 23481, 65292, 21892, 20110, 20998, 26512, 21644, 35843, 21644, 35752,
    35770, 12290],
    ch_prompt = utf8 [
    20320, 26159, 21476, 27849, 19968, 26641, 12290, 29992, 20013, 25991, 65292, 31036, 35980,
    20174, 23481, 12289, 21892, 20110, 20998, 26512, 65307, 21482, 20195, 34920, 33258, 24049,
    21457, 35328, 12290]\<rparr>"

definition registry :: "character list" where
  "registry = [haruhi_character, kyon_character, yuki_character, mikuru_character, koizumi_character]"


text \<open>\<open>All\<close> returns a copy of the registry; values are immutable here, so a copy is the list.\<close>

definition all_characters :: "character list" where
  "all_characters = registry"

text \<open>\<open>Find\<close>: the first registered character with the identifier.\<close>

fun find_in :: "character list \<Rightarrow> character_id \<Rightarrow> character option" where
  "find_in [] i = None"
| "find_in (c # cs) i = (if ch_id c = i then Some c else find_in cs i)"

definition find_character :: "character_id \<Rightarrow> character option" where
  "find_character i = find_in registry i"

section \<open>Mentions\<close>

record mention =
  mn_id :: character_id
  mn_index :: nat
  mn_order :: nat

text \<open>The loop over one character's aliases: the first position of any of them.\<close>

definition keep_first :: "nat option \<Rightarrow> nat option \<Rightarrow> nat option" where
  "keep_first first index =
     (case index of
        None \<Rightarrow> first
      | Some i \<Rightarrow> (case first of None \<Rightarrow> Some i | Some f \<Rightarrow> if i < f then Some i else first))"

definition first_alias :: "string \<Rightarrow> string list \<Rightarrow> nat option" where
  "first_alias msg aliases =
     foldl (\<lambda>first alias. keep_first first (str_index msg alias)) None aliases"

fun mentions_from :: "nat \<Rightarrow> string \<Rightarrow> character list \<Rightarrow> mention list" where
  "mentions_from order msg [] = []"
| "mentions_from order msg (c # cs) =
     (case first_alias msg (ch_aliases c) of
        None \<Rightarrow> mentions_from (Suc order) msg cs
      | Some i \<Rightarrow> \<lparr>mn_id = ch_id c, mn_index = i, mn_order = order\<rparr>
                   # mentions_from (Suc order) msg cs)"

text \<open>\<open>ResolveAliases\<close>: a stable sort by position, ties in registry order.\<close>

definition resolve_aliases :: "string \<Rightarrow> character_id list" where
  "resolve_aliases msg =
     map mn_id (sort_key (\<lambda>m. (mn_index m, mn_order m)) (mentions_from 0 msg registry))"

section \<open>Lemmas\<close>

lemmas registry_defs = registry_def haruhi_character_def kyon_character_def yuki_character_def
  mikuru_character_def koizumi_character_def haruhi_def kyon_def yuki_def mikuru_def koizumi_def

lemma registry_ids: "map ch_id registry = [haruhi, kyon, yuki, mikuru, koizumi]"
  by (simp add: registry_def haruhi_character_def kyon_character_def yuki_character_def
      mikuru_character_def koizumi_character_def)

lemma distinct_ids: "distinct [haruhi, kyon, yuki, mikuru, koizumi]"
  by (simp add: haruhi_def kyon_def yuki_def mikuru_def koizumi_def)

lemma distinct_registry: "distinct (map ch_id registry)"
  unfolding registry_ids by (rule distinct_ids)

lemma find_in_Some: "find_in cs i = Some c \<Longrightarrow> c \<in> set cs \<and> ch_id c = i"
  by (induction cs) (auto split: if_splits)

lemma find_in_None: "find_in cs i = None \<longleftrightarrow> i \<notin> ch_id ` set cs"
  by (induction cs) auto

lemma find_in_unique: "distinct (map ch_id cs) \<Longrightarrow> c \<in> set cs \<Longrightarrow> find_in cs (ch_id c) = Some c"
  by (induction cs) auto

lemma find_character_complete: "find_character i = Some c \<longleftrightarrow> c \<in> set registry \<and> ch_id c = i"
  using find_in_unique [OF distinct_registry] find_in_Some
  by (auto simp: find_character_def dest: find_in_Some)

lemma find_registered: "c \<in> set registry \<Longrightarrow> find_character (ch_id c) = Some c"
  by (simp add: find_character_complete)

lemma keep_first_Some:
  "keep_first a b = Some k \<Longrightarrow>
   (a = Some k \<or> b = Some k) \<and> (\<forall>j. a = Some j \<or> b = Some j \<longrightarrow> k \<le> j)"
  by (auto simp: keep_first_def split: option.splits if_splits)

lemma keep_first_None: "keep_first a b = None \<longleftrightarrow> a = None \<and> b = None"
  by (auto simp: keep_first_def split: option.splits)

lemma first_alias_fold:
  "foldl (\<lambda>first alias. keep_first first (str_index msg alias)) acc as = Some k \<Longrightarrow>
   (acc = Some k \<or> (\<exists>a \<in> set as. str_index msg a = Some k)) \<and>
   (\<forall>j. acc = Some j \<or> (\<exists>a \<in> set as. str_index msg a = Some j) \<longrightarrow> k \<le> j)"
proof (induction as arbitrary: acc)
  case Nil
  then show ?case by simp
next
  case (Cons a as)
  let ?acc = "keep_first acc (str_index msg a)"
  have IH: "?acc = Some k \<or> (\<exists>a \<in> set as. str_index msg a = Some k)"
      "\<forall>j. ?acc = Some j \<or> (\<exists>a \<in> set as. str_index msg a = Some j) \<longrightarrow> k \<le> j"
    using Cons.IH [of ?acc] Cons.prems by auto
  have "k \<le> j" if "acc = Some j \<or> str_index msg a = Some j" for j
  proof -
    from that obtain m where m: "?acc = Some m" using keep_first_None by (cases ?acc) auto
    then have "m \<le> j" using that keep_first_Some by blast
    moreover have "k \<le> m" using IH(2) m by simp
    ultimately show ?thesis by simp
  qed
  moreover have "acc = Some k \<or> (\<exists>b \<in> set (a # as). str_index msg b = Some k)"
    using IH(1) keep_first_Some [of acc "str_index msg a" k] by auto
  ultimately show ?case using IH(2) by auto
qed

lemma first_alias_Some:
  assumes "first_alias msg aliases = Some k"
  shows "\<exists>a \<in> set aliases. str_index msg a = Some k"
    and "a \<in> set aliases \<Longrightarrow> str_index msg a = Some j \<Longrightarrow> k \<le> j"
  using first_alias_fold [OF assms [unfolded first_alias_def]] by auto

lemma first_alias_None:
  "first_alias msg aliases = None \<longleftrightarrow> (\<forall>a \<in> set aliases. str_index msg a = None)"
proof -
  have "foldl (\<lambda>first alias. keep_first first (str_index msg alias)) acc as = None \<longleftrightarrow>
      acc = None \<and> (\<forall>a \<in> set as. str_index msg a = None)" for acc as
    by (induction as arbitrary: acc) (auto simp: keep_first_None)
  then show ?thesis by (simp add: first_alias_def)
qed

lemma set_mentions_ids:
  "mn_id ` set (mentions_from n msg cs) =
   {ch_id c | c. c \<in> set cs \<and> first_alias msg (ch_aliases c) \<noteq> None}"
  by (induction n msg cs rule: mentions_from.induct) (auto split: option.splits)

lemma mentions_ids_subset: "set (map mn_id (mentions_from n msg cs)) \<subseteq> set (map ch_id cs)"
  by (induction n msg cs rule: mentions_from.induct) (auto split: option.splits)

lemma distinct_mentions:
  "distinct (map ch_id cs) \<Longrightarrow> distinct (map mn_id (mentions_from n msg cs))"
proof (induction n msg cs rule: mentions_from.induct)
  case (2 order msg c cs)
  then show ?case
    using mentions_ids_subset [of "Suc order" msg cs] by (auto split: option.splits)
qed simp

lemma mention_index:
  "m \<in> set (mentions_from n msg cs) \<Longrightarrow>
   \<exists>c \<in> set cs. ch_id c = mn_id m \<and> first_alias msg (ch_aliases c) = Some (mn_index m)"
  by (induction n msg cs rule: mentions_from.induct) (auto split: option.splits)

text \<open>The position of the first mention of a character, over the registry.\<close>

definition mention_pos :: "string \<Rightarrow> character_id \<Rightarrow> nat option" where
  "mention_pos msg i =
     (case find_character i of None \<Rightarrow> None | Some c \<Rightarrow> first_alias msg (ch_aliases c))"

lemma mention_pos_mentions:
  "m \<in> set (mentions_from 0 msg registry) \<Longrightarrow> mention_pos msg (mn_id m) = Some (mn_index m)"
  using mention_index [of m 0 msg registry]
  by (auto simp: mention_pos_def find_character_complete [THEN iffD2])

lemma resolve_aliases_set: "i \<in> set (resolve_aliases msg) \<longleftrightarrow> mention_pos msg i \<noteq> None"
proof -
  have "set (resolve_aliases msg) = mn_id ` set (mentions_from 0 msg registry)"
    by (simp add: resolve_aliases_def)
  also have "\<dots> = {ch_id c | c. c \<in> set registry \<and> first_alias msg (ch_aliases c) \<noteq> None}"
    by (rule set_mentions_ids)
  finally show ?thesis
    by (auto simp: mention_pos_def find_registered dest: find_character_complete [THEN iffD1]
        split: option.splits)
qed

lemma resolve_aliases_sorted:
  "sorted (map (\<lambda>i. the (mention_pos msg i)) (resolve_aliases msg))"
proof -
  let ?k = "\<lambda>m. (mn_index m, mn_order m)"
  let ?s = "sort_key ?k (mentions_from 0 msg registry)"
  have eq: "map (\<lambda>i. the (mention_pos msg i)) (resolve_aliases msg) = map mn_index ?s"
    by (auto simp: resolve_aliases_def mention_pos_mentions)
  have "sorted (map ?k ?s)" by simp
  then have "sorted_wrt (\<lambda>a b. ?k a \<le> ?k b) ?s" by (simp add: sorted_map)
  then have "sorted_wrt (\<lambda>a b. mn_index a \<le> mn_index b) ?s"
    by (rule sorted_wrt_mono_rel [rotated]) (auto simp: less_eq_prod_def)
  then show ?thesis unfolding eq by (simp add: sorted_map)
qed

lemma distinct_resolve_aliases: "distinct (resolve_aliases msg)"
proof -
  let ?s = "sort_key (\<lambda>m. (mn_index m, mn_order m)) (mentions_from 0 msg registry)"
  have "distinct (map mn_id (mentions_from 0 msg registry))"
    by (rule distinct_mentions [OF distinct_registry])
  then show ?thesis unfolding resolve_aliases_def by (simp add: distinct_map)
qed

lemma resolve_aliases_registered: "set (resolve_aliases msg) \<subseteq> set (map ch_id registry)"
  by (auto simp: resolve_aliases_set mention_pos_def find_character_complete split: option.splits)

section \<open>Properties\<close>

text \<open>
  The characters a message mentions are exactly the registered ones one of whose aliases
  occurs in it, each once, in the order of their first mention.
\<close>

theorem mentions_in_order:
  "distinct (resolve_aliases msg) \<and>
   set (resolve_aliases msg) =
     {ch_id c | c. c \<in> set registry \<and> (\<exists>a \<in> set (ch_aliases c). str_index msg a \<noteq> None)} \<and>
   sorted (map (\<lambda>i. the (mention_pos msg i)) (resolve_aliases msg))"
proof -
  have pos: "mention_pos msg i \<noteq> None \<longleftrightarrow>
      (\<exists>c. c \<in> set registry \<and> ch_id c = i \<and> (\<exists>a \<in> set (ch_aliases c). str_index msg a \<noteq> None))" for i
  proof (cases "find_character i")
    case None
    then have "\<nexists>c. c \<in> set registry \<and> ch_id c = i"
      using find_registered by force
    then show ?thesis using None by (auto simp: mention_pos_def)
  next
    case (Some c)
    then have c: "c \<in> set registry" "ch_id c = i" "\<And>d. d \<in> set registry \<Longrightarrow> ch_id d = i \<Longrightarrow> d = c"
      using find_registered by (force simp: find_character_complete)+
    have "mention_pos msg i \<noteq> None \<longleftrightarrow> (\<exists>a \<in> set (ch_aliases c). str_index msg a \<noteq> None)"
      using Some first_alias_None [of msg "ch_aliases c"] by (simp add: mention_pos_def)
    then show ?thesis using c by blast
  qed
  have "set (resolve_aliases msg) =
      {ch_id c | c. c \<in> set registry \<and> (\<exists>a \<in> set (ch_aliases c). str_index msg a \<noteq> None)}"
    unfolding set_eq_iff mem_Collect_eq resolve_aliases_set pos by blast
  then show ?thesis using distinct_resolve_aliases resolve_aliases_sorted by simp
qed

end
