(* ===== verification/Conversation.thy ===== *)
theory Conversation
  imports Go_Env "HOL-Library.List_Lexorder" "HOL-Library.Char_ord"
begin

text \<open>
  Package \<open>internal/conversation\<close>: the conversation store in Redis. \<open>redis_store.go\<close> keeps the
  turns of an identity in one list per Beijing day; \<open>structured_store.go\<close> keeps, per
  conversation, the message list of the day, its sequence counter, a hash from client
  requests to their batches, the batches and the generation lease. The Lua scripts are
  functions on the server state, the Go methods the calls around them.

  A method takes the environment and the store's configuration; \<open>s.now()\<close> is the clock of the
  environment. A date is a Beijing day number.
\<close>

section \<open>The store\<close>

record conv_store =
  cs_prefix :: string
  cs_ttl :: time
  cs_lease_ttl :: time

text \<open>\<open>NewRedisStore\<close>.\<close>

definition new_redis_store :: "string \<Rightarrow> time \<Rightarrow> conv_store" where
  "new_redis_store pre ttl = \<lparr>cs_prefix = pre, cs_ttl = ttl, cs_lease_ttl = 45 * second\<rparr>"

definition milliseconds :: "time \<Rightarrow> int" where
  "milliseconds d = d div 1000000"

text \<open>\<open>newTurnID\<close>: sixteen random bytes in hexadecimal, or the clock when there are none.\<close>

definition show_int :: "int \<Rightarrow> string" where
  "show_int n = (if n < 0 then ''-'' @ show_nat (nat (- n)) else show_nat (nat n))"

definition new_turn_id :: "('s, 'z) env_scheme \<Rightarrow> 's \<Rightarrow> string \<times> 's" where
  "new_turn_id R s =
     (case env_random R 16 s of
        (Some b, s1) \<Rightarrow> (hex_encode b, s1)
      | (None, s1) \<Rightarrow> (case env_now R s1 of (t, s2) \<Rightarrow> (''turn-'' @ show_int t, s2)))"

section \<open>Keys\<close>

definition turns_key :: "conv_store \<Rightarrow> identity \<Rightarrow> day \<Rightarrow> string" where
  "turns_key c i d = cs_prefix c @ ''conversation:'' @ id_channel i @ '':'' @ id_external i @ '':'' @ fmt_date d"

definition active_key :: "conv_store \<Rightarrow> day \<Rightarrow> string" where
  "active_key c d = cs_prefix c @ ''conversation:active:'' @ fmt_date d"

definition active_member :: "identity \<Rightarrow> string" where
  "active_member i = id_channel i @ ''|'' @ id_external i"

definition scope_tag :: "scope \<Rightarrow> string" where
  "scope_tag sc = ''{'' @ id_channel (sc_identity sc) @ ''|'' @ id_external (sc_identity sc) @ ''|'' @
     sc_conversation sc @ ''}''"

definition scope_key :: "conv_store \<Rightarrow> scope \<Rightarrow> string \<Rightarrow> string" where
  "scope_key c sc rest = cs_prefix c @ ''conversation:v2:'' @ scope_tag sc @ '':'' @ rest"

definition messages_key :: "conv_store \<Rightarrow> scope \<Rightarrow> day \<Rightarrow> string" where
  "messages_key c sc d = scope_key c sc (fmt_date d @ '':messages'')"

definition sequence_key :: "conv_store \<Rightarrow> scope \<Rightarrow> day \<Rightarrow> string" where
  "sequence_key c sc d = scope_key c sc (fmt_date d @ '':sequence'')"

definition batch_key :: "conv_store \<Rightarrow> scope \<Rightarrow> string \<Rightarrow> string" where
  "batch_key c sc batch_id = scope_key c sc (''batch:'' @ batch_id)"

definition requests_key :: "conv_store \<Rightarrow> scope \<Rightarrow> day \<Rightarrow> string" where
  "requests_key c sc d = scope_key c sc (fmt_date d @ '':requests'')"

definition lease_key :: "conv_store \<Rightarrow> scope \<Rightarrow> string" where
  "lease_key c sc = scope_key c sc ''lease''"

definition active_scopes_key :: "conv_store \<Rightarrow> day \<Rightarrow> string" where
  "active_scopes_key c d = cs_prefix c @ ''conversation:v2:active:'' @ fmt_date d"

definition active_scope_member :: "scope \<Rightarrow> string" where
  "active_scope_member sc = id_channel (sc_identity sc) @ ''|'' @ id_external (sc_identity sc) @ ''|'' @
     sc_conversation sc"

section \<open>Turns of an identity (\<open>redis_store.go\<close>)\<close>

fun decode_turn :: "blob \<Rightarrow> turn option" where
  "decode_turn (TurnDoc t) = Some t"
| "decode_turn _ = None"

fun decode_turns :: "blob list \<Rightarrow> go_error + turn list" where
  "decode_turns [] = Inr []"
| "decode_turns (b # bs) =
     (case decode_turn b of
        None \<Rightarrow> Inl ErrDecode
      | Some t \<Rightarrow> (case decode_turns bs of Inl e \<Rightarrow> Inl e | Inr ts \<Rightarrow> Inr (t # ts)))"

definition add_turn_pipe :: "('s, 'z) redis_scheme \<Rightarrow> conv_store \<Rightarrow> identity \<Rightarrow> day \<Rightarrow> turn \<Rightarrow> 's \<Rightarrow> 's" where
  "add_turn_pipe R c i d t s =
     (let tk = turns_key c i d; ak = active_key c d; ttl = milliseconds (cs_ttl c)
      in r_pexpire R ak ttl (r_pexpire R tk ttl (r_sadd R ak (active_member i) (r_rpush R tk (TurnDoc t) s))))"

definition add_turn ::
  "('s, 'z) env_scheme \<Rightarrow> conv_store \<Rightarrow> identity \<Rightarrow> string \<Rightarrow> string \<Rightarrow> ('s, turn) io" where
  "add_turn R c i role content s =
     (let (created, s1) = env_now R s;
          (tid, s2) = new_turn_id R s1;
          t = zero_turn\<lparr>tn_id := tid, tn_role := role, tn_content := content, tn_created := created\<rparr>;
          d = beijing_day created
      in case round_trip R (writing (add_turn_pipe R c i d t)) s2 of
           (Inl e, s3) \<Rightarrow> (Inl e, s3)
         | (Inr _, s3) \<Rightarrow> (Inr t, s3))"

definition turns_for_date ::
  "('s, 'z) env_scheme \<Rightarrow> conv_store \<Rightarrow> identity \<Rightarrow> day \<Rightarrow> int \<Rightarrow> ('s, turn list) io" where
  "turns_for_date R c i d limit s =
     (let start = (if 0 < limit then - limit else 0)
      in case round_trip R (reading (r_lrange R (turns_key c i d) start (- 1))) s of
           (Inl e, s') \<Rightarrow> (Inl e, s')
         | (Inr values, s') \<Rightarrow> (decode_turns values, s'))"

definition recent_turns :: "('s, 'z) env_scheme \<Rightarrow> conv_store \<Rightarrow> identity \<Rightarrow> int \<Rightarrow> ('s, turn list) io" where
  "recent_turns R c i limit s =
     (let (t, s1) = env_now R s in turns_for_date R c i (beijing_day t) limit s1)"

text \<open>\<open>TurnsForDate\<close> takes a time and uses its Beijing date.\<close>

definition turns_of_day :: "('s, 'z) env_scheme \<Rightarrow> conv_store \<Rightarrow> identity \<Rightarrow> time \<Rightarrow> ('s, turn list) io" where
  "turns_of_day R c i t = turns_for_date R c i (beijing_day t) 0"

definition parse_active_member :: "string \<Rightarrow> identity option" where
  "parse_active_member member =
     (let parts = split_n 2 (CHR ''|'') member in
      if length parts \<noteq> 2 \<or> parts ! 0 = [] \<or> parts ! 1 = [] then None
      else Some \<lparr>id_channel = parts ! 0, id_external = parts ! 1\<rparr>)"

definition active_identities :: "('s, 'z) env_scheme \<Rightarrow> conv_store \<Rightarrow> time \<Rightarrow> ('s, identity list) io" where
  "active_identities R c t s =
     (case round_trip R (reading (r_smembers R (active_key c (beijing_day t)))) s of
        (Inl e, s') \<Rightarrow> (Inl e, s')
      | (Inr members, s') \<Rightarrow> (Inr (List.map_filter parse_active_member members), s'))"

definition clear_turns_pipe :: "('s, 'z) redis_scheme \<Rightarrow> conv_store \<Rightarrow> identity \<Rightarrow> day \<Rightarrow> 's \<Rightarrow> 's" where
  "clear_turns_pipe R c i d s = r_srem R (active_key c d) (active_member i) (r_del R (turns_key c i d) s)"

definition clear_date :: "('s, 'z) env_scheme \<Rightarrow> conv_store \<Rightarrow> identity \<Rightarrow> time \<Rightarrow> ('s, unit) io" where
  "clear_date R c i t =
     round_trip R (writing (clear_turns_pipe R c i (beijing_day t)))"

definition clear_today :: "('s, 'z) env_scheme \<Rightarrow> conv_store \<Rightarrow> identity \<Rightarrow> ('s, unit) io" where
  "clear_today R c i s = (let (t, s1) = env_now R s in clear_date R c i t s1)"

section \<open>Batches (\<open>structured_store.go\<close>)\<close>

text \<open>The keys a script receives, in the order of its \<open>KEYS\<close>.\<close>

record begin_keys =
  bk_messages :: string
  bk_sequence :: string
  bk_requests :: string
  bk_previous :: string
  bk_lease :: string
  bk_batch :: string
  bk_active :: string

datatype begin_reply = ReplyExisting batch_doc | ReplyBusy | ReplyStarted batch_doc string

definition generation_interrupted :: string where
  "generation_interrupted = ''generation_interrupted''"

text \<open>The record of a known request: settled when its generation lost the lease, and tidied.\<close>

definition interrupt_abandoned :: "bool \<Rightarrow> batch_doc \<Rightarrow> batch_doc option" where
  "interrupt_abandoned leased d =
     (if bd_status d = batch_generating \<and> \<not> leased then
        map_option (\<lambda>ms. d\<lparr>bd_status := (if ms = [] then batch_failed else batch_partial),
                            bd_code := generation_interrupted\<rparr>) (lua_items (bd_messages d))
      else Some d)"

definition tidy_collections :: "batch_doc \<Rightarrow> batch_doc option" where
  "tidy_collections d =
     (case (drop_empty (bd_messages d), drop_empty (bd_planned d)) of
        (Some m, Some p) \<Rightarrow> Some (d\<lparr>bd_messages := m, bd_planned := p\<rparr>)
      | _ \<Rightarrow> None)"

text \<open>The value the script finds for the request, and the hash it finds it in.\<close>

definition find_request ::
  "('s, 'z) redis_scheme \<Rightarrow> begin_keys \<Rightarrow> string \<Rightarrow> 's \<Rightarrow> blob option \<times> string" where
  "find_request R ks request s =
     (let existing = r_hget R (bk_requests ks) request s
      in if existing = None then (r_hget R (bk_previous ks) request s, bk_previous ks)
         else (existing, bk_requests ks))"

definition begin_batch_script ::
  "('s, 'z) redis_scheme \<Rightarrow> begin_keys \<Rightarrow> string \<Rightarrow> batch_doc \<Rightarrow> string \<Rightarrow> int \<Rightarrow> int \<Rightarrow> string \<Rightarrow>
   's \<Rightarrow> begin_reply option \<times> 's" where
  "begin_batch_script R ks request batch_data token ttl lease_ttl member s =
     (case find_request R ks request s of
        (Some blob, ledger) \<Rightarrow>
          (case blob of
             BatchDoc d \<Rightarrow>
               (case Option.bind (interrupt_abandoned (r_exists R (bk_lease ks) s) d) tidy_collections of
                  None \<Rightarrow> (None, s)
                | Some d' \<Rightarrow> (Some (ReplyExisting d'), r_hset R ledger request (BatchDoc d') s))
           | _ \<Rightarrow> (None, s))
      | (None, _) \<Rightarrow>
          if r_exists R (bk_lease ks) s then (Some ReplyBusy, s)
          else
            (let s1 = r_set R (bk_lease ks) (Raw token) (Some lease_ttl) s;
                 (sequence, s2) = r_incr R (bk_sequence ks) s1;
                 numbered = batch_data\<lparr>bd_user := (bd_user batch_data)\<lparr>tn_sequence := nat sequence\<rparr>\<rparr>
             in case tidy_collections numbered of
                  None \<Rightarrow> (None, s2)
                | Some encoded \<Rightarrow>
                    (let s3 = r_rpush R (bk_messages ks) (TurnDoc (bd_user encoded)) s2;
                         s4 = r_set R (bk_batch ks) (BatchDoc encoded) (Some ttl) s3;
                         s5 = r_hset R (bk_requests ks) request (BatchDoc encoded) s4;
                         s6 = r_sadd R (bk_active ks) member s5;
                         s7 = r_pexpire R (bk_messages ks) ttl s6;
                         s8 = r_pexpire R (bk_sequence ks) ttl s7;
                         s9 = r_pexpire R (bk_requests ks) ttl s8;
                         s10 = r_pexpire R (bk_active ks) ttl s9
                     in (Some (ReplyStarted encoded token), s10))))"

text \<open>\<open>normalizeBatchCollections\<close>.\<close>

definition normalize_batch_collections :: "batch \<Rightarrow> batch" where
  "normalize_batch_collections b =
     b\<lparr>bt_planned := Some (elems (bt_planned b)), bt_messages := Some (elems (bt_messages b))\<rparr>"

definition migrate_legacy_script ::
  "('s, 'z) redis_scheme \<Rightarrow> string \<Rightarrow> string \<Rightarrow> string \<Rightarrow> int \<Rightarrow> 's \<Rightarrow> int option \<times> 's" where
  "migrate_legacy_script R lk mk sk ttl s =
     (if \<not> r_exists R lk s then (Some (int (r_llen R mk s)), s)
      else
        (let legacy = r_lrange R lk 0 (- 1) s;
             current = r_lrange R mk 0 (- 1) s;
             s1 = r_del R mk s;
             s2 = fold (r_rpush R mk) legacy s1;
             s3 = fold (r_rpush R mk) current s2;
             s4 = r_del R lk s3;
             total = int (length legacy + length current);
             s5 = r_set R sk (Num total) None s4;
             s6 = r_pexpire R mk ttl s5;
             s7 = r_pexpire R sk ttl s6
         in (Some total, s7)))"

definition migrate_legacy_scope ::
  "('s, 'z) env_scheme \<Rightarrow> conv_store \<Rightarrow> scope \<Rightarrow> day \<Rightarrow> ('s, unit) io" where
  "migrate_legacy_scope R c sc d s =
     (if sc_conversation sc \<noteq> default_conversation then (Inr (), s)
      else case round_trip R (migrate_legacy_script R (turns_key c (sc_identity sc) d)
                  (messages_key c sc d) (sequence_key c sc d) (milliseconds (cs_ttl c))) s of
             (Inl e, s') \<Rightarrow> (Inl e, s')
           | (Inr _, s') \<Rightarrow> (Inr (), s'))"

text \<open>The display name of the user, outside ASCII.\<close>

definition user_display :: string where
  "user_display = utf8 [20320]"

definition begin_keys_of :: "conv_store \<Rightarrow> scope \<Rightarrow> day \<Rightarrow> string \<Rightarrow> begin_keys" where
  "begin_keys_of c sc d batch_id =
     \<lparr>bk_messages = messages_key c sc d, bk_sequence = sequence_key c sc d,
      bk_requests = requests_key c sc d, bk_previous = requests_key c sc (d - 1),
      bk_lease = lease_key c sc, bk_batch = batch_key c sc batch_id,
      bk_active = active_scopes_key c d\<rparr>"

definition fresh_batch :: "scope \<Rightarrow> string \<Rightarrow> string \<Rightarrow> string \<Rightarrow> string \<Rightarrow> time \<Rightarrow> batch" where
  "fresh_batch sc batch_id turn_id request content now =
     \<lparr>bt_id = batch_id, bt_request = request, bt_conversation = sc_conversation sc, bt_planned = Some [],
      bt_user = \<lparr>tn_id = turn_id, tn_role = role_user, tn_content = content, tn_created = now,
        tn_conversation = sc_conversation sc, tn_speaker_kind = speaker_user, tn_speaker = speaker_user,
        tn_batch = batch_id, tn_sequence = 0, tn_display = user_display, tn_avatar = []\<rparr>,
      bt_messages = Some [], bt_status = batch_generating, bt_code = [], bt_created = now, bt_updated = now\<rparr>"

definition begin_result :: "batch \<Rightarrow> begin_reply \<Rightarrow> go_error + (batch \<times> begin_state \<times> string)" where
  "begin_result b reply =
     (case reply of
        ReplyBusy \<Rightarrow> Inl ErrConversationBusy
      | ReplyExisting d \<Rightarrow>
          (case unmarshal_batch b d of
             None \<Rightarrow> Inl ErrDecode
           | Some b' \<Rightarrow> Inr (normalize_batch_collections b', BeginExisting, []))
      | ReplyStarted d token \<Rightarrow>
          (case unmarshal_batch b d of
             None \<Rightarrow> Inl ErrDecode
           | Some b' \<Rightarrow> Inr (normalize_batch_collections b', BeginStarted, token)))"

definition begin_batch ::
  "('s, 'z) env_scheme \<Rightarrow> conv_store \<Rightarrow> scope \<Rightarrow> string \<Rightarrow> string \<Rightarrow>
   ('s, batch \<times> begin_state \<times> string) io" where
  "begin_batch R c sc request content s =
     (let (t0, s0) = env_now R s
      in case migrate_legacy_scope R c sc (beijing_day t0) s0 of
        (Inl e, s1) \<Rightarrow> (Inl e, s1)
      | (Inr _, s1) \<Rightarrow>
          (let (now, s2) = env_now R s1;
               (bid, s3) = new_turn_id R s2; batch_id = ''batch-'' @ bid;
               (uid, s4) = new_turn_id R s3;
               b = fresh_batch sc batch_id (''turn-'' @ uid) request content now;
               d = beijing_day now;
               (token, s5) = new_turn_id R s4
           in case round_trip R (begin_batch_script R (begin_keys_of c sc d batch_id) request
                     (marshal_batch b) token (milliseconds (cs_ttl c)) (milliseconds (cs_lease_ttl c))
                     (active_scope_member sc)) s5 of
                (Inl e, s6) \<Rightarrow> (Inl e, s6)
              | (Inr reply, s6) \<Rightarrow> (begin_result b reply, s6)))"

subsection \<open>Appending a reply\<close>

record append_keys =
  ak_lease :: string
  ak_sequence :: string
  ak_messages :: string
  ak_batch :: string
  ak_requests :: string

datatype append_reply = ReplyLeaseLost | ReplyAppended turn batch_doc

text \<open>
  \<open>messages[#messages]['Sequence'] = sequence\<close>: the last message gets the number. With no
  message the index is 0 and the assignment to \<open>nil\<close> is an error.
\<close>

definition number_last :: "nat \<Rightarrow> turn list \<Rightarrow> turn list option" where
  "number_last n ms =
     (if ms = [] then None else Some (butlast ms @ [(last ms)\<lparr>tn_sequence := n\<rparr>]))"

definition append_character_script ::
  "('s, 'z) redis_scheme \<Rightarrow> append_keys \<Rightarrow> string \<Rightarrow> turn \<Rightarrow> batch_doc \<Rightarrow> string \<Rightarrow> int \<Rightarrow> int \<Rightarrow>
   's \<Rightarrow> append_reply option \<times> 's" where
  "append_character_script R ks token message_data batch_data request ttl lease_ttl s =
     (if r_get R (ak_lease ks) s \<noteq> Some (Raw token) then (Some ReplyLeaseLost, s)
      else
        (let (sequence, s1) = r_incr R (ak_sequence ks) s;
             message = message_data\<lparr>tn_sequence := nat sequence\<rparr>
         in case Option.bind (lua_items (bd_messages batch_data)) (number_last (nat sequence)) of
              None \<Rightarrow> (None, s1)
            | Some ms \<Rightarrow>
                (let encoded = lua_reencode (batch_data\<lparr>bd_messages := JArray ms\<rparr>);
                     s2 = r_rpush R (ak_messages ks) (TurnDoc message) s1;
                     s3 = r_set R (ak_batch ks) (BatchDoc encoded) (Some ttl) s2;
                     s4 = r_hset R (ak_requests ks) request (BatchDoc encoded) s3;
                     s5 = r_pexpire R (ak_messages ks) ttl s4;
                     s6 = r_pexpire R (ak_requests ks) ttl s5;
                     s7 = r_pexpire R (ak_lease ks) lease_ttl s6
                 in (Some (ReplyAppended message encoded), s7))))"

definition append_keys_of :: "conv_store \<Rightarrow> scope \<Rightarrow> batch \<Rightarrow> append_keys" where
  "append_keys_of c sc b =
     (let d = beijing_day (bt_created b)
      in \<lparr>ak_lease = lease_key c sc, ak_sequence = sequence_key c sc d, ak_messages = messages_key c sc d,
          ak_batch = batch_key c sc (bt_id b), ak_requests = requests_key c sc d\<rparr>)"

text \<open>The method updates the caller's batch in place; the batch afterwards is part of the result.\<close>

definition append_character ::
  "('s, 'z) env_scheme \<Rightarrow> conv_store \<Rightarrow> scope \<Rightarrow> batch \<Rightarrow> string \<Rightarrow> string \<Rightarrow> string \<Rightarrow> string \<Rightarrow> string \<Rightarrow>
   's \<Rightarrow> ((go_error + turn) \<times> batch) \<times> 's" where
  "append_character R c sc b token speaker display avatar content s =
     (let (now, s1) = env_now R s;
          (tid, s2) = new_turn_id R s1;
          message = \<lparr>tn_id = ''turn-'' @ tid, tn_role = role_assistant, tn_content = content,
            tn_created = now, tn_conversation = sc_conversation sc, tn_speaker_kind = speaker_character,
            tn_speaker = speaker, tn_batch = bt_id b, tn_sequence = 0, tn_display = display,
            tn_avatar = avatar\<rparr>;
          b1 = b\<lparr>bt_messages := append1 (bt_messages b) message, bt_updated := now\<rparr>
      in case round_trip R (append_character_script R (append_keys_of c sc b) token message (marshal_batch b1)
                (bt_request b) (milliseconds (cs_ttl c)) (milliseconds (cs_lease_ttl c))) s2 of
           (Inl e, s3) \<Rightarrow> ((Inl e, b1), s3)
         | (Inr ReplyLeaseLost, s3) \<Rightarrow> ((Inl ErrLeaseLost, b1), s3)
         | (Inr (ReplyAppended m d), s3) \<Rightarrow>
             (case unmarshal_into b1 d of
                (b2, ok) \<Rightarrow> (((if ok then Inr m else Inl ErrDecode), b2), s3)))"

subsection \<open>Saving and interrupting\<close>

definition save_batch_script ::
  "('s, 'z) redis_scheme \<Rightarrow> string \<Rightarrow> string \<Rightarrow> string \<Rightarrow> string \<Rightarrow> batch_doc \<Rightarrow> string \<Rightarrow> int \<Rightarrow> bool \<Rightarrow> int \<Rightarrow>
   's \<Rightarrow> int option \<times> 's" where
  "save_batch_script R lease batch_k requests token batch_data request ttl release lease_ttl s =
     (if r_get R lease s \<noteq> Some (Raw token) then (Some 0, s)
      else
        (let s1 = r_set R batch_k (BatchDoc batch_data) (Some ttl) s;
             s2 = r_hset R requests request (BatchDoc batch_data) s1;
             s3 = r_pexpire R requests ttl s2;
             s4 = (if release then r_del R lease s3 else r_pexpire R lease lease_ttl s3)
         in (Some 1, s4)))"

text \<open>The result is the error, if any, and the caller's batch afterwards.\<close>

definition save_batch ::
  "('s, 'z) env_scheme \<Rightarrow> conv_store \<Rightarrow> scope \<Rightarrow> batch \<Rightarrow> string \<Rightarrow> bool \<Rightarrow>
   's \<Rightarrow> (go_error option \<times> batch) \<times> 's" where
  "save_batch R c sc b token release s =
     (let (now, s1) = env_now R s;
          b1 = b\<lparr>bt_updated := now\<rparr>
      in case round_trip R (save_batch_script R (lease_key c sc) (batch_key c sc (bt_id b))
                (requests_key c sc (beijing_day (bt_created b))) token (marshal_batch b1) (bt_request b)
                (milliseconds (cs_ttl c)) release (milliseconds (cs_lease_ttl c))) s1 of
           (Inl e, s2) \<Rightarrow> ((Some e, b1), s2)
         | (Inr n, s2) \<Rightarrow> ((if n \<noteq> 1 then Some ErrLeaseLost else None, b1), s2))"

datatype interrupt_reply = InterruptLeaseLost | InterruptMissing | InterruptOk blob

definition interrupt_generating :: "time \<Rightarrow> batch_doc \<Rightarrow> batch_doc option" where
  "interrupt_generating now d =
     (case lua_items (bd_messages d) of
        None \<Rightarrow> None
      | Some ms \<Rightarrow>
          (let d1 = (if ms = [] then d\<lparr>bd_status := batch_failed, bd_messages := JAbsent\<rparr>
                     else d\<lparr>bd_status := batch_partial\<rparr>)
           in map_option (\<lambda>p. lua_reencode (d1\<lparr>bd_planned := p, bd_code := generation_interrupted,
                                bd_updated := now\<rparr>)) (drop_empty (bd_planned d))))"

definition interrupt_batch_script ::
  "('s, 'z) redis_scheme \<Rightarrow> string \<Rightarrow> string \<Rightarrow> string \<Rightarrow> string \<Rightarrow> string \<Rightarrow> int \<Rightarrow> time \<Rightarrow>
   's \<Rightarrow> interrupt_reply option \<times> 's" where
  "interrupt_batch_script R lease batch_k requests token request ttl now s =
     (if r_get R lease s \<noteq> Some (Raw token) then (Some InterruptLeaseLost, s)
      else case (case r_get R batch_k s of Some b \<Rightarrow> Some b | None \<Rightarrow> r_hget R requests request s) of
             None \<Rightarrow> (Some InterruptMissing, s)
           | Some (BatchDoc d) \<Rightarrow>
               if bd_status d = batch_generating then
                 (case interrupt_generating now d of
                    None \<Rightarrow> (None, s)
                  | Some d' \<Rightarrow>
                      (let s1 = r_set R batch_k (BatchDoc d') (Some ttl) s;
                           s2 = r_hset R requests request (BatchDoc d') s1;
                           s3 = r_pexpire R requests ttl s2
                       in (Some (InterruptOk (BatchDoc d')), r_del R lease s3)))
               else (Some (InterruptOk (BatchDoc d)), r_del R lease s)
           | Some _ \<Rightarrow> (None, s))"

definition interrupt_batch ::
  "('s, 'z) env_scheme \<Rightarrow> conv_store \<Rightarrow> scope \<Rightarrow> string \<Rightarrow> string \<Rightarrow> string \<Rightarrow> time \<Rightarrow> ('s, batch) io" where
  "interrupt_batch R c sc batch_id request token created s =
     (let (now, s1) = env_now R s
      in case round_trip R (interrupt_batch_script R (lease_key c sc) (batch_key c sc batch_id)
                (requests_key c sc (beijing_day created)) token request (milliseconds (cs_ttl c)) now) s1 of
           (Inl e, s2) \<Rightarrow> (Inl e, s2)
         | (Inr (InterruptOk (BatchDoc d)), s2) \<Rightarrow>
             (case unmarshal_batch zero_batch d of
                None \<Rightarrow> (Inl ErrDecode, s2)
              | Some b \<Rightarrow> (Inr (normalize_batch_collections b), s2))
         | (Inr (InterruptOk _), s2) \<Rightarrow> (Inl ErrDecode, s2)
         | (Inr _, s2) \<Rightarrow> (Inl ErrLeaseLost, s2))"

subsection \<open>Reading, clearing and listing\<close>

definition haruhi_display :: string where
  "haruhi_display = utf8 [20937, 23467, 26149, 26085]"

definition haruhi_avatar :: string where
  "haruhi_avatar = ''/app/assets/avatars/haruhi.svg''"

text \<open>
  One step of the loop of \<open>MessagesForDateScope\<close>: fill in what turns from the old store
  lack. The string carried along is the batch the last user turn of the old store opened.
\<close>

definition fill_message :: "scope \<Rightarrow> nat \<Rightarrow> string \<Rightarrow> turn \<Rightarrow> turn \<times> string" where
  "fill_message sc i legacy m =
     (let m1 = (if tn_conversation m = [] then m\<lparr>tn_conversation := sc_conversation sc\<rparr> else m);
          m2 = m1\<lparr>tn_sequence := i + 1\<rparr>
      in if tn_role m = role_user then
           (let m3 = m2\<lparr>tn_speaker_kind := speaker_user, tn_speaker := speaker_user,
                        tn_display := user_display\<rparr>
            in if tn_batch m = [] then
                 (let legacy' = ''legacy-batch-'' @ tn_id m in (m3\<lparr>tn_batch := legacy'\<rparr>, legacy'))
               else (m3, legacy))
         else if tn_speaker m = [] then
           (let m3 = m2\<lparr>tn_speaker_kind := speaker_character, tn_speaker := ''haruhi'',
                        tn_display := haruhi_display, tn_avatar := haruhi_avatar\<rparr>
            in if tn_batch m = [] then
                 (let legacy' = (if legacy = [] then ''legacy-batch-'' @ tn_id m else legacy)
                  in (m3\<lparr>tn_batch := legacy'\<rparr>, legacy'))
               else (m3, legacy))
         else (m2, legacy))"

fun fill_messages :: "scope \<Rightarrow> nat \<Rightarrow> string \<Rightarrow> blob list \<Rightarrow> go_error + turn list" where
  "fill_messages sc i legacy [] = Inr []"
| "fill_messages sc i legacy (b # bs) =
     (case decode_turn b of
        None \<Rightarrow> Inl ErrDecode
      | Some m \<Rightarrow>
          (let (m', legacy') = fill_message sc i legacy m
           in case fill_messages sc (Suc i) legacy' bs of
                Inl e \<Rightarrow> Inl e
              | Inr ms \<Rightarrow> Inr (m' # ms)))"

definition messages_for_date_scope ::
  "('s, 'z) env_scheme \<Rightarrow> conv_store \<Rightarrow> scope \<Rightarrow> time \<Rightarrow> ('s, turn list) io" where
  "messages_for_date_scope R c sc t s =
     (let d = beijing_day t
      in case migrate_legacy_scope R c sc d s of
           (Inl e, s1) \<Rightarrow> (Inl e, s1)
         | (Inr _, s1) \<Rightarrow>
             (case round_trip R (reading (r_lrange R (messages_key c sc d) 0 (- 1))) s1 of
                (Inl e, s2) \<Rightarrow> (Inl e, s2)
              | (Inr values, s2) \<Rightarrow> (fill_messages sc 0 [] values, s2)))"

definition messages :: "('s, 'z) env_scheme \<Rightarrow> conv_store \<Rightarrow> scope \<Rightarrow> ('s, turn list) io" where
  "messages R c sc s = (let (t, s1) = env_now R s in messages_for_date_scope R c sc t s1)"

definition clear_scope_pipe :: "('s, 'z) redis_scheme \<Rightarrow> conv_store \<Rightarrow> scope \<Rightarrow> day \<Rightarrow> 's \<Rightarrow> 's" where
  "clear_scope_pipe R c sc d s =
     (let s2 = r_del R (sequence_key c sc d) (r_del R (messages_key c sc d) s);
          s3 = r_srem R (active_scopes_key c d) (active_scope_member sc) s2
      in if sc_conversation sc = default_conversation
         then r_srem R (active_key c d) (active_member (sc_identity sc)) s3 else s3)"

definition clear_scope_date :: "('s, 'z) env_scheme \<Rightarrow> conv_store \<Rightarrow> scope \<Rightarrow> time \<Rightarrow> ('s, unit) io" where
  "clear_scope_date R c sc t s =
     (let d = beijing_day t
      in case migrate_legacy_scope R c sc d s of
           (Inl e, s1) \<Rightarrow> (Inl e, s1)
         | (Inr _, s1) \<Rightarrow>
             round_trip R (writing (clear_scope_pipe R c sc d)) s1)"

definition clear_scope_today :: "('s, 'z) env_scheme \<Rightarrow> conv_store \<Rightarrow> scope \<Rightarrow> ('s, unit) io" where
  "clear_scope_today R c sc s =
     (case round_trip R (reading (r_exists R (lease_key c sc))) s of
        (Inl e, s1) \<Rightarrow> (Inl e, s1)
      | (Inr busy, s1) \<Rightarrow>
          if busy then (Inl ErrConversationBusy, s1)
          else (let (t, s2) = env_now R s1 in clear_scope_date R c sc t s2))"

definition parse_scope_member :: "string \<Rightarrow> scope option" where
  "parse_scope_member member =
     (let parts = split_n 3 (CHR ''|'') member in
      if length parts \<noteq> 3 \<or> parts ! 0 = [] \<or> parts ! 1 = [] \<or> parts ! 2 = [] then None
      else Some \<lparr>sc_identity = \<lparr>id_channel = parts ! 0, id_external = parts ! 1\<rparr>,
                 sc_conversation = parts ! 2\<rparr>)"

text \<open>\<open>remdups_adj\<close> of the sorted list keeps the first of each run of equal members.\<close>

definition active_scopes :: "('s, 'z) env_scheme \<Rightarrow> conv_store \<Rightarrow> time \<Rightarrow> ('s, scope list) io" where
  "active_scopes R c t s =
     (let d = beijing_day t
      in case round_trip R (reading (r_smembers R (active_scopes_key c d))) s of
           (Inl e, s1) \<Rightarrow> (Inl e, s1)
         | (Inr members, s1) \<Rightarrow>
             (case active_identities R c (day_start d) s1 of
                (Inl e, s2) \<Rightarrow> (Inl e, s2)
              | (Inr legacy, s2) \<Rightarrow>
                  (let all = sort (members @ map (\<lambda>i. active_scope_member
                        \<lparr>sc_identity = i, sc_conversation = default_conversation\<rparr>) legacy)
                   in (Inr (List.map_filter parse_scope_member (remdups_adj all)), s2))))"

end
