(* ===== verification/Conversation_Keys.thy ===== *)
theory Conversation_Keys
  imports Conversation
begin

text \<open>
  The key names of the conversation store: keys of different kinds never coincide, and the
  keys of two conversations never do, as long as channel and external identifier are free of
  the separator. On top of it the typing of the keyspace: \<open>conv_ok\<close> says that every key of the
  store holds a value of its kind, so that no script meets a value it cannot decode.
\<close>

section \<open>Names\<close>

text \<open>Identities whose parts can be told apart in a key or a member.\<close>

definition plain_identity :: "identity \<Rightarrow> bool" where
  "plain_identity i \<longleftrightarrow> is_supported_channel (id_channel i) \<and> CHR ''|'' \<notin> set (id_external i)"

definition plain_scope :: "scope \<Rightarrow> bool" where
  "plain_scope sc \<longleftrightarrow> plain_identity (sc_identity sc) \<and> CHR ''}'' \<notin> set (sc_conversation sc)"

lemma plain_channel: "plain_identity i \<Longrightarrow> CHR ''|'' \<notin> set (id_channel i)"
  by (auto simp: plain_identity_def is_supported_channel_def)

lemma cut_unique:
  assumes "x \<notin> set a" "x \<notin> set a'" "a @ x # b = a' @ x # b'"
  shows "a = a' \<and> b = b'"
proof -
  have "a = a'"
    using arg_cong [OF assms(3), of "takeWhile (\<lambda>c. c \<noteq> x)"]
    unfolding takeWhile_sep [OF assms(1)] takeWhile_sep [OF assms(2)] .
  then show ?thesis using assms(3) by simp
qed

lemma scope_key_inject:
  assumes "plain_scope sc" "plain_scope sc'"
  shows "scope_key c sc a = scope_key c sc' b \<longleftrightarrow> sc = sc' \<and> a = b"
proof
  assume e: "scope_key c sc a = scope_key c sc' b"
  let ?ch = "id_channel (sc_identity sc)" and ?ch' = "id_channel (sc_identity sc')"
  let ?ex = "id_external (sc_identity sc)" and ?ex' = "id_external (sc_identity sc')"
  have p: "CHR ''|'' \<notin> set ?ch" "CHR ''|'' \<notin> set ?ch'" "CHR ''|'' \<notin> set ?ex" "CHR ''|'' \<notin> set ?ex'"
    "CHR ''}'' \<notin> set (sc_conversation sc)" "CHR ''}'' \<notin> set (sc_conversation sc')"
    using assms plain_channel by (auto simp: plain_scope_def plain_identity_def)
  have "?ch @ CHR ''|'' # ?ex @ CHR ''|'' # sc_conversation sc @ CHR ''}'' # '':'' @ a =
      ?ch' @ CHR ''|'' # ?ex' @ CHR ''|'' # sc_conversation sc' @ CHR ''}'' # '':'' @ b"
    using e by (simp add: scope_key_def scope_tag_def)
  from cut_unique [OF p(1,2) this] have c1: "?ch = ?ch'" and
    "?ex @ CHR ''|'' # sc_conversation sc @ CHR ''}'' # '':'' @ a =
     ?ex' @ CHR ''|'' # sc_conversation sc' @ CHR ''}'' # '':'' @ b" by auto
  from cut_unique [OF p(3,4) this(2)] have c2: "?ex = ?ex'" and
    "sc_conversation sc @ CHR ''}'' # '':'' @ a = sc_conversation sc' @ CHR ''}'' # '':'' @ b" by auto
  from cut_unique [OF p(5,6) this(2)] have c3: "sc_conversation sc = sc_conversation sc'" "a = b" by auto
  show "sc = sc' \<and> a = b" using c1 c2 c3 by simp
qed simp

lemma fmt_date_head: "fmt_date d \<noteq> [] \<and> (hd (fmt_date d) = CHR ''-'' \<or> is_digit (hd (fmt_date d)))"
proof -
  have ne: "pad_nat 4 n \<noteq> []" for n
  proof -
    have "show_nat n \<noteq> []" by (subst show_nat.simps) simp
    then show ?thesis by (simp add: pad_nat_def Let_def)
  qed
  then have "is_digit (hd (pad_nat 4 n))" for n
    using pad_nat_digits hd_in_set by blast
  with ne show ?thesis by (auto simp: fmt_date_def Let_def hd_append)
qed

lemma date_cases [simp]:
  "fmt_date d @ x \<noteq> CHR ''b'' # y" "CHR ''b'' # y \<noteq> fmt_date d @ x"
  "fmt_date d @ x \<noteq> CHR ''l'' # y" "CHR ''l'' # y \<noteq> fmt_date d @ x"
  using fmt_date_head [of d] by (cases "fmt_date d"; auto simp: is_digit_def code_def)+

section \<open>Kinds of keys\<close>

datatype kind = KMessages | KSequence | KRequests | KLease | KBatch | KTurns | KActive | KScopes

inductive has_kind :: "conv_store \<Rightarrow> string \<Rightarrow> kind \<Rightarrow> bool" for c :: conv_store where
  kind_messages: "plain_scope sc \<Longrightarrow> has_kind c (messages_key c sc d) KMessages"
| kind_sequence: "plain_scope sc \<Longrightarrow> has_kind c (sequence_key c sc d) KSequence"
| kind_requests: "plain_scope sc \<Longrightarrow> has_kind c (requests_key c sc d) KRequests"
| kind_lease: "plain_scope sc \<Longrightarrow> has_kind c (lease_key c sc) KLease"
| kind_batch: "plain_scope sc \<Longrightarrow> has_kind c (batch_key c sc b) KBatch"
| kind_turns: "plain_identity i \<Longrightarrow> has_kind c (turns_key c i d) KTurns"
| kind_active: "has_kind c (active_key c d) KActive"
| kind_scopes: "has_kind c (active_scopes_key c d) KScopes"

lemmas kind_intros [simp] = has_kind.intros

lemmas scoped_key_defs = messages_key_def sequence_key_def requests_key_def lease_key_def batch_key_def

lemma scoped_keys_differ [simp]:
  assumes "plain_scope sc" "plain_scope sc'"
  shows "messages_key c sc d \<noteq> sequence_key c sc' d'" "sequence_key c sc d \<noteq> messages_key c sc' d'"
    "messages_key c sc d \<noteq> requests_key c sc' d'" "requests_key c sc d \<noteq> messages_key c sc' d'"
    "sequence_key c sc d \<noteq> requests_key c sc' d'" "requests_key c sc d \<noteq> sequence_key c sc' d'"
    "messages_key c sc d \<noteq> lease_key c sc'" "lease_key c sc' \<noteq> messages_key c sc d"
    "sequence_key c sc d \<noteq> lease_key c sc'" "lease_key c sc' \<noteq> sequence_key c sc d"
    "requests_key c sc d \<noteq> lease_key c sc'" "lease_key c sc' \<noteq> requests_key c sc d"
    "messages_key c sc d \<noteq> batch_key c sc' b" "batch_key c sc' b \<noteq> messages_key c sc d"
    "sequence_key c sc d \<noteq> batch_key c sc' b" "batch_key c sc' b \<noteq> sequence_key c sc d"
    "requests_key c sc d \<noteq> batch_key c sc' b" "batch_key c sc' b \<noteq> requests_key c sc d"
    "lease_key c sc \<noteq> batch_key c sc' b" "batch_key c sc' b \<noteq> lease_key c sc"
  using assms by (simp_all add: scoped_key_defs scope_key_inject append_eq_append_conv)

lemma scope_key_shape: "scope_key c sc x = cs_prefix c @ ''conversation:v2:'' @ ''{'' @ tl (scope_tag sc) @ '':'' @ x"
  by (simp add: scope_key_def scope_tag_def)

lemma global_keys_differ [simp]:
  "active_key c d \<noteq> scope_key c sc x" "scope_key c sc x \<noteq> active_key c d"
  "active_scopes_key c d \<noteq> scope_key c sc x" "scope_key c sc x \<noteq> active_scopes_key c d"
  "active_key c d \<noteq> active_scopes_key c d'" "active_scopes_key c d' \<noteq> active_key c d"
  by (simp_all add: active_key_def active_scopes_key_def scope_key_shape)

lemma turns_keys_differ [simp]:
  assumes "plain_identity i"
  shows "turns_key c i d \<noteq> scope_key c sc x" "scope_key c sc x \<noteq> turns_key c i d"
    "turns_key c i d \<noteq> active_key c d'" "active_key c d' \<noteq> turns_key c i d"
    "turns_key c i d \<noteq> active_scopes_key c d'" "active_scopes_key c d' \<noteq> turns_key c i d"
  using assms by (auto simp: turns_key_def active_key_def active_scopes_key_def scope_key_shape
      plain_identity_def is_supported_channel_def)

lemma kind_unique: "has_kind c k a \<Longrightarrow> has_kind c k b \<Longrightarrow> a = b"
  by (elim has_kind.cases) (simp_all add: scoped_keys_differ, simp_all add: scoped_key_defs)

text \<open>What a key of each kind may hold.\<close>

definition doc_ok :: "batch_doc \<Rightarrow> bool" where
  "doc_ok d \<longleftrightarrow> ok_field (bd_planned d) \<and> ok_field (bd_messages d)"

fun kind_value :: "kind \<Rightarrow> rval \<Rightarrow> bool" where
  "kind_value KMessages (RList bs) = (\<forall>b \<in> set bs. \<exists>t. b = TurnDoc t)"
| "kind_value KTurns (RList bs) = (\<forall>b \<in> set bs. \<exists>t. b = TurnDoc t)"
| "kind_value KSequence (RString b) = (\<exists>n. b = Num n \<and> 0 \<le> n)"
| "kind_value KRequests (RHash h) = (\<forall>r b. h r = Some b \<longrightarrow> (\<exists>d. b = BatchDoc d \<and> doc_ok d))"
| "kind_value KLease (RString b) = (\<exists>t. b = Raw t)"
| "kind_value KBatch (RString b) = (\<exists>d. b = BatchDoc d \<and> doc_ok d)"
| "kind_value KActive (RSet A) = True"
| "kind_value KScopes (RSet A) = True"
| "kind_value _ _ = False"

definition conv_ok :: "conv_store \<Rightarrow> keyspace \<Rightarrow> bool" where
  "conv_ok c ks \<longleftrightarrow> (\<forall>k kd v. has_kind c k kd \<longrightarrow> value_at ks k = Some v \<longrightarrow> kind_value kd v)"

lemma conv_okD: "conv_ok c ks \<Longrightarrow> has_kind c k kd \<Longrightarrow> value_at ks k = Some v \<Longrightarrow> kind_value kd v"
  by (auto simp: conv_ok_def)

lemma conv_ok_store:
  "conv_ok c ks \<Longrightarrow> has_kind c k kd \<Longrightarrow> kind_value kd v \<Longrightarrow> conv_ok c (store k v ks)"
  using kind_unique by (fastforce simp: conv_ok_def redis_simps)

lemma conv_ok_put:
  "conv_ok c ks \<Longrightarrow> has_kind c k kd \<Longrightarrow> kind_value kd v \<Longrightarrow> conv_ok c (put k v d ks)"
  using kind_unique by (fastforce simp: conv_ok_def redis_simps)

lemma conv_ok_drop: "conv_ok c ks \<Longrightarrow> conv_ok c (drop_key k ks)"
  by (auto simp: conv_ok_def redis_simps split: if_splits)

lemma conv_ok_expire: "conv_ok c ks \<Longrightarrow> conv_ok c (expire_key now k d ks)"
  by (auto simp: conv_ok_def value_at_expire split: if_splits)

lemma conv_ok_purge: "conv_ok c ks \<Longrightarrow> conv_ok c (purge now ks)"
  by (auto simp: conv_ok_def purge_value split: option.splits if_splits)

lemma conv_ok_empty: "conv_ok c Map.empty"
  by (simp add: conv_ok_def)

text \<open>Reading a well-typed keyspace.\<close>

lemma conv_messages:
  assumes "conv_ok c ks" "has_kind c k kd" "kd = KMessages \<or> kd = KTurns"
  shows "is_list_key ks k" "b \<in> set (list_of ks k) \<Longrightarrow> \<exists>t. b = TurnDoc t"
proof -
  have "\<exists>bs. v = RList bs \<and> (\<forall>b \<in> set bs. \<exists>t. b = TurnDoc t)" if "value_at ks k = Some v" for v
    using conv_okD [OF assms(1,2) that] assms(3) by (cases v) auto
  then show "is_list_key ks k" "b \<in> set (list_of ks k) \<Longrightarrow> \<exists>t. b = TurnDoc t"
    by (cases "value_at ks k"; force simp: is_list_key_def list_of_def)+
qed

lemma conv_requests:
  assumes "conv_ok c ks" "has_kind c k KRequests"
  shows "is_hash_key ks k" "hash_of ks k r = Some b \<Longrightarrow> \<exists>d. b = BatchDoc d \<and> doc_ok d"
proof -
  have "\<exists>h. v = RHash h \<and> (\<forall>r b. h r = Some b \<longrightarrow> (\<exists>d. b = BatchDoc d \<and> doc_ok d))"
    if "value_at ks k = Some v" for v
    using conv_okD [OF assms that] by (cases v) auto
  then show "is_hash_key ks k" "hash_of ks k r = Some b \<Longrightarrow> \<exists>d. b = BatchDoc d \<and> doc_ok d"
    by (fastforce simp: is_hash_key_def hash_of_def split: option.splits)+
qed

lemma conv_lease:
  assumes "conv_ok c ks" "has_kind c k KLease"
  shows "is_string_key ks k" "string_of ks k = Some b \<Longrightarrow> \<exists>t. b = Raw t"
    "value_at ks k = None \<longleftrightarrow> string_of ks k = None"
proof -
  have "\<exists>t. v = RString (Raw t)" if "value_at ks k = Some v" for v
    using conv_okD [OF assms that] by (cases v) auto
  then show "is_string_key ks k" "string_of ks k = Some b \<Longrightarrow> \<exists>t. b = Raw t"
    "value_at ks k = None \<longleftrightarrow> string_of ks k = None"
    by (fastforce simp: is_string_key_def string_of_def split: option.splits)+
qed

lemma conv_batch:
  assumes "conv_ok c ks" "has_kind c k KBatch"
  shows "is_string_key ks k" "string_of ks k = Some b \<Longrightarrow> \<exists>d. b = BatchDoc d \<and> doc_ok d"
proof -
  have "\<exists>d. v = RString (BatchDoc d) \<and> doc_ok d" if "value_at ks k = Some v" for v
    using conv_okD [OF assms that] by (cases v) auto
  then show "is_string_key ks k" "string_of ks k = Some b \<Longrightarrow> \<exists>d. b = BatchDoc d \<and> doc_ok d"
    by (fastforce simp: is_string_key_def string_of_def split: option.splits)+
qed

lemma conv_sequence:
  assumes "conv_ok c ks" "has_kind c k KSequence"
  shows "is_string_key ks k" "\<exists>n. num_of (string_of ks k) = Some n \<and> 0 \<le> n"
proof -
  have "\<exists>n. v = RString (Num n) \<and> 0 \<le> n" if "value_at ks k = Some v" for v
    using conv_okD [OF assms that] by (cases v) auto
  then show "is_string_key ks k" "\<exists>n. num_of (string_of ks k) = Some n \<and> 0 \<le> n"
    by (fastforce simp: is_string_key_def string_of_def num_of_def split: option.splits)+
qed

lemma conv_set:
  assumes "conv_ok c ks" "has_kind c k kd" "kd = KActive \<or> kd = KScopes"
  shows "is_set_key ks k"
proof -
  have "\<exists>A. v = RSet A" if "value_at ks k = Some v" for v
    using conv_okD [OF assms(1,2) that] assms(3) by (cases v) auto
  then show ?thesis by (fastforce simp: is_set_key_def split: option.splits)
qed

end
