(* ===== verification/Conversation_Scripts.thy ===== *)
theory Conversation_Scripts
  imports Conversation_Keys
begin

text \<open>
  The scripts of the conversation store on a well-typed keyspace: what each answers and how
  it changes the keyspace, branch by branch. A script of a plain scope meets no value it cannot
  decode and keeps the keyspace well typed.
\<close>

section \<open>Documents\<close>

text \<open>What a repeated request gets: its record, settled when no lease protects it, and tidy.\<close>

definition settle_doc :: "bool \<Rightarrow> batch_doc \<Rightarrow> batch_doc" where
  "settle_doc leased d =
     (let ms = field_elems (bd_messages d);
          d1 = (if bd_status d = batch_generating \<and> \<not> leased
                then d\<lparr>bd_status := (if ms = [] then batch_failed else batch_partial),
                       bd_code := generation_interrupted\<rparr> else d)
      in d1\<lparr>bd_messages := tidy_field ms, bd_planned := tidy_field (field_elems (bd_planned d))\<rparr>)"

lemma tidy_doc:
  assumes "doc_ok d"
  shows "tidy_collections d = Some (d\<lparr>bd_messages := tidy_field (field_elems (bd_messages d)),
     bd_planned := tidy_field (field_elems (bd_planned d))\<rparr>)"
  using assms by (simp add: doc_ok_def tidy_collections_def drop_empty_eq)

lemma existing_doc:
  assumes "doc_ok d"
  shows "Option.bind (interrupt_abandoned leased d) tidy_collections = Some (settle_doc leased d)"
proof -
  have ok: "doc_ok (d\<lparr>bd_status := x, bd_code := y\<rparr>)" for x y using assms by (simp add: doc_ok_def)
  show ?thesis
    using assms ok_field_items [of "bd_messages d"] tidy_doc [OF assms] tidy_doc [OF ok]
    by (auto simp: interrupt_abandoned_def settle_doc_def Let_def doc_ok_def)
qed

lemma settle_doc_ok [simp]: "doc_ok (settle_doc leased d)"
  by (simp add: doc_ok_def settle_doc_def Let_def)

lemma settle_doc_fields [simp]:
  "bd_id (settle_doc leased d) = bd_id d" "bd_request (settle_doc leased d) = bd_request d"
  "bd_user (settle_doc leased d) = bd_user d" "bd_conversation (settle_doc leased d) = bd_conversation d"
  "field_elems (bd_messages (settle_doc leased d)) = field_elems (bd_messages d)"
  "field_elems (bd_planned (settle_doc leased d)) = field_elems (bd_planned d)"
  "bd_created (settle_doc leased d) = bd_created d"
  by (simp_all add: settle_doc_def Let_def)

lemma doc_ok_unmarshal: "doc_ok d \<Longrightarrow> \<exists>b. unmarshal_batch old d = Some b"
  by (auto simp: doc_ok_def ok_field_def unmarshal_batch_def)

lemma marshal_doc_ok: "bt_planned b \<noteq> None \<Longrightarrow> bt_messages b \<noteq> None \<Longrightarrow> doc_ok (marshal_batch b)"
  by (auto simp: doc_ok_def marshal_batch_def marshal_slice_def ok_field_def split: option.splits)

lemma field_elems_marshal [simp]: "field_elems (marshal_slice xs) = elems xs"
  by (simp add: marshal_slice_def elems_def split: option.splits)

text \<open>Appending: the last message of the document gets its number.\<close>

definition appended_doc :: "batch_doc \<Rightarrow> nat \<Rightarrow> batch_doc" where
  "appended_doc d n = d\<lparr>bd_messages := JArray (butlast (field_elems (bd_messages d)) @
     [(last (field_elems (bd_messages d)))\<lparr>tn_sequence := n\<rparr>])\<rparr>"

text \<open>Interrupting: what the batch becomes.\<close>

definition interrupted_doc :: "time \<Rightarrow> batch_doc \<Rightarrow> batch_doc" where
  "interrupted_doc now d =
     (if bd_status d = batch_generating
      then d\<lparr>bd_status := (if field_elems (bd_messages d) = [] then batch_failed else batch_partial),
             bd_messages := tidy_field (field_elems (bd_messages d)),
             bd_planned := tidy_field (field_elems (bd_planned d)),
             bd_code := generation_interrupted, bd_updated := now\<rparr>
      else d)"

lemma interrupt_generating_doc:
  assumes "doc_ok d" "bd_status d = batch_generating"
  shows "interrupt_generating now d = Some (interrupted_doc now d)"
proof -
  have m: "lua_items (bd_messages d) = Some (field_elems (bd_messages d))"
    "drop_empty (bd_planned d) = Some (tidy_field (field_elems (bd_planned d)))"
    using assms(1) by (simp_all add: doc_ok_def ok_field_items drop_empty_eq)
  have r: "lua_relay (tidy_field xs) = tidy_field xs" for xs :: "'a list"
    by (simp add: tidy_field_def lua_table_def)
  have "lua_relay (bd_messages d) = tidy_field (field_elems (bd_messages d))"
    if "field_elems (bd_messages d) \<noteq> []"
    using that assms(1) by (cases "bd_messages d") (auto simp: tidy_field_def lua_table_def)
  then show ?thesis
    using assms(2) by (simp add: interrupt_generating_def m interrupted_doc_def lua_reencode_def r Let_def
        tidy_field_def lua_table_def)
qed

lemma interrupted_doc_ok: "doc_ok d \<Longrightarrow> doc_ok (interrupted_doc now d)"
  by (simp add: doc_ok_def interrupted_doc_def)

text \<open>The batch the script works on: its own key, or the record of the request.\<close>

definition stored_batch :: "keyspace \<Rightarrow> string \<Rightarrow> string \<Rightarrow> string \<Rightarrow> blob option" where
  "stored_batch view bk rk request =
     (case string_of view bk of Some b \<Rightarrow> Some b | None \<Rightarrow> hash_of view rk request)"

section \<open>Beginning a batch\<close>

text \<open>The record of a request in the ledger of the day or, failing that, of the day before.\<close>

definition known_request :: "begin_keys \<Rightarrow> string \<Rightarrow> keyspace \<Rightarrow> (blob \<times> string) option" where
  "known_request ks r view =
     (case hash_of view (bk_requests ks) r of
        Some b \<Rightarrow> Some (b, bk_requests ks)
      | None \<Rightarrow> map_option (\<lambda>b. (b, bk_previous ks)) (hash_of view (bk_previous ks) r))"

lemma begin_keys_simps [simp]:
  "bk_messages (begin_keys_of c sc d bid) = messages_key c sc d"
  "bk_sequence (begin_keys_of c sc d bid) = sequence_key c sc d"
  "bk_requests (begin_keys_of c sc d bid) = requests_key c sc d"
  "bk_previous (begin_keys_of c sc d bid) = requests_key c sc (d - 1)"
  "bk_lease (begin_keys_of c sc d bid) = lease_key c sc"
  "bk_batch (begin_keys_of c sc d bid) = batch_key c sc bid"
  "bk_active (begin_keys_of c sc d bid) = active_scopes_key c d"
  by (simp_all add: begin_keys_of_def)

definition started_doc :: "batch_doc \<Rightarrow> nat \<Rightarrow> batch_doc" where
  "started_doc d n = d\<lparr>bd_user := (bd_user d)\<lparr>tn_sequence := n\<rparr>,
     bd_messages := tidy_field (field_elems (bd_messages d)),
     bd_planned := tidy_field (field_elems (bd_planned d))\<rparr>"

lemma started_doc_ok [simp]: "doc_ok (started_doc d n)"
  by (simp add: doc_ok_def started_doc_def)

definition sequence_at :: "keyspace \<Rightarrow> string \<Rightarrow> int" where
  "sequence_at ks k = the (num_of (string_of ks k))"

context redis_service
begin

lemma begin_known:
  assumes ok: "conv_ok c (r_view R s)" and sc: "plain_scope sc"
    and known: "known_request (begin_keys_of c sc d bid) request (r_view R s) = Some (b, ledger)"
  obtains doc s' where "b = BatchDoc doc" "doc_ok doc"
    "begin_batch_script R (begin_keys_of c sc d bid) request data token ttl lease_ttl member s =
      (Some (ReplyExisting (settle_doc (value_at (r_view R s) (lease_key c sc) \<noteq> None) doc)), s')"
    "r_view R s' = store ledger (RHash ((hash_of (r_view R s) ledger)
        (request \<mapsto> BatchDoc (settle_doc (value_at (r_view R s) (lease_key c sc) \<noteq> None) doc)))) (r_view R s)"
    "conv_ok c (r_view R s')"
proof -
  let ?v = "r_view R s" and ?K = "begin_keys_of c sc d bid"
  have kd: "has_kind c (bk_requests ?K) KRequests" "has_kind c (bk_previous ?K) KRequests"
    using sc by simp_all
  have ledger: "ledger = bk_requests ?K \<or> ledger = bk_previous ?K" and found: "hash_of ?v ledger request = Some b"
    using known by (auto simp: known_request_def split: option.splits)
  then have lk: "has_kind c ledger KRequests" using kd by auto
  note rq = conv_requests [OF ok lk]
  obtain doc where doc: "b = BatchDoc doc" "doc_ok doc" using rq(2) [OF found] by blast
  let ?leased = "value_at ?v (lease_key c sc) \<noteq> None"
  let ?doc = "settle_doc ?leased doc"
  have fr: "find_request R ?K request s = (Some b, ledger)"
    using known conv_requests(1) [OF ok kd(1)] conv_requests(1) [OF ok kd(2)]
    by (auto simp: known_request_def find_request_def Let_def hget split: option.splits)
  have run: "begin_batch_script R ?K request data token ttl lease_ttl member s =
      (Some (ReplyExisting ?doc), r_hset R ledger request (BatchDoc ?doc) s)"
    using existing_doc [OF doc(2), of ?leased]
    by (simp add: begin_batch_script_def fr doc(1) exists)
  have view: "r_view R (r_hset R ledger request (BatchDoc ?doc) s) =
      store ledger (RHash ((hash_of ?v ledger)(request \<mapsto> BatchDoc ?doc))) ?v"
    using rq(1) by (rule hset)
  have "conv_ok c (r_view R (r_hset R ledger request (BatchDoc ?doc) s))"
    unfolding view by (rule conv_ok_store [OF ok lk]) (use rq(2) in auto)
  with that [OF doc run view] show ?thesis by blast
qed

lemma begin_busy:
  assumes ok: "conv_ok c (r_view R s)" and sc: "plain_scope sc"
    and "known_request (begin_keys_of c sc d bid) request (r_view R s) = None"
    and "value_at (r_view R s) (lease_key c sc) \<noteq> None"
  shows "begin_batch_script R (begin_keys_of c sc d bid) request data token ttl lease_ttl member s =
    (Some ReplyBusy, s)"
  using assms(3,4) conv_requests(1) [OF ok kind_requests [OF sc]]
  by (simp add: begin_batch_script_def find_request_def known_request_def hget exists Let_def
      split: option.splits)

lemma begin_started:
  assumes ok: "conv_ok c (r_view R s)" and sc: "plain_scope sc"
    and "known_request (begin_keys_of c sc d bid) request (r_view R s) = None"
    and "value_at (r_view R s) (lease_key c sc) = None"
    and n: "sequence_at (r_view R s) (sequence_key c sc d) = n" and small: "in_int64 (n + 1)"
    and data: "doc_ok data" and ttl: "0 < ttl" "0 < lease_ttl"
  obtains s' where
    "begin_batch_script R (begin_keys_of c sc d bid) request data token ttl lease_ttl member s =
      (Some (ReplyStarted (started_doc data (nat (n + 1))) token), s')"
    "conv_ok c (r_view R s')"
    "list_of (r_view R s') (messages_key c sc d) =
      list_of (r_view R s) (messages_key c sc d) @ [TurnDoc ((bd_user data)\<lparr>tn_sequence := nat (n + 1)\<rparr>)]"
    "string_of (r_view R s') (lease_key c sc) = Some (Raw token)"
    "deadline (r_view R s') (lease_key c sc) = Some (r_clock R s + lease_ttl)"
    "hash_of (r_view R s') (requests_key c sc d) =
      (hash_of (r_view R s) (requests_key c sc d))(request \<mapsto> BatchDoc (started_doc data (nat (n + 1))))"
    "string_of (r_view R s') (batch_key c sc bid) = Some (BatchDoc (started_doc data (nat (n + 1))))"
    "sequence_at (r_view R s') (sequence_key c sc d) = n + 1"
    "set (set_of (r_view R s') (active_scopes_key c d)) =
      insert member (set (set_of (r_view R s) (active_scopes_key c d)))"
    "same_but {messages_key c sc d, sequence_key c sc d, requests_key c sc d, lease_key c sc,
       batch_key c sc bid, active_scopes_key c d} (r_view R s) (r_view R s')"
proof -
  let ?v = "r_view R s" and ?K = "begin_keys_of c sc d bid"
  let ?mk = "messages_key c sc d" and ?sk = "sequence_key c sc d" and ?rk = "requests_key c sc d"
  let ?lk = "lease_key c sc" and ?bk = "batch_key c sc bid" and ?ak = "active_scopes_key c d"
  let ?doc = "started_doc data (nat (n + 1))"
  note rq = conv_requests(1) [OF ok kind_requests [OF sc]]
  obtain m where m: "num_of (string_of ?v ?sk) = Some m" "0 \<le> m"
    using conv_sequence(2) [OF ok kind_sequence [OF sc]] by blast
  then have mn: "m = n" using n by (simp add: sequence_at_def)
  note seq = m(1) [unfolded mn] and n0 = m(2) [unfolded mn]
  define s1 where "s1 = r_set R ?lk (Raw token) (Some lease_ttl) s"
  define s2 where "s2 = snd (r_incr R ?sk s1)"
  define s3 where "s3 = r_rpush R ?mk (TurnDoc (bd_user ?doc)) s2"
  define s4 where "s4 = r_set R ?bk (BatchDoc ?doc) (Some ttl) s3"
  define s5 where "s5 = r_hset R ?rk request (BatchDoc ?doc) s4"
  define s6 where "s6 = r_sadd R ?ak member s5"
  define s7 where "s7 = r_pexpire R ?mk ttl s6"
  define s8 where "s8 = r_pexpire R ?sk ttl s7"
  define s9 where "s9 = r_pexpire R ?rk ttl s8"
  define s10 where "s10 = r_pexpire R ?ak ttl s9"
  note sdefs = s1_def s2_def s3_def s4_def s5_def s6_def s7_def s8_def s9_def s10_def
  define w1 where "w1 = put ?lk (RString (Raw token)) (Some (r_clock R s + lease_ttl)) ?v"
  define w2 where "w2 = store ?sk (RString (Num (n + 1))) w1"
  define w3 where "w3 = store ?mk (RList (list_of ?v ?mk @ [TurnDoc (bd_user ?doc)])) w2"
  define w4 where "w4 = put ?bk (RString (BatchDoc ?doc)) (Some (r_clock R s + ttl)) w3"
  define w5 where "w5 = store ?rk (RHash ((hash_of ?v ?rk)(request \<mapsto> BatchDoc ?doc))) w4"
  define w6 where "w6 = store ?ak (RSet (List.insert member (set_of ?v ?ak))) w5"
  note wdefs = w1_def w2_def w3_def w4_def w5_def w6_def
  have k [simp]: "?lk \<noteq> ?ak" "?ak \<noteq> ?lk" "?sk \<noteq> ?ak" "?ak \<noteq> ?sk" "?mk \<noteq> ?ak" "?ak \<noteq> ?mk"
    "?bk \<noteq> ?ak" "?ak \<noteq> ?bk" "?rk \<noteq> ?ak" "?ak \<noteq> ?rk"
    by (simp_all add: scoped_key_defs)
  have v1: "r_view R s1 = w1" using ttl by (simp add: s1_def w1_def redis_simps)
  have t1: "is_string_key w1 ?sk" "num_of (string_of w1 ?sk) = Some n"
    using conv_sequence(1) [OF ok kind_sequence [OF sc]] seq sc by (simp_all add: w1_def redis_simps)
  have i2: "fst (r_incr R ?sk s1) = n + 1" using incr [of s1 ?sk n] t1 small by (simp add: v1)
  have v2: "r_view R s2 = w2" using incr_view [of s1 ?sk n] t1 small by (simp add: v1 s2_def w2_def)
  have t2: "is_list_key w2 ?mk" "list_of w2 ?mk = list_of ?v ?mk"
    using conv_messages(1) [OF ok kind_messages [OF sc]] sc by (simp_all add: w1_def w2_def redis_simps)
  have v3: "r_view R s3 = w3" using t2 by (simp add: s3_def w3_def rpush v2)
  have c3: "r_clock R s3 = r_clock R s" by (simp add: sdefs redis_simps)
  have v4: "r_view R s4 = w4" using ttl c3 by (simp add: s4_def w4_def set v3)
  have t4: "is_hash_key w4 ?rk" "hash_of w4 ?rk = hash_of ?v ?rk"
    using rq sc by (simp_all add: wdefs redis_simps)
  have v5: "r_view R s5 = w5" using t4 by (simp add: s5_def w5_def hset v4)
  have t5: "is_set_key w5 ?ak" "set_of w5 ?ak = set_of ?v ?ak"
    using conv_set [OF ok kind_scopes] by (simp_all add: wdefs redis_simps)
  have v6: "r_view R s6 = w6" using t5 by (simp add: s6_def w6_def sadd v5)
  have v10: "r_view R s10 = expire_key (r_clock R s) ?ak (r_clock R s + ttl)
      (expire_key (r_clock R s) ?rk (r_clock R s + ttl) (expire_key (r_clock R s) ?sk (r_clock R s + ttl)
        (expire_key (r_clock R s) ?mk (r_clock R s + ttl) w6)))"
    unfolding s10_def s9_def s8_def s7_def pexpire clocks v6
    by (simp add: s6_def s5_def s4_def clocks c3)
  have live: "r_clock R s < r_clock R s + ttl" using ttl by simp
  have tidy: "tidy_collections (data\<lparr>bd_user := (bd_user data)\<lparr>tn_sequence := nat (n + 1)\<rparr>\<rparr>) = Some ?doc"
    using data tidy_doc [of "data\<lparr>bd_user := (bd_user data)\<lparr>tn_sequence := nat (n + 1)\<rparr>\<rparr>"]
    by (simp add: doc_ok_def started_doc_def)
  have fr: "find_request R ?K request s = (None, bk_previous ?K)"
    using assms(3) rq conv_requests(1) [OF ok kind_requests [OF sc]]
    by (simp add: find_request_def known_request_def hget Let_def split: option.splits)
  have run: "begin_batch_script R ?K request data token ttl lease_ttl member s =
      (Some (ReplyStarted ?doc token), s10)"
    using assms(4) tidy i2
    by (simp add: begin_batch_script_def fr exists Let_def split_beta sdefs)
  have w: "conv_ok c w6"
  proof -
    have "conv_ok c w1" unfolding w1_def by (rule conv_ok_put [OF ok kind_lease [OF sc]]) simp
    then have "conv_ok c w2" unfolding w2_def by (rule conv_ok_store [OF _ kind_sequence [OF sc]]) (use n0 in simp)
    then have "conv_ok c w3" unfolding w3_def
      by (rule conv_ok_store [OF _ kind_messages [OF sc]])
        (use conv_messages(2) [OF ok kind_messages [OF sc]] in auto)
    then have "conv_ok c w4" unfolding w4_def by (rule conv_ok_put [OF _ kind_batch [OF sc]]) simp
    then have "conv_ok c w5" unfolding w5_def
      by (rule conv_ok_store [OF _ kind_requests [OF sc]])
        (use conv_requests(2) [OF ok kind_requests [OF sc]] in auto)
    then show ?thesis unfolding w6_def by (rule conv_ok_store [OF _ kind_scopes]) simp
  qed
  have fin: "conv_ok c (r_view R s10)" unfolding v10 by (intro conv_ok_expire w)
  note read = v10 typed_expire [OF live] deadline_expire [OF live] value_at_expire_live [OF live]
  have user: "bd_user ?doc = (bd_user data)\<lparr>tn_sequence := nat (n + 1)\<rparr>" by (simp add: started_doc_def)
  show ?thesis
  proof (rule that [OF run fin])
    show "list_of (r_view R s10) ?mk = list_of ?v ?mk @ [TurnDoc ((bd_user data)\<lparr>tn_sequence := nat (n + 1)\<rparr>)]"
      using sc by (simp add: read wdefs redis_simps user)
    show "string_of (r_view R s10) ?lk = Some (Raw token)" using sc by (simp add: read wdefs redis_simps)
    show "deadline (r_view R s10) ?lk = Some (r_clock R s + lease_ttl)" using sc by (simp add: read wdefs redis_simps)
    show "hash_of (r_view R s10) ?rk = (hash_of ?v ?rk)(request \<mapsto> BatchDoc ?doc)"
      using sc by (simp add: read wdefs redis_simps)
    show "string_of (r_view R s10) ?bk = Some (BatchDoc ?doc)" using sc by (simp add: read wdefs redis_simps)
    show "sequence_at (r_view R s10) ?sk = n + 1"
      using sc by (simp add: sequence_at_def read wdefs redis_simps num_of_def)
    show "set (set_of (r_view R s10) ?ak) = insert member (set (set_of ?v ?ak))"
      by (simp add: read wdefs redis_simps)
    show "same_but {?mk, ?sk, ?rk, ?lk, ?bk, ?ak} ?v (r_view R s10)"
      by (simp add: v10 wdefs redis_simps)
  qed
qed

text \<open>Fencing: a script that comes with another token than the lease changes nothing.\<close>

lemma lease_read:
  assumes "conv_ok c (r_view R s)" "plain_scope sc"
  shows "r_get R (lease_key c sc) s = string_of (r_view R s) (lease_key c sc)"
  using conv_lease(1) [OF assms(1) kind_lease [OF assms(2)]] by (simp add: get)

lemma append_fenced:
  assumes "conv_ok c (r_view R s)" "plain_scope sc" "string_of (r_view R s) (lease_key c sc) \<noteq> Some (Raw token)"
  shows "append_character_script R (append_keys_of c sc b) token m data request ttl lease_ttl s =
    (Some ReplyLeaseLost, s)"
  using assms by (simp add: append_character_script_def append_keys_of_def lease_read Let_def)

lemma save_fenced:
  assumes "conv_ok c (r_view R s)" "plain_scope sc" "string_of (r_view R s) (lease_key c sc) \<noteq> Some (Raw token)"
  shows "save_batch_script R (lease_key c sc) bk rk token data request ttl release lease_ttl s = (Some 0, s)"
  using assms by (simp add: save_batch_script_def lease_read)

lemma interrupt_fenced:
  assumes "conv_ok c (r_view R s)" "plain_scope sc" "string_of (r_view R s) (lease_key c sc) \<noteq> Some (Raw token)"
  shows "interrupt_batch_script R (lease_key c sc) bk rk token request ttl now s = (Some InterruptLeaseLost, s)"
  using assms by (simp add: interrupt_batch_script_def lease_read)

text \<open>What an append does whatever the planned speakers of the record are.\<close>

lemma append_views:
  assumes ok: "conv_ok c (r_view R s)" and sc: "plain_scope sc"
    and lease: "string_of (r_view R s) (lease_key c sc) = Some (Raw token)"
    and n: "sequence_at (r_view R s) (sequence_key c sc (beijing_day (bt_created b))) = n"
    and small: "in_int64 (n + 1)"
    and data: "bd_messages data = JArray ms" "ms \<noteq> []"
    and doc: "doc = lua_reencode (data\<lparr>bd_messages := JArray (butlast ms @ [(last ms)\<lparr>tn_sequence := nat (n + 1)\<rparr>])\<rparr>)"
    and ttl: "0 < ttl" "0 < lease_ttl"
  obtains s' where
    "append_character_script R (append_keys_of c sc b) token m data request ttl lease_ttl s =
      (Some (ReplyAppended (m\<lparr>tn_sequence := nat (n + 1)\<rparr>) doc), s')"
    "doc_ok doc \<Longrightarrow> conv_ok c (r_view R s')"
    "list_of (r_view R s') (messages_key c sc (beijing_day (bt_created b))) =
      list_of (r_view R s) (messages_key c sc (beijing_day (bt_created b))) @ [TurnDoc (m\<lparr>tn_sequence := nat (n + 1)\<rparr>)]"
    "string_of (r_view R s') (lease_key c sc) = Some (Raw token)"
    "deadline (r_view R s') (lease_key c sc) = Some (r_clock R s + lease_ttl)"
    "hash_of (r_view R s') (requests_key c sc (beijing_day (bt_created b))) =
      (hash_of (r_view R s) (requests_key c sc (beijing_day (bt_created b))))
        (request \<mapsto> BatchDoc doc)"
    "string_of (r_view R s') (batch_key c sc (bt_id b)) = Some (BatchDoc doc)"
    "sequence_at (r_view R s') (sequence_key c sc (beijing_day (bt_created b))) = n + 1"
    "same_but {messages_key c sc (beijing_day (bt_created b)), sequence_key c sc (beijing_day (bt_created b)),
       requests_key c sc (beijing_day (bt_created b)), lease_key c sc, batch_key c sc (bt_id b)}
       (r_view R s) (r_view R s')"
proof -
  let ?v = "r_view R s" and ?d = "beijing_day (bt_created b)"
  let ?mk = "messages_key c sc ?d" and ?sk = "sequence_key c sc ?d" and ?rk = "requests_key c sc ?d"
  let ?lk = "lease_key c sc" and ?bk = "batch_key c sc (bt_id b)"
  let ?m = "m\<lparr>tn_sequence := nat (n + 1)\<rparr>"
  obtain i where i: "num_of (string_of ?v ?sk) = Some i" "0 \<le> i"
    using conv_sequence(2) [OF ok kind_sequence [OF sc]] by blast
  then have "i = n" using n by (simp add: sequence_at_def)
  note seq = i(1) [unfolded this] and n0 = i(2) [unfolded this]
  define s1 where "s1 = snd (r_incr R ?sk s)"
  define s2 where "s2 = r_rpush R ?mk (TurnDoc ?m) s1"
  define s3 where "s3 = r_set R ?bk (BatchDoc doc) (Some ttl) s2"
  define s4 where "s4 = r_hset R ?rk request (BatchDoc doc) s3"
  define s5 where "s5 = r_pexpire R ?mk ttl s4"
  define s6 where "s6 = r_pexpire R ?rk ttl s5"
  define s7 where "s7 = r_pexpire R ?lk lease_ttl s6"
  note sdefs = s1_def s2_def s3_def s4_def s5_def s6_def s7_def
  define w1 where "w1 = store ?sk (RString (Num (n + 1))) ?v"
  define w2 where "w2 = store ?mk (RList (list_of ?v ?mk @ [TurnDoc ?m])) w1"
  define w3 where "w3 = put ?bk (RString (BatchDoc doc)) (Some (r_clock R s + ttl)) w2"
  define w4 where "w4 = store ?rk (RHash ((hash_of ?v ?rk)(request \<mapsto> BatchDoc doc))) w3"
  note wdefs = w1_def w2_def w3_def w4_def
  note t0 = conv_sequence(1) [OF ok kind_sequence [OF sc]]
  have i1: "fst (r_incr R ?sk s) = n + 1" by (rule incr [OF t0 seq small])
  have v1: "r_view R s1 = w1" unfolding s1_def w1_def by (rule incr_view [OF t0 seq small])
  have t1: "is_list_key w1 ?mk" "list_of w1 ?mk = list_of ?v ?mk"
    using conv_messages(1) [OF ok kind_messages [OF sc]] sc by (simp_all add: w1_def redis_simps)
  have v2: "r_view R s2 = w2" using t1 by (simp add: s2_def w2_def rpush v1)
  have v3: "r_view R s3 = w3" using ttl by (simp add: s3_def w3_def set v2) (simp add: s2_def s1_def clocks)
  have t3: "is_hash_key w3 ?rk" "hash_of w3 ?rk = hash_of ?v ?rk"
    using conv_requests(1) [OF ok kind_requests [OF sc]] sc by (simp_all add: wdefs redis_simps)
  have v4: "r_view R s4 = w4" using t3 by (simp add: s4_def w4_def hset v3)
  have c4: "r_clock R s4 = r_clock R s" by (simp add: sdefs clocks)
  have v7: "r_view R s7 = expire_key (r_clock R s) ?lk (r_clock R s + lease_ttl)
      (expire_key (r_clock R s) ?rk (r_clock R s + ttl) (expire_key (r_clock R s) ?mk (r_clock R s + ttl) w4))"
    unfolding s7_def s6_def s5_def pexpire clocks v4 c4 ..
  have live: "r_clock R s < r_clock R s + ttl" "r_clock R s < r_clock R s + lease_ttl" using ttl by simp_all
  have run: "append_character_script R (append_keys_of c sc b) token m data request ttl lease_ttl s =
      (Some (ReplyAppended ?m doc), s7)"
    using lease i1 data
    by (simp add: append_character_script_def append_keys_of_def Let_def split_beta lease_read [OF ok sc]
        number_last_def doc [symmetric] sdefs)
  have w: "conv_ok c w4" if dok: "doc_ok doc"
  proof -
    have "conv_ok c w1" unfolding w1_def by (rule conv_ok_store [OF ok kind_sequence [OF sc]]) (use n0 in simp)
    then have "conv_ok c w2" unfolding w2_def
      by (rule conv_ok_store [OF _ kind_messages [OF sc]])
        (use conv_messages(2) [OF ok kind_messages [OF sc]] in auto)
    then have "conv_ok c w3" unfolding w3_def by (rule conv_ok_put [OF _ kind_batch [OF sc]]) (simp add: dok)
    then show ?thesis unfolding w4_def
      by (rule conv_ok_store [OF _ kind_requests [OF sc]])
        (use conv_requests(2) [OF ok kind_requests [OF sc]] dok in auto)
  qed
  have fin: "conv_ok c (r_view R s7)" if "doc_ok doc" unfolding v7 by (intro conv_ok_expire w that)
  note read = v7 typed_expire [OF live(1)] deadline_expire [OF live(1)] value_at_expire_live [OF live(1)]
    typed_expire [OF live(2)] deadline_expire [OF live(2)] value_at_expire_live [OF live(2)]
  have lv: "value_at ?v ?lk \<noteq> None" using lease conv_lease(3) [OF ok kind_lease [OF sc]] by simp
  show ?thesis
  proof (rule that [OF run fin])
    show "list_of (r_view R s7) ?mk = list_of ?v ?mk @ [TurnDoc ?m]" using sc by (simp add: read wdefs redis_simps)
    show "string_of (r_view R s7) ?lk = Some (Raw token)" using sc lease by (simp add: read wdefs redis_simps)
    show "deadline (r_view R s7) ?lk = Some (r_clock R s + lease_ttl)" using sc lv by (simp add: read wdefs redis_simps)
    show "hash_of (r_view R s7) ?rk = (hash_of ?v ?rk)(request \<mapsto> BatchDoc doc)"
      using sc by (simp add: read wdefs redis_simps)
    show "string_of (r_view R s7) ?bk = Some (BatchDoc doc)" using sc by (simp add: read wdefs redis_simps)
    show "sequence_at (r_view R s7) ?sk = n + 1"
      using sc by (simp add: sequence_at_def read wdefs redis_simps num_of_def)
    show "same_but {?mk, ?sk, ?rk, ?lk, ?bk} ?v (r_view R s7)" by (simp add: v7 wdefs redis_simps)
  qed
qed

lemma append_done:
  assumes ok: "conv_ok c (r_view R s)" and sc: "plain_scope sc"
    and lease: "string_of (r_view R s) (lease_key c sc) = Some (Raw token)"
    and n: "sequence_at (r_view R s) (sequence_key c sc (beijing_day (bt_created b))) = n"
    and small: "in_int64 (n + 1)"
    and data: "bd_planned data = JArray ps" "ps \<noteq> []" "bd_messages data = JArray ms" "ms \<noteq> []"
    and ttl: "0 < ttl" "0 < lease_ttl"
  obtains s' where
    "append_character_script R (append_keys_of c sc b) token m data request ttl lease_ttl s =
      (Some (ReplyAppended (m\<lparr>tn_sequence := nat (n + 1)\<rparr>) (appended_doc data (nat (n + 1)))), s')"
    "conv_ok c (r_view R s')"
    "list_of (r_view R s') (messages_key c sc (beijing_day (bt_created b))) =
      list_of (r_view R s) (messages_key c sc (beijing_day (bt_created b))) @ [TurnDoc (m\<lparr>tn_sequence := nat (n + 1)\<rparr>)]"
    "string_of (r_view R s') (lease_key c sc) = Some (Raw token)"
    "deadline (r_view R s') (lease_key c sc) = Some (r_clock R s + lease_ttl)"
    "hash_of (r_view R s') (requests_key c sc (beijing_day (bt_created b))) =
      (hash_of (r_view R s) (requests_key c sc (beijing_day (bt_created b))))
        (request \<mapsto> BatchDoc (appended_doc data (nat (n + 1))))"
    "string_of (r_view R s') (batch_key c sc (bt_id b)) = Some (BatchDoc (appended_doc data (nat (n + 1))))"
    "sequence_at (r_view R s') (sequence_key c sc (beijing_day (bt_created b))) = n + 1"
    "same_but {messages_key c sc (beijing_day (bt_created b)), sequence_key c sc (beijing_day (bt_created b)),
       requests_key c sc (beijing_day (bt_created b)), lease_key c sc, batch_key c sc (bt_id b)}
       (r_view R s) (r_view R s')"
proof -
  let ?doc = "appended_doc data (nat (n + 1))"
  have doc: "?doc = lua_reencode (data\<lparr>bd_messages := JArray (butlast ms @ [(last ms)\<lparr>tn_sequence := nat (n + 1)\<rparr>])\<rparr>)"
    using data by (simp add: lua_reencode_def appended_doc_def lua_table_def)
  have dok: "doc_ok ?doc" using data by (simp add: doc_ok_def appended_doc_def ok_field_def)
  show ?thesis
    by (rule append_views [OF ok sc lease n small data(3,4) doc ttl]) (rule that; use dok in simp)
qed

lemma save_done:
  assumes ok: "conv_ok c (r_view R s)" and sc: "plain_scope sc"
    and lease: "string_of (r_view R s) (lease_key c sc) = Some (Raw token)"
    and data: "doc_ok data" and ttl: "0 < ttl" "0 < lease_ttl"
  obtains s' where
    "save_batch_script R (lease_key c sc) (batch_key c sc bid) (requests_key c sc d) token data request ttl
       release lease_ttl s = (Some 1, s')"
    "conv_ok c (r_view R s')"
    "string_of (r_view R s') (lease_key c sc) = (if release then None else Some (Raw token))"
    "hash_of (r_view R s') (requests_key c sc d) =
      (hash_of (r_view R s) (requests_key c sc d))(request \<mapsto> BatchDoc data)"
    "string_of (r_view R s') (batch_key c sc bid) = Some (BatchDoc data)"
    "same_but {requests_key c sc d, lease_key c sc, batch_key c sc bid} (r_view R s) (r_view R s')"
proof -
  let ?v = "r_view R s" and ?rk = "requests_key c sc d" and ?lk = "lease_key c sc" and ?bk = "batch_key c sc bid"
  define s1 where "s1 = r_set R ?bk (BatchDoc data) (Some ttl) s"
  define s2 where "s2 = r_hset R ?rk request (BatchDoc data) s1"
  define s3 where "s3 = r_pexpire R ?rk ttl s2"
  define s4 where "s4 = (if release then r_del R ?lk s3 else r_pexpire R ?lk lease_ttl s3)"
  define w1 where "w1 = put ?bk (RString (BatchDoc data)) (Some (r_clock R s + ttl)) ?v"
  define w2 where "w2 = store ?rk (RHash ((hash_of ?v ?rk)(request \<mapsto> BatchDoc data))) w1"
  define w3 where "w3 = expire_key (r_clock R s) ?rk (r_clock R s + ttl) w2"
  have v1: "r_view R s1 = w1" using ttl by (simp add: s1_def w1_def set)
  have t1: "is_hash_key w1 ?rk" "hash_of w1 ?rk = hash_of ?v ?rk"
    using conv_requests(1) [OF ok kind_requests [OF sc]] sc by (simp_all add: w1_def redis_simps)
  have v2: "r_view R s2 = w2" using t1 by (simp add: s2_def w2_def hset v1)
  have c2: "r_clock R s2 = r_clock R s" by (simp add: s2_def s1_def clocks)
  have v3: "r_view R s3 = w3" unfolding s3_def w3_def pexpire v2 c2 ..
  have c3: "r_clock R s3 = r_clock R s" by (simp add: s3_def clocks c2)
  have v4: "r_view R s4 = (if release then drop_key ?lk w3
      else expire_key (r_clock R s) ?lk (r_clock R s + lease_ttl) w3)"
    by (simp add: s4_def del pexpire v3 c3)
  have run: "save_batch_script R ?lk ?bk ?rk token data request ttl release lease_ttl s = (Some 1, s4)"
    using lease by (simp add: save_batch_script_def lease_read [OF ok sc] s1_def s2_def s3_def s4_def Let_def)
  have "conv_ok c w1" unfolding w1_def by (rule conv_ok_put [OF ok kind_batch [OF sc]]) (simp add: data)
  then have "conv_ok c w2" unfolding w2_def
    by (rule conv_ok_store [OF _ kind_requests [OF sc]])
      (use conv_requests(2) [OF ok kind_requests [OF sc]] data in auto)
  then have "conv_ok c w3" unfolding w3_def by (rule conv_ok_expire)
  then have fin: "conv_ok c (r_view R s4)" unfolding v4 by (simp add: conv_ok_drop conv_ok_expire)
  have live: "r_clock R s < r_clock R s + ttl" "r_clock R s < r_clock R s + lease_ttl" using ttl by simp_all
  note read = v4 typed_expire [OF live(1)] typed_expire [OF live(2)] w3_def w2_def w1_def
  show ?thesis
  proof (rule that [OF run fin])
    show "string_of (r_view R s4) ?lk = (if release then None else Some (Raw token))"
      using sc lease by (simp add: read redis_simps)
    show "hash_of (r_view R s4) ?rk = (hash_of ?v ?rk)(request \<mapsto> BatchDoc data)"
      using sc by (simp add: read redis_simps)
    show "string_of (r_view R s4) ?bk = Some (BatchDoc data)" using sc by (simp add: read redis_simps)
    show "same_but {?rk, ?lk, ?bk} ?v (r_view R s4)" by (simp add: read redis_simps)
  qed
qed

lemma interrupt_done:
  assumes ok: "conv_ok c (r_view R s)" and sc: "plain_scope sc"
    and lease: "string_of (r_view R s) (lease_key c sc) = Some (Raw token)"
    and found: "stored_batch (r_view R s) (batch_key c sc bid) (requests_key c sc d) request = Some b"
    and ttl: "0 < ttl"
  obtains doc s' where "b = BatchDoc doc" "doc_ok doc"
    "interrupt_batch_script R (lease_key c sc) (batch_key c sc bid) (requests_key c sc d) token request ttl now s =
      (Some (InterruptOk (BatchDoc (interrupted_doc now doc))), s')"
    "conv_ok c (r_view R s')"
    "string_of (r_view R s') (lease_key c sc) = None"
    "bd_status doc = batch_generating \<longrightarrow>
      hash_of (r_view R s') (requests_key c sc d) request = Some (BatchDoc (interrupted_doc now doc))"
    "same_but {requests_key c sc d, lease_key c sc, batch_key c sc bid} (r_view R s) (r_view R s')"
proof -
  let ?v = "r_view R s" and ?rk = "requests_key c sc d" and ?lk = "lease_key c sc" and ?bk = "batch_key c sc bid"
  note rq = conv_requests [OF ok kind_requests [OF sc]] and bq = conv_batch [OF ok kind_batch [OF sc]]
  obtain doc where doc: "b = BatchDoc doc" "doc_ok doc"
    using found rq(2) bq(2) unfolding stored_batch_def by (metis option.case_eq_if option.collapse)
  let ?doc = "interrupted_doc now doc"
  have read: "(case r_get R ?bk s of Some b \<Rightarrow> Some b | None \<Rightarrow> r_hget R ?rk request s) = Some (BatchDoc doc)"
    using found doc(1) rq(1) bq(1) by (simp add: stored_batch_def get hget split: option.splits)
  show ?thesis
  proof (cases "bd_status doc = batch_generating")
    case False
    then have same: "?doc = doc" by (simp add: interrupted_doc_def)
    have run: "interrupt_batch_script R ?lk ?bk ?rk token request ttl now s =
        (Some (InterruptOk (BatchDoc ?doc)), r_del R ?lk s)"
      using lease False by (simp add: interrupt_batch_script_def lease_read [OF ok sc] read same)
    show ?thesis
    proof (rule that [OF doc run])
      show "conv_ok c (r_view R (r_del R ?lk s))" by (simp add: del conv_ok_drop ok)
      show "string_of (r_view R (r_del R ?lk s)) ?lk = None" by (simp add: redis_simps)
      show "same_but {?rk, ?lk, ?bk} ?v (r_view R (r_del R ?lk s))" by (simp add: redis_simps)
      show "bd_status doc = batch_generating \<longrightarrow>
          hash_of (r_view R (r_del R ?lk s)) ?rk request = Some (BatchDoc ?doc)" using False by simp
    qed
  next
    case True
    define s1 where "s1 = r_set R ?bk (BatchDoc ?doc) (Some ttl) s"
    define s2 where "s2 = r_hset R ?rk request (BatchDoc ?doc) s1"
    define s3 where "s3 = r_pexpire R ?rk ttl s2"
    define w1 where "w1 = put ?bk (RString (BatchDoc ?doc)) (Some (r_clock R s + ttl)) ?v"
    define w2 where "w2 = store ?rk (RHash ((hash_of ?v ?rk)(request \<mapsto> BatchDoc ?doc))) w1"
    have v1: "r_view R s1 = w1" using ttl by (simp add: s1_def w1_def set)
    have t1: "is_hash_key w1 ?rk" "hash_of w1 ?rk = hash_of ?v ?rk"
      using rq(1) sc by (simp_all add: w1_def redis_simps)
    have v2: "r_view R s2 = w2" using t1 by (simp add: s2_def w2_def hset v1)
    have c2: "r_clock R s2 = r_clock R s" by (simp add: s2_def s1_def clocks)
    have v3: "r_view R (r_del R ?lk s3) = drop_key ?lk (expire_key (r_clock R s) ?rk (r_clock R s + ttl) w2)"
      unfolding s3_def del pexpire v2 c2 ..
    have run: "interrupt_batch_script R ?lk ?bk ?rk token request ttl now s =
        (Some (InterruptOk (BatchDoc ?doc)), r_del R ?lk s3)"
      using lease True by (simp add: interrupt_batch_script_def lease_read [OF ok sc] read
          interrupt_generating_doc [OF doc(2)] s1_def s2_def s3_def Let_def)
    note dok = interrupted_doc_ok [OF doc(2), of now]
    have "conv_ok c w1" unfolding w1_def by (rule conv_ok_put [OF ok kind_batch [OF sc]]) (simp add: dok)
    then have "conv_ok c w2" unfolding w2_def
      by (rule conv_ok_store [OF _ kind_requests [OF sc]]) (use rq(2) dok in auto)
    then have fin: "conv_ok c (r_view R (r_del R ?lk s3))" unfolding v3 by (intro conv_ok_drop conv_ok_expire)
    have live: "r_clock R s < r_clock R s + ttl" using ttl by simp
    show ?thesis
    proof (rule that [OF doc run fin])
      show "string_of (r_view R (r_del R ?lk s3)) ?lk = None" by (simp add: v3 redis_simps)
      show "same_but {?rk, ?lk, ?bk} ?v (r_view R (r_del R ?lk s3))"
        unfolding v3 by (simp add: w2_def w1_def redis_simps)
      show "bd_status doc = batch_generating \<longrightarrow>
          hash_of (r_view R (r_del R ?lk s3)) ?rk request = Some (BatchDoc ?doc)"
        unfolding v3 using sc by (simp add: w2_def w1_def redis_simps typed_expire [OF live])
    qed
  qed
qed

lemma interrupt_missing:
  assumes "conv_ok c (r_view R s)" "plain_scope sc"
    and "string_of (r_view R s) (lease_key c sc) = Some (Raw token)"
    and "stored_batch (r_view R s) (batch_key c sc bid) (requests_key c sc d) request = None"
  shows "interrupt_batch_script R (lease_key c sc) (batch_key c sc bid) (requests_key c sc d) token request ttl now s =
    (Some InterruptMissing, s)"
  using assms conv_requests(1) [OF assms(1) kind_requests [OF assms(2)]]
    conv_batch(1) [OF assms(1) kind_batch [OF assms(2)]]
  by (simp add: interrupt_batch_script_def lease_read stored_batch_def get hget split: option.splits)

section \<open>Migration of the old list\<close>

lemma rpush_all:
  "is_list_key (r_view R s) k \<Longrightarrow>
   is_list_key (r_view R (fold (r_rpush R k) bs s)) k \<and>
   list_of (r_view R (fold (r_rpush R k) bs s)) k = list_of (r_view R s) k @ bs \<and>
   same_but {k} (r_view R s) (r_view R (fold (r_rpush R k) bs s)) \<and>
   r_clock R (fold (r_rpush R k) bs s) = r_clock R s"
proof (induction bs arbitrary: s)
  case (Cons b bs)
  let ?s = "r_rpush R k b s"
  have one: "is_list_key (r_view R ?s) k" "list_of (r_view R ?s) k = list_of (r_view R s) k @ [b]"
    "same_but {k} (r_view R s) (r_view R ?s)" "r_clock R ?s = r_clock R s"
    using Cons.prems by (simp_all add: redis_simps)
  show ?case
    using Cons.IH [OF one(1)] one same_but_trans [OF one(3), of "{k}"] by simp
qed simp

lemma conv_ok_same_but:
  assumes "conv_ok c ks" "same_but {k} ks ks'" "has_kind c k kd" "\<And>v. value_at ks' k = Some v \<Longrightarrow> kind_value kd v"
  shows "conv_ok c ks'"
  unfolding conv_ok_def
proof (intro allI impI)
  fix k' kd' v assume a: "has_kind c k' kd'" "value_at ks' k' = Some v"
  show "kind_value kd' v"
  proof (cases "k' = k")
    case True
    then show ?thesis using a assms(3,4) kind_unique by blast
  next
    case False
    then show ?thesis using a assms(1) same_but_typed(1) [OF assms(2), of k'] by (auto intro: conv_okD)
  qed
qed

lemma rpush_all_ok:
  assumes "conv_ok c (r_view R s)" "has_kind c k KMessages" "\<forall>b \<in> set bs. \<exists>t. b = TurnDoc t"
  shows "conv_ok c (r_view R (fold (r_rpush R k) bs s))"
  using assms(1,3)
proof (induction bs arbitrary: s)
  case (Cons b bs)
  have l: "is_list_key (r_view R s) k" using conv_messages(1) [OF Cons.prems(1) assms(2)] by simp
  have "conv_ok c (r_view R (r_rpush R k b s))"
    unfolding rpush [OF l]
    by (rule conv_ok_store [OF Cons.prems(1) assms(2)])
      (use Cons.prems(2) conv_messages(2) [OF Cons.prems(1) assms(2)] in auto)
  then show ?case using Cons.IH Cons.prems(2) by simp
qed simp

lemma migrate_nothing:
  assumes "value_at (r_view R s) lk = None" "is_list_key (r_view R s) mk"
  shows "migrate_legacy_script R lk mk sk ttl s = (Some (int (length (list_of (r_view R s) mk))), s)"
  using assms by (simp add: migrate_legacy_script_def exists llen)

lemma migrate_done:
  assumes ok: "conv_ok c (r_view R s)" and sc: "plain_scope sc" and ttl: "0 < ttl"
    and legacy: "value_at (r_view R s) (turns_key c (sc_identity sc) d) \<noteq> None"
  obtains s' where
    "migrate_legacy_script R (turns_key c (sc_identity sc) d) (messages_key c sc d) (sequence_key c sc d) ttl s =
      (Some (int (length (list_of (r_view R s) (turns_key c (sc_identity sc) d)) +
                  length (list_of (r_view R s) (messages_key c sc d)))), s')"
    "conv_ok c (r_view R s')"
    "list_of (r_view R s') (messages_key c sc d) =
      list_of (r_view R s) (turns_key c (sc_identity sc) d) @ list_of (r_view R s) (messages_key c sc d)"
    "sequence_at (r_view R s') (sequence_key c sc d) =
      int (length (list_of (r_view R s') (messages_key c sc d)))"
    "value_at (r_view R s') (turns_key c (sc_identity sc) d) = None"
    "same_but {turns_key c (sc_identity sc) d, messages_key c sc d, sequence_key c sc d} (r_view R s) (r_view R s')"
proof -
  let ?v = "r_view R s" and ?lk = "turns_key c (sc_identity sc) d"
  let ?mk = "messages_key c sc d" and ?sk = "sequence_key c sc d"
  let ?old = "list_of ?v ?lk" and ?cur = "list_of ?v ?mk"
  have i: "plain_identity (sc_identity sc)" using sc by (simp add: plain_scope_def)
  have k [simp]: "?lk \<noteq> ?mk" "?mk \<noteq> ?lk" "?lk \<noteq> ?sk" "?sk \<noteq> ?lk" "?mk \<noteq> ?sk" "?sk \<noteq> ?mk"
    using i sc by (simp_all add: messages_key_def sequence_key_def scope_key_inject)
  note lq = conv_messages [OF ok kind_turns [OF i]] and mq = conv_messages [OF ok kind_messages [OF sc]]
  define s1 where "s1 = r_del R ?mk s"
  define s2 where "s2 = fold (r_rpush R ?mk) ?old s1"
  define s3 where "s3 = fold (r_rpush R ?mk) ?cur s2"
  define s4 where "s4 = r_del R ?lk s3"
  define s5 where "s5 = r_set R ?sk (Num (int (length ?old + length ?cur))) None s4"
  define s6 where "s6 = r_pexpire R ?mk ttl s5"
  define s7 where "s7 = r_pexpire R ?sk ttl s6"
  have v1: "r_view R s1 = drop_key ?mk ?v" by (simp add: s1_def del)
  have l1: "is_list_key (r_view R s1) ?mk" "list_of (r_view R s1) ?mk = []" by (simp_all add: v1 redis_simps)
  have ok1: "conv_ok c (r_view R s1)" by (simp add: v1 conv_ok_drop ok)
  have p2: "is_list_key (r_view R s2) ?mk" "list_of (r_view R s2) ?mk = list_of (r_view R s1) ?mk @ ?old"
    "same_but {?mk} (r_view R s1) (r_view R s2)" "r_clock R s2 = r_clock R s1"
    using rpush_all [OF l1(1), of ?old] by (simp_all add: s2_def)
  have ok2: "conv_ok c (r_view R s2)" unfolding s2_def
    by (rule rpush_all_ok [OF ok1 kind_messages [OF sc]]) (use lq(2) in auto)
  have p3: "is_list_key (r_view R s3) ?mk" "list_of (r_view R s3) ?mk = list_of (r_view R s2) ?mk @ ?cur"
    "same_but {?mk} (r_view R s2) (r_view R s3)" "r_clock R s3 = r_clock R s2"
    using rpush_all [OF p2(1), of ?cur] by (simp_all add: s3_def)
  have ok3: "conv_ok c (r_view R s3)" unfolding s3_def
    by (rule rpush_all_ok [OF ok2 kind_messages [OF sc]]) (use mq(2) in auto)
  have list3: "list_of (r_view R s3) ?mk = ?old @ ?cur" using p2(2) p3(2) l1(2) by simp
  define w5 where "w5 = put ?sk (RString (Num (int (length ?old + length ?cur)))) None (drop_key ?lk (r_view R s3))"
  have v5: "r_view R s5 = w5" by (simp add: s5_def s4_def w5_def set del)
  have c5: "r_clock R s5 = r_clock R s" using p2(4) p3(4) by (simp add: s5_def s4_def s1_def clocks)
  have v7: "r_view R s7 = expire_key (r_clock R s) ?sk (r_clock R s + ttl)
      (expire_key (r_clock R s) ?mk (r_clock R s + ttl) w5)"
    unfolding s7_def s6_def pexpire clocks v5 c5 ..
  have live: "r_clock R s < r_clock R s + ttl" using ttl by simp
  have run: "migrate_legacy_script R ?lk ?mk ?sk ttl s = (Some (int (length ?old + length ?cur)), s7)"
    using legacy lq(1) mq(1)
    by (simp add: migrate_legacy_script_def exists lrange Let_def s1_def s2_def s3_def s4_def s5_def s6_def s7_def)
  have "conv_ok c w5" unfolding w5_def
    by (rule conv_ok_put [OF conv_ok_drop [OF ok3] kind_sequence [OF sc]]) simp
  then have fin: "conv_ok c (r_view R s7)" unfolding v7 by (intro conv_ok_expire)
  have list7: "list_of (r_view R s7) ?mk = ?old @ ?cur"
    by (simp add: v7 typed_expire [OF live] w5_def redis_simps list3)
  have s13: "same_but {?mk} ?v (r_view R s3)"
    using same_but_trans [OF _ same_but_trans [OF p2(3) p3(3)], of "{?mk}" ?v] by (simp add: v1 redis_simps)
  show ?thesis
  proof (rule that [OF run fin list7])
    show "sequence_at (r_view R s7) ?sk = int (length (list_of (r_view R s7) ?mk))"
      by (simp add: list7) (simp add: sequence_at_def v7 typed_expire [OF live] w5_def redis_simps num_of_def)
    show "value_at (r_view R s7) ?lk = None"
      by (simp add: v7 value_at_expire_live [OF live] w5_def redis_simps)
    have "same_but {?mk, ?lk, ?sk} ?v (r_view R s3)" using s13 by (auto simp: same_but_def)
    then show "same_but {?lk, ?mk, ?sk} ?v (r_view R s7)"
      by (simp add: v7 w5_def redis_simps insert_commute)
  qed
qed

end

end
