(* ===== verification/Conversation_Runs.thy ===== *)
theory Conversation_Runs
  imports Conversation_Scripts
begin

text \<open>
  The methods of the conversation store over a quiet server: one round trip after another,
  keys expiring in between, requests and replies getting lost. Each lemma relates the view a
  method finds to the view it leaves; \<open>aged\<close> is the passage of time.
\<close>

section \<open>Time\<close>

lemma aged_ok: "aged ks ks' \<Longrightarrow> conv_ok c ks \<Longrightarrow> conv_ok c ks'"
  unfolding conv_ok_def aged_def value_at_def by (metis option.simps(3) option.map(1))

text \<open>Room for the counters: they are exact in Lua and in Redis.\<close>

definition roomy :: "conv_store \<Rightarrow> keyspace \<Rightarrow> bool" where
  "roomy c ks \<longleftrightarrow> (\<forall>sc d. sequence_at ks (sequence_key c sc d) < 2 ^ 52 \<and>
     int (length (list_of ks (turns_key c (sc_identity sc) d)) + length (list_of ks (messages_key c sc d))) < 2 ^ 52)"

lemma aged_list: "aged ks ks' \<Longrightarrow> list_of ks' k = list_of ks k \<or> list_of ks' k = []"
  by (auto simp: aged_def list_of_def value_at_def)
    (metis option.map(1) option.simps(4))

lemma aged_sequence: "aged ks ks' \<Longrightarrow> sequence_at ks' k = sequence_at ks k \<or> sequence_at ks' k = 0"
proof -
  assume "aged ks ks'"
  then have "ks' k = ks k \<or> ks' k = None" by (simp add: aged_def)
  then show ?thesis by (auto simp: sequence_at_def string_of_def value_at_def num_of_def)
qed

lemma aged_roomy: "aged ks ks' \<Longrightarrow> roomy c ks \<Longrightarrow> roomy c ks'"
proof -
  assume a: "aged ks ks'" and r: "roomy c ks"
  have "sequence_at ks' (sequence_key c sc d) < 2 ^ 52" for sc d
    using aged_sequence [OF a, of "sequence_key c sc d"] r by (auto simp: roomy_def)
  moreover have "length (list_of ks' (turns_key c (sc_identity sc) d)) + length (list_of ks' (messages_key c sc d))
      \<le> length (list_of ks (turns_key c (sc_identity sc) d)) + length (list_of ks (messages_key c sc d))" for sc d
    using aged_list [OF a, of "turns_key c (sc_identity sc) d"] aged_list [OF a, of "messages_key c sc d"] by auto
  then have "int (length (list_of ks' (turns_key c (sc_identity sc) d)) + length (list_of ks' (messages_key c sc d)))
      < 2 ^ 52" for sc d
    using r unfolding roomy_def by (meson le_less_trans of_nat_mono)
  ultimately show ?thesis by (simp add: roomy_def)
qed

definition good_store :: "conv_store \<Rightarrow> bool" where
  "good_store c \<longleftrightarrow> 1000000 \<le> cs_ttl c \<and> 1000000 \<le> cs_lease_ttl c"

lemma good_store_ms: "good_store c \<Longrightarrow> 0 < milliseconds (cs_ttl c) \<and> 0 < milliseconds (cs_lease_ttl c)"
  by (simp add: good_store_def milliseconds_def pos_imp_zdiv_pos_iff)

section \<open>Round trips\<close>

context go_env
begin

lemma new_turn_id_view [simp]:
  "r_view R (snd (new_turn_id R s)) = r_view R s" "r_clock R (snd (new_turn_id R s)) = r_clock R s"
  using random_view [of 16 s] random_clock [of 16 s]
  by (auto simp: new_turn_id_def now_view now_clock split: prod.splits option.splits)
    (metis now_view now_clock snd_conv)+

end

context quiet_env
begin

lemma trip_cases:
  obtains s1 where "aged (r_view R s) (r_view R s1)" "r_clock R s \<le> r_clock R s1"
    "round_trip R script s = (case script s1 of (Some x, s2) \<Rightarrow> (Inr x, s2) | (None, s2) \<Rightarrow> (Inl ErrService, s2)) \<or>
     round_trip R script s = (Inl ErrService, s1) \<or>
     round_trip R script s = (Inl ErrService, snd (script s1))"
proof -
  let ?s1 = "snd (r_arrive R s)"
  have "aged (r_view R s) (r_view R ?s1)" "r_clock R s \<le> r_clock R ?s1"
    by (simp_all add: arrive arrive_clock)
  moreover have "round_trip R script s =
      (case script ?s1 of (Some x, s2) \<Rightarrow> (Inr x, s2) | (None, s2) \<Rightarrow> (Inl ErrService, s2)) \<or>
     round_trip R script s = (Inl ErrService, ?s1) \<or> round_trip R script s = (Inl ErrService, snd (script ?s1))"
    by (auto simp: round_trip_def split: prod.splits delivery.splits option.splits)
  ultimately show ?thesis by (rule that)
qed

lemma trip_answer:
  assumes "round_trip R script s = (Inr x, s2)"
  obtains s1 where "aged (r_view R s) (r_view R s1)" "r_clock R s \<le> r_clock R s1" "script s1 = (Some x, s2)"
proof -
  have a: "r_arrive R s = (Delivered, snd (r_arrive R s))"
    using assms by (auto simp: round_trip_def split: prod.splits delivery.splits option.splits)
  show ?thesis
  proof (rule that)
    show "aged (r_view R s) (r_view R (snd (r_arrive R s)))" "r_clock R s \<le> r_clock R (snd (r_arrive R s))"
      by (simp_all add: arrive arrive_clock)
    show "script (snd (r_arrive R s)) = (Some x, s2)"
      using assms a by (simp add: round_trip_served split: prod.splits option.splits)
  qed
qed

text \<open>What a script keeps for every view, its round trip keeps.\<close>

lemma trip_keeps:
  assumes "\<And>s1. aged (r_view R s) (r_view R s1) \<Longrightarrow> P (r_view R s1)"
    and "\<And>s1. aged (r_view R s) (r_view R s1) \<Longrightarrow> P (r_view R (snd (script s1)))"
  shows "P (r_view R (snd (round_trip R script s)))"
proof -
  have a: "aged (r_view R s) (r_view R (snd (r_arrive R s)))" by (simp add: arrive)
  show ?thesis by (rule round_trip_keeps) (use assms(1) [OF a] assms(2) [OF a] in simp_all)
qed

end

section \<open>Every method keeps the store well typed\<close>

lemma fill_messages_total: "\<forall>b \<in> set bs. \<exists>t. b = TurnDoc t \<Longrightarrow> \<exists>ms. fill_messages sc i l bs = Inr ms"
proof (induction bs arbitrary: i l)
  case (Cons b bs)
  then obtain t where t: "b = TurnDoc t" by auto
  obtain m l' where m: "fill_message sc i l t = (m, l')" by fastforce
  obtain ms where "fill_messages sc (Suc i) l' bs = Inr ms"
    using Cons.IH [of "Suc i" l'] Cons.prems by auto
  then show ?case by (simp add: t m)
qed simp

context redis_service
begin

lemma srem_ok:
  assumes "conv_ok c (r_view R s)" "has_kind c k kd" "kd = KActive \<or> kd = KScopes"
  shows "conv_ok c (r_view R (r_srem R k m s))"
proof -
  have "is_set_key (r_view R s) k" by (rule conv_set [OF assms])
  then show ?thesis
    using assms by (auto simp: srem Let_def conv_ok_drop intro: conv_ok_store)
qed

lemma del_ok: "conv_ok c (r_view R s) \<Longrightarrow> conv_ok c (r_view R (r_del R k s))"
  by (simp add: del conv_ok_drop)

lemma begin_script_ok:
  assumes ok: "conv_ok c (r_view R s)" and sc: "plain_scope sc"
    and room: "sequence_at (r_view R s) (sequence_key c sc d) \<le> 2 ^ 52"
    and data: "doc_ok data" and ttl: "0 < ttl" "0 < lease_ttl"
  shows "conv_ok c (r_view R (snd (begin_batch_script R (begin_keys_of c sc d bid) request data token ttl lease_ttl
      member s)))"
proof (cases "known_request (begin_keys_of c sc d bid) request (r_view R s)")
  case (Some bl)
  then obtain b l where "known_request (begin_keys_of c sc d bid) request (r_view R s) = Some (b, l)"
    by (cases bl) auto
  from begin_known [OF ok sc this] show ?thesis by (metis snd_conv)
next
  case None
  show ?thesis
  proof (cases "value_at (r_view R s) (lease_key c sc) = None")
    case True
    have "in_int64 (sequence_at (r_view R s) (sequence_key c sc d) + 1)"
    proof -
      obtain i where "num_of (string_of (r_view R s) (sequence_key c sc d)) = Some i" "0 \<le> i"
        using conv_sequence(2) [OF ok kind_sequence [OF sc]] by blast
      then show ?thesis using room by (simp add: sequence_at_def in_int64_def)
    qed
    from begin_started [OF ok sc None True refl this data ttl] show ?thesis by (metis snd_conv)
  next
    case False
    then show ?thesis using begin_busy [OF ok sc None] ok by simp
  qed
qed

lemma append_script_ok:
  assumes ok: "conv_ok c (r_view R s)" and sc: "plain_scope sc"
    and room: "sequence_at (r_view R s) (sequence_key c sc (beijing_day (bt_created b))) \<le> 2 ^ 52"
    and data: "bd_planned data = JArray ps" "ps \<noteq> []" "bd_messages data = JArray ms" "ms \<noteq> []"
    and ttl: "0 < ttl" "0 < lease_ttl"
  shows "conv_ok c (r_view R (snd (append_character_script R (append_keys_of c sc b) token m data request ttl
      lease_ttl s)))"
proof (cases "string_of (r_view R s) (lease_key c sc) = Some (Raw token)")
  case True
  have "in_int64 (sequence_at (r_view R s) (sequence_key c sc (beijing_day (bt_created b))) + 1)"
  proof -
    obtain i where "num_of (string_of (r_view R s) (sequence_key c sc (beijing_day (bt_created b)))) = Some i" "0 \<le> i"
      using conv_sequence(2) [OF ok kind_sequence [OF sc]] by blast
    then show ?thesis using room by (simp add: sequence_at_def in_int64_def)
  qed
  from append_done [OF ok sc True refl this data ttl] show ?thesis by (metis snd_conv)
next
  case False
  then show ?thesis using append_fenced [OF ok sc] ok by simp
qed

lemma save_script_ok:
  assumes ok: "conv_ok c (r_view R s)" and sc: "plain_scope sc" and data: "doc_ok data"
    and ttl: "0 < ttl" "0 < lease_ttl"
  shows "conv_ok c (r_view R (snd (save_batch_script R (lease_key c sc) (batch_key c sc bid) (requests_key c sc d)
      token data request ttl release lease_ttl s)))"
proof (cases "string_of (r_view R s) (lease_key c sc) = Some (Raw token)")
  case True
  from save_done [OF ok sc True data ttl] show ?thesis by (metis snd_conv)
next
  case False
  then show ?thesis using save_fenced [OF ok sc] ok by simp
qed

lemma interrupt_script_ok:
  assumes ok: "conv_ok c (r_view R s)" and sc: "plain_scope sc" and ttl: "0 < ttl"
  shows "conv_ok c (r_view R (snd (interrupt_batch_script R (lease_key c sc) (batch_key c sc bid)
      (requests_key c sc d) token request ttl now s)))"
proof (cases "string_of (r_view R s) (lease_key c sc) = Some (Raw token)")
  case True
  show ?thesis
  proof (cases "stored_batch (r_view R s) (batch_key c sc bid) (requests_key c sc d) request")
    case None
    then show ?thesis using interrupt_missing [OF ok sc True] ok by simp
  next
    case (Some b)
    from interrupt_done [OF ok sc True Some ttl] show ?thesis by (metis snd_conv)
  qed
next
  case False
  then show ?thesis using interrupt_fenced [OF ok sc] ok by simp
qed

lemma migrate_script_ok:
  fixes d d' :: day and ttl :: int
  assumes ok: "conv_ok c (r_view R s)" and sc: "plain_scope sc" and ttl: "0 < ttl"
  defines "s' \<equiv> snd (migrate_legacy_script R (turns_key c (sc_identity sc) d) (messages_key c sc d)
      (sequence_key c sc d) ttl s)"
  shows "conv_ok c (r_view R s')"
    and "roomy c (r_view R s) \<Longrightarrow> sequence_at (r_view R s') (sequence_key c sc d') \<le> 2 ^ 52"
proof -
  have i: "plain_identity (sc_identity sc)" using sc by (simp add: plain_scope_def)
  have both: "conv_ok c (r_view R s') \<and>
      (roomy c (r_view R s) \<longrightarrow> sequence_at (r_view R s') (sequence_key c sc d') \<le> 2 ^ 52)"
  proof (cases "value_at (r_view R s) (turns_key c (sc_identity sc) d) = None")
    case True
    then show ?thesis
      using migrate_nothing [OF True conv_messages(1) [OF ok kind_messages [OF sc]]] ok
      by (auto simp: s'_def roomy_def intro: less_imp_le)
  next
    case False
    obtain s'' where run: "migrate_legacy_script R (turns_key c (sc_identity sc) d) (messages_key c sc d) (sequence_key c sc d) ttl s =
        (Some (int (length (list_of (r_view R s) (turns_key c (sc_identity sc) d)) +
                  length (list_of (r_view R s) (messages_key c sc d)))), s'')"
      "conv_ok c (r_view R s'')"
      "list_of (r_view R s'') (messages_key c sc d) =
        list_of (r_view R s) (turns_key c (sc_identity sc) d) @ list_of (r_view R s) (messages_key c sc d)"
      "sequence_at (r_view R s'') (sequence_key c sc d) =
        int (length (list_of (r_view R s'') (messages_key c sc d)))"
      "value_at (r_view R s'') (turns_key c (sc_identity sc) d) = None"
      "same_but {turns_key c (sc_identity sc) d, messages_key c sc d, sequence_key c sc d} (r_view R s) (r_view R s'')"
      by (rule migrate_done [OF ok sc ttl False])
    have "sequence_at (r_view R s'') (sequence_key c sc d') \<le> 2 ^ 52" if r: "roomy c (r_view R s)"
    proof (cases "sequence_key c sc d' = sequence_key c sc d")
      case True
      then show ?thesis
        using run(3,4) r unfolding roomy_def by (metis length_append less_imp_le)
    next
      case other: False
      have "sequence_key c sc d' \<noteq> turns_key c (sc_identity sc) d"
        using i by (simp add: sequence_key_def)
      then have "string_of (r_view R s'') (sequence_key c sc d') = string_of (r_view R s) (sequence_key c sc d')"
        using other sc by (intro same_but_typed(4) [OF run(6)]) auto
      then show ?thesis using r by (auto simp: sequence_at_def roomy_def intro: less_imp_le)
    qed
    then show ?thesis using run(1,2) by (simp add: s'_def)
  qed
  then show "conv_ok c (r_view R s')"
    "roomy c (r_view R s) \<Longrightarrow> sequence_at (r_view R s') (sequence_key c sc d') \<le> 2 ^ 52" by simp_all
qed

end

context quiet_env
begin

lemma migrate_scope_ok:
  assumes "conv_ok c (r_view R s)" "plain_scope sc" "good_store c"
  shows "conv_ok c (r_view R (snd (migrate_legacy_scope R c sc d s)))"
    and "roomy c (r_view R s) \<Longrightarrow>
      sequence_at (r_view R (snd (migrate_legacy_scope R c sc d s))) (sequence_key c sc d') \<le> 2 ^ 52"
proof -
  let ?sc = "migrate_legacy_script R (turns_key c (sc_identity sc) d) (messages_key c sc d)
      (sequence_key c sc d) (milliseconds (cs_ttl c))"
  note ttl = good_store_ms [OF assms(3)]
  have state: "snd (migrate_legacy_scope R c sc d s) = (if sc_conversation sc \<noteq> default_conversation then s
      else snd (round_trip R ?sc s))"
    by (auto simp: migrate_legacy_scope_def split: prod.splits sum.splits)
  have "conv_ok c (r_view R (snd (round_trip R ?sc s)))"
    by (rule trip_keeps)
      (use assms(1) in \<open>auto intro: aged_ok migrate_script_ok(1) [OF _ assms(2)] simp: ttl\<close>)
  then show "conv_ok c (r_view R (snd (migrate_legacy_scope R c sc d s)))"
    using assms(1) by (simp add: state)
  assume r: "roomy c (r_view R s)"
  have "sequence_at (r_view R (snd (round_trip R ?sc s))) (sequence_key c sc d') \<le> 2 ^ 52"
  proof (rule trip_keeps)
    fix s1 assume a: "aged (r_view R s) (r_view R s1)"
    from aged_roomy [OF a r] have r1: "roomy c (r_view R s1)" .
    then show "sequence_at (r_view R s1) (sequence_key c sc d') \<le> 2 ^ 52"
      by (auto simp: roomy_def intro: less_imp_le)
    show "sequence_at (r_view R (snd (?sc s1))) (sequence_key c sc d') \<le> 2 ^ 52"
      by (rule migrate_script_ok(2) [OF aged_ok [OF a assms(1)] assms(2)]) (use ttl r1 in auto)
  qed
  then show "sequence_at (r_view R (snd (migrate_legacy_scope R c sc d s))) (sequence_key c sc d') \<le> 2 ^ 52"
    using r by (auto simp: state roomy_def intro: less_imp_le)
qed

lemma begin_batch_ok:
  assumes "conv_ok c (r_view R s)" "roomy c (r_view R s)" "plain_scope sc" "good_store c"
  shows "conv_ok c (r_view R (snd (begin_batch R c sc request content s)))"
proof -
  let ?t0 = "fst (env_now R s)" and ?s0 = "snd (env_now R s)"
  let ?m = "migrate_legacy_scope R c sc (beijing_day ?t0) ?s0"
  note mig = migrate_scope_ok [of c ?s0 sc "beijing_day ?t0", unfolded now_view, OF assms(1,3,4)]
  show ?thesis
  proof (cases "fst ?m")
    case (Inl e)
    then have "snd (begin_batch R c sc request content s) = snd ?m"
      by (simp add: begin_batch_def split_beta Let_def)
    then show ?thesis using mig(1) by simp
  next
    case (Inr u)
    let ?s1 = "snd ?m"
    let ?now = "fst (env_now R ?s1)" and ?s2 = "snd (env_now R ?s1)"
    let ?bid = "''batch-'' @ fst (new_turn_id R ?s2)" and ?s3 = "snd (new_turn_id R ?s2)"
    let ?uid = "''turn-'' @ fst (new_turn_id R ?s3)" and ?s4 = "snd (new_turn_id R ?s3)"
    let ?token = "fst (new_turn_id R ?s4)" and ?s5 = "snd (new_turn_id R ?s4)"
    let ?b = "fresh_batch sc ?bid ?uid request content ?now"
    let ?script = "begin_batch_script R (begin_keys_of c sc (beijing_day ?now) ?bid) request (marshal_batch ?b) ?token
      (milliseconds (cs_ttl c)) (milliseconds (cs_lease_ttl c)) (active_scope_member sc)"
    have state: "snd (begin_batch R c sc request content s) = snd (round_trip R ?script ?s5)"
      using Inr by (simp add: begin_batch_def split_beta Let_def split: sum.splits)
    have v: "r_view R ?s5 = r_view R ?s1" by (simp add: now_view)
    have doc: "doc_ok (marshal_batch ?b)" by (rule marshal_doc_ok) (simp_all add: fresh_batch_def)
    have "conv_ok c (r_view R (snd (round_trip R ?script ?s5)))"
    proof (rule trip_keeps, unfold v)
      fix s1 assume a: "aged (r_view R ?s1) (r_view R s1)"
      show ok1: "conv_ok c (r_view R s1)" using a mig(1) by (rule aged_ok)
      have "sequence_at (r_view R s1) (sequence_key c sc (beijing_day ?now)) \<le> 2 ^ 52"
        using aged_sequence [OF a, of "sequence_key c sc (beijing_day ?now)"] mig(2) [OF assms(2), of "beijing_day ?now"]
        by auto
      then show "conv_ok c (r_view R (snd (?script s1)))"
        using begin_script_ok [OF ok1 assms(3) _ doc] good_store_ms [OF assms(4)] by blast
    qed
    then show ?thesis by (simp add: state)
  qed
qed

lemma append_character_ok:
  assumes "conv_ok c (r_view R s)" "roomy c (r_view R s)" "plain_scope sc" "good_store c"
    and "elems (bt_planned b) \<noteq> []"
  shows "conv_ok c (r_view R (snd (append_character R c sc b token speaker display avatar content s)))"
proof -
  let ?now = "fst (env_now R s)" and ?s1 = "snd (env_now R s)"
  let ?tid = "fst (new_turn_id R ?s1)" and ?s2 = "snd (new_turn_id R ?s1)"
  let ?m = "\<lparr>tn_id = ''turn-'' @ ?tid, tn_role = role_assistant, tn_content = content,
            tn_created = ?now, tn_conversation = sc_conversation sc, tn_speaker_kind = speaker_character,
            tn_speaker = speaker, tn_batch = bt_id b, tn_sequence = 0, tn_display = display,
            tn_avatar = avatar\<rparr>"
  let ?b1 = "b\<lparr>bt_messages := append1 (bt_messages b) ?m, bt_updated := ?now\<rparr>"
  let ?script = "append_character_script R (append_keys_of c sc b) token ?m (marshal_batch ?b1)
      (bt_request b) (milliseconds (cs_ttl c)) (milliseconds (cs_lease_ttl c))"
  have state: "snd (append_character R c sc b token speaker display avatar content s) = snd (round_trip R ?script ?s2)"
    by (simp add: append_character_def split_beta Let_def split: sum.splits append_reply.splits)
  have v: "r_view R ?s2 = r_view R s" by (simp add: now_view)
  have data: "bd_planned (marshal_batch ?b1) = JArray (elems (bt_planned b))"
    "bd_messages (marshal_batch ?b1) = JArray (elems (bt_messages b) @ [?m])"
    using assms(5) by (cases "bt_planned b"; simp add: marshal_batch_def marshal_slice_def append1_def)+
  have "conv_ok c (r_view R (snd (round_trip R ?script ?s2)))"
  proof (rule trip_keeps, unfold v)
    fix s1 assume a: "aged (r_view R s) (r_view R s1)"
    show ok1: "conv_ok c (r_view R s1)" using a assms(1) by (rule aged_ok)
    have "sequence_at (r_view R s1) (sequence_key c sc (beijing_day (bt_created b))) \<le> 2 ^ 52"
      using aged_roomy [OF a assms(2)] by (auto simp: roomy_def intro: less_imp_le)
    then show "conv_ok c (r_view R (snd (?script s1)))"
      using append_script_ok [OF ok1 assms(3) _ data(1) assms(5) data(2)] good_store_ms [OF assms(4)] by simp
  qed
  then show ?thesis by (simp add: state)
qed

lemma save_batch_ok:
  assumes "conv_ok c (r_view R s)" "plain_scope sc" "good_store c"
    and "bt_planned b \<noteq> None" "bt_messages b \<noteq> None"
  shows "conv_ok c (r_view R (snd (save_batch R c sc b token release s)))"
proof -
  let ?now = "fst (env_now R s)" and ?s1 = "snd (env_now R s)"
  let ?b1 = "b\<lparr>bt_updated := ?now\<rparr>"
  let ?script = "save_batch_script R (lease_key c sc) (batch_key c sc (bt_id b))
      (requests_key c sc (beijing_day (bt_created b))) token (marshal_batch ?b1) (bt_request b)
      (milliseconds (cs_ttl c)) release (milliseconds (cs_lease_ttl c))"
  have state: "snd (save_batch R c sc b token release s) = snd (round_trip R ?script ?s1)"
    by (simp add: save_batch_def split_beta Let_def split: sum.splits)
  have doc: "doc_ok (marshal_batch ?b1)" by (rule marshal_doc_ok) (use assms(4,5) in simp_all)
  have "conv_ok c (r_view R (snd (round_trip R ?script ?s1)))"
    by (rule trip_keeps, unfold now_view)
      (use assms(1) good_store_ms [OF assms(3)] in
        \<open>auto intro: aged_ok save_script_ok [OF _ assms(2) doc]\<close>)
  then show ?thesis by (simp add: state)
qed

lemma interrupt_batch_ok:
  assumes "conv_ok c (r_view R s)" "plain_scope sc" "good_store c"
  shows "conv_ok c (r_view R (snd (interrupt_batch R c sc bid request token created s)))"
proof -
  let ?now = "fst (env_now R s)" and ?s1 = "snd (env_now R s)"
  let ?script = "interrupt_batch_script R (lease_key c sc) (batch_key c sc bid)
      (requests_key c sc (beijing_day created)) token request (milliseconds (cs_ttl c)) ?now"
  have state: "snd (interrupt_batch R c sc bid request token created s) = snd (round_trip R ?script ?s1)"
    by (simp add: interrupt_batch_def split_beta Let_def split: sum.splits interrupt_reply.splits blob.splits option.splits)
  have "conv_ok c (r_view R (snd (round_trip R ?script ?s1)))"
    by (rule trip_keeps, unfold now_view)
      (use assms(1) good_store_ms [OF assms(3)] in
        \<open>auto intro: aged_ok interrupt_script_ok [OF _ assms(2)]\<close>)
  then show ?thesis by (simp add: state)
qed

lemma add_turn_ok:
  assumes "conv_ok c (r_view R s)" "plain_identity i" "good_store c"
  shows "conv_ok c (r_view R (snd (add_turn R c i role content s)))"
proof -
  let ?now = "fst (env_now R s)" and ?s1 = "snd (env_now R s)"
  let ?tid = "fst (new_turn_id R ?s1)" and ?s2 = "snd (new_turn_id R ?s1)"
  let ?t = "zero_turn\<lparr>tn_id := ?tid, tn_role := role, tn_content := content, tn_created := ?now\<rparr>"
  let ?tk = "turns_key c i (beijing_day ?now)" and ?ak = "active_key c (beijing_day ?now)"
  let ?ttl = "milliseconds (cs_ttl c)"
  let ?pipe = "writing (\<lambda>s. r_pexpire R ?ak ?ttl (r_pexpire R ?tk ?ttl
                   (r_sadd R ?ak (active_member i) (r_rpush R ?tk (TurnDoc ?t) s))))"
  have state: "snd (add_turn R c i role content s) = snd (round_trip R ?pipe ?s2)"
    by (simp add: add_turn_def add_turn_pipe_def [abs_def] split_beta Let_def split: sum.splits)
  have v: "r_view R ?s2 = r_view R s" by (simp add: now_view)
  have "conv_ok c (r_view R (snd (round_trip R ?pipe ?s2)))"
  proof (rule trip_keeps, unfold v)
    fix s1 assume a: "aged (r_view R s) (r_view R s1)"
    show ok: "conv_ok c (r_view R s1)" using a assms(1) by (rule aged_ok)
    note tq = conv_messages [OF ok kind_turns [OF assms(2)]]
    have 1: "r_view R (r_rpush R ?tk (TurnDoc ?t) s1) =
        store ?tk (RList (list_of (r_view R s1) ?tk @ [TurnDoc ?t])) (r_view R s1)"
      using tq(1) by (intro rpush) blast
    have ok2: "conv_ok c (r_view R (r_rpush R ?tk (TurnDoc ?t) s1))"
      unfolding 1 by (rule conv_ok_store [OF ok kind_turns [OF assms(2)]]) (use tq(2) in auto)
    have 2: "conv_ok c (r_view R (r_sadd R ?ak (active_member i) (r_rpush R ?tk (TurnDoc ?t) s1)))"
      unfolding sadd [OF conv_set [OF ok2 kind_active disjI1 [OF refl]]]
      by (rule conv_ok_store [OF ok2 kind_active]) simp
    show "conv_ok c (r_view R (snd (?pipe s1)))"
      by (simp add: writing_def pexpire) (intro conv_ok_expire 2)
  qed
  then show ?thesis by (simp add: state)
qed

lemma clear_date_ok:
  assumes "conv_ok c (r_view R s)"
  shows "conv_ok c (r_view R (snd (clear_date R c i t s)))"
  unfolding clear_date_def clear_turns_pipe_def [abs_def] Let_def
  by (rule trip_keeps)
    (use assms in \<open>auto simp: writing_def intro!: srem_ok [OF _ kind_active] del_ok intro: aged_ok\<close>)

lemma clear_scope_date_ok:
  assumes "conv_ok c (r_view R s)" "plain_scope sc" "good_store c"
  shows "conv_ok c (r_view R (snd (clear_scope_date R c sc t s)))"
proof -
  let ?d = "beijing_day t"
  let ?m = "migrate_legacy_scope R c sc ?d s"
  let ?pipe = "writing (\<lambda>s. (let s2 = r_del R (sequence_key c sc ?d) (r_del R (messages_key c sc ?d) s);
                    s3 = r_srem R (active_scopes_key c ?d) (active_scope_member sc) s2
                in if sc_conversation sc = default_conversation
                   then r_srem R (active_key c ?d) (active_member (sc_identity sc)) s3 else s3))"
  note mig = migrate_scope_ok(1) [OF assms, of ?d]
  have "conv_ok c (r_view R (snd (round_trip R ?pipe (snd ?m))))"
    by (rule trip_keeps)
      (use mig in \<open>auto simp: writing_def Let_def intro!: srem_ok [OF _ kind_active] srem_ok [OF _ kind_scopes]
         del_ok intro: aged_ok\<close>)
  then show ?thesis
    using mig by (simp add: clear_scope_date_def clear_scope_pipe_def [abs_def] split_beta Let_def split: sum.splits)
qed

lemma clear_scope_today_ok:
  assumes "conv_ok c (r_view R s)" "plain_scope sc" "good_store c"
  shows "conv_ok c (r_view R (snd (clear_scope_today R c sc s)))"
proof -
  let ?e = "round_trip R (reading (r_exists R (lease_key c sc))) s"
  have "conv_ok c (r_view R (snd ?e))"
    by (rule trip_keeps) (use assms(1) in \<open>auto simp: reading_def intro: aged_ok\<close>)
  then show ?thesis
    using clear_scope_date_ok [OF _ assms(2,3)]
    by (simp add: clear_scope_today_def split_beta Let_def now_view split: sum.splits)
qed

lemma messages_for_date_ok:
  assumes "conv_ok c (r_view R s)" "plain_scope sc" "good_store c"
  shows "conv_ok c (r_view R (snd (messages_for_date_scope R c sc t s)))"
    and "messages_for_date_scope R c sc t s \<noteq> (Inl ErrDecode, s')"
proof -
  let ?d = "beijing_day t"
  let ?m = "migrate_legacy_scope R c sc ?d s"
  let ?read = "reading (r_lrange R (messages_key c sc ?d) 0 (- 1))"
  note mig = migrate_scope_ok(1) [OF assms, of ?d]
  have "conv_ok c (r_view R (snd (round_trip R ?read (snd ?m))))"
    by (rule trip_keeps) (use mig in \<open>auto simp: reading_def intro: aged_ok\<close>)
  then show "conv_ok c (r_view R (snd (messages_for_date_scope R c sc t s)))"
    using mig by (simp add: messages_for_date_scope_def split_beta Let_def split: sum.splits)
  have service: "fst (round_trip R f x) \<noteq> Inl ErrDecode" for f :: "_ \<Rightarrow> 'x option \<times> _" and x
    by (auto simp: round_trip_def split: prod.splits delivery.splits option.splits)
  have typed: "\<forall>b \<in> set vs. \<exists>t. b = TurnDoc t" if rd: "round_trip R ?read (snd ?m) = (Inr vs, s2)" for vs s2
  proof -
    obtain s1 where s1: "aged (r_view R (snd ?m)) (r_view R s1)" "?read s1 = (Some vs, s2)"
      using trip_answer [OF rd] by blast
    have "conv_ok c (r_view R s1)" using s1(1) mig by (rule aged_ok)
    from conv_messages [OF this kind_messages [OF assms(2)]] s1(2) show ?thesis
      by (auto simp: reading_def lrange)
  qed
  have total: "fill_messages sc 0 [] vs \<noteq> Inl ErrDecode"
    if "round_trip R ?read (snd ?m) = (Inr vs, s2)" for vs s2
    using fill_messages_total [OF typed [OF that], of sc 0 "[]"] by auto
  have first: "fst ?m \<noteq> Inl ErrDecode"
    using service [of "migrate_legacy_script R (turns_key c (sc_identity sc) ?d) (messages_key c sc ?d)
        (sequence_key c sc ?d) (milliseconds (cs_ttl c))" s]
    by (auto simp: migrate_legacy_scope_def split: prod.splits sum.splits)
  show "messages_for_date_scope R c sc t s \<noteq> (Inl ErrDecode, s')"
  proof
    assume e: "messages_for_date_scope R c sc t s = (Inl ErrDecode, s')"
    obtain r1 s1 where m: "?m = (r1, s1)" by fastforce
    obtain r2 s2 where rd: "round_trip R ?read (snd ?m) = (r2, s2)" by fastforce
    show False
      using e first total [of _ s2] service [of ?read "snd ?m"] rd m
      by (cases r1; cases r2) (auto simp: messages_for_date_scope_def Let_def)
  qed
qed

end

section \<open>Runs\<close>

text \<open>
  Any number of clients call the store, each with its own arguments. A generation that
  appends has planned its speakers, and a batch that is saved has its collections, as the
  batches the store hands out do. Each call starts while the counters have room.
\<close>

datatype conv_call =
    CallBegin scope string string
  | CallAppend scope batch string string string string string
  | CallSave scope batch string bool
  | CallInterrupt scope string string string time
  | CallMessages scope time
  | CallClearToday scope
  | CallClearDate scope time
  | CallAddTurn identity string string
  | CallClearTurns identity time

fun call_ok :: "conv_call \<Rightarrow> bool" where
  "call_ok (CallBegin sc request content) = plain_scope sc"
| "call_ok (CallAppend sc b token speaker display avatar content) =
     (plain_scope sc \<and> elems (bt_planned b) \<noteq> [])"
| "call_ok (CallSave sc b token release) = (plain_scope sc \<and> bt_planned b \<noteq> None \<and> bt_messages b \<noteq> None)"
| "call_ok (CallInterrupt sc bid request token created) = plain_scope sc"
| "call_ok (CallMessages sc t) = plain_scope sc"
| "call_ok (CallClearToday sc) = plain_scope sc"
| "call_ok (CallClearDate sc t) = plain_scope sc"
| "call_ok (CallAddTurn i role content) = plain_identity i"
| "call_ok (CallClearTurns i t) = True"

fun after_call :: "('s, 'z) env_scheme \<Rightarrow> conv_store \<Rightarrow> conv_call \<Rightarrow> 's \<Rightarrow> 's" where
  "after_call R c (CallBegin sc request content) s = snd (begin_batch R c sc request content s)"
| "after_call R c (CallAppend sc b token speaker display avatar content) s =
     snd (append_character R c sc b token speaker display avatar content s)"
| "after_call R c (CallSave sc b token release) s = snd (save_batch R c sc b token release s)"
| "after_call R c (CallInterrupt sc bid request token created) s =
     snd (interrupt_batch R c sc bid request token created s)"
| "after_call R c (CallMessages sc t) s = snd (messages_for_date_scope R c sc t s)"
| "after_call R c (CallClearToday sc) s = snd (clear_scope_today R c sc s)"
| "after_call R c (CallClearDate sc t) s = snd (clear_scope_date R c sc t s)"
| "after_call R c (CallAddTurn i role content) s = snd (add_turn R c i role content s)"
| "after_call R c (CallClearTurns i t) s = snd (clear_date R c i t s)"

inductive conv_run :: "('s, 'z) env_scheme \<Rightarrow> conv_store \<Rightarrow> 's \<Rightarrow> 's \<Rightarrow> bool"
  for R :: "('s, 'z) env_scheme" and c :: conv_store and s0 :: 's
where
  conv_start: "conv_run R c s0 s0"
| conv_step: "conv_run R c s0 s \<Longrightarrow> call_ok call \<Longrightarrow> roomy c (r_view R s) \<Longrightarrow>
    conv_run R c s0 (after_call R c call s)"
| conv_wait: "conv_run R c s0 s \<Longrightarrow> conv_run R c s0 (snd (r_arrive R s))"

context quiet_env
begin

lemma after_call_ok:
  assumes "conv_ok c (r_view R s)" "roomy c (r_view R s)" "good_store c" "call_ok call"
  shows "conv_ok c (r_view R (after_call R c call s))"
  using assms(4)
  by (cases call)
    (simp_all add: assms(1-3) begin_batch_ok append_character_ok save_batch_ok interrupt_batch_ok
      messages_for_date_ok(1) clear_scope_today_ok clear_scope_date_ok add_turn_ok clear_date_ok)

lemma run_ok:
  assumes "conv_run R c s0 s" "conv_ok c (r_view R s0)" "good_store c"
  shows "conv_ok c (r_view R s)"
  using assms
  by (induction) (auto intro: after_call_ok simp: arrive conv_ok_purge)

end

section \<open>One call, answered\<close>

lemma append_unmarshal:
  assumes "bt_planned b = Some ps" "elems (bt_messages b) = ms @ [m]"
  shows "unmarshal_into b (appended_doc (marshal_batch b) n) =
      (b\<lparr>bt_messages := Some (ms @ [m\<lparr>tn_sequence := n\<rparr>])\<rparr>, True)"
    and "marshal_batch (b\<lparr>bt_messages := Some (ms @ [m\<lparr>tn_sequence := n\<rparr>])\<rparr>) = appended_doc (marshal_batch b) n"
proof -
  have "bt_messages b = Some (ms @ [m])" using assms(2) by (cases "bt_messages b") auto
  then show "unmarshal_into b (appended_doc (marshal_batch b) n) =
      (b\<lparr>bt_messages := Some (ms @ [m\<lparr>tn_sequence := n\<rparr>])\<rparr>, True)"
    "marshal_batch (b\<lparr>bt_messages := Some (ms @ [m\<lparr>tn_sequence := n\<rparr>])\<rparr>) = appended_doc (marshal_batch b) n"
    using assms(1)
    by (cases b; simp add: unmarshal_into_def appended_doc_def marshal_batch_def marshal_slice_def Let_def)+
qed

text \<open>A finished batch with its collections comes back from its document as it was.\<close>

lemma replay_batch:
  assumes "bt_planned b = Some ps" "bt_messages b = Some ms" "bt_status b \<noteq> batch_generating"
    and "elems (bt_planned b0) = []" "elems (bt_messages b0) = []"
  shows "begin_result b0 (ReplyExisting (settle_doc leased (marshal_batch b))) = Inr (b, BeginExisting, [])"
  using assms
  by (cases b) (auto simp: begin_result_def settle_doc_def Let_def marshal_batch_def marshal_slice_def
      unmarshal_batch_def unmarshal_tidy normalize_batch_collections_def)

definition legacy_of :: "turn \<Rightarrow> turn \<Rightarrow> bool" where
  "legacy_of t m \<longleftrightarrow> tn_id m = tn_id t \<and> tn_role m = tn_role t \<and> tn_content m = tn_content t \<and>
     tn_created m = tn_created t"

lemma fill_message_keeps:
  assumes "fill_message sc i l t = (m, l')"
  shows "legacy_of t m \<and> tn_sequence m = i + 1 \<and>
    (tn_role m = role_user \<longrightarrow> tn_speaker m = speaker_user \<and> tn_batch m \<noteq> []) \<and> tn_speaker m \<noteq> [] \<and>
    (sc_conversation sc \<noteq> [] \<longrightarrow> tn_conversation m \<noteq> [])"
  using assms by (auto simp: fill_message_def legacy_of_def Let_def speaker_user_def split: if_splits)

lemma fill_messages_keeps:
  "fill_messages sc i l bs = Inr ms \<Longrightarrow>
   list_all2 (\<lambda>b m. \<exists>t. b = TurnDoc t \<and> legacy_of t m) bs ms \<and>
   (\<forall>j < length ms. tn_sequence (ms ! j) = i + j + 1 \<and>
      (tn_role (ms ! j) = role_user \<longrightarrow> tn_speaker (ms ! j) = speaker_user \<and> tn_batch (ms ! j) \<noteq> []) \<and>
      tn_speaker (ms ! j) \<noteq> [] \<and> (sc_conversation sc \<noteq> [] \<longrightarrow> tn_conversation (ms ! j) \<noteq> []))"
proof (induction bs arbitrary: i l ms)
  case (Cons b bs)
  from Cons.prems obtain t m l' ms' where t: "b = TurnDoc t" "fill_message sc i l t = (m, l')"
    "fill_messages sc (Suc i) l' bs = Inr ms'" "ms = m # ms'"
    by (cases b) (auto simp: Let_def split_beta split: sum.splits, metis prod.collapse)
  note IH = Cons.IH [OF t(3)] and m = fill_message_keeps [OF t(2)]
  show ?case
  proof (intro conjI allI impI)
    show "list_all2 (\<lambda>b m. \<exists>t. b = TurnDoc t \<and> legacy_of t m) (b # bs) ms" using IH m t by simp
  qed (use IH m t in \<open>auto simp: nth_Cons split: nat.splits\<close>)
qed simp

context go_env
begin

lemma append_answered:
  assumes arrive: "r_arrive R (snd (new_turn_id R (snd (env_now R s)))) = (Delivered, s1)"
    and ok: "conv_ok c (r_view R s1)" and sc: "plain_scope sc" and store: "good_store c"
    and lease: "string_of (r_view R s1) (lease_key c sc) = Some (Raw token)"
    and planned: "elems (bt_planned b) \<noteq> []"
    and n: "sequence_at (r_view R s1) (sequence_key c sc (beijing_day (bt_created b))) = n" "n < 2 ^ 52"
  shows "\<exists>m b' s'. append_character R c sc b token speaker display avatar content s = ((Inr m, b'), s') \<and>
      tn_content m = content \<and> tn_speaker m = speaker \<and> tn_batch m = bt_id b \<and> int (tn_sequence m) = n + 1 \<and>
      elems (bt_messages b') = elems (bt_messages b) @ [m] \<and> bt_id b' = bt_id b \<and> bt_status b' = bt_status b \<and>
      bt_planned b' = bt_planned b \<and>
      list_of (r_view R s') (messages_key c sc (beijing_day (bt_created b))) =
        list_of (r_view R s1) (messages_key c sc (beijing_day (bt_created b))) @ [TurnDoc m] \<and>
      hash_of (r_view R s') (requests_key c sc (beijing_day (bt_created b))) (bt_request b) =
        Some (BatchDoc (marshal_batch b')) \<and>
      string_of (r_view R s') (lease_key c sc) = Some (Raw token) \<and>
      deadline (r_view R s') (lease_key c sc) = Some (r_clock R s1 + milliseconds (cs_lease_ttl c))"
proof -
  let ?now = "fst (env_now R s)" and ?e = "snd (env_now R s)" and ?d = "beijing_day (bt_created b)"
  let ?raw = "\<lparr>tn_id = ''turn-'' @ fst (new_turn_id R ?e), tn_role = role_assistant, tn_content = content,
            tn_created = ?now, tn_conversation = sc_conversation sc, tn_speaker_kind = speaker_character,
            tn_speaker = speaker, tn_batch = bt_id b, tn_sequence = 0, tn_display = display,
            tn_avatar = avatar\<rparr>"
  let ?b1 = "b\<lparr>bt_messages := append1 (bt_messages b) ?raw, bt_updated := ?now\<rparr>"
  let ?m = "?raw\<lparr>tn_sequence := nat (n + 1)\<rparr>"
  let ?b2 = "?b1\<lparr>bt_messages := Some (elems (bt_messages b) @ [?m])\<rparr>"
  obtain ps where ps: "bt_planned b = Some ps" "ps \<noteq> []" using planned by (cases "bt_planned b") auto
  have data: "bd_planned (marshal_batch ?b1) = JArray ps"
    "bd_messages (marshal_batch ?b1) = JArray (elems (bt_messages b) @ [?raw])"
    using ps by (simp_all add: marshal_batch_def marshal_slice_def append1_def)
  have n0: "0 \<le> n" using conv_sequence(2) [OF ok kind_sequence [OF sc], of ?d] n(1)
    by (auto simp: sequence_at_def)
  have small: "in_int64 (n + 1)" using n0 n(2) by (simp add: in_int64_def)
  have ttl: "0 < milliseconds (cs_ttl c)" "0 < milliseconds (cs_lease_ttl c)"
    using good_store_ms [OF store] by simp_all
  have m1: "bt_planned ?b1 = Some ps" "elems (bt_messages ?b1) = elems (bt_messages b) @ [?raw]"
    using ps(1) by simp_all
  note doc = append_unmarshal [OF m1, of "nat (n + 1)"]
  obtain s' where run: "append_character_script R (append_keys_of c sc b) token ?raw (marshal_batch ?b1)
        (bt_request b) (milliseconds (cs_ttl c)) (milliseconds (cs_lease_ttl c)) s1 =
      (Some (ReplyAppended ?m (appended_doc (marshal_batch ?b1) (nat (n + 1)))), s')"
    and view: "conv_ok c (r_view R s')"
      "list_of (r_view R s') (messages_key c sc ?d) = list_of (r_view R s1) (messages_key c sc ?d) @ [TurnDoc ?m]"
      "string_of (r_view R s') (lease_key c sc) = Some (Raw token)"
      "deadline (r_view R s') (lease_key c sc) = Some (r_clock R s1 + milliseconds (cs_lease_ttl c))"
      "hash_of (r_view R s') (requests_key c sc ?d) =
        (hash_of (r_view R s1) (requests_key c sc ?d))
          (bt_request b \<mapsto> BatchDoc (appended_doc (marshal_batch ?b1) (nat (n + 1))))"
    by (rule append_done [OF ok sc lease n(1) small data(1) ps(2) data(2) _ ttl, of ?raw "bt_request b"]) simp
  have "append_character R c sc b token speaker display avatar content s = ((Inr ?m, ?b2), s')"
    using run doc(1)
    by (simp add: append_character_def split_beta Let_def round_trip_served [OF arrive])
  moreover have "int (nat (n + 1)) = n + 1" using n0 by simp
  ultimately show ?thesis
    using view doc(2) by (intro exI [of _ "?m"] exI [of _ "?b2"] exI [of _ s'] conjI) simp_all
qed

lemma save_answered:
  assumes arrive: "r_arrive R (snd (env_now R s)) = (Delivered, s1)"
    and ok: "conv_ok c (r_view R s1)" and sc: "plain_scope sc" and store: "good_store c"
    and lease: "string_of (r_view R s1) (lease_key c sc) = Some (Raw token)"
    and b: "bt_planned b \<noteq> None" "bt_messages b \<noteq> None"
  shows "\<exists>b' s'. save_batch R c sc b token release s = ((None, b'), s') \<and>
      b' = b\<lparr>bt_updated := fst (env_now R s)\<rparr> \<and> conv_ok c (r_view R s') \<and>
      string_of (r_view R s') (lease_key c sc) = (if release then None else Some (Raw token)) \<and>
      hash_of (r_view R s') (requests_key c sc (beijing_day (bt_created b))) (bt_request b) =
        Some (BatchDoc (marshal_batch b')) \<and>
      same_but {requests_key c sc (beijing_day (bt_created b)), lease_key c sc, batch_key c sc (bt_id b)}
        (r_view R s1) (r_view R s')"
proof -
  let ?b' = "b\<lparr>bt_updated := fst (env_now R s)\<rparr>" and ?d = "beijing_day (bt_created b)"
  have doc: "doc_ok (marshal_batch ?b')" by (rule marshal_doc_ok) (use b in simp_all)
  have ttl: "0 < milliseconds (cs_ttl c)" "0 < milliseconds (cs_lease_ttl c)"
    using good_store_ms [OF store] by simp_all
  obtain s' where run: "save_batch_script R (lease_key c sc) (batch_key c sc (bt_id b)) (requests_key c sc ?d) token
        (marshal_batch ?b') (bt_request b) (milliseconds (cs_ttl c)) release (milliseconds (cs_lease_ttl c)) s1 =
      (Some 1, s')"
    and view: "conv_ok c (r_view R s')"
      "string_of (r_view R s') (lease_key c sc) = (if release then None else Some (Raw token))"
      "hash_of (r_view R s') (requests_key c sc ?d) =
        (hash_of (r_view R s1) (requests_key c sc ?d))(bt_request b \<mapsto> BatchDoc (marshal_batch ?b'))"
      "string_of (r_view R s') (batch_key c sc (bt_id b)) = Some (BatchDoc (marshal_batch ?b'))"
      "same_but {requests_key c sc ?d, lease_key c sc, batch_key c sc (bt_id b)} (r_view R s1) (r_view R s')"
    by (rule save_done [OF ok sc lease doc ttl])
  have "save_batch R c sc b token release s = ((None, ?b'), s')"
    using run by (simp add: save_batch_def split_beta Let_def round_trip_served [OF arrive])
  then show ?thesis
    using view by (intro exI [of _ "?b'"] exI [of _ s'] conjI) simp_all
qed

lemma interrupt_answered:
  assumes arrive: "r_arrive R (snd (env_now R s)) = (Delivered, s1)"
    and ok: "conv_ok c (r_view R s1)" and sc: "plain_scope sc" and store: "good_store c"
    and lease: "string_of (r_view R s1) (lease_key c sc) = Some (Raw token)"
    and found: "stored_batch (r_view R s1) (batch_key c sc bid) (requests_key c sc (beijing_day created)) request =
      Some (BatchDoc doc)"
  shows "\<exists>b s'. interrupt_batch R c sc bid request token created s = (Inr b, s') \<and>
      bt_id b = bd_id doc \<and> bt_messages b = Some (field_elems (bd_messages doc)) \<and>
      bt_status b = (if bd_status doc \<noteq> batch_generating then bd_status doc
        else if field_elems (bd_messages doc) = [] then batch_failed else batch_partial) \<and>
      conv_ok c (r_view R s') \<and> string_of (r_view R s') (lease_key c sc) = None \<and>
      same_but {requests_key c sc (beijing_day created), lease_key c sc, batch_key c sc bid} (r_view R s1) (r_view R s')"
proof -
  let ?now = "fst (env_now R s)" and ?d = "beijing_day created"
  have ttl: "0 < milliseconds (cs_ttl c)" using good_store_ms [OF store] by simp
  obtain doc0 s' where doc0: "BatchDoc doc = BatchDoc doc0" "doc_ok doc0"
    and run: "interrupt_batch_script R (lease_key c sc) (batch_key c sc bid) (requests_key c sc ?d) token request
        (milliseconds (cs_ttl c)) ?now s1 = (Some (InterruptOk (BatchDoc (interrupted_doc ?now doc0))), s')"
    and view: "conv_ok c (r_view R s')" "string_of (r_view R s') (lease_key c sc) = None"
      "bd_status doc0 = batch_generating \<longrightarrow>
        hash_of (r_view R s') (requests_key c sc ?d) request = Some (BatchDoc (interrupted_doc ?now doc0))"
      "same_but {requests_key c sc ?d, lease_key c sc, batch_key c sc bid} (r_view R s1) (r_view R s')"
    by (rule interrupt_done [OF ok sc lease found ttl, where now = "?now"])
  have d: "doc_ok doc" using doc0 by simp
  define b0 where "b0 = the (unmarshal_batch zero_batch (interrupted_doc ?now doc))"
  have u: "unmarshal_batch zero_batch (interrupted_doc ?now doc) = Some b0"
    using doc_ok_unmarshal [OF interrupted_doc_ok [OF d, of ?now], of zero_batch] by (auto simp: b0_def)
  have "interrupt_batch R c sc bid request token created s = (Inr (normalize_batch_collections b0), s')"
    using run doc0(1) u by (simp add: interrupt_batch_def split_beta Let_def round_trip_served [OF arrive])
  moreover have "bt_id b0 = bd_id doc" "elems (bt_messages b0) = field_elems (bd_messages doc)"
    "bt_status b0 = (if bd_status doc \<noteq> batch_generating then bd_status doc
        else if field_elems (bd_messages doc) = [] then batch_failed else batch_partial)"
    using u d
    by (auto simp: unmarshal_batch_def interrupted_doc_def doc_ok_def ok_field_def unmarshal_tidy zero_batch_def
        split: if_splits option.splits)
  then have "bt_id (normalize_batch_collections b0) = bd_id doc"
    "bt_messages (normalize_batch_collections b0) = Some (field_elems (bd_messages doc))"
    "bt_status (normalize_batch_collections b0) = (if bd_status doc \<noteq> batch_generating then bd_status doc
        else if field_elems (bd_messages doc) = [] then batch_failed else batch_partial)"
    by (simp_all add: normalize_batch_collections_def)
  ultimately show ?thesis using view(1,2,4) by blast
qed

end

end
