(* ===== verification/Conversation_Correct.thy ===== *)
theory Conversation_Correct
  imports Conversation_Runs
begin

text \<open>
  The properties of the conversation store, each with its witness on the reference
  environment.
\<close>

definition demo_conv :: conv_store where
  "demo_conv = new_redis_store [] (72 * 3600 * second)"

definition demo_scope :: scope where
  "demo_scope = \<lparr>sc_identity = \<lparr>id_channel = ''api'', id_external = ''user-1''\<rparr>,
     sc_conversation = default_conversation\<rparr>"

abbreviation conv_env :: "ref_world env" where "conv_env \<equiv> ref_env ()"

definition conv_now :: time where "conv_now = 1700000000000000000"

abbreviation conv_begin :: ref_world where "conv_begin \<equiv> ref_start conv_now"

lemma demo_conv_facts [simp]:
  "good_store demo_conv" "plain_scope demo_scope" "plain_identity (sc_identity demo_scope)"
  "sc_conversation demo_scope = default_conversation"
  by (simp_all add: demo_conv_def new_redis_store_def good_store_def second_def demo_scope_def plain_scope_def
      plain_identity_def is_supported_channel_def default_conversation_def)

lemma empty_view [simp]:
  "string_of Map.empty k = None" "hash_of Map.empty k = Map.empty" "list_of Map.empty k = []"
  "set_of Map.empty k = []" "sequence_at Map.empty k = 0" "roomy c Map.empty" "conv_ok c Map.empty"
  "is_hash_key Map.empty k"
  by (simp_all add: typed_defs sequence_at_def num_of_def roomy_def conv_ok_empty)

lemma known_empty [simp]: "known_request ks r Map.empty = None"
  by (simp add: known_request_def)

text \<open>
  C8. The store stays decodable: however many clients call whatever methods in whatever
  order, with lost requests and replies and expiring keys, every key keeps holding a value of
  its kind; the messages of a conversation can always be read, never a decoding error. The
  calls are those of \<open>call_ok\<close>: scopes whose parts have no separator, sequence numbers with room
  left, and, for an append, a batch whose speakers are planned and, for a save, a batch whose
  lists are not nil, as the application's are. Without a plan it is false
  (\<open>append_before_planning\<close>).
\<close>

theorem store_stays_decodable:
  assumes "quiet_env R" "good_store c" "conv_ok c (r_view R s0)" "conv_run R c s0 s" "plain_scope sc"
  shows "conv_ok c (r_view R s) \<and> fst (messages_for_date_scope R c sc t s) \<noteq> Inl ErrDecode"
proof -
  have ok: "conv_ok c (r_view R s)" using quiet_env.run_ok [OF assms(1,4,3,2)] .
  then show ?thesis
    using quiet_env.messages_for_date_ok(2) [OF assms(1) ok assms(5,2)] by (metis prod.collapse)
qed

theorem store_stays_decodable_witness:
  "\<exists>s. s = after_call conv_env demo_conv (CallAddTurn (sc_identity demo_scope) ''user'' ''hello'') conv_begin \<and>
     conv_ok demo_conv (r_view conv_env s) \<and>
     fst (messages_for_date_scope conv_env demo_conv demo_scope conv_now s) \<noteq> Inl ErrDecode"
proof -
  let ?call = "CallAddTurn (sc_identity demo_scope) ''user'' ''hello''"
  have "conv_run conv_env demo_conv conv_begin (after_call conv_env demo_conv ?call conv_begin)"
    by (rule conv_step [OF conv_start]) simp_all
  from store_stays_decodable [OF ref_env.quiet_env_axioms demo_conv_facts(1) _ this demo_conv_facts(2)]
  show ?thesis by simp
qed

text \<open>What the script that begins a batch does, in each of its cases.\<close>

lemma begin_decided:
  assumes "redis_service R" "conv_ok c (r_view R s)" "plain_scope sc" "doc_ok data" "0 < ttl" "0 < lease_ttl"
    and "sequence_at (r_view R s) (sequence_key c sc d) < 2 ^ 52"
    and "begin_batch_script R (begin_keys_of c sc d bid) request data token ttl lease_ttl member s = (reply, s')"
  shows "case known_request (begin_keys_of c sc d bid) request (r_view R s) of
      Some (b, ledger) \<Rightarrow>
        \<exists>doc doc'. b = BatchDoc doc \<and> reply = Some (ReplyExisting doc') \<and>
          doc' = settle_doc (value_at (r_view R s) (lease_key c sc) \<noteq> None) doc \<and>
          hash_of (r_view R s') ledger request = Some (BatchDoc doc') \<and>
          same_but {ledger} (r_view R s) (r_view R s')
    | None \<Rightarrow>
        if value_at (r_view R s) (lease_key c sc) \<noteq> None then reply = Some ReplyBusy \<and> s' = s
        else \<exists>doc n. reply = Some (ReplyStarted doc token) \<and>
          n = sequence_at (r_view R s) (sequence_key c sc d) + 1 \<and>
          doc = started_doc data (nat n) \<and>
          list_of (r_view R s') (messages_key c sc d) =
            list_of (r_view R s) (messages_key c sc d) @ [TurnDoc (bd_user doc)] \<and>
          sequence_at (r_view R s') (sequence_key c sc d) = n \<and>
          hash_of (r_view R s') (requests_key c sc d) request = Some (BatchDoc doc) \<and>
          string_of (r_view R s') (lease_key c sc) = Some (Raw token) \<and>
          deadline (r_view R s') (lease_key c sc) = Some (r_clock R s + lease_ttl)"
proof (cases "known_request (begin_keys_of c sc d bid) request (r_view R s)")
  case (Some bl)
  then obtain b ledger where k: "known_request (begin_keys_of c sc d bid) request (r_view R s) = Some (b, ledger)"
    by (cases bl) auto
  show ?thesis
    by (rule redis_service.begin_known [OF assms(1-3) k, where data = data and token = token and ttl = ttl
          and lease_ttl = lease_ttl and member = member])
      (use assms(8) k in \<open>auto simp: redis_simps\<close>)
next
  case None
  show ?thesis
  proof (cases "value_at (r_view R s) (lease_key c sc) = None")
    case False
    then show ?thesis
      using redis_service.begin_busy [OF assms(1-3) None False] assms(8) None by simp
  next
    case True
    let ?n = "sequence_at (r_view R s) (sequence_key c sc d)"
    have "0 \<le> ?n" using conv_sequence(2) [OF assms(2) kind_sequence [OF assms(3)], of d]
      by (auto simp: sequence_at_def)
    then have small: "in_int64 (?n + 1)" using assms(7) by (simp add: in_int64_def)
    show ?thesis
      by (rule redis_service.begin_started [OF assms(1-3) None True refl small assms(4-6),
          where token = token and member = member])
        (use assms(8) None True in \<open>auto simp: started_doc_def\<close>)
  qed
qed

text \<open>
  C9. Beginning a batch, complete: a known request gets its record and nothing is added; else
  a conversation with a lease is busy and nothing changes at all; else the message gets the
  next number at the end of the day's list, the request its record, and the conversation the
  lease of the caller. So a generation starts exactly when the request is new and no lease is
  held, and from then on the lease keeps every other new request out. (The batch's own key and
  the entry of the active set, which the third branch writes too, are in \<open>begin_started\<close>.)
\<close>

theorem begin_batch_decides:
  assumes "redis_service R" "conv_ok c (r_view R s)" "plain_scope sc" "doc_ok data" "0 < ttl" "0 < lease_ttl"
    and "sequence_at (r_view R s) (sequence_key c sc d) < 2 ^ 52"
    and "begin_batch_script R (begin_keys_of c sc d bid) request data token ttl lease_ttl member s = (reply, s')"
  shows "case known_request (begin_keys_of c sc d bid) request (r_view R s) of
      Some (b, ledger) \<Rightarrow>
        \<exists>doc doc'. b = BatchDoc doc \<and> reply = Some (ReplyExisting doc') \<and>
          doc' = settle_doc (value_at (r_view R s) (lease_key c sc) \<noteq> None) doc \<and>
          hash_of (r_view R s') ledger request = Some (BatchDoc doc') \<and>
          same_but {ledger} (r_view R s) (r_view R s')
    | None \<Rightarrow>
        if value_at (r_view R s) (lease_key c sc) \<noteq> None then reply = Some ReplyBusy \<and> s' = s
        else \<exists>doc n. reply = Some (ReplyStarted doc token) \<and>
          n = sequence_at (r_view R s) (sequence_key c sc d) + 1 \<and>
          doc = started_doc data (nat n) \<and>
          list_of (r_view R s') (messages_key c sc d) =
            list_of (r_view R s) (messages_key c sc d) @ [TurnDoc (bd_user doc)] \<and>
          sequence_at (r_view R s') (sequence_key c sc d) = n \<and>
          hash_of (r_view R s') (requests_key c sc d) request = Some (BatchDoc doc) \<and>
          string_of (r_view R s') (lease_key c sc) = Some (Raw token) \<and>
          deadline (r_view R s') (lease_key c sc) = Some (r_clock R s + lease_ttl)"
  by (rule begin_decided [OF assms])

theorem begin_batch_decides_witness:
  "\<exists>doc s'. begin_batch_script conv_env (begin_keys_of demo_conv demo_scope 19676 ''b1'') ''r1''
        (marshal_batch (fresh_batch demo_scope ''b1'' ''t1'' ''r1'' ''hello'' conv_now)) ''tok'' 1000 1000 ''m'' conv_begin =
      (Some (ReplyStarted doc ''tok''), s') \<and>
      string_of (r_view conv_env s') (lease_key demo_conv demo_scope) = Some (Raw ''tok'')"
proof -
  let ?data = "marshal_batch (fresh_batch demo_scope ''b1'' ''t1'' ''r1'' ''hello'' conv_now)"
  let ?K = "begin_keys_of demo_conv demo_scope 19676 ''b1''"
  obtain reply s' where run: "begin_batch_script conv_env ?K ''r1'' ?data ''tok'' 1000 1000 ''m'' conv_begin = (reply, s')"
    by fastforce
  have doc: "doc_ok ?data" by (rule marshal_doc_ok) (simp_all add: fresh_batch_def)
  have none: "known_request ?K ''r1'' (r_view conv_env conv_begin) = None" by (simp add: known_request_def)
  from begin_batch_decides [OF ref_env.redis_service_axioms _ demo_conv_facts(2) doc _ _ _ run]
  show ?thesis using none run by auto
qed

text \<open>
  C10. A repeated request does not start twice: after a request started a batch, sending it
  again, the same day or the next, with whatever new identifiers, answers that batch and
  touches nothing but its record; in particular no message is added.
\<close>

theorem begin_retry_is_idempotent:
  assumes "redis_service R" "plain_scope sc" "0 < ttl" "0 < lease_ttl" "doc_ok data" "doc_ok data'"
    and "conv_ok c (r_view R s)" "sequence_at (r_view R s) (sequence_key c sc d) < 2 ^ 52"
    and "begin_batch_script R (begin_keys_of c sc d bid) request data token ttl lease_ttl member s =
      (Some (ReplyStarted doc token), s1)"
    and "conv_ok c (r_view R s2)" "hash_of (r_view R s2) (requests_key c sc d) request =
      hash_of (r_view R s1) (requests_key c sc d) request"
    and "d' = d \<or> d' = d + 1 \<and> hash_of (r_view R s2) (requests_key c sc d') request = None"
    and "sequence_at (r_view R s2) (sequence_key c sc d') < 2 ^ 52"
    and "begin_batch_script R (begin_keys_of c sc d' bid') request data' token' ttl lease_ttl member' s2 = (reply, s3)"
  shows "\<exists>doc'. reply = Some (ReplyExisting doc') \<and> bd_id doc' = bd_id doc \<and> bd_user doc' = bd_user doc \<and>
     same_but {requests_key c sc d} (r_view R s2) (r_view R s3)"
proof -
  note first = begin_decided [OF assms(1,7,2,5,3,4,8,9)]
  have new: "known_request (begin_keys_of c sc d bid) request (r_view R s) = None"
    using first by (cases "known_request (begin_keys_of c sc d bid) request (r_view R s)") auto
  then have stored: "hash_of (r_view R s1) (requests_key c sc d) request = Some (BatchDoc doc)"
    using first by (auto split: if_splits)
  have known: "known_request (begin_keys_of c sc d' bid') request (r_view R s2) =
      Some (BatchDoc doc, requests_key c sc d)"
    using assms(11,12) stored by (auto simp: known_request_def)
  from begin_decided [OF assms(1,10,2,6,3,4,13,14)] show ?thesis
    unfolding known by auto
qed

theorem begin_retry_is_idempotent_witness:
  "\<exists>doc doc' s1 s3.
     begin_batch_script conv_env (begin_keys_of demo_conv demo_scope 19676 ''b1'') ''r1''
        (marshal_batch (fresh_batch demo_scope ''b1'' ''t1'' ''r1'' ''hello'' conv_now)) ''tok'' 1000 1000 ''m'' conv_begin =
       (Some (ReplyStarted doc ''tok''), s1) \<and>
     begin_batch_script conv_env (begin_keys_of demo_conv demo_scope 19676 ''b2'') ''r1''
        (marshal_batch (fresh_batch demo_scope ''b2'' ''t2'' ''r1'' ''hello'' conv_now)) ''tok2'' 1000 1000 ''m'' s1 =
       (Some (ReplyExisting doc'), s3) \<and> bd_user doc' = bd_user doc"
proof -
  let ?data = "\<lambda>b t. marshal_batch (fresh_batch demo_scope b t ''r1'' ''hello'' conv_now)"
  let ?K = "begin_keys_of demo_conv demo_scope 19676"
  have doc: "doc_ok (?data b t)" for b t by (rule marshal_doc_ok) (simp_all add: fresh_batch_def)
  have none: "known_request (?K b) r (r_view conv_env conv_begin) = None" for b r by (simp add: known_request_def)
  have n: "sequence_at (r_view conv_env conv_begin) (sequence_key demo_conv demo_scope 19676) = 0" by simp
  obtain s1 where run: "begin_batch_script conv_env (?K ''b1'') ''r1'' (?data ''b1'' ''t1'') ''tok'' 1000 1000 ''m'' conv_begin =
      (Some (ReplyStarted (started_doc (?data ''b1'' ''t1'') (nat (0 + 1))) ''tok''), s1)"
    and ok1: "conv_ok demo_conv (r_view conv_env s1)"
    and seq1: "sequence_at (r_view conv_env s1) (sequence_key demo_conv demo_scope 19676) = 0 + 1"
    by (rule ref_env.begin_started [of demo_conv "()" conv_begin demo_scope 19676 "''b1''" "''r1''" 0
          "?data ''b1'' ''t1''" 1000 1000 "''tok''" "''m''"])
      (simp_all add: none doc n in_int64_def)
  obtain reply s3 where again: "begin_batch_script conv_env (?K ''b2'') ''r1'' (?data ''b2'' ''t2'') ''tok2'' 1000 1000 ''m'' s1 =
      (reply, s3)" by fastforce
  from begin_retry_is_idempotent [OF ref_env.redis_service_axioms demo_conv_facts(2) _ _ doc doc _ _ run ok1 refl
      _ _ again] seq1 run again
  show ?thesis by auto
qed

text \<open>
  C11. Fencing: a generation whose lease expired or passed on to another cannot write. With a
  token that is not the lease, appending, saving and interrupting report a lost lease and
  leave every key as it was.
\<close>

theorem lost_lease_writes_nothing:
  assumes "go_env R" "conv_ok c (r_view R s)" "plain_scope sc"
    and "r_arrive R (snd (env_now R s)) = (Delivered, s1)"
    and "r_arrive R (snd (new_turn_id R (snd (env_now R s)))) = (Delivered, s2)"
    and "conv_ok c (r_view R s1)" "string_of (r_view R s1) (lease_key c sc) \<noteq> Some (Raw token)"
    and "conv_ok c (r_view R s2)" "string_of (r_view R s2) (lease_key c sc) \<noteq> Some (Raw token)"
  shows "fst (fst (append_character R c sc b token speaker display avatar content s)) = Inl ErrLeaseLost \<and>
      snd (append_character R c sc b token speaker display avatar content s) = s2 \<and>
      fst (fst (save_batch R c sc b token release s)) = Some ErrLeaseLost \<and>
      snd (save_batch R c sc b token release s) = s1 \<and>
      interrupt_batch R c sc bid request token created s = (Inl ErrLeaseLost, s1)"
proof -
  note R = go_env.axioms(1) [OF assms(1)]
  have "fst (fst (append_character R c sc b token speaker display avatar content s)) = Inl ErrLeaseLost \<and>
      snd (append_character R c sc b token speaker display avatar content s) = s2"
    using redis_service.append_fenced [OF R assms(8,3,9)]
    by (simp add: append_character_def split_beta Let_def round_trip_served [OF assms(5)])
  moreover have "fst (fst (save_batch R c sc b token release s)) = Some ErrLeaseLost \<and>
      snd (save_batch R c sc b token release s) = s1"
    using redis_service.save_fenced [OF R assms(6,3,7)]
    by (simp add: save_batch_def split_beta Let_def round_trip_served [OF assms(4)])
  moreover have "interrupt_batch R c sc bid request token created s = (Inl ErrLeaseLost, s1)"
    using redis_service.interrupt_fenced [OF R assms(6,3,7)]
    by (simp add: interrupt_batch_def split_beta Let_def round_trip_served [OF assms(4)])
  ultimately show ?thesis by blast
qed

theorem lost_lease_writes_nothing_witness:
  "interrupt_batch conv_env demo_conv demo_scope ''b1'' ''r1'' ''stale'' conv_now conv_begin =
    (Inl ErrLeaseLost, conv_begin)"
proof -
  have turn: "r_arrive conv_env (snd (new_turn_id conv_env conv_begin)) = (Delivered, snd (new_turn_id conv_env conv_begin))"
    by (simp add: new_turn_id_def ref_random_def ref_start_def split: if_splits)
  have view: "r_view conv_env (snd (new_turn_id conv_env conv_begin)) = Map.empty"
    using ref_env.new_turn_id_view(1) [of "()" conv_begin] by simp
  show ?thesis
    using lost_lease_writes_nothing [of conv_env demo_conv conv_begin demo_scope conv_begin
          "snd (new_turn_id conv_env conv_begin)" "''stale''", OF ref_env.go_env_axioms] turn view
    by simp
qed

text \<open>
  C12. Appending a reply: with the lease, the reply gets the next number at the end of the
  day's list, the caller's batch ends with it, the record of the request is that batch, and
  the lease is renewed for its full time.
\<close>

theorem append_extends_conversation:
  assumes "go_env R" "r_arrive R (snd (new_turn_id R (snd (env_now R s)))) = (Delivered, s1)"
    and "conv_ok c (r_view R s1)" "plain_scope sc" "good_store c"
    and "string_of (r_view R s1) (lease_key c sc) = Some (Raw token)" "elems (bt_planned b) \<noteq> []"
    and "sequence_at (r_view R s1) (sequence_key c sc (beijing_day (bt_created b))) = n" "n < 2 ^ 52"
  shows "\<exists>m b' s'. append_character R c sc b token speaker display avatar content s = ((Inr m, b'), s') \<and>
      tn_content m = content \<and> tn_speaker m = speaker \<and> tn_batch m = bt_id b \<and> int (tn_sequence m) = n + 1 \<and>
      elems (bt_messages b') = elems (bt_messages b) @ [m] \<and> bt_id b' = bt_id b \<and> bt_status b' = bt_status b \<and>
      bt_planned b' = bt_planned b \<and>
      list_of (r_view R s') (messages_key c sc (beijing_day (bt_created b))) =
        list_of (r_view R s1) (messages_key c sc (beijing_day (bt_created b))) @ [TurnDoc m] \<and>
      hash_of (r_view R s') (requests_key c sc (beijing_day (bt_created b))) (bt_request b) =
        Some (BatchDoc (marshal_batch b')) \<and>
      string_of (r_view R s') (lease_key c sc) = Some (Raw token) \<and>
      deadline (r_view R s') (lease_key c sc) = Some (r_clock R s1 + milliseconds (cs_lease_ttl c))"
  by (rule go_env.append_answered [OF assms])

text \<open>A server on which the conversation of the witnesses holds a lease.\<close>

definition demo_leased :: ref_world where
  "demo_leased = conv_begin\<lparr>rf_keys := [lease_key demo_conv demo_scope \<mapsto> (RString (Raw ''tok''), None)]\<rparr>"

lemma demo_leased_view: "ref_view demo_leased = store (lease_key demo_conv demo_scope) (RString (Raw ''tok'')) Map.empty"
  by (rule ext) (simp add: demo_leased_def ref_view_def purge_def store_def deadline_def split: option.splits)

lemma demo_leased_facts:
  "conv_ok demo_conv (ref_view demo_leased)"
  "string_of (ref_view demo_leased) (lease_key demo_conv demo_scope) = Some (Raw ''tok'')"
  "sequence_at (ref_view demo_leased) (sequence_key demo_conv demo_scope d) = 0"
  "ref_arrive demo_leased = (Delivered, demo_leased)" "ref_now demo_leased = (conv_now, demo_leased)"
  "hash_of (ref_view demo_leased) (requests_key demo_conv demo_scope d) = Map.empty"
proof -
  show "conv_ok demo_conv (ref_view demo_leased)"
    unfolding demo_leased_view by (rule conv_ok_store [OF _ kind_lease]) simp_all
  show "string_of (ref_view demo_leased) (lease_key demo_conv demo_scope) = Some (Raw ''tok'')"
    "sequence_at (ref_view demo_leased) (sequence_key demo_conv demo_scope d) = 0"
    "hash_of (ref_view demo_leased) (requests_key demo_conv demo_scope d) = Map.empty"
    by (simp_all add: demo_leased_view redis_simps sequence_at_def num_of_def)
  show "ref_arrive demo_leased = (Delivered, demo_leased)" "ref_now demo_leased = (conv_now, demo_leased)"
    by (simp_all add: demo_leased_def ref_start_def ref_now_def)
qed

definition demo_batch :: batch where
  "demo_batch = (fresh_batch demo_scope ''b1'' ''t1'' ''r1'' ''hello'' conv_now)\<lparr>bt_planned := Some [''haruhi'']\<rparr>"

lemma demo_batch_facts [simp]:
  "bt_id demo_batch = ''b1''" "bt_request demo_batch = ''r1''" "bt_planned demo_batch = Some [''haruhi'']"
  "bt_messages demo_batch = Some []" "bt_created demo_batch = conv_now" "bt_status demo_batch = batch_generating"
  by (simp_all add: demo_batch_def fresh_batch_def)

theorem append_extends_conversation_witness:
  "\<exists>m b' s'. append_character conv_env demo_conv demo_scope demo_batch ''tok'' ''haruhi'' ''H'' ''/h.svg'' ''hi'' demo_leased =
      ((Inr m, b'), s') \<and> tn_content m = ''hi'' \<and> tn_sequence m = 1 \<and> bt_messages b' = Some [m]"
proof -
  let ?e = "snd (new_turn_id conv_env demo_leased)"
  have e: "ref_arrive ?e = (Delivered, ?e)"
    by (simp add: new_turn_id_def ref_random_def demo_leased_def ref_start_def split: if_splits)
  have v: "ref_view ?e = ref_view demo_leased" using ref_env.new_turn_id_view(1) [of "()" demo_leased] by simp
  from append_extends_conversation [of conv_env demo_leased ?e demo_conv demo_scope "''tok''" demo_batch 0
      "''haruhi''" "''H''" "''/h.svg''" "''hi''", OF ref_env.go_env_axioms]
  obtain m b' s' where "append_character conv_env demo_conv demo_scope demo_batch ''tok'' ''haruhi'' ''H'' ''/h.svg'' ''hi'' demo_leased =
      ((Inr m, b'), s')" "tn_content m = ''hi''" "int (tn_sequence m) = 1" "elems (bt_messages b') = [m]"
    by (auto simp: demo_leased_facts e v)
  then show ?thesis by (cases "bt_messages b'") auto
qed

text \<open>
  C13. A saved batch is what a repeated request gets: after a generation saved its finished
  batch, beginning the same request again on the same day answers exactly that batch, whatever
  identifiers the new attempt brought.
\<close>

theorem saved_batch_is_replayed:
  assumes "go_env R" "r_arrive R (snd (env_now R s)) = (Delivered, s1)"
    and "conv_ok c (r_view R s1)" "plain_scope sc" "good_store c"
    and "string_of (r_view R s1) (lease_key c sc) = Some (Raw token)"
    and "bt_planned b \<noteq> None" "bt_messages b \<noteq> None" "bt_status b \<noteq> batch_generating"
    and "save_batch R c sc b token release s = ((None, b'), s')"
    and "known_request (begin_keys_of c sc (beijing_day (bt_created b)) bid) (bt_request b) (r_view R s2) =
         known_request (begin_keys_of c sc (beijing_day (bt_created b)) bid) (bt_request b) (r_view R s')"
    and "conv_ok c (r_view R s2)" "b0 = fresh_batch sc bid tid (bt_request b) content now"
  shows "\<exists>reply s3. begin_batch_script R (begin_keys_of c sc (beijing_day (bt_created b)) bid) (bt_request b)
        (marshal_batch b0) token' ttl lease_ttl member s2 = (Some reply, s3) \<and>
      begin_result b0 reply = Inr (b', BeginExisting, [])"
proof -
  note R = go_env.axioms(1) [OF assms(1)]
  let ?d = "beijing_day (bt_created b)"
  have b': "b' = b\<lparr>bt_updated := fst (env_now R s)\<rparr>"
    "hash_of (r_view R s') (requests_key c sc ?d) (bt_request b) = Some (BatchDoc (marshal_batch b'))"
    using go_env.save_answered [OF assms(1-8), of release] assms(10) by auto
  have known: "known_request (begin_keys_of c sc ?d bid) (bt_request b) (r_view R s2) =
      Some (BatchDoc (marshal_batch b'), requests_key c sc ?d)"
    unfolding assms(11) using b'(2) by (simp add: known_request_def)
  obtain doc s3 where run: "BatchDoc (marshal_batch b') = BatchDoc doc"
    "begin_batch_script R (begin_keys_of c sc ?d bid) (bt_request b) (marshal_batch b0) token' ttl lease_ttl member s2 =
      (Some (ReplyExisting (settle_doc (value_at (r_view R s2) (lease_key c sc) \<noteq> None) doc)), s3)"
    by (rule redis_service.begin_known [OF R assms(12,4) known, of "marshal_batch b0" token' ttl lease_ttl member])
  have "begin_result b0 (ReplyExisting (settle_doc leased (marshal_batch b'))) = Inr (b', BeginExisting, [])" for leased
    using assms(7-9,13) by (intro replay_batch [where ps = "elems (bt_planned b)" and ms = "elems (bt_messages b)"])
      (auto simp: b'(1) fresh_batch_def elems_def split: option.splits)
  with run show ?thesis by auto
qed

theorem saved_batch_is_replayed_witness:
  "\<exists>reply s' s3 b'. save_batch conv_env demo_conv demo_scope (demo_batch\<lparr>bt_status := batch_failed\<rparr>) ''tok'' True demo_leased =
      ((None, b'), s') \<and>
     begin_batch_script conv_env (begin_keys_of demo_conv demo_scope (beijing_day conv_now) ''b2'') ''r1''
        (marshal_batch (fresh_batch demo_scope ''b2'' ''t2'' ''r1'' ''hello'' conv_now)) ''tok2'' 1000 1000 ''m'' s' =
       (Some reply, s3) \<and>
     begin_result (fresh_batch demo_scope ''b2'' ''t2'' ''r1'' ''hello'' conv_now) reply = Inr (b', BeginExisting, [])"
proof -
  let ?b = "demo_batch\<lparr>bt_status := batch_failed\<rparr>"
  obtain b' s' where save: "save_batch conv_env demo_conv demo_scope ?b ''tok'' True demo_leased = ((None, b'), s')"
    and ok: "conv_ok demo_conv (ref_view s')"
    using ref_env.save_answered [of "()" demo_leased demo_leased demo_conv demo_scope "''tok''" ?b True]
    by (auto simp: demo_leased_facts)
  have "batch_failed \<noteq> batch_generating" by (simp add: status_defs)
  then show ?thesis
    using saved_batch_is_replayed [of conv_env demo_leased demo_leased demo_conv demo_scope "''tok''" ?b True b' s'
        "''b2''" s' "fresh_batch demo_scope ''b2'' ''t2'' ''r1'' ''hello'' conv_now" "''t2''" "''hello''" conv_now,
        OF ref_env.go_env_axioms] save ok
    by (simp add: demo_leased_facts)
qed

text \<open>
  An interrupted generation is settled and gives the lease back: its batch, if still
  generating, becomes failed when it has no reply and partial otherwise, keeps its replies,
  and the conversation is free again.
\<close>

theorem interrupt_settles_batch:
  assumes "go_env R" "r_arrive R (snd (env_now R s)) = (Delivered, s1)"
    and "conv_ok c (r_view R s1)" "plain_scope sc" "good_store c"
    and "string_of (r_view R s1) (lease_key c sc) = Some (Raw token)"
    and "stored_batch (r_view R s1) (batch_key c sc bid) (requests_key c sc (beijing_day created)) request =
      Some (BatchDoc doc)"
  shows "\<exists>b s'. interrupt_batch R c sc bid request token created s = (Inr b, s') \<and>
      bt_id b = bd_id doc \<and> bt_messages b = Some (field_elems (bd_messages doc)) \<and>
      bt_status b = (if bd_status doc \<noteq> batch_generating then bd_status doc
        else if field_elems (bd_messages doc) = [] then batch_failed else batch_partial) \<and>
      conv_ok c (r_view R s') \<and> string_of (r_view R s') (lease_key c sc) = None \<and>
      same_but {requests_key c sc (beijing_day created), lease_key c sc, batch_key c sc bid} (r_view R s1) (r_view R s')"
  by (rule go_env.interrupt_answered [OF assms])

definition demo_generating :: ref_world where
  "demo_generating = demo_leased\<lparr>rf_keys := (rf_keys demo_leased)
     (requests_key demo_conv demo_scope (beijing_day conv_now) \<mapsto>
        (RHash [''r1'' \<mapsto> BatchDoc (marshal_batch demo_batch)], None))\<rparr>"

lemma demo_generating_view:
  "ref_view demo_generating = store (requests_key demo_conv demo_scope (beijing_day conv_now))
     (RHash [''r1'' \<mapsto> BatchDoc (marshal_batch demo_batch)]) (ref_view demo_leased)"
  unfolding demo_leased_view
  by (rule ext) (simp add: demo_generating_def demo_leased_def ref_view_def purge_def store_def deadline_def
      split: option.splits)

theorem interrupt_settles_batch_witness:
  "\<exists>b s'. interrupt_batch conv_env demo_conv demo_scope ''b1'' ''r1'' ''tok'' conv_now demo_generating = (Inr b, s') \<and>
     bt_status b = batch_failed \<and> string_of (r_view conv_env s') (lease_key demo_conv demo_scope) = None"
proof -
  have ok: "conv_ok demo_conv (ref_view demo_generating)"
    unfolding demo_generating_view
    by (rule conv_ok_store [OF demo_leased_facts(1) kind_requests]) (simp_all add: marshal_doc_ok)
  have arr: "ref_arrive demo_generating = (Delivered, demo_generating)" "ref_now demo_generating = (conv_now, demo_generating)"
    by (simp_all add: demo_generating_def demo_leased_def ref_start_def ref_now_def)
  have lease: "string_of (ref_view demo_generating) (lease_key demo_conv demo_scope) = Some (Raw ''tok'')"
    using demo_leased_facts(2) by (simp add: demo_generating_view redis_simps)
  have found: "stored_batch (ref_view demo_generating) (batch_key demo_conv demo_scope ''b1'')
      (requests_key demo_conv demo_scope (beijing_day conv_now)) ''r1'' = Some (BatchDoc (marshal_batch demo_batch))"
    by (simp add: stored_batch_def demo_generating_view demo_leased_view redis_simps)
  from interrupt_settles_batch [of conv_env demo_generating demo_generating demo_conv demo_scope "''tok''" "''b1''"
      conv_now "''r1''" "marshal_batch demo_batch", OF ref_env.go_env_axioms] ok arr lease found
  show ?thesis by (auto simp: marshal_batch_def marshal_slice_def)
qed

text \<open>
  Migration loses and reorders nothing: the turns of the old list come first, then the
  messages of the new one, in their order; the counter is the number of messages, the old list
  is gone, and a second migration finds nothing to do.
\<close>

theorem migration_keeps_messages:
  assumes "redis_service R" "conv_ok c (r_view R s)" "plain_scope sc" "0 < ttl"
    and "value_at (r_view R s) (turns_key c (sc_identity sc) d) \<noteq> None"
    and "migrate_legacy_script R (turns_key c (sc_identity sc) d) (messages_key c sc d) (sequence_key c sc d) ttl s =
      (tot, s')"
  shows "list_of (r_view R s') (messages_key c sc d) =
      list_of (r_view R s) (turns_key c (sc_identity sc) d) @ list_of (r_view R s) (messages_key c sc d) \<and>
    tot = Some (int (length (list_of (r_view R s') (messages_key c sc d)))) \<and>
    sequence_at (r_view R s') (sequence_key c sc d) = int (length (list_of (r_view R s') (messages_key c sc d))) \<and>
    migrate_legacy_script R (turns_key c (sc_identity sc) d) (messages_key c sc d) (sequence_key c sc d) ttl s' =
      (tot, s')"
proof -
  obtain s'' where run: "migrate_legacy_script R (turns_key c (sc_identity sc) d) (messages_key c sc d) (sequence_key c sc d) ttl s =
      (Some (int (length (list_of (r_view R s) (turns_key c (sc_identity sc) d)) +
                  length (list_of (r_view R s) (messages_key c sc d)))), s'')"
    and view: "conv_ok c (r_view R s'')"
      "list_of (r_view R s'') (messages_key c sc d) =
        list_of (r_view R s) (turns_key c (sc_identity sc) d) @ list_of (r_view R s) (messages_key c sc d)"
      "sequence_at (r_view R s'') (sequence_key c sc d) =
        int (length (list_of (r_view R s'') (messages_key c sc d)))"
      "value_at (r_view R s'') (turns_key c (sc_identity sc) d) = None"
      "same_but {turns_key c (sc_identity sc) d, messages_key c sc d, sequence_key c sc d} (r_view R s) (r_view R s'')"
    by (rule redis_service.migrate_done [OF assms(1-5)])
  have s': "s' = s''" "tot = Some (int (length (list_of (r_view R s'') (messages_key c sc d))))"
    using assms(6) run view(2) by simp_all
  note again = redis_service.migrate_nothing [OF assms(1) view(4)
      conv_messages(1) [OF view(1) kind_messages [OF assms(3)]]]
  show ?thesis unfolding s' using view(2,3) again by simp
qed

definition demo_old :: ref_world where
  "demo_old = conv_begin\<lparr>rf_keys := [turns_key demo_conv (sc_identity demo_scope) 19676 \<mapsto>
     (RList [TurnDoc zero_turn], None)]\<rparr>"

theorem migration_keeps_messages_witness:
  "\<exists>s'. migrate_legacy_script conv_env (turns_key demo_conv (sc_identity demo_scope) 19676)
      (messages_key demo_conv demo_scope 19676) (sequence_key demo_conv demo_scope 19676) 1000 demo_old = (Some 1, s') \<and>
     list_of (r_view conv_env s') (messages_key demo_conv demo_scope 19676) = [TurnDoc zero_turn]"
proof -
  let ?k = "turns_key demo_conv (sc_identity demo_scope) 19676"
  have v: "ref_view demo_old = store ?k (RList [TurnDoc zero_turn]) Map.empty"
    by (rule ext) (simp add: demo_old_def ref_view_def purge_def store_def deadline_def split: option.splits)
  have ok: "conv_ok demo_conv (ref_view demo_old)"
    unfolding v by (rule conv_ok_store [OF _ kind_turns]) simp_all
  have k: "messages_key demo_conv demo_scope 19676 \<noteq> ?k" by (simp add: messages_key_def)
  obtain tot s' where run: "migrate_legacy_script conv_env ?k (messages_key demo_conv demo_scope 19676)
      (sequence_key demo_conv demo_scope 19676) 1000 demo_old = (tot, s')" by fastforce
  from migration_keeps_messages [OF ref_env.redis_service_axioms _ demo_conv_facts(2) _ _ run] ok run k
  show ?thesis by (auto simp: v redis_simps)
qed

text \<open>
  Reading a day: the messages come in the order of the list, numbered from 1 without
  gaps, each with its text unchanged, a speaker and (in a named conversation) its
  conversation; a user's message always belongs to a batch.
\<close>

theorem messages_are_numbered:
  assumes "quiet_env R" "conv_ok c (r_view R s)" "plain_scope sc" "good_store c"
    and "messages_for_date_scope R c sc t s = (Inr ms, s')"
  shows "list_all2 (\<lambda>b m. \<exists>u. b = TurnDoc u \<and> legacy_of u m)
      (list_of (r_view R s') (messages_key c sc (beijing_day t))) ms \<and>
    (\<forall>j < length ms. tn_sequence (ms ! j) = j + 1 \<and>
      (tn_role (ms ! j) = role_user \<longrightarrow> tn_speaker (ms ! j) = speaker_user \<and> tn_batch (ms ! j) \<noteq> []) \<and>
      tn_speaker (ms ! j) \<noteq> [] \<and> (sc_conversation sc \<noteq> [] \<longrightarrow> tn_conversation (ms ! j) \<noteq> []))"
proof -
  let ?mk = "messages_key c sc (beijing_day t)"
  let ?m = "migrate_legacy_scope R c sc (beijing_day t) s"
  have mig: "conv_ok c (r_view R (snd ?m))" by (rule quiet_env.migrate_scope_ok(1) [OF assms(1-4)])
  obtain vs where vs: "round_trip R (reading (r_lrange R ?mk 0 (- 1))) (snd ?m) = (Inr vs, s')"
    "fill_messages sc 0 [] vs = Inr ms"
    using assms(5) by (auto simp: messages_for_date_scope_def Let_def split: prod.splits sum.splits)
  obtain s1 where s1: "aged (r_view R (snd ?m)) (r_view R s1)" "reading (r_lrange R ?mk 0 (- 1)) s1 = (Some vs, s')"
    using quiet_env.trip_answer [OF assms(1) vs(1)] by blast
  have "conv_ok c (r_view R s1)" using s1(1) mig by (rule aged_ok)
  then have "vs = list_of (r_view R s') ?mk"
    using s1(2) conv_messages(1) [OF _ kind_messages [OF assms(3)]]
      redis_service.lrange [OF go_env.axioms(1) [OF quiet_env.axioms(1) [OF assms(1)]]]
    by (auto simp: reading_def)
  then show ?thesis using fill_messages_keeps [OF vs(2)] by simp
qed

theorem messages_are_numbered_witness:
  "\<exists>ms s'. messages_for_date_scope conv_env demo_conv demo_scope conv_now demo_leased = (Inr ms, s') \<and>
     (\<forall>j < length ms. tn_sequence (ms ! j) = j + 1)"
proof -
  obtain r s' where run: "messages_for_date_scope conv_env demo_conv demo_scope conv_now demo_leased = (r, s')"
    by fastforce
  have none: "value_at (ref_view demo_leased) k = None" if "k \<noteq> lease_key demo_conv demo_scope" for k
    using that by (simp add: demo_leased_view redis_simps)
  have keys: "turns_key demo_conv (sc_identity demo_scope) d \<noteq> lease_key demo_conv demo_scope"
    "messages_key demo_conv demo_scope d \<noteq> lease_key demo_conv demo_scope" for d
    by (simp_all add: lease_key_def scoped_key_defs scope_key_inject)
  have "list_of (ref_view demo_leased) (messages_key demo_conv demo_scope d) = []" for d
    using none [OF keys(2)] by (simp add: list_of_def)
  moreover have "is_list_key (ref_view demo_leased) (messages_key demo_conv demo_scope d)" for d
    using none [OF keys(2)] by (simp add: is_list_key_def)
  moreover note ref_env.migrate_nothing [of "()" demo_leased]
  ultimately have "r = Inr []"
    using run none [OF keys(1)] demo_leased_facts(4)
    by (auto simp: messages_for_date_scope_def migrate_legacy_scope_def round_trip_served reading_def
        ref_env.lrange redis_range_def Let_def)
  then show ?thesis
    using run messages_are_numbered [OF ref_env.quiet_env_axioms _ demo_conv_facts(2,1) run [unfolded \<open>r = Inr []\<close>]]
      demo_leased_facts(1) by auto
qed

text \<open>
  C14. Members and conversations correspond: a conversation whose channel and external
  identifier have no separator is what its member parses to, so the listing names it. An
  external identifier with the separator parses to another conversation.
\<close>

theorem scope_member_roundtrip:
  assumes "CHR ''|'' \<notin> set (id_channel (sc_identity sc))"
    and "id_channel (sc_identity sc) \<noteq> []" "id_external (sc_identity sc) \<noteq> []" "sc_conversation sc \<noteq> []"
  shows "parse_scope_member (active_scope_member sc) = Some sc \<longleftrightarrow> CHR ''|'' \<notin> set (id_external (sc_identity sc))"
proof -
  let ?ch = "id_channel (sc_identity sc)" and ?ex = "id_external (sc_identity sc)" and ?cv = "sc_conversation sc"
  have three: "split_n 3 (CHR ''|'') s = split_n (Suc (Suc (Suc 0))) (CHR ''|'') s" for s by (simp add: numeral_3_eq_3)
  have member: "active_scope_member sc = ?ch @ CHR ''|'' # (?ex @ CHR ''|'' # ?cv)"
    by (simp add: active_scope_member_def)
  show ?thesis
  proof (cases "CHR ''|'' \<in> set ?ex")
    case False
    have "split_n 3 (CHR ''|'') (active_scope_member sc) = [?ch, ?ex, ?cv]"
      unfolding member three by (simp only: split_n_cut [OF assms(1)] split_n_cut [OF False] split_n.simps(2))
    then show ?thesis using assms(2-4) False by (simp add: parse_scope_member_def)
  next
    case True
    then obtain a b where ab: "?ex = a @ CHR ''|'' # b" "CHR ''|'' \<notin> set a" by (meson split_list_first)
    have "split_n 3 (CHR ''|'') (active_scope_member sc) = [?ch, a, b @ CHR ''|'' # ?cv]"
      unfolding member three ab(1) append_assoc append_Cons
      by (simp only: split_n_cut [OF assms(1)] split_n_cut [OF ab(2)] split_n.simps(2))
    then have "parse_scope_member (active_scope_member sc) \<noteq> Some sc"
      using ab by (auto simp: parse_scope_member_def Let_def) (metis append_self_conv identity.select_convs(2) list.distinct(1) scope.select_convs(1))
    then show ?thesis using True by simp
  qed
qed

theorem scope_member_roundtrip_witness:
  "parse_scope_member (active_scope_member demo_scope) = Some demo_scope"
  using scope_member_roundtrip [of demo_scope] by (simp add: demo_scope_def default_conversation_def)

end
