(* ===== verification/Redis_Stores.thy ===== *)
theory Redis_Stores
  imports Go_Env
begin

text \<open>
  Package \<open>internal/redisstore\<close> and \<open>gateway/dedupe.go\<close>: remembering message identifiers, in
  Redis and in memory, behind the interface \<open>MessageDeduper\<close>; the cached access token; and the
  fixed-window rate limiter behind \<open>RateLimiter\<close>. The locale \<open>deduper\<close> is the contract of the
  interface, interpreted on both implementations.
\<close>

section \<open>Definitions\<close>

text \<open>
  The expiry go-redis sends for a duration that is not negative: none for zero, else at least
  one millisecond.
\<close>

definition expiry_of :: "time \<Rightarrow> int option" where
  "expiry_of ttl = (if ttl \<le> 0 then None else Some (if ttl < 1000000 then 1 else ttl div 1000000))"

lemma expiry_positive: "\<forall>t. expiry_of ttl = Some t \<longrightarrow> 0 < t"
  by (simp add: expiry_of_def pos_imp_zdiv_pos_iff)

record message_deduper =
  md_prefix :: string
  md_ttl :: time

definition redis_seen_or_add :: "('s, 'z) redis_scheme \<Rightarrow> message_deduper \<Rightarrow> string \<Rightarrow> ('s, bool) io" where
  "redis_seen_or_add R d i s =
     (if i = [] then (Inr False, s)
      else case round_trip R (\<lambda>s. case r_setnx R (md_prefix d @ i) (Raw ''1'') (expiry_of (md_ttl d)) s of
                               (added, s') \<Rightarrow> (Some added, s')) s of
             (Inl e, s') \<Rightarrow> (Inl e, s')
           | (Inr added, s') \<Rightarrow> (Inr (\<not> added), s'))"

record token_cache =
  tc_key :: string

text \<open>\<open>TokenCache.Get\<close>: the token, if there is one (\<open>redis.Nil\<close> is not an error).\<close>

fun blob_text :: "blob \<Rightarrow> string" where
  "blob_text (Raw t) = t"
| "blob_text (Num n) = (if n < 0 then ''-'' @ show_nat (nat (- n)) else show_nat (nat n))"
| "blob_text _ = []"

definition token_get :: "('s, 'z) redis_scheme \<Rightarrow> token_cache \<Rightarrow> ('s, string option) io" where
  "token_get R c s =
     (case round_trip R (reading (r_get R (tc_key c))) s of
        (Inl e, s') \<Rightarrow> (Inl e, s')
      | (Inr b, s') \<Rightarrow> (Inr (map_option blob_text b), s'))"

definition token_set :: "('s, 'z) redis_scheme \<Rightarrow> token_cache \<Rightarrow> string \<Rightarrow> time \<Rightarrow> ('s, unit) io" where
  "token_set R c token ttl = round_trip R (writing (r_set R (tc_key c) (Raw token) (expiry_of ttl)))"

definition token_delete :: "('s, 'z) redis_scheme \<Rightarrow> token_cache \<Rightarrow> ('s, unit) io" where
  "token_delete R c = round_trip R (writing (r_del R (tc_key c)))"

record fixed_window_limiter =
  fl_prefix :: string
  fl_limit :: int
  fl_window :: time

definition fixed_window_allow_script ::
  "('s, 'z) redis_scheme \<Rightarrow> string \<Rightarrow> int \<Rightarrow> 's \<Rightarrow> int option \<times> 's" where
  "fixed_window_allow_script R key window s =
     (let (current, s1) = r_incr R key s;
          s2 = (if current = 1 then r_pexpire R key window s1 else s1)
      in (Some current, s2))"

definition limiter_allow :: "('s, 'z) redis_scheme \<Rightarrow> fixed_window_limiter \<Rightarrow> string \<Rightarrow> ('s, bool) io" where
  "limiter_allow R l open_id s =
     (if open_id = [] then (Inr True, s)
      else case round_trip R (fixed_window_allow_script R (fl_prefix l @ open_id) (fl_window l div 1000000)) s of
             (Inl e, s') \<Rightarrow> (Inl e, s')
           | (Inr n, s') \<Rightarrow> (Inr (n \<le> fl_limit l), s'))"

text \<open>\<open>MsgDeduper\<close> keeps its set in memory, under a mutex.\<close>

definition memory_seen_or_add :: "string \<Rightarrow> (string set, bool) io" where
  "memory_seen_or_add i seen =
     (if i = [] then (Inr False, seen)
      else if i \<in> seen then (Inr True, seen) else (Inr False, insert i seen))"

section \<open>The contract of a deduper\<close>

text \<open>
  \<open>known\<close> is what the deduper remembers. An answered identifier is remembered; only a
  remembered one is reported as seen; a call brings in nothing else.
\<close>

locale deduper =
  fixes seen_or_add :: "string \<Rightarrow> ('s, bool) io"
    and known :: "'s \<Rightarrow> string \<Rightarrow> bool"
  assumes empty_id: "seen_or_add [] s = (Inr False, s)"
    and answered: "i \<noteq> [] \<Longrightarrow> seen_or_add i s = (Inr b, s') \<Longrightarrow> known s' i"
    and only_known: "seen_or_add i s = (Inr True, s') \<Longrightarrow> known s i"
    and nothing_else: "j \<noteq> i \<Longrightarrow> known (snd (seen_or_add i s)) j \<Longrightarrow> known s j"
begin

text \<open>A new identifier is never taken for a duplicate.\<close>

lemma new_passes: "\<not> known s i \<Longrightarrow> seen_or_add i s = (Inr b, s') \<Longrightarrow> \<not> b"
  using only_known by (cases b) auto

text \<open>The deliveries a consumer handles: those that are not reported as seen.\<close>

fun handled :: "string list \<Rightarrow> 's \<Rightarrow> string list" where
  "handled [] s = []"
| "handled (i # is) s =
     (case seen_or_add i s of
        (Inr False, s') \<Rightarrow> i # handled is s'
      | (_, s') \<Rightarrow> handled is s')"

lemma handled_subset: "set (handled is s) \<subseteq> set is"
proof (induction "is" arbitrary: s)
  case (Cons j js)
  obtain r s' where r: "seen_or_add j s = (r, s')" by fastforce
  show ?case using Cons.IH [of s'] r by (auto split: sum.splits bool.splits)
qed simp

end

text \<open>A deduper that forgets nothing lets every identifier through at most once.\<close>

locale lasting_deduper = deduper +
  assumes lasting: "known s i \<Longrightarrow> known (snd (seen_or_add j s)) i"
    and dropped: "i \<noteq> [] \<Longrightarrow> known s i \<Longrightarrow> fst (seen_or_add i s) = Inr True"
begin

lemma known_not_handled: "known s i \<Longrightarrow> i \<noteq> [] \<Longrightarrow> i \<notin> set (handled is s)"
proof (induction "is" arbitrary: s)
  case (Cons j js)
  obtain r s' where r: "seen_or_add j s = (r, s')" by fastforce
  have "known s' i" using lasting [OF Cons.prems(1), of j] r by simp
  then have rest: "i \<notin> set (handled js s')" using Cons.IH Cons.prems(2) by blast
  show ?case
  proof (cases "j = i")
    case True
    then have "r = Inr True" using dropped [OF Cons.prems(2,1)] r by simp
    then show ?thesis using r rest by simp
  next
    case False
    then show ?thesis using r rest by (simp split: sum.splits bool.splits)
  qed
qed simp

lemma handled_distinct: "[] \<notin> set is \<Longrightarrow> distinct (handled is s)"
proof (induction "is" arbitrary: s)
  case (Cons j js)
  obtain r s' where r: "seen_or_add j s = (r, s')" by fastforce
  have j: "j \<noteq> []" and rest: "distinct (handled js s')" using Cons by auto
  show ?case
  proof (cases "r = Inr False")
    case True
    have "known s' j" using answered [OF j] r True by blast
    then have "j \<notin> set (handled js s')" using j by (rule known_not_handled)
    then show ?thesis using rest r True by simp
  next
    case False
    then show ?thesis using rest r by (simp split: sum.splits bool.splits)
  qed
qed simp

lemma handled_all:
  "(\<And>i s. \<exists>b. fst (seen_or_add i s) = Inr b) \<Longrightarrow> i \<in> set is \<Longrightarrow> \<not> known s i \<Longrightarrow> i \<in> set (handled is s)"
proof (induction "is" arbitrary: s)
  case (Cons j js)
  obtain b s' where r: "seen_or_add j s = (Inr b, s')" using Cons.prems(1) [of j s] by (metis prod.collapse)
  show ?case
  proof (cases "j = i")
    case True
    then show ?thesis using new_passes [OF Cons.prems(3)] r by (cases b) auto
  next
    case False
    then have "\<not> known s' i" using nothing_else [of i j s] Cons.prems(3) r by auto
    then have "i \<in> set (handled js s')" using Cons.IH Cons.prems(1,2) False by auto
    then show ?thesis using r by (simp split: bool.splits)
  qed
qed simp

end

interpretation memory: lasting_deduper memory_seen_or_add "\<lambda>s i. i \<in> s"
  by unfold_locales (auto simp: memory_seen_or_add_def split: if_splits)

section \<open>Redis as a deduper\<close>

lemma redis_seen_or_add_cases:
  "i \<noteq> [] \<Longrightarrow> redis_seen_or_add R d i s = (Inr b, s') \<Longrightarrow>
   \<exists>s1. r_arrive R s = (Delivered, s1) \<and>
     r_setnx R (md_prefix d @ i) (Raw ''1'') (expiry_of (md_ttl d)) s1 = (\<not> b, s')"
  by (auto simp: redis_seen_or_add_def round_trip_def split: prod.splits delivery.splits)

definition remembered :: "('s, 'z) redis_scheme \<Rightarrow> message_deduper \<Rightarrow> 's \<Rightarrow> string \<Rightarrow> bool" where
  "remembered R d s i \<longleftrightarrow> value_at (r_view R s) (md_prefix d @ i) \<noteq> None"

context quiet_redis
begin

lemma arrive_kept: "value_at (r_view R (snd (r_arrive R s))) k \<noteq> None \<Longrightarrow>
  value_at (r_view R (snd (r_arrive R s))) k = value_at (r_view R s) k"
  by (auto simp: arrive purge_value split: option.splits if_splits)

lemma redis_deduper: "deduper (redis_seen_or_add R d) (remembered R d)"
proof
  fix s
  show "redis_seen_or_add R d [] s = (Inr False, s)" by (simp add: redis_seen_or_add_def)
next
  fix i b s s' assume "i \<noteq> []" "redis_seen_or_add R d i s = (Inr b, s')"
  from redis_seen_or_add_cases [OF this] obtain s1
    where "r_setnx R (md_prefix d @ i) (Raw ''1'') (expiry_of (md_ttl d)) s1 = (\<not> b, s')" by blast
  then show "remembered R d s' i"
    using setnx_view [OF expiry_positive, of "md_prefix d @ i" "Raw ''1''" "md_ttl d" s1]
    by (auto simp: remembered_def value_at_simps split: if_splits)
next
  fix i s s' assume a: "redis_seen_or_add R d i s = (Inr True, s')"
  then have "i \<noteq> []" by (auto simp: redis_seen_or_add_def)
  from redis_seen_or_add_cases [OF this a] obtain s1 where s1: "r_arrive R s = (Delivered, s1)"
    "r_setnx R (md_prefix d @ i) (Raw ''1'') (expiry_of (md_ttl d)) s1 = (\<not> True, s')" by blast
  then have "value_at (r_view R s1) (md_prefix d @ i) \<noteq> None"
    using setnx [of "md_prefix d @ i" "Raw ''1''" "expiry_of (md_ttl d)" s1] by auto
  then show "remembered R d s i" using arrive_kept [of s] s1(1) by (simp add: remembered_def)
next
  fix i j s assume a: "j \<noteq> i" "remembered R d (snd (redis_seen_or_add R d i s)) j"
  let ?sc = "\<lambda>s. case r_setnx R (md_prefix d @ i) (Raw ''1'') (expiry_of (md_ttl d)) s of (added, s') \<Rightarrow> (Some added, s')"
  have "snd (redis_seen_or_add R d i s) = s \<or> snd (redis_seen_or_add R d i s) = snd (round_trip R ?sc s)"
    by (auto simp: redis_seen_or_add_def split: prod.splits sum.splits)
  moreover have "snd (?sc s1) = snd (r_setnx R (md_prefix d @ i) (Raw ''1'') (expiry_of (md_ttl d)) s1)" for s1
    by (simp split: prod.splits)
  moreover note round_trip_state [of R ?sc s]
  ultimately have "snd (redis_seen_or_add R d i s) = s \<or> snd (redis_seen_or_add R d i s) = snd (r_arrive R s) \<or>
      snd (redis_seen_or_add R d i s) = snd (r_setnx R (md_prefix d @ i) (Raw ''1'') (expiry_of (md_ttl d)) (snd (r_arrive R s)))"
    by auto
  then have "remembered R d s j \<or> remembered R d (snd (r_arrive R s)) j"
    using a setnx_view [OF expiry_positive, of "md_prefix d @ i" "Raw ''1''" "md_ttl d" "snd (r_arrive R s)"]
    by (auto simp: remembered_def value_at_simps split: if_splits)
  then show "remembered R d s j" using arrive_kept [of s] by (auto simp: remembered_def)
qed

end

interpretation ref_dedup: deduper "redis_seen_or_add (ref_env z) d" "remembered (ref_env z) d"
  by (rule ref_env.redis_deduper)

section \<open>The limiter over a window\<close>

text \<open>Calls of one client, one after another; the answers in their order.\<close>

fun allow_calls :: "('s, 'z) redis_scheme \<Rightarrow> fixed_window_limiter \<Rightarrow> string \<Rightarrow> nat \<Rightarrow> 's \<Rightarrow> (go_error + bool) list \<times> 's" where
  "allow_calls R l i 0 s = ([], s)"
| "allow_calls R l i (Suc n) s =
     (let (r, s1) = limiter_allow R l i s; (rs, s2) = allow_calls R l i n s1 in (r # rs, s2))"

definition passes :: "(go_error + bool) list \<Rightarrow> nat" where
  "passes rs = length (filter (\<lambda>r. r = Inr True) rs)"

lemma passes_simps [simp]: "passes [] = 0" "passes (r # rs) = (if r = Inr True then Suc (passes rs) else passes rs)"
  by (simp_all add: passes_def)

text \<open>The state of the counter within a window that ends after \<open>t\<close>: so many calls counted.\<close>

definition counted :: "keyspace \<Rightarrow> string \<Rightarrow> int \<Rightarrow> nat \<Rightarrow> bool" where
  "counted ks k t n \<longleftrightarrow>
     (if n = 0 then value_at ks k = None
      else ks k = Some (RString (Num (int n)), deadline ks k) \<and> (\<exists>d. deadline ks k = Some d \<and> t \<le> d))"

context quiet_redis
begin

lemma arrive_counted:
  assumes "counted (r_view R s) k t n" "r_clock R (snd (r_arrive R s)) < t"
  shows "counted (r_view R (snd (r_arrive R s))) k t n"
proof (cases "n = 0")
  case True
  then show ?thesis using assms(1) by (auto simp: counted_def arrive purge_value split: option.splits)
next
  case False
  then obtain d where d: "r_view R s k = Some (RString (Num (int n)), Some d)" "t \<le> d"
    using assms(1) by (auto simp: counted_def)
  then have "r_view R (snd (r_arrive R s)) k = Some (RString (Num (int n)), Some d)"
    using assms(2) by (simp add: arrive purge_def)
  then show ?thesis using False d(2) by (simp add: counted_def deadline_def)
qed

lemma script_counted:
  assumes c: "counted (r_view R s) k t n" and w: "0 < w" "t \<le> r_clock R s + w" and n: "int n < 2 ^ 52"
  shows "fst (fixed_window_allow_script R k w s) = Some (int n + 1)"
    and "counted (r_view R (snd (fixed_window_allow_script R k w s))) k t (Suc n)"
    and "r_clock R (snd (fixed_window_allow_script R k w s)) = r_clock R s"
proof -
  have key: "is_string_key (r_view R s) k" "num_of (string_of (r_view R s) k) = Some (int n)"
  proof -
    have "value_at (r_view R s) k = (if n = 0 then None else Some (RString (Num (int n))))"
    proof (cases "n = 0")
      case False
      then have "r_view R s k = Some (RString (Num (int n)), deadline (r_view R s) k)"
        using c by (simp add: counted_def)
      from arg_cong [OF this, of "map_option fst"] show ?thesis using False by (simp add: value_at_def)
    qed (use c in \<open>simp add: counted_def\<close>)
    then show "is_string_key (r_view R s) k" "num_of (string_of (r_view R s) k) = Some (int n)"
      by (simp_all add: is_string_key_def string_of_def num_of_def)
  qed
  have small: "in_int64 (int n + 1)" using n by (simp add: in_int64_def)
  have i: "fst (r_incr R k s) = int n + 1" by (rule incr [OF key small])
  have v: "r_view R (snd (r_incr R k s)) = store k (RString (Num (int n + 1))) (r_view R s)"
    by (rule incr_view [OF key small])
  show "fst (fixed_window_allow_script R k w s) = Some (int n + 1)"
    by (simp add: fixed_window_allow_script_def split_beta Let_def i)
  show "r_clock R (snd (fixed_window_allow_script R k w s)) = r_clock R s"
    by (simp add: fixed_window_allow_script_def split_beta Let_def clocks)
  show "counted (r_view R (snd (fixed_window_allow_script R k w s))) k t (Suc n)"
  proof (cases "n = 0")
    case True
    then have none: "r_view R s k = None" using c by (simp add: counted_def value_at_def)
    have "r_view R (snd (fixed_window_allow_script R k w s)) =
        (r_view R s)(k \<mapsto> (RString (Num (int (Suc n))), Some (r_clock R s + w)))"
      using v i w(1) True none
      by (simp add: fixed_window_allow_script_def split_beta Let_def pexpire clocks expire_key_def store_def)
    then show ?thesis using w(2) by (simp add: counted_def deadline_def)
  next
    case False
    then have "r_view R (snd (fixed_window_allow_script R k w s)) = store k (RString (Num (int (Suc n)))) (r_view R s)"
      using v i by (simp add: fixed_window_allow_script_def split_beta Let_def add.commute)
    moreover have "store k x (r_view R s) k = Some (x, deadline (r_view R s) k)" for x by (simp add: store_def)
    ultimately show ?thesis using c False by (simp add: counted_def deadline_simps)
  qed
qed

lemma clock_allow: "r_clock R s \<le> r_clock R (snd (limiter_allow R l i s))"
proof -
  let ?sc = "fixed_window_allow_script R (fl_prefix l @ i) (fl_window l div 1000000)"
  have "snd (limiter_allow R l i s) = s \<or> snd (limiter_allow R l i s) = snd (round_trip R ?sc s)"
    by (auto simp: limiter_allow_def split: prod.splits sum.splits)
  moreover have "r_clock R (snd (?sc s1)) = r_clock R s1" for s1
    by (simp add: fixed_window_allow_script_def split_beta Let_def clocks)
  moreover have "snd (round_trip R ?sc s) = snd (r_arrive R s) \<or>
      snd (round_trip R ?sc s) = snd (?sc (snd (r_arrive R s)))"
    using round_trip_state [of R ?sc s] by blast
  ultimately show ?thesis
    using arrive_clock [of s] by (elim disjE) simp_all
qed

lemma clock_calls: "r_clock R s \<le> r_clock R (snd (allow_calls R l i n s))"
proof (induction n arbitrary: s)
  case (Suc n)
  show ?case using clock_allow [of s l i] Suc.IH [of "snd (limiter_allow R l i s)"]
    by (simp add: split_beta Let_def)
qed simp

lemma allow_step:
  assumes "i \<noteq> []" "0 < fl_window l div 1000000" "counted (r_view R s) (fl_prefix l @ i) t n" "int n < 2 ^ 52"
    and "t \<le> r_clock R s + fl_window l div 1000000" "r_clock R (snd (limiter_allow R l i s)) < t"
  shows "\<exists>n'. counted (r_view R (snd (limiter_allow R l i s))) (fl_prefix l @ i) t n' \<and> n \<le> n' \<and> n' \<le> Suc n \<and>
    (fst (limiter_allow R l i s) = Inr True \<longrightarrow> n' = Suc n \<and> int n' \<le> fl_limit l)"
proof -
  let ?k = "fl_prefix l @ i" and ?w = "fl_window l div 1000000"
  let ?sc = "fixed_window_allow_script R ?k ?w" and ?s1 = "snd (r_arrive R s)"
  have c1: "r_clock R (snd (?sc ?s1)) = r_clock R ?s1"
    by (simp add: fixed_window_allow_script_def split_beta Let_def clocks)
  have st: "snd (limiter_allow R l i s) = snd (round_trip R ?sc s)"
    using assms(1) by (auto simp: limiter_allow_def split: prod.splits sum.splits)
  have early: "r_clock R ?s1 < t" using assms(6) st c1 round_trip_state [of R ?sc s] by auto
  have a: "counted (r_view R ?s1) ?k t n" by (rule arrive_counted [OF assms(3) early])
  have w: "t \<le> r_clock R ?s1 + ?w" using assms(5) arrive_clock [of s] by linarith
  note sc = script_counted [OF a assms(2) w assms(4)]
  show ?thesis
  proof (cases "fst (r_arrive R s) = LostRequest")
    case True
    then have "round_trip R ?sc s = (Inl ErrService, ?s1)"
      by (cases "r_arrive R s") (simp add: round_trip_def)
    then show ?thesis using assms(1) a by (auto simp: limiter_allow_def)
  next
    case False
    then have "snd (round_trip R ?sc s) = snd (?sc ?s1)"
      "fst (round_trip R ?sc s) = Inl ErrService \<or> fst (round_trip R ?sc s) = Inr (int n + 1)"
      using sc(1) by (auto simp: round_trip_def split: prod.splits delivery.splits option.splits)
    then show ?thesis
      using assms(1) sc(2) st
      by (intro exI [of _ "Suc n"]) (auto simp: limiter_allow_def split: prod.splits sum.splits)
  qed
qed

lemma allow_calls_bound:
  assumes "i \<noteq> []" "0 < fl_window l div 1000000" "counted (r_view R s) (fl_prefix l @ i) t n"
    and "int (n + k) < 2 ^ 52" "t \<le> r_clock R s + fl_window l div 1000000"
    and "r_clock R (snd (allow_calls R l i k s)) < t" "int m \<le> fl_limit l" "m \<le> n"
  shows "int (m + passes (fst (allow_calls R l i k s))) \<le> fl_limit l"
  using assms(3-)
proof (induction k arbitrary: s n m)
  case (Suc k)
  let ?r = "fst (limiter_allow R l i s)" and ?s1 = "snd (limiter_allow R l i s)"
  have end_eq: "snd (allow_calls R l i (Suc k) s) = snd (allow_calls R l i k ?s1)"
    "fst (allow_calls R l i (Suc k) s) = ?r # fst (allow_calls R l i k ?s1)"
    by (simp_all add: split_beta Let_def)
  have early: "r_clock R ?s1 < t" using clock_calls [of ?s1 l i k] Suc.prems(4) end_eq by simp
  obtain n' where n': "counted (r_view R ?s1) (fl_prefix l @ i) t n'" "n \<le> n'" "n' \<le> Suc n"
    "?r = Inr True \<longrightarrow> n' = Suc n \<and> int n' \<le> fl_limit l"
    using allow_step [OF assms(1,2) Suc.prems(1) _ Suc.prems(3) early] Suc.prems(2) by auto
  have t1: "t \<le> r_clock R ?s1 + fl_window l div 1000000" using Suc.prems(3) clock_allow [of s l i] by linarith
  let ?m = "if ?r = Inr True then Suc m else m"
  have "int (?m + passes (fst (allow_calls R l i k ?s1))) \<le> fl_limit l"
    by (rule Suc.IH [OF n'(1) _ t1]) (use Suc.prems n' end_eq in \<open>auto simp del: allow_calls.simps split: if_splits\<close>)
  then show ?case by (simp add: end_eq del: allow_calls.simps split: if_splits)
qed simp

end

section \<open>Properties\<close>

text \<open>
  The in-memory deduper hands every message on exactly once: of any sequence of
  deliveries, with repetitions, each identifier not seen before is handled, and none twice.
\<close>

theorem memory_dedupe_exactly_once:
  assumes "[] \<notin> set ids"
  shows "distinct (deduper.handled memory_seen_or_add ids {}) \<and>
    set (deduper.handled memory_seen_or_add ids {}) = set ids"
proof -
  have "\<exists>b. fst (memory_seen_or_add i s) = Inr b" for i s by (auto simp: memory_seen_or_add_def)
  then have "i \<in> set (deduper.handled memory_seen_or_add ids {})" if "i \<in> set ids" for i
    using memory.handled_all [of i ids "{}"] that by simp
  then show ?thesis using memory.handled_distinct [OF assms] memory.handled_subset [of ids "{}"] by blast
qed

theorem memory_dedupe_exactly_once_witness:
  "set (deduper.handled memory_seen_or_add [''m1'', ''m2'', ''m1''] {}) = {''m1'', ''m2''}"
  using memory_dedupe_exactly_once [of "[''m1'', ''m2'', ''m1'']"] by auto

text \<open>
  The Redis deduper drops duplicates for exactly its time to live: after a delivery that
  was let through, the next answered one of the same identifier is a duplicate if and only if
  it reaches the server before the entry expires.
\<close>

theorem redis_dedupe_window:
  assumes "quiet_redis R" "i \<noteq> []" "0 < md_ttl d"
    and "redis_seen_or_add R d i s = (Inr False, s1)"
    and "r_view R s2 (md_prefix d @ i) = r_view R s1 (md_prefix d @ i)"
    and "redis_seen_or_add R d i s2 = (Inr b, s3)"
  shows "b \<longleftrightarrow> r_clock R (snd (r_arrive R s2)) < r_clock R s1 + max 1 (md_ttl d div 1000000)"
proof -
  let ?k = "md_prefix d @ i" and ?px = "max 1 (md_ttl d div 1000000)"
  note R = quiet_redis.axioms(1) [OF assms(1)]
  have px: "expiry_of (md_ttl d) = Some ?px"
  proof -
    have "md_ttl d < 1000000 \<Longrightarrow> md_ttl d div 1000000 = 0" using assms(3) by simp
    moreover have "\<not> md_ttl d < 1000000 \<Longrightarrow> 1 \<le> md_ttl d div 1000000" by (simp add: pos_imp_zdiv_pos_iff int_one_le_iff_zero_less)
    ultimately show ?thesis using assms(3) by (auto simp: expiry_of_def max_def)
  qed
  obtain a1 where a1: "r_setnx R ?k (Raw ''1'') (Some ?px) a1 = (True, s1)"
    using redis_seen_or_add_cases [OF assms(2,4)] px by auto
  have clock1: "r_clock R a1 = r_clock R s1"
    using redis_service.clocks(3) [OF R, of ?k "Raw ''1''" "Some ?px" a1] a1 by simp
  have "value_at (r_view R a1) ?k = None"
    using redis_service.setnx [OF R, of ?k "Raw ''1''" "Some ?px" a1] a1 by simp
  then have "r_view R s1 = put ?k (RString (Raw ''1'')) (Some (r_clock R s1 + ?px)) (r_view R a1)"
    using redis_service.setnx_view [OF R, of "Some ?px" ?k "Raw ''1''" a1] a1 clock1 by simp
  then have key: "r_view R s2 ?k = Some (RString (Raw ''1''), Some (r_clock R s1 + ?px))"
    using assms(5) by (simp add: put_def)
  obtain a2 where a2: "r_arrive R s2 = (Delivered, a2)" "r_setnx R ?k (Raw ''1'') (Some ?px) a2 = (\<not> b, s3)"
    using redis_seen_or_add_cases [OF assms(2,6)] px by auto
  have "b \<longleftrightarrow> value_at (r_view R a2) ?k \<noteq> None"
    using redis_service.setnx [OF R, of ?k "Raw ''1''" "Some ?px" a2] a2 by auto
  also have "\<dots> \<longleftrightarrow> r_clock R a2 < r_clock R s1 + ?px"
    using quiet_redis.arrive [OF assms(1), of s2] a2(1) key
    by (auto simp: value_at_def purge_def)
  finally show ?thesis using a2(1) by simp
qed

theorem redis_dedupe_window_witness:
  "\<exists>s1 b s3. redis_seen_or_add (ref_env ()) \<lparr>md_prefix = ''m:'', md_ttl = second\<rparr> ''id'' (ref_start 0) = (Inr False, s1) \<and>
     redis_seen_or_add (ref_env ()) \<lparr>md_prefix = ''m:'', md_ttl = second\<rparr> ''id'' s1 = (Inr b, s3) \<and>
     (b \<longleftrightarrow> rf_clock (snd (ref_arrive s1)) < rf_clock s1 + 1000)"
proof -
  let ?d = "\<lparr>md_prefix = ''m:'', md_ttl = second\<rparr>"
  let ?nx = "\<lambda>s. r_setnx (ref_env ()) ''m:id'' (Raw ''1'') (expiry_of second) s"
  define s1 where "s1 = snd (?nx (ref_start 0))"
  have first: "redis_seen_or_add (ref_env ()) ?d ''id'' (ref_start 0) = (Inr False, s1)"
    using ref_env.setnx [of "()" "''m:id''" "Raw ''1''" "expiry_of second" "ref_start 0"]
    by (auto simp: redis_seen_or_add_def round_trip_served s1_def split: prod.splits)
  have net: "ref_arrive s1 = (Delivered, s1)" by (simp add: s1_def ref_start_def)
  obtain a s3 where nx: "?nx s1 = (a, s3)" by fastforce
  then have again: "redis_seen_or_add (ref_env ()) ?d ''id'' s1 = (Inr (\<not> a), s3)"
    using net by (simp add: redis_seen_or_add_def round_trip_served)
  from redis_dedupe_window [OF ref_env.quiet_redis_axioms _ _ first refl again] first again
  show ?thesis by (auto simp: second_def)
qed

text \<open>
  C16. The limiter: of any calls of one client that are served within one window, at most
  \<open>limit\<close> are let through, whatever requests or replies get lost.
\<close>

theorem limiter_bounds_window:
  assumes "quiet_redis R" "i \<noteq> []" "1000000 \<le> fl_window l" "0 \<le> fl_limit l" "int k < 2 ^ 52"
    and "value_at (r_view R s) (fl_prefix l @ i) = None"
    and "allow_calls R l i k s = (rs, s')" "r_clock R s' < r_clock R s + fl_window l div 1000000"
  shows "int (passes rs) \<le> fl_limit l"
proof -
  have "int (0 + passes (fst (allow_calls R l i k s))) \<le> fl_limit l"
    by (rule quiet_redis.allow_calls_bound [OF assms(1,2), of l s "r_clock R s + fl_window l div 1000000" 0])
      (use assms in \<open>auto simp: counted_def pos_imp_zdiv_pos_iff\<close>)
  then show ?thesis using assms(7) by simp
qed

theorem limiter_bounds_window_witness:
  "int (passes (fst (allow_calls (ref_env ()) \<lparr>fl_prefix = ''l:'', fl_limit = 1, fl_window = second\<rparr> ''u'' 2 (ref_start 0)))) \<le> 1"
proof -
  let ?l = "\<lparr>fl_prefix = ''l:'', fl_limit = 1, fl_window = second\<rparr>"
  have net: "rf_net (snd (limiter_allow (ref_env ()) ?l ''u'' s)) = [] \<and>
      rf_clock (snd (limiter_allow (ref_env ()) ?l ''u'' s)) = rf_clock s" if "rf_net s = []" for s
    using that by (auto simp: limiter_allow_def round_trip_served fixed_window_allow_script_def split_beta Let_def
        split: sum.splits)
  have "rf_clock (snd (allow_calls (ref_env ()) ?l ''u'' 2 (ref_start 0))) = 0"
    using net [of "ref_start 0"] net [of "snd (limiter_allow (ref_env ()) ?l ''u'' (ref_start 0))"]
    by (simp add: numeral_2_eq_2 split_beta Let_def) (simp add: ref_start_def)
  then show ?thesis
    using limiter_bounds_window [of "ref_env ()" "''u''" ?l 2 "ref_start 0", OF ref_env.quiet_redis_axioms]
    by (cases "allow_calls (ref_env ()) ?l ''u'' 2 (ref_start 0)") (simp add: second_def)
qed

end
