(* ===== verification/Spaces.thy ===== *)
theory Spaces
  imports Persona Documents
begin

text \<open>
  Package \<open>internal/orchestration\<close>, the pure parts: the fixed conversation spaces
  (\<open>types.go\<close>), the history window given to the language model (\<open>context.go\<close>) and the
  choice of the speakers of a turn (\<open>planning.go\<close>). The interface \<open>Model\<close> is a record of its
  three operations.
\<close>

section \<open>Spaces\<close>

record owner =
  ow_channel :: string
  ow_id :: string

record chat_scope =
  cp_owner :: owner
  cp_conversation :: string

definition space_group :: string where "space_group = ''group''"
definition space_direct :: string where "space_direct = ''direct''"

record space =
  sp_id :: string
  sp_kind :: string
  sp_display :: string
  sp_participants :: "character list"

record send_command =
  sd_scope :: chat_scope
  sd_content :: string
  sd_request :: string

record plan_input =
  pi_scope :: chat_scope
  pi_space :: space
  pi_history :: "turn list"
  pi_user :: string
  pi_addressed :: "character_id list"

record character_input =
  ci_scope :: chat_scope
  ci_character :: character
  ci_summaries :: "string list"
  ci_history :: "turn list"
  ci_user :: turn
  ci_prefix :: "turn list"

record summary_input =
  si_scope :: chat_scope
  si_messages :: "turn list"

record maintenance_result =
  mr_greet :: "string list"
  mr_processed :: nat
  mr_failed :: nat
  mr_target :: time

record 's reply_model =
  rm_plan :: "plan_input \<Rightarrow> ('s, character_id list) io"
  rm_generate :: "character_input \<Rightarrow> ('s, string) io"
  rm_summarize :: "summary_input \<Rightarrow> ('s, string) io"

definition group_space :: space where
  "group_space = \<lparr>sp_id = ''sos-group'', sp_kind = space_group,
     sp_display = utf8 [83, 79, 83, 32, 22242], sp_participants = all_characters\<rparr>"

definition direct_space :: "character \<Rightarrow> space" where
  "direct_space c = \<lparr>sp_id = ''direct-'' @ ch_id c, sp_kind = space_direct, sp_display = ch_display c,
     sp_participants = [c]\<rparr>"

definition fixed_spaces :: "space list" where
  "fixed_spaces = group_space # map direct_space all_characters"

fun find_space_in :: "space list \<Rightarrow> string \<Rightarrow> space option" where
  "find_space_in [] i = None"
| "find_space_in (sp # sps) i = (if sp_id sp = i then Some sp else find_space_in sps i)"

definition find_space :: "string \<Rightarrow> space option" where
  "find_space i = find_space_in fixed_spaces i"

lemma find_space_in_Some: "find_space_in sps i = Some sp \<Longrightarrow> sp \<in> set sps \<and> sp_id sp = i"
  by (induction sps) (auto split: if_splits)

lemma find_space_in_unique:
  "distinct (map sp_id sps) \<Longrightarrow> sp \<in> set sps \<Longrightarrow> find_space_in sps (sp_id sp) = Some sp"
  by (induction sps) auto

lemma distinct_spaces: "distinct (map sp_id fixed_spaces)"
  by (simp add: fixed_spaces_def group_space_def direct_space_def all_characters_def registry_defs)

lemma find_space_cases:
  assumes "find_space i = Some sp"
  shows "sp_id sp = i \<and> (sp = group_space \<or> (\<exists>c \<in> set registry. sp = direct_space c))"
  using find_space_in_Some [OF assms [unfolded find_space_def]]
  by (auto simp: fixed_spaces_def all_characters_def)

section \<open>The history window\<close>

definition default_context_token_budget :: int where
  "default_context_token_budget = 6000"

text \<open>\<open>unicode.IsLetter\<close> or \<open>unicode.IsDigit\<close> of an ASCII rune.\<close>

definition ascii_alnum :: "rune \<Rightarrow> bool" where
  "ascii_alnum r \<longleftrightarrow> (65 \<le> r \<and> r \<le> 90) \<or> (97 \<le> r \<and> r \<le> 122) \<or> (48 \<le> r \<and> r \<le> 57)"

definition count_rune :: "nat \<times> nat \<times> bool \<Rightarrow> rune \<Rightarrow> nat \<times> nat \<times> bool" where
  "count_rune st r =
     (case st of (non_ascii, words, in_word) \<Rightarrow>
        if 127 < r then (non_ascii + 1, words, False)
        else if ascii_alnum r then (if in_word then (non_ascii, words, True) else (non_ascii, words + 1, True))
        else (non_ascii, words, False))"

definition estimate_tokens :: "string \<Rightarrow> nat" where
  "estimate_tokens s =
     (case foldl count_rune (0, 0, False) (runes s) of
        (non_ascii, words, _) \<Rightarrow> non_ascii + words + length (trim_space s) div 16)"

definition estimate_message_tokens :: "turn \<Rightarrow> nat" where
  "estimate_message_tokens m =
     8 + estimate_tokens (tn_display m) + estimate_tokens (tn_speaker m) + estimate_tokens (tn_content m)"

record batch_range =
  br_start :: nat
  br_end :: nat
  br_tokens :: nat

text \<open>The runs of messages of one batch; a message without a batch is a run of its own.\<close>

definition same_batch :: "turn \<Rightarrow> turn \<Rightarrow> bool" where
  "same_batch m n \<longleftrightarrow> tn_batch m \<noteq> [] \<and> tn_batch n = tn_batch m"

function batch_ranges :: "nat \<Rightarrow> turn list \<Rightarrow> batch_range list" where
  "batch_ranges start [] = []"
| "batch_ranges start (m # ms) =
     (let rest = takeWhile (same_batch m) ms; stop = start + 1 + length rest
      in \<lparr>br_start = start, br_end = stop, br_tokens = sum_list (map estimate_message_tokens (m # rest))\<rparr>
           # batch_ranges stop (dropWhile (same_batch m) ms))"
  by pat_completeness auto
termination
  by (relation "measure (\<lambda>(_, ms). length ms)") (auto simp: le_imp_less_Suc length_dropWhile_le)

text \<open>The loop over the runs from the last to the first, until one does not fit.\<close>

fun keep_ranges :: "int \<Rightarrow> nat \<Rightarrow> batch_range list \<Rightarrow> nat" where
  "keep_ranges remaining first [] = first"
| "keep_ranges remaining first (b # bs) =
     (if remaining < int (br_tokens b) then first
      else keep_ranges (remaining - int (br_tokens b)) (br_start b) bs)"

definition remaining_budget :: "string \<Rightarrow> string \<Rightarrow> turn list \<Rightarrow> string list \<Rightarrow> int" where
  "remaining_budget prompt user prefix_turns summaries =
     default_context_token_budget - 1200 - int (estimate_tokens prompt) - int (estimate_tokens user)
       - int (sum_list (map estimate_tokens summaries))
       - int (sum_list (map estimate_message_tokens prefix_turns))"

definition select_history_batches ::
  "turn list \<Rightarrow> string \<Rightarrow> string \<Rightarrow> turn list \<Rightarrow> string list \<Rightarrow> turn list" where
  "select_history_batches history prompt user prefix_turns summaries =
     (let remaining = remaining_budget prompt user prefix_turns summaries in
      if remaining \<le> 0 \<or> history = [] then []
      else drop (keep_ranges remaining (length history) (rev (batch_ranges 0 history))) history)"

section \<open>The speakers of a turn\<close>

text \<open>The loop that cleans the model's plan: at most five, allowed, no one twice.\<close>

fun clean_plan :: "character_id list \<Rightarrow> character_id set \<Rightarrow> nat \<Rightarrow> character_id list \<Rightarrow> character_id list" where
  "clean_plan allowed seen n [] = []"
| "clean_plan allowed seen n (i # is) =
     (if n = 5 then []
      else if i \<notin> set allowed then clean_plan allowed seen n is
      else if i \<in> seen then clean_plan allowed seen n is
      else i # clean_plan allowed (insert i seen) (Suc n) is)"

fun first_allowed :: "character_id list \<Rightarrow> character_id list \<Rightarrow> character_id option" where
  "first_allowed allowed [] = None"
| "first_allowed allowed (i # is) = (if i \<in> set allowed then Some i else first_allowed allowed is)"

definition plan_speakers ::
  "'s reply_model \<Rightarrow> chat_scope \<Rightarrow> space \<Rightarrow> turn list \<Rightarrow> string \<Rightarrow> 's \<Rightarrow> character_id list \<times> 's" where
  "plan_speakers M sc sp history content s =
     (let addressed = resolve_aliases content;
          (answer, s') = rm_plan M \<lparr>pi_scope = sc, pi_space = sp, pi_history = history,
             pi_user = content, pi_addressed = addressed\<rparr> s;
          planned = (case answer of Inl _ \<Rightarrow> [] | Inr ids \<Rightarrow> ids);
          allowed = map ch_id (sp_participants sp);
          clean = clean_plan allowed {} 0 planned
      in (if clean \<noteq> [] then clean
          else (case first_allowed allowed addressed of Some i \<Rightarrow> [i] | None \<Rightarrow> [haruhi]), s'))"

section \<open>The window: lemmas\<close>

definition tokens_of :: "turn list \<Rightarrow> int" where
  "tokens_of ms = int (sum_list (map estimate_message_tokens ms))"

lemma tokens_of_simps [simp]:
  "tokens_of [] = 0" "tokens_of (m # ms) = int (estimate_message_tokens m) + tokens_of ms"
  "tokens_of (xs @ ys) = tokens_of xs + tokens_of ys"
  by (simp_all add: tokens_of_def)

lemma tokens_of_nonneg [simp]: "0 \<le> tokens_of ms"
  by (simp add: tokens_of_def)

text \<open>A place where the history may be cut: not inside a batch.\<close>

definition boundary :: "turn list \<Rightarrow> nat \<Rightarrow> bool" where
  "boundary h k \<longleftrightarrow> k = 0 \<or> length h \<le> k \<or> \<not> same_batch (h ! (k - 1)) (h ! k)"

text \<open>The runs tile the history from \<open>lo\<close> to \<open>hi\<close>.\<close>

fun tiles :: "turn list \<Rightarrow> nat \<Rightarrow> batch_range list \<Rightarrow> nat \<Rightarrow> bool" where
  "tiles h lo [] hi = (lo = hi)"
| "tiles h lo (b # bs) hi =
     (br_start b = lo \<and> lo < br_end b \<and> br_end b \<le> length h \<and>
      int (br_tokens b) = tokens_of (take (br_end b) h) - tokens_of (take lo h) \<and>
      boundary h lo \<and> (\<forall>i. lo < i \<and> i < br_end b \<longrightarrow> \<not> boundary h i) \<and> tiles h (br_end b) bs hi)"

lemma tiles_snoc:
  "tiles h lo (bs @ [b]) hi \<longleftrightarrow> tiles h lo bs (br_start b) \<and> tiles h (br_start b) [b] hi"
  by (induction bs arbitrary: lo) auto

lemma tiles_batch_ranges:
  "h = pre @ ms \<Longrightarrow> boundary h (length pre) \<Longrightarrow>
   tiles h (length pre) (batch_ranges (length pre) ms) (length h)"
proof (induction "length pre" ms arbitrary: pre rule: batch_ranges.induct)
  case (2 m ms)
  let ?run = "m # takeWhile (same_batch m) ms" and ?rest = "dropWhile (same_batch m) ms"
  have h: "h = (pre @ ?run) @ ?rest" using "2.prems"(1) by simp
  have run: "tn_batch x = tn_batch m" if "x \<in> set ?run" for x
    using that by (auto simp: same_batch_def dest: set_takeWhileD)
  have stop: "length (pre @ ?run) = length pre + 1 + length (takeWhile (same_batch m) ms)" by simp
  have inside: "\<not> boundary h i" if "length pre < i" "i < length (pre @ ?run)" for i
  proof -
    have "h ! i = ?run ! (i - length pre)" "h ! (i - 1) = ?run ! (i - 1 - length pre)"
      using that by (simp_all only: h nth_append) auto
    moreover have "?run ! (i - length pre) = takeWhile (same_batch m) ms ! (i - length pre - 1)"
      using that by (simp add: nth_Cons')
    moreover have "takeWhile (same_batch m) ms ! (i - length pre - 1) \<in> set (takeWhile (same_batch m) ms)"
      using that by (intro nth_mem) (simp add: less_diff_conv2)
    then have "same_batch m (takeWhile (same_batch m) ms ! (i - length pre - 1))" by (blast dest: set_takeWhileD)
    moreover have "?run ! (i - 1 - length pre) \<in> set ?run" using that by (intro nth_mem) auto
    then have "tn_batch (?run ! (i - 1 - length pre)) = tn_batch m" by (rule run)
    moreover have "i < length h" using that(2) h by (metis length_append trans_less_add1)
    ultimately show ?thesis using that(1) by (simp add: boundary_def same_batch_def)
  qed
  have next_: "boundary h (length (pre @ ?run))"
  proof (cases "?rest")
    case Nil
    then have "length h = length (pre @ ?run)" using h by (metis append_Nil2)
    then show ?thesis unfolding boundary_def by simp
  next
    case (Cons n ns)
    then have "\<not> same_batch m n" by (metis hd_dropWhile list.distinct(1) list.sel(1))
    moreover have "h ! length (pre @ ?run) = n" using h Cons by (metis nth_append_length)
    moreover have "h ! (length (pre @ ?run) - 1) = last ?run"
    proof -
      have "h ! (length (pre @ ?run) - 1) = (pre @ ?run) ! (length (pre @ ?run) - 1)"
        using h by (metis diff_less length_greater_0_conv list.distinct(1) append_is_Nil_conv nth_append zero_less_one)
      also have "\<dots> = last ?run" by (metis append_is_Nil_conv last_appendR last_conv_nth list.distinct(1))
      finally show ?thesis .
    qed
    moreover have "tn_batch (last ?run) = tn_batch m" by (rule run) (rule last_in_set, simp)
    ultimately show ?thesis by (simp add: boundary_def same_batch_def)
  qed
  have IH: "tiles h (length (pre @ ?run)) (batch_ranges (length (pre @ ?run)) ?rest) (length h)"
    by (rule "2.hyps" [OF refl stop h next_])
  have tok: "int (sum_list (map estimate_message_tokens ?run)) =
      tokens_of (take (length (pre @ ?run)) h) - tokens_of (take (length pre) h)"
  proof -
    have "take (length (pre @ ?run)) h = pre @ ?run" using h by (metis append_eq_conv_conj)
    moreover have "take (length pre) h = pre" using h by simp
    ultimately show ?thesis by (simp add: tokens_of_def)
  qed
  have le: "length (pre @ ?run) \<le> length h" using h by (metis le_add1 length_append)
  show ?case
    unfolding batch_ranges.simps Let_def stop [symmetric]
    using IH inside tok le "2.prems"(2) by simp
qed simp

lemma keep_ranges_fits:
  assumes "tiles h 0 bs first" "boundary h first" "first \<le> length h" "0 \<le> remaining"
    and "k = keep_ranges remaining first (rev bs)"
  shows "k \<le> first \<and> boundary h k \<and> tokens_of (take first h) - tokens_of (take k h) \<le> remaining \<and>
    (\<forall>j < k. boundary h j \<longrightarrow> remaining < tokens_of (take first h) - tokens_of (take j h))"
  using assms
proof (induction bs arbitrary: first remaining rule: rev_induct)
  case (snoc b bs)
  let ?st = "br_start b" and ?rem = "remaining - int (br_tokens b)"
  have t: "tiles h 0 bs ?st" "boundary h ?st" "?st < first" "br_end b = first"
    "int (br_tokens b) = tokens_of (take first h) - tokens_of (take ?st h)"
    "\<forall>i. ?st < i \<and> i < first \<longrightarrow> \<not> boundary h i"
    using snoc.prems(1) by (auto simp: tiles_snoc)
  have mono: "tokens_of (take i h) \<le> tokens_of (take j h)" if "i \<le> j" for i j
    using that take_add [of i "j - i" h] by simp
  show ?case
  proof (cases "remaining < int (br_tokens b)")
    case True
    have "remaining < tokens_of (take first h) - tokens_of (take j h)" if "j < first" "boundary h j" for j
    proof -
      have "j \<le> ?st" using t(6) that by (metis linorder_not_le)
      then show ?thesis using mono [of j ?st] True t(5) by linarith
    qed
    then show ?thesis using True snoc.prems by simp
  next
    case False
    then have "k \<le> ?st \<and> boundary h k \<and> tokens_of (take ?st h) - tokens_of (take k h) \<le> ?rem \<and>
        (\<forall>j < k. boundary h j \<longrightarrow> ?rem < tokens_of (take ?st h) - tokens_of (take j h))"
      using snoc.prems t(3) by (intro snoc.IH [OF t(1,2)]) auto
    then show ?thesis using t(3,5) by auto
  qed
qed auto

section \<open>Speakers: lemmas\<close>

lemma clean_plan_allowed: "set (clean_plan allowed seen n ids) \<subseteq> set allowed \<inter> set ids - seen"
  by (induction allowed seen n ids rule: clean_plan.induct) auto

lemma clean_plan_distinct: "distinct (clean_plan allowed seen n ids)"
  by (induction allowed seen n ids rule: clean_plan.induct)
    (auto dest!: subsetD [OF clean_plan_allowed])

lemma clean_plan_length: "n \<le> 5 \<Longrightarrow> n + length (clean_plan allowed seen n ids) \<le> 5"
  by (induction allowed seen n ids rule: clean_plan.induct) force+

lemma first_allowed_Some: "first_allowed allowed ids = Some i \<Longrightarrow> i \<in> set allowed \<and> i \<in> set ids"
  by (induction ids) (auto split: if_splits)

lemma first_allowed_None: "first_allowed allowed ids = None \<longleftrightarrow> set ids \<inter> set allowed = {}"
  by (induction ids) auto

lemma clean_plan_empty: "n < 5 \<Longrightarrow> clean_plan allowed seen n ids = [] \<longleftrightarrow> set allowed \<inter> set ids \<subseteq> seen"
  by (induction allowed seen n ids rule: clean_plan.induct) auto

lemma group_participants: "map ch_id (sp_participants group_space) = [haruhi, kyon, yuki, mikuru, koizumi]"
  by (simp add: group_space_def all_characters_def registry_ids)

lemma group_space_ids:
  "find_space i = Some sp \<Longrightarrow> sp_kind sp = space_group \<Longrightarrow> map ch_id (sp_participants sp) = map ch_id registry"
  using find_space_cases [of i sp] group_participants registry_ids
  by (auto simp: direct_space_def space_group_def space_direct_def)

text \<open>The participants a proposal names, each where it is named first.\<close>

definition named_in :: "character_id list \<Rightarrow> character_id list \<Rightarrow> character_id list" where
  "named_in allowed ids = rev (remdups (rev (filter (\<lambda>i. i \<in> set allowed) ids)))"

lemma remdups_snoc: "remdups (xs @ [x]) = filter (\<lambda>y. y \<noteq> x) (remdups xs) @ [x]"
  by (induction xs) auto

lemma named_in_simps [simp]:
  "named_in allowed [] = []"
  "named_in allowed (i # ids) =
    (if i \<in> set allowed then i # filter (\<lambda>j. j \<noteq> i) (named_in allowed ids) else named_in allowed ids)"
  by (simp_all add: named_in_def remdups_snoc rev_filter)

lemma clean_plan_named: "n \<le> 5 \<Longrightarrow>
    clean_plan allowed seen n ids = take (5 - n) (filter (\<lambda>i. i \<notin> seen) (named_in allowed ids))"
proof (induction allowed seen n ids rule: clean_plan.induct)
  case (2 allowed seen n i "is")
  have *: "filter (\<lambda>j. j \<notin> seen) (filter (\<lambda>j. j \<noteq> i) xs) = filter (\<lambda>j. j \<notin> insert i seen) xs" for xs :: "character_id list"
    by (simp add: conj_commute)
  have seen: "i \<in> seen \<Longrightarrow> filter (\<lambda>x. x \<noteq> i \<and> x \<notin> seen) xs = filter (\<lambda>j. j \<notin> seen) xs" for xs :: "character_id list"
    by (rule filter_cong) auto
  show ?case
  proof (cases "n = 5 \<or> i \<notin> set allowed \<or> i \<in> seen")
    case True
    then show ?thesis using 2 by (auto simp: seen)
  next
    case False
    then have "n \<noteq> 5" by blast
    then have "5 - n = Suc (5 - Suc n)" using "2.prems" by arith
    then show ?thesis using 2(3) False "2.prems" by (simp add: *)
  qed
qed simp

lemma named_in_distinct: "distinct (named_in allowed ids)" "set (named_in allowed ids) = set allowed \<inter> set ids"
  by (auto simp: named_in_def)

lemma named_in_short: "length (named_in allowed ids) \<le> length allowed"
  using card_mono [of "set allowed" "set (named_in allowed ids)"] named_in_distinct [of allowed ids]
  by (metis List.finite_set card_length distinct_card inf_le1 le_trans)

lemma plan_speakers_cases:
  assumes sp: "map ch_id (sp_participants sp) = map ch_id registry"
    and "plan_speakers M sc sp history content s = (ids, s')"
    and "proposal = (case fst (rm_plan M \<lparr>pi_scope = sc, pi_space = sp, pi_history = history,
           pi_user = content, pi_addressed = resolve_aliases content\<rparr> s) of Inl _ \<Rightarrow> [] | Inr js \<Rightarrow> js)"
  shows "ids \<noteq> [] \<and> length ids \<le> 5 \<and> distinct ids \<and> set ids \<subseteq> set (map ch_id registry) \<and>
    (set proposal \<inter> set (map ch_id registry) = {} \<longrightarrow>
       ids = [if resolve_aliases content = [] then haruhi else hd (resolve_aliases content)]) \<and>
    (named_in (map ch_id registry) proposal \<noteq> [] \<longrightarrow> ids = named_in (map ch_id registry) proposal)"
proof -
  let ?al = "map ch_id registry" and ?ad = "resolve_aliases content"
  have ids: "ids = (if clean_plan ?al {} 0 proposal \<noteq> [] then clean_plan ?al {} 0 proposal
      else (case first_allowed ?al ?ad of Some i \<Rightarrow> [i] | None \<Rightarrow> [haruhi]))"
    using assms(2,3) sp by (auto simp: plan_speakers_def Let_def split: prod.splits)
  have mentioned: "first_allowed ?al ?ad = (if ?ad = [] then None else Some (hd ?ad))"
    using resolve_aliases_registered [of content] by (cases ?ad) auto
  have "length (named_in ?al proposal) \<le> 5" using named_in_short [of ?al proposal] by (simp add: registry_ids)
  then have named: "clean_plan ?al {} 0 proposal = named_in ?al proposal" by (simp add: clean_plan_named)
  have "haruhi \<in> set ?al" by (simp add: registry_ids)
  moreover have "hd ?ad \<in> set ?al" if "?ad \<noteq> []"
    using that resolve_aliases_registered [of content] by (cases ?ad) auto
  ultimately show ?thesis
    using clean_plan_allowed [of ?al "{}" 0 proposal] clean_plan_distinct [of ?al "{}" 0 proposal]
      clean_plan_length [of 0 ?al "{}" proposal] clean_plan_empty [of 0 ?al "{}" proposal]
    by (auto simp: ids mentioned Int_commute named [symmetric])
qed

section \<open>Properties\<close>

text \<open>
  C20. The history window: what the model is given is an unbroken end of the history that
  cuts no batch in two and fits the budget; and it is the longest such end, since starting at
  any earlier place between batches would exceed the budget.
\<close>

theorem history_window:
  "\<exists>k \<le> length h.
     select_history_batches h prompt user prefix_turns summaries = drop k h \<and> boundary h k \<and>
     tokens_of (drop k h) \<le> max 0 (remaining_budget prompt user prefix_turns summaries) \<and>
     (\<forall>j < k. boundary h j \<longrightarrow> remaining_budget prompt user prefix_turns summaries < tokens_of (drop j h))"
proof -
  let ?r = "remaining_budget prompt user prefix_turns summaries"
  have split: "tokens_of (drop j h) = tokens_of (take (length h) h) - tokens_of (take j h)" for j
    using tokens_of_simps(3) [of "take j h" "drop j h"] by simp
  show ?thesis
  proof (cases "?r \<le> 0 \<or> h = []")
    case True
    have "?r < tokens_of (drop j h)" if "j < length h" for j
    proof -
      have "tokens_of (drop j h) = int (estimate_message_tokens (h ! j)) + tokens_of (drop (Suc j) h)"
        using that by (metis Cons_nth_drop_Suc tokens_of_simps(2))
      then have "0 < tokens_of (drop j h)"
        using tokens_of_nonneg [of "drop (Suc j) h"] unfolding estimate_message_tokens_def by linarith
      then show ?thesis using that True by auto
    qed
    then show ?thesis using True
      by (intro exI [of _ "length h"]) (auto simp: select_history_batches_def boundary_def Let_def)
  next
    case False
    let ?k = "keep_ranges ?r (length h) (rev (batch_ranges 0 h))"
    have t: "tiles h 0 (batch_ranges 0 h) (length h)" "boundary h (length h)" "length h \<le> length h" "0 \<le> ?r"
      using tiles_batch_ranges [of h "[]" h] False by (auto simp: boundary_def)
    show ?thesis
      using False keep_ranges_fits [OF t refl] split
      by (intro exI [of _ ?k]) (simp add: select_history_batches_def Let_def)
  qed
qed

theorem history_window_witness:
  "select_history_batches [zero_turn] [] [] [] [] = [zero_turn] \<and> boundary [zero_turn] 0"
proof -
  have "estimate_tokens [] = 0" by (simp add: estimate_tokens_def runes_def)
  then have "tokens_of [zero_turn] = 8" "remaining_budget [] [] [] [] = 4800"
    by (simp_all add: estimate_message_tokens_def zero_turn_def remaining_budget_def
        default_context_token_budget_def)
  then show ?thesis using history_window [of "[zero_turn]" "[]" "[]" "[]" "[]"]
    by (auto simp: boundary_def le_Suc_eq)
qed

text \<open>
  C21. The speakers of a group turn: the participants the model's plan names, each once, in the
  order in which the plan names them first; if it names none (or the model fails), the first
  character the user mentions alone, and Haruhi if the user mentions none. So there are always
  one to five different ones, all of them participants.
\<close>

theorem speakers_of_group_turn:
  assumes "find_space (cp_conversation sc) = Some sp" "sp_kind sp = space_group"
    and "plan_speakers M sc sp history content s = (ids, s')"
    and "proposal = (case fst (rm_plan M \<lparr>pi_scope = sc, pi_space = sp, pi_history = history,
           pi_user = content, pi_addressed = resolve_aliases content\<rparr> s) of Inl _ \<Rightarrow> [] | Inr js \<Rightarrow> js)"
    and "named = rev (remdups (rev (filter (\<lambda>i. i \<in> set (map ch_id (sp_participants sp))) proposal)))"
  shows "ids = (if named \<noteq> [] then named else [if resolve_aliases content = [] then haruhi else hd (resolve_aliases content)]) \<and>
    ids \<noteq> [] \<and> length ids \<le> 5 \<and> distinct ids \<and> set ids \<subseteq> set (map ch_id (sp_participants sp))"
proof -
  have named: "named = named_in (map ch_id registry) proposal"
    unfolding assms(5) named_in_def group_space_ids [OF assms(1,2)] ..
  then have "named = [] \<longleftrightarrow> set proposal \<inter> set (map ch_id registry) = {}"
    using named_in_distinct(2) [of "map ch_id registry" proposal] by (metis Int_commute set_empty)
  then show ?thesis
    using plan_speakers_cases [OF group_space_ids [OF assms(1,2)] assms(3,4)] named
    unfolding group_space_ids [OF assms(1,2)] by simp
qed

theorem speakers_of_group_turn_witness:
  "\<exists>ids s'. plan_speakers \<lparr>rm_plan = \<lambda>_ s. (Inr [''yuki'', ''nobody'', ''kyon'', ''yuki''], s), rm_generate = \<lambda>_ s. (Inr ''hi'', s),
       rm_summarize = \<lambda>_ s. (Inr [], s)\<rparr>
     \<lparr>cp_owner = \<lparr>ow_channel = ''api'', ow_id = ''u''\<rparr>, cp_conversation = ''sos-group''\<rparr> group_space [] [] () = (ids, s') \<and>
     ids = [yuki, kyon]"
proof -
  let ?M = "\<lparr>rm_plan = \<lambda>_ s. (Inr [''yuki'', ''nobody'', ''kyon'', ''yuki''], s), rm_generate = \<lambda>_ s. (Inr ''hi'', s),
       rm_summarize = \<lambda>_ s. (Inr [], s)\<rparr> :: unit reply_model"
  let ?sc = "\<lparr>cp_owner = \<lparr>ow_channel = ''api'', ow_id = ''u''\<rparr>, cp_conversation = ''sos-group''\<rparr>"
  obtain ids s' where p: "plan_speakers ?M ?sc group_space [] [] () = (ids, s')" by (metis surj_pair)
  have sp: "find_space (cp_conversation ?sc) = Some group_space"
    by (simp add: find_space_def fixed_spaces_def group_space_def)
  have kind: "sp_kind group_space = space_group" by (simp add: group_space_def)
  have "rev (remdups (rev (filter (\<lambda>i. i \<in> set (map ch_id (sp_participants group_space))) [''yuki'', ''nobody'', ''kyon'', ''yuki'']))) =
      [yuki, kyon]"
    unfolding group_participants by (simp add: haruhi_def kyon_def yuki_def mikuru_def koizumi_def)
  then have "ids = [yuki, kyon]"
    using speakers_of_group_turn [OF sp kind p refl refl] by simp
  then show ?thesis using p by blast
qed

end
