(* ===== verification/Replies.thy ===== *)
theory Replies
  imports Spaces
begin

text \<open>
  What is said to the language model and what is made of its answers: the adapter
  \<open>orchestration/deepseek.go\<close> with the normalisation of a character's reply, and the older
  \<open>chat.Replier\<close> and \<open>summarize.Summarizer\<close>. The model itself (interface \<open>chat.Model\<close>) is a
  parameter: a function from the messages to an error, a missing message or its text.

  The regular expression for speaker headers is translated into a matcher: its labels are no
  prefixes of each other and every repetition in it ends at a character it cannot match, so
  the leftmost match is the only one. \<open>cut_headers\<close> gives the text before the first match and,
  per match, its label and the text up to the next match.
\<close>

section \<open>Messages to the model\<close>

datatype chat_role = SystemRole | UserRole | AssistantRole

record chat_message =
  cm_role :: chat_role
  cm_content :: string

type_synonym 's chat = "chat_message list \<Rightarrow> ('s, string option) io"

definition system_message :: "string \<Rightarrow> chat_message" where
  "system_message t = \<lparr>cm_role = SystemRole, cm_content = t\<rparr>"

definition user_message :: "string \<Rightarrow> chat_message" where
  "user_message t = \<lparr>cm_role = UserRole, cm_content = t\<rparr>"

definition assistant_message :: "string \<Rightarrow> chat_message" where
  "assistant_message t = \<lparr>cm_role = AssistantRole, cm_content = t\<rparr>"

text \<open>The texts of the prompts.\<close>

definition character_reply_instruction :: string where
  "character_reply_instruction = utf8 [
    21482, 36755, 20986, 24403, 21069, 35282, 33394, 33258, 24049, 30340, 21457, 35328, 27491,
    25991, 12290, 19981, 35201, 28155, 21152, 35282, 33394, 21517, 12289, 35282, 33394, 32,
    73, 68, 32, 25110, 20882, 21495, 21069, 32512, 65292, 19981, 35201, 26367, 20854, 20182,
    35282, 33394, 21457, 35328, 65292, 20063, 19981, 35201, 32493, 20889, 22810, 20154, 23545,
    35805, 12290]"

definition recent_chat_head :: string where
  "recent_chat_head = utf8 [
    26368, 36817, 32676, 32842, 65306, 10]"

definition addressed_head :: string where
  "addressed_head = utf8 [
    29992, 25143, 26126, 30830, 25552, 21450, 65306]"

definition current_head :: string where
  "current_head = utf8 [
    24403, 21069, 29992, 25143, 28040, 24687, 65306]"

definition planner_prompt :: string where
  "planner_prompt = utf8 [
    36873, 25321, 26412, 36718, 26377, 24517, 35201, 21457, 35328, 30340, 35282, 33394, 12290,
    21482, 36820, 22238, 32, 49, 32, 21040, 32, 53, 32, 20010, 21807, 19968, 35282, 33394, 32,
    73, 68, 32, 30340, 32, 74, 83, 79, 78, 32, 25968, 32452, 65292, 19981, 35201, 35299,
    37322, 12290, 21487, 36873, 65306]"

definition wide_semicolon :: string where
  "wide_semicolon = utf8 [
    65307]"

definition memory_head :: string where
  "memory_head = utf8 [
    26412, 20250, 35805, 26368, 36817, 35760, 24518, 65306, 10]"

definition summary_prompt :: string where
  "summary_prompt = utf8 [
    21482, 25552, 28860, 29992, 25143, 26126, 30830, 38472, 36848, 30340, 37325, 35201, 20107,
    23454, 21644, 20107, 20214, 65292, 24182, 20445, 30041, 35828, 35805, 32773, 24402, 23646,
    12290]"

definition week_memory_head :: string where
  "week_memory_head = utf8 [
    26368, 36817, 32, 55, 32, 22825, 35760, 24518, 25688, 35201, 65306, 10]"

definition day_summary_prompt :: string where
  "day_summary_prompt = utf8 [
    35831, 25226, 20197, 19979, 24403, 22825, 23545, 35805, 25972, 29702, 25104, 19968, 27573,
    31616, 30701, 35760, 24518, 25688, 35201, 65292, 21482, 20445, 30041, 29992, 25143, 30340,
    37325, 35201, 20107, 23454, 12289, 20559, 22909, 21644, 24403, 22825, 20027, 35201, 20107,
    20214, 12290]"

definition newline :: char where "newline = chr 10"

section \<open>The older replier and summarizer\<close>

record chat_turn =
  ct_role :: string
  ct_content :: string

definition history_message :: "chat_turn \<Rightarrow> chat_message" where
  "history_message t =
     (if ct_role t = ''assistant'' then assistant_message (ct_content t) else user_message (ct_content t))"

definition reply_messages :: "string list \<Rightarrow> chat_turn list \<Rightarrow> string \<Rightarrow> chat_message list" where
  "reply_messages summaries history user =
     [system_message system_prompt] @
     (if summaries \<noteq> [] then [system_message (week_memory_head @ join [newline] summaries)] else []) @
     map history_message history @ [user_message user]"

text \<open>A missing message is dereferenced: the call panics.\<close>

definition replier_reply :: "'s chat \<Rightarrow> string list \<Rightarrow> chat_turn list \<Rightarrow> string \<Rightarrow> ('s, string) io" where
  "replier_reply C summaries history user s =
     (case C (reply_messages summaries history user) s of
        (Inl e, s') \<Rightarrow> (Inl e, s')
      | (Inr None, s') \<Rightarrow> (Inl ErrPanic, s')
      | (Inr (Some out), s') \<Rightarrow> (Inr (trim_space out), s'))"

definition summarizer_text :: "chat_turn list \<Rightarrow> string" where
  "summarizer_text history = concat (map (\<lambda>t. ct_role t @ '': '' @ ct_content t @ [newline]) history)"

definition summarizer_summarize :: "'s chat \<Rightarrow> chat_turn list \<Rightarrow> ('s, string) io" where
  "summarizer_summarize C history s =
     (if history = [] then (Inr [], s)
      else case C [system_message day_summary_prompt, user_message (summarizer_text history)] s of
             (Inl e, s') \<Rightarrow> (Inl e, s')
           | (Inr None, s') \<Rightarrow> (Inl ErrPanic, s')
           | (Inr (Some out), s') \<Rightarrow> (Inr (trim_space out), s'))"

section \<open>Speaker headers\<close>

definition blank :: "char \<Rightarrow> bool" where
  "blank c \<longleftrightarrow> code c = 9 \<or> code c = 32"

definition skip_blank :: "string \<Rightarrow> string" where
  "skip_blank s = dropWhile blank s"

definition speaker_labels :: "string list" where
  "speaker_labels = concat (map (\<lambda>c. [ch_display c, ch_id c]) all_characters)"

fun match_label :: "string list \<Rightarrow> string \<Rightarrow> (string \<times> string) option" where
  "match_label [] s = None"
| "match_label (l # ls) s = (if has_prefix s l then Some (l, drop (length l) s) else match_label ls s)"

text \<open>A remark in parentheses on the same line: runes other than CR, LF and the closing one.\<close>

definition after_close :: "rune \<Rightarrow> string \<Rightarrow> string option" where
  "after_close close s =
     (case dropWhile (\<lambda>g. fst g \<noteq> 13 \<and> fst g \<noteq> 10 \<and> fst g \<noteq> close) (segs s) of
        [] \<Rightarrow> None
      | g # gs \<Rightarrow> if fst g = close then Some (unsegs gs) else None)"

definition wide_open :: string where "wide_open = utf8 [0xFF08]"
definition wide_colon :: string where "wide_colon = utf8 [0xFF1A]"

definition skip_note :: "string \<Rightarrow> string" where
  "skip_note s =
     (if has_prefix s ''('' then (case after_close 41 (drop 1 s) of Some r \<Rightarrow> r | None \<Rightarrow> s)
      else if has_prefix s wide_open then (case after_close 0xFF09 (drop 3 s) of Some r \<Rightarrow> r | None \<Rightarrow> s)
      else s)"

definition skip_colon :: "string \<Rightarrow> string option" where
  "skip_colon s =
     (if has_prefix s '':'' then Some (drop 1 s)
      else if has_prefix s wide_colon then Some (drop 3 s) else None)"

text \<open>A header at the start of a line: its label, and the text after it.\<close>

definition match_header :: "string \<Rightarrow> (string \<times> string) option" where
  "match_header s =
     (case match_label speaker_labels (skip_blank s) of
        None \<Rightarrow> None
      | Some (l, s1) \<Rightarrow>
          (case skip_colon (skip_blank (skip_note (skip_blank s1))) of
             None \<Rightarrow> None
           | Some s2 \<Rightarrow> Some (l, skip_blank s2)))"

lemma length_skip_blank: "length (skip_blank s) \<le> length s"
  by (simp add: skip_blank_def length_dropWhile_le)

lemma match_label_length: "match_label ls s = Some (l, r) \<Longrightarrow> length r \<le> length s"
  by (induction ls) (auto split: if_splits)

lemma length_segs_suffix: "segs s = xs @ ys \<Longrightarrow> length (unsegs ys) \<le> length s"
proof -
  assume "segs s = xs @ ys"
  then have "s = unsegs xs @ unsegs ys" using unsegs_segs [of s] by (simp add: unsegs_def)
  then show ?thesis by simp
qed

lemma after_close_length: "after_close k s = Some r \<Longrightarrow> length r \<le> length s"
proof -
  assume a: "after_close k s = Some r"
  let ?P = "\<lambda>g :: rune \<times> string. fst g \<noteq> 13 \<and> fst g \<noteq> 10 \<and> fst g \<noteq> k"
  obtain g gs where g: "dropWhile ?P (segs s) = g # gs" "r = unsegs gs"
    using a by (auto simp: after_close_def split: list.splits if_splits)
  have "segs s = (takeWhile ?P (segs s) @ [g]) @ gs" using g(1) takeWhile_dropWhile_id [of ?P "segs s"] by simp
  then show "length r \<le> length s" unfolding g(2) by (rule length_segs_suffix)
qed

lemma length_skip_note: "length (skip_note s) \<le> length s"
  using after_close_length [of 41 "drop 1 s"] after_close_length [of "0xFF09" "drop 3 s"]
  by (auto simp: skip_note_def split: option.splits)

lemma has_prefix_length: "has_prefix s p \<Longrightarrow> length p \<le> length s"
  by (metis has_prefix_def length_take min.cobounded1 nat_le_linear min.absorb1)

lemma skip_colon_length: "skip_colon s = Some r \<Longrightarrow> length r < length s"
  by (auto simp: skip_colon_def wide_colon_def utf8_def utf8_char_def dest!: has_prefix_length split: if_splits)

lemma match_header_length: "match_header s = Some (l, r) \<Longrightarrow> length r < length s"
proof -
  assume m: "match_header s = Some (l, r)"
  then obtain s1 s2 where s: "match_label speaker_labels (skip_blank s) = Some (l, s1)"
    "skip_colon (skip_blank (skip_note (skip_blank s1))) = Some s2" "r = skip_blank s2"
    by (auto simp: match_header_def split: option.splits prod.splits)
  have "length s2 < length (skip_blank (skip_note (skip_blank s1)))" using s(2) by (rule skip_colon_length)
  also have "\<dots> \<le> length s1"
    using length_skip_blank [of "skip_note (skip_blank s1)"] length_skip_note [of "skip_blank s1"]
      length_skip_blank [of s1] by linarith
  also have "\<dots> \<le> length s" using match_label_length [OF s(1)] length_skip_blank [of s] by linarith
  finally show "length r < length s" using s(3) length_skip_blank [of s2] by simp
qed

lemma length_trim_space: "length (trim_space s) \<le> length s"
proof -
  let ?d = "dropWhile space_seg (segs s)"
  obtain ys where "?d = rdropWhile space_seg ?d @ ys" using rdropWhile_prefix by blast
  then have "length (unsegs (rdropWhile space_seg ?d)) \<le> length (unsegs ?d)"
    by (metis length_append le_add1 concat_append map_append unsegs_def)
  moreover have "length (unsegs ?d) \<le> length s"
    by (rule length_segs_suffix [of s "takeWhile space_seg (segs s)"]) simp
  ultimately show ?thesis by (simp add: trim_space_def)
qed

text \<open>All matches of the pattern, from left to right; \<open>bol\<close> tells whether a line starts here.\<close>

function cut_headers :: "bool \<Rightarrow> string \<Rightarrow> string \<times> (string \<times> string) list" where
  "cut_headers bol [] = ([], [])"
| "cut_headers bol (c # cs) =
     (case (if bol then match_header (c # cs) else None) of
        Some (l, rest) \<Rightarrow> (let (body, more) = cut_headers False rest in ([], (l, body) # more))
      | None \<Rightarrow> (let (pre, more) = cut_headers (c = newline) cs in (c # pre, more)))"
  by pat_completeness auto
termination
  by (relation "measure (\<lambda>(_, s). length s)") (auto dest: match_header_length split: if_splits)

section \<open>A character's reply\<close>

definition is_character_label :: "string \<Rightarrow> character \<Rightarrow> bool" where
  "is_character_label l ch \<longleftrightarrow> l = ch_display ch \<or> l = ch_id ch"

function strip_headers :: "character \<Rightarrow> string \<Rightarrow> string" where
  "strip_headers ch text =
     (case match_header text of
        None \<Rightarrow> text
      | Some (l, rest) \<Rightarrow> if is_character_label l ch then strip_headers ch (trim_space rest) else text)"
  by pat_completeness auto
termination
  by (relation "measure (\<lambda>(_, s). length s)")
    (auto intro: le_less_trans [OF length_trim_space] dest: match_header_length)

declare strip_headers.simps [simp del]

definition strip_repeated_character_headers :: "string \<Rightarrow> character \<Rightarrow> string" where
  "strip_repeated_character_headers text ch = strip_headers ch (trim_space text)"

fun replace_crlf :: "string \<Rightarrow> string" where
  "replace_crlf [] = []"
| "replace_crlf [c] = [c]"
| "replace_crlf (c # d # s) =
     (if code c = 13 \<and> code d = 10 then newline # replace_crlf s else c # replace_crlf (d # s))"

definition normalize_character_reply :: "string \<Rightarrow> character \<Rightarrow> string" where
  "normalize_character_reply raw ch =
     (let text = trim_space (replace_crlf raw) in
      if text = [] then []
      else case cut_headers True text of
             (pre, []) \<Rightarrow> text
           | (pre, hs) \<Rightarrow>
               (case find (\<lambda>(l, body). is_character_label l ch) hs of
                  Some (l, body) \<Rightarrow> strip_repeated_character_headers body ch
                | None \<Rightarrow> trim_space pre))"

definition normalize_message :: "turn \<Rightarrow> turn" where
  "normalize_message m =
     (if tn_speaker_kind m \<noteq> speaker_character then m
      else case find_character (tn_speaker m) of
             None \<Rightarrow> m
           | Some ch \<Rightarrow> m\<lparr>tn_content := normalize_character_reply (tn_content m) ch\<rparr>)"

definition normalize_character_messages :: "turn list \<Rightarrow> turn list" where
  "normalize_character_messages ms = map normalize_message ms"

section \<open>The planner's answer\<close>

text \<open>
  \<open>json.Unmarshal\<close> into a slice of strings: an array of strings and \<open>null\<close>s (which stay
  empty), or \<open>null\<close>; anything else is an error. Runes that are not well-formed UTF-8 become
  \<open>U+FFFD\<close>, as do lone surrogates.
\<close>

definition skip_json_space :: "rune list \<Rightarrow> rune list" where
  "skip_json_space rs = dropWhile (\<lambda>r. r = 32 \<or> r = 9 \<or> r = 10 \<or> r = 13) rs"

definition hex_rune :: "rune \<Rightarrow> nat option" where
  "hex_rune r =
     (if 48 \<le> r \<and> r \<le> 57 then Some (r - 48)
      else if 65 \<le> r \<and> r \<le> 70 then Some (r - 55)
      else if 97 \<le> r \<and> r \<le> 102 then Some (r - 87) else None)"

fun hex4 :: "rune list \<Rightarrow> (nat \<times> rune list) option" where
  "hex4 (a # b # c # d # rs) =
     (case (hex_rune a, hex_rune b, hex_rune c, hex_rune d) of
        (Some w, Some x, Some y, Some z) \<Rightarrow> Some (((w * 16 + x) * 16 + y) * 16 + z, rs)
      | _ \<Rightarrow> None)"
| "hex4 _ = None"

text \<open>After \<open>\u\<close> and a high surrogate: the pair, if a low surrogate follows.\<close>

fun low_surrogate :: "rune list \<Rightarrow> (nat \<times> rune list) option" where
  "low_surrogate (b # u # rs) =
     (if b = 92 \<and> u = 117 then
        (case hex4 rs of
           Some (l, rest) \<Rightarrow> if 0xDC00 \<le> l \<and> l < 0xE000 then Some (l, rest) else None
         | None \<Rightarrow> None)
      else None)"
| "low_surrogate _ = None"

definition json_unicode :: "rune list \<Rightarrow> (rune \<times> rune list) option" where
  "json_unicode rs =
     (case hex4 rs of
        None \<Rightarrow> None
      | Some (h, rest) \<Rightarrow>
          if 0xD800 \<le> h \<and> h < 0xE000 then
            (case (if h < 0xDC00 then low_surrogate rest else None) of
               Some (l, rest') \<Rightarrow> Some (0x10000 + (h - 0xD800) * 1024 + (l - 0xDC00), rest')
             | None \<Rightarrow> Some (rune_error, rest))
          else Some (h, rest))"

fun json_escape :: "rune list \<Rightarrow> (rune \<times> rune list) option" where
  "json_escape [] = None"
| "json_escape (e # rs) =
     (if e = 34 \<or> e = 92 \<or> e = 47 then Some (e, rs)
      else if e = 98 then Some (8, rs)
      else if e = 102 then Some (12, rs)
      else if e = 110 then Some (10, rs)
      else if e = 114 then Some (13, rs)
      else if e = 116 then Some (9, rs)
      else if e = 117 then json_unicode rs
      else None)"

lemma hex4_length: "hex4 rs = Some (n, rest) \<Longrightarrow> length rest < length rs"
  by (induction rs rule: hex4.induct) (auto split: option.splits)

lemma low_surrogate_length: "low_surrogate rs = Some (n, rest) \<Longrightarrow> length rest < length rs"
  by (induction rs rule: low_surrogate.induct) (auto split: option.splits if_splits dest: hex4_length)

lemma json_escape_length: "json_escape rs = Some (n, rest) \<Longrightarrow> length rest < length rs"
  by (cases rs) (auto simp: json_unicode_def split: option.splits if_splits
      dest!: hex4_length low_surrogate_length)

function json_string :: "rune list \<Rightarrow> (string \<times> rune list) option" where
  "json_string [] = None"
| "json_string (r # rs) =
     (if r = 34 then Some ([], rs)
      else if r < 32 then None
      else if r = 92 then
        (case json_escape rs of
           None \<Rightarrow> None
         | Some (c, rest) \<Rightarrow> map_option (\<lambda>(t, r'). (utf8_char c @ t, r')) (json_string rest))
      else map_option (\<lambda>(t, r'). (utf8_char r @ t, r')) (json_string rs))"
  by pat_completeness auto
termination
  by (relation "measure length") (auto dest: json_escape_length)

lemma json_string_length: "json_string rs = Some (t, rest) \<Longrightarrow> length rest < length rs"
  by (induction rs arbitrary: t rest rule: json_string.induct)
    (force split: option.splits if_splits dest: json_escape_length)+

definition json_null :: "rune list" where "json_null = [110, 117, 108, 108]"

definition json_item :: "rune list \<Rightarrow> (string \<times> rune list) option" where
  "json_item rs =
     (case rs of
        [] \<Rightarrow> None
      | r # rest \<Rightarrow>
          if r = 34 then json_string rest
          else if take 4 rs = json_null then Some ([], drop 4 rs) else None)"

lemma json_item_length: "json_item rs = Some (t, rest) \<Longrightarrow> length rest < length rs"
  by (auto simp: json_item_def dest: json_string_length split: list.splits if_splits)

lemma skip_json_space_length: "length (skip_json_space rs) \<le> length rs"
  by (simp add: skip_json_space_def length_dropWhile_le)

function json_items :: "rune list \<Rightarrow> string list option" where
  "json_items rs =
     (case json_item (skip_json_space rs) of
        None \<Rightarrow> None
      | Some (x, r1) \<Rightarrow>
          (case skip_json_space r1 of
             [] \<Rightarrow> None
           | r # r2 \<Rightarrow>
               if r = 44 then map_option ((#) x) (json_items r2)
               else if r = 93 \<and> skip_json_space r2 = [] then Some [x] else None))"
  by pat_completeness auto
termination
proof (relation "measure length")
  fix rs x r1 r r2 and p :: "string \<times> rune list"
  assume a: "json_item (skip_json_space rs) = Some p" "(x, r1) = p" "skip_json_space r1 = r # r2"
  have "length r2 < length (skip_json_space r1)" using a(3) by simp
  then show "(r2, rs) \<in> measure length"
    using json_item_length [of "skip_json_space rs" x r1] a(1,2) skip_json_space_length [of r1]
      skip_json_space_length [of rs] by simp
qed simp

declare json_items.simps [simp del]

definition json_string_array :: "string \<Rightarrow> string list option" where
  "json_string_array raw =
     (case skip_json_space (runes raw) of
        [] \<Rightarrow> None
      | r # rs \<Rightarrow>
          if r = 91 then
            (case skip_json_space rs of
               [] \<Rightarrow> None
             | q # rest \<Rightarrow> if q = 93 then (if skip_json_space rest = [] then Some [] else None)
                           else json_items rs)
          else if take 4 (r # rs) = json_null \<and> skip_json_space (drop 4 (r # rs)) = [] then Some []
          else None)"

section \<open>The adapter\<close>

definition speaker_line :: "turn \<Rightarrow> string" where
  "speaker_line m = tn_display m @ ''('' @ tn_speaker m @ ''): '' @ tn_content m"

definition plan_request :: "plan_input \<Rightarrow> string" where
  "plan_request i =
     (let selected = select_history_batches (pi_history i) ''speaker planner'' (pi_user i) [] [] in
      (if selected \<noteq> [] then recent_chat_head @ concat (map (\<lambda>m. speaker_line m @ [newline]) selected) else []) @
      (if pi_addressed i \<noteq> [] then addressed_head @ join '','' (pi_addressed i) @ [newline] else []) @
      current_head @ pi_user i)"

definition deepseek_plan :: "'s chat \<Rightarrow> plan_input \<Rightarrow> ('s, character_id list) io" where
  "deepseek_plan C i s =
     (let participants = map (\<lambda>p. ch_id p @ ''='' @ ch_description p) (sp_participants (pi_space i)) in
      case C [system_message (planner_prompt @ join wide_semicolon participants),
              user_message (plan_request i)] s of
        (Inl e, s') \<Rightarrow> (Inl e, s')
      | (Inr None, s') \<Rightarrow> (Inl (ErrText ''invalid planner output''), s')
      | (Inr (Some out), s') \<Rightarrow>
          (let raw = trim_space out in
           if raw = [] \<or> 1024 < length raw then (Inl (ErrText ''invalid planner output''), s')
           else case json_string_array raw of
                  None \<Rightarrow> (Inl (ErrText ''invalid planner output''), s')
                | Some ids \<Rightarrow> (Inr ids, s')))"

definition model_message :: "turn \<Rightarrow> chat_message" where
  "model_message m =
     (if tn_speaker_kind m = speaker_user \<or> tn_role m = role_user then user_message (tn_content m)
      else assistant_message (speaker_line m))"

definition generate_messages :: "character_input \<Rightarrow> chat_message list" where
  "generate_messages i =
     [system_message (ch_prompt (ci_character i) @ [newline, newline] @ character_reply_instruction)] @
     (if ci_summaries i \<noteq> [] then [system_message (memory_head @ join [newline] (ci_summaries i))] else []) @
     map model_message (ci_history i) @ [user_message (tn_content (ci_user i))] @
     map (\<lambda>m. assistant_message (speaker_line m)) (ci_prefix i)"

definition deepseek_generate :: "'s chat \<Rightarrow> character_input \<Rightarrow> ('s, string) io" where
  "deepseek_generate C i s =
     (case C (generate_messages i) s of
        (Inl e, s') \<Rightarrow> (Inl e, s')
      | (Inr None, s') \<Rightarrow> (Inl (ErrText ''empty model output''), s')
      | (Inr (Some out), s') \<Rightarrow> (Inr (normalize_character_reply out (ci_character i)), s'))"

definition deepseek_summarize :: "'s chat \<Rightarrow> summary_input \<Rightarrow> ('s, string) io" where
  "deepseek_summarize C i s =
     (let text = concat (map (\<lambda>m. tn_speaker m @ '': '' @ tn_content m @ [newline]) (si_messages i)) in
      case C [system_message summary_prompt, user_message text] s of
        (Inl e, s') \<Rightarrow> (Inl e, s')
      | (Inr None, s') \<Rightarrow> (Inl (ErrText ''empty model output''), s')
      | (Inr (Some out), s') \<Rightarrow> (Inr (trim_space out), s'))"

definition deepseek_model :: "'s chat \<Rightarrow> 's reply_model" where
  "deepseek_model C = \<lparr>rm_plan = deepseek_plan C, rm_generate = deepseek_generate C,
     rm_summarize = deepseek_summarize C\<rparr>"

section \<open>Headers: lemmas\<close>

text \<open>Decoding does not look past the end of a rune, and resynchronises after broken ones.\<close>

lemma decode_continuation: "decode_rune c cs = (r, n) \<Longrightarrow> i < n - 1 \<Longrightarrow> 128 \<le> code (cs ! i)"
proof -
  assume d: "decode_rune c cs = (r, n)" and i: "i < n - 1"
  then obtain m lo hi where l: "lead_info (code c) = Some (m, lo, hi)" "cont_ok m lo hi cs" "n = Suc m"
    by (auto simp: decode_rune_def Let_def split: if_splits option.splits)
  moreover from l(1) have "m \<le> 3" "128 \<le> lo" by (auto simp: lead_info_def split: if_splits)
  ultimately have "i = 0 \<or> i = 1 \<and> 2 \<le> m \<or> i = 2 \<and> 3 \<le> m" using i by auto
  then show "128 \<le> code (cs ! i)"
    using l(2) \<open>128 \<le> lo\<close>
    by (cases cs; cases "tl cs"; cases "tl (tl cs)") (auto simp: cont_ok_def numeral_2_eq_2)
qed

lemma continuation_runes:
  "list_all (\<lambda>c. 128 \<le> code c \<and> code c \<le> 191) cs \<Longrightarrow> list_all (\<lambda>g. fst g = rune_error) (segs cs)"
  by (induction cs) (auto simp: decode_rune_def lead_info_def)

lemma decode_append:
  "decode_rune c (cs @ q) = decode_rune c cs \<or>
   decode_rune c cs = (rune_error, 1) \<and> list_all (\<lambda>c. 128 \<le> code c \<and> code c \<le> 191) cs"
proof (cases "lead_info (code c)")
  case None
  then show ?thesis by (simp add: decode_rune_def Let_def)
next
  case (Some x)
  then obtain m lo hi where l: "lead_info (code c) = Some (m, lo, hi)" by (cases x) auto
  have b: "m \<le> 3" "1 \<le> m" "128 \<le> lo" "hi \<le> 191" using l by (auto simp: lead_info_def split: if_splits)
  have big: "\<not> code c < 128" using l by (auto simp: lead_info_def split: if_splits)
  show ?thesis
  proof (cases "cont_ok m lo hi cs")
    case True
    then have "m \<le> length cs"
      using b by (cases cs; cases "tl cs"; cases "tl (tl cs)") (auto simp: cont_ok_def)
    then show ?thesis using True cont_ok_append [OF True, of q] l big by (simp add: decode_rune_def Let_def)
  next
    case False
    show ?thesis
    proof (cases "cont_ok m lo hi (cs @ q)")
      case True
      have "\<not> m \<le> length cs" using cont_ok_take [of m "length cs" lo hi "cs @ q"] b(2) True False by auto
      then have "length cs < 3" using b(1) by simp
      then have "list_all (\<lambda>c. 128 \<le> code c \<and> code c \<le> 191) cs"
        using True b \<open>\<not> m \<le> length cs\<close>
        by (cases cs; cases "tl cs"; cases "tl (tl cs)") (auto simp: cont_ok_def)
      then show ?thesis using False l big by (simp add: decode_rune_def Let_def)
    qed (use False l big in \<open>simp add: decode_rune_def Let_def\<close>)
  qed
qed

lemma after_close_simps:
  "after_close k [] = None"
  "decode_rune c cs = (r, n) \<Longrightarrow> after_close k (c # cs) =
     (if r = k then Some (drop (n - 1) cs) else if r = 13 \<or> r = 10 then None
      else after_close k (drop (n - 1) cs))"
  by (auto simp: after_close_def)

lemma after_close_append:
  "after_close k p = Some r \<Longrightarrow> k \<noteq> rune_error \<Longrightarrow> after_close k (p @ q) = Some (r @ q)"
proof (induction p rule: segs.induct)
  case (2 c cs)
  obtain x n where d: "decode_rune c cs = (x, n)" by fastforce
  consider "decode_rune c (cs @ q) = (x, n)" |
    "x = rune_error" "n = 1" "list_all (\<lambda>c. 128 \<le> code c \<and> code c \<le> 191) cs"
    using decode_append [of c cs q] d by auto
  then show ?case
  proof cases
    case 1
    have "n - 1 \<le> length cs" using decode_rune_width [OF d] by arith
    then show ?thesis using 1 d "2.prems" "2.IH" [OF d [symmetric] refl] by (auto simp: after_close_simps(2) split: if_splits)
  next
    case 2
    then have "after_close k cs = Some r"
      using d "2.prems" by (auto simp: after_close_simps(2) rune_error_def split: if_splits)
    moreover have "dropWhile (\<lambda>g. fst g \<noteq> 13 \<and> fst g \<noteq> 10 \<and> fst g \<noteq> k) (segs cs) = []"
      using continuation_runes [OF 2(3)] "2.prems"(2) by (auto simp: list_all_iff dropWhile_eq_Nil_conv rune_error_def)
    ultimately show ?thesis by (simp add: after_close_def)
  qed
qed (simp add: after_close_simps(1))

lemma skip_blank_append: "skip_blank p \<noteq> [] \<Longrightarrow> skip_blank (p @ q) = skip_blank p @ q"
  by (induction p) (auto simp: skip_blank_def)

lemma has_prefix_mono: "has_prefix p l \<Longrightarrow> has_prefix (p @ q) l"
  by (metis append.assoc append_take_drop_id has_prefix_append has_prefix_def)

lemma speaker_labels_eq:
  "speaker_labels = [utf8 [20937, 23467, 26149, 26085], ''haruhi'', utf8 [38463, 34394], ''kyon'',
     utf8 [38271, 38376, 26377, 24076], ''yuki'', utf8 [26397, 27604, 22856, 23454, 29590, 29792], ''mikuru'',
     utf8 [21476, 27849, 19968, 26641], ''koizumi'']"
  by (simp add: speaker_labels_def all_characters_def registry_defs)

lemma chr_eq: "n < 256 \<Longrightarrow> chr n = c \<longleftrightarrow> n = code c" "n < 256 \<Longrightarrow> c = chr n \<longleftrightarrow> code c = n"
  by auto

lemma code_letter: "code (CHR ''('') = 40" "code (CHR '':'') = 58" "code (CHR '','') = 44"
  "code (CHR ''['') = 91" "code (CHR '']'') = 93"
  by (simp_all add: code_def)

lemma of_chr: "n < 256 \<Longrightarrow> of_char (chr n) = n"
  by (metis code_chr code_def)

lemma labels_prefix_free:
  "list_all (\<lambda>l'. list_all (\<lambda>l. has_prefix l' l \<longrightarrow> l = l') speaker_labels) speaker_labels"
  unfolding speaker_labels_eq by (simp add: has_prefix_def utf8_def utf8_char_def chr_eq code_def of_chr)

lemma match_label_append:
  assumes "match_label ls p = Some (l, r)" "set ls \<subseteq> set speaker_labels"
  shows "match_label ls (p @ q) = Some (l, r @ q)"
  using assms
proof (induction ls)
  case (Cons k ls)
  show ?case
  proof (cases "has_prefix p k")
    case True
    then have "length k \<le> length p" by (rule has_prefix_length)
    then show ?thesis using Cons.prems True has_prefix_mono [OF True] by (auto simp: Let_def)
  next
    case False
    then have m: "match_label ls p = Some (l, r)" using Cons.prems by simp
    have "l \<in> set ls \<and> has_prefix p l"
      using m by (induction ls) (auto split: if_splits)
    then have l: "l \<in> set ls" "has_prefix (p @ q) l" "length l \<le> length p"
      using has_prefix_mono has_prefix_length by auto
    have "\<not> has_prefix (p @ q) k"
    proof
      assume k: "has_prefix (p @ q) k"
      have "\<not> length k \<le> length p" using False k by (auto simp: has_prefix_def)
      moreover have "take (length l) k = take (min (length l) (length k)) (p @ q)"
        using k by (metis has_prefix_def take_take)
      ultimately have "has_prefix k l" using l(2,3) by (simp add: has_prefix_def min_absorb1)
      then have "k = l" using labels_prefix_free l(1) Cons.prems(2) by (auto simp: list_all_iff)
      then show False using \<open>\<not> length k \<le> length p\<close> l(3) by simp
    qed
    then show ?thesis using Cons.IH [OF m] Cons.prems(2) by simp
  qed
qed simp

lemma skip_note_append:
  assumes "skip_colon (skip_blank (skip_note p)) = Some t" "skip_blank p = p"
  shows "skip_note (p @ q) = skip_note p @ q"
proof -
  have plain: "has_prefix p '':'' \<or> has_prefix p wide_colon" if "skip_note p = p"
    using that assms by (auto simp: skip_colon_def split: if_splits)
  have lits: "wide_open = [chr 239, chr 188, chr 136]" "wide_colon = [chr 239, chr 188, chr 154]"
    by (simp_all add: wide_open_def wide_colon_def utf8_def utf8_char_def)
  show ?thesis
  proof (cases "has_prefix p ''('' \<or> has_prefix p wide_open")
    case True
    then have ne: "skip_note p \<noteq> p" using plain
      by (cases p) (auto simp: has_prefix_def lits chr_eq code_letter numeral_3_eq_3)
    have len: "has_prefix p wide_open \<Longrightarrow> 3 \<le> length p" "has_prefix p ''('' \<Longrightarrow> 1 \<le> length p"
      by (auto simp: lits dest: has_prefix_length)
    show ?thesis
    proof (cases "has_prefix p ''(''")
      case paren: True
      then obtain r where r: "after_close 41 (drop 1 p) = Some r" "skip_note p = r"
        using ne by (auto simp: skip_note_def split: option.splits)
      then show ?thesis using paren has_prefix_mono [OF paren] len(2) after_close_append [OF r(1), of q]
        by (simp add: skip_note_def rune_error_def)
    next
      case False
      then have w: "has_prefix p wide_open" using True by simp
      then obtain r where r: "after_close 0xFF09 (drop 3 p) = Some r" "skip_note p = r"
        using ne False by (auto simp: skip_note_def split: option.splits)
      have "\<not> has_prefix (p @ q) ''(''" using False len(1) [OF w] by (cases p) (auto simp: has_prefix_def)
      then show ?thesis using w has_prefix_mono [OF w] len(1) [OF w] r(2) after_close_append [OF r(1), of q]
        by (simp add: skip_note_def rune_error_def)
    qed
  next
    case False
    then have p: "skip_note p = p" by (simp add: skip_note_def)
    from plain [OF p] have "\<not> has_prefix (p @ q) ''('' \<and> \<not> has_prefix (p @ q) wide_open"
      by (cases p) (auto simp: has_prefix_def lits chr_eq code_letter numeral_3_eq_3)
    then show ?thesis using p by (simp add: skip_note_def)
  qed
qed


lemma match_label_Nil: "match_label speaker_labels [] = None"
  unfolding speaker_labels_eq by (simp add: has_prefix_def utf8_def utf8_char_def)

lemma skip_Nil [simp]: "skip_blank [] = []" "skip_note [] = []" "skip_colon [] = None"
  by (simp_all add: skip_blank_def skip_note_def skip_colon_def has_prefix_def wide_open_def
      wide_colon_def utf8_def utf8_char_def)

lemma match_header_Nil [simp]: "match_header [] = None"
  by (simp add: match_header_def match_label_Nil)

lemma skip_blank_idem [simp]: "skip_blank (skip_blank s) = skip_blank s"
  by (induction s) (auto simp: skip_blank_def)

lemma wide_colon_eq: "wide_colon = [chr 239, chr 188, chr 154]"
  by (simp add: wide_colon_def utf8_def utf8_char_def)

lemma skip_colon_append: "skip_colon w = Some t \<Longrightarrow> skip_colon (w @ q) = Some (t @ q)"
proof -
  assume w: "skip_colon w = Some t"
  have cut: "has_prefix w l \<Longrightarrow> w = l @ drop (length l) w" for l
    by (metis append_take_drop_id has_prefix_def)
  show ?thesis
  proof (cases "has_prefix w '':''")
    case True
    then obtain x where "w = '':'' @ x" "t = x" using w cut by (force simp: skip_colon_def)
    then show ?thesis by (simp add: skip_colon_def has_prefix_def)
  next
    case False
    then obtain x where "w = wide_colon @ x" "t = x"
      using w cut [of wide_colon] by (force simp: skip_colon_def wide_colon_eq split: if_splits)
    then show ?thesis by (simp add: skip_colon_def has_prefix_def wide_colon_eq chr_eq code_letter)
  qed
qed

lemma match_header_append:
  assumes "match_header p = Some (l, r)"
  shows "\<exists>r'. match_header (p @ q) = Some (l, r')"
proof -
  obtain s1 s2 where s: "match_label speaker_labels (skip_blank p) = Some (l, s1)"
    "skip_colon (skip_blank (skip_note (skip_blank s1))) = Some s2"
    using assms by (auto simp: match_header_def split: option.splits prod.splits)
  have "skip_blank p \<noteq> []" using s(1) match_label_Nil by auto
  then have "match_label speaker_labels (skip_blank (p @ q)) = Some (l, s1 @ q)"
    using match_label_append [OF s(1)] by (simp add: skip_blank_append)
  moreover have "skip_blank s1 \<noteq> []" using s(2) by auto
  then have "skip_note (skip_blank (s1 @ q)) = skip_note (skip_blank s1) @ q"
    using skip_note_append [OF s(2)] by (simp add: skip_blank_append)
  moreover have "skip_blank (skip_note (skip_blank s1)) \<noteq> []" using s(2) by auto
  ultimately show ?thesis
    using skip_colon_append [OF s(2), of q] by (simp add: match_header_def skip_blank_append)
qed

lemma cut_headers_cut:
  "cut_headers bol s = (pre, hs) \<Longrightarrow>
   (\<exists>rest. s = pre @ rest) \<and> (hs = [] \<longrightarrow> pre = s) \<and>
   (hs \<noteq> [] \<longrightarrow> pre \<noteq> [] \<longrightarrow> last pre = newline) \<and>
   (bol \<longrightarrow> (pre \<noteq> [] \<or> hs = []) \<longrightarrow> match_header s = None)"
proof (induction bol s arbitrary: pre hs rule: cut_headers.induct)
  case (2 bol c cs)
  show ?case
  proof (cases "if bol then match_header (c # cs) else None")
    case None
    obtain pre' where p: "cut_headers (c = newline) cs = (pre', hs)" "pre = c # pre'"
      using 2(3) None by (auto split: prod.splits)
    have "hs \<noteq> [] \<longrightarrow> pre' = [] \<longrightarrow> c = newline"
      using p(1) by (cases cs) (auto split: if_splits prod.splits option.splits)
    then show ?thesis using 2(1) [OF None p(1)] p(2) None by (auto split: if_splits)
  next
    case (Some x)
    then show ?thesis using 2(3) by (cases x) (auto split: prod.splits if_splits)
  qed
qed simp

lemma first_rune_kept:
  assumes "segs (pre @ rest) = g # gs" "pre \<noteq> []" "last pre = newline"
  shows "\<exists>gs'. segs pre = g # gs'"
proof -
  obtain c cs where pre: "pre = c # cs" using assms(2) by (cases pre) auto
  obtain r n where d: "decode_rune c (cs @ rest) = (r, n)" by fastforce
  have nl: "code newline = 10" by (simp add: newline_def)
  have n: "n \<le> Suc (length cs)"
  proof (rule ccontr)
    assume "\<not> n \<le> Suc (length cs)"
    moreover have "cs \<noteq> []" using assms(3) pre d calculation nl by (auto simp: decode_rune_def)
    ultimately have "128 \<le> code ((cs @ rest) ! (length cs - 1))"
      using decode_continuation [OF d, of "length cs - 1"] by linarith
    moreover have "(cs @ rest) ! (length cs - 1) = last pre"
      using pre \<open>cs \<noteq> []\<close> by (simp add: nth_append last_conv_nth)
    ultimately show False using assms(3) nl by simp
  qed
  have "decode_rune c cs = (r, n)" using decode_rune_take [OF d n] by simp
  moreover have "n - 1 \<le> length cs" using n by simp
  ultimately show ?thesis using assms(1) d pre by auto
qed

lemma trim_prefix:
  assumes "trim_space (pre @ rest) = pre @ rest" "pre \<noteq> []" "last pre = newline"
  shows "\<exists>ys. pre = trim_space pre @ ys"
proof -
  let ?s = "pre @ rest"
  obtain g gs where g: "segs ?s = g # gs" using assms(2) by (cases "segs ?s") auto
  have "rdropWhile space_seg (dropWhile space_seg (segs ?s)) = segs ?s"
    using segs_trim_space [of ?s] assms(1) by simp
  then have "\<not> space_seg g"
    using hd_rdropWhile [of space_seg "dropWhile space_seg (segs ?s)"] hd_dropWhile [of space_seg "segs ?s"] g
    by (metis list.distinct(1) list.sel(1) rdropWhile_Nil)
  moreover obtain gs' where "segs pre = g # gs'" using first_rune_kept [OF g assms(2,3)] by blast
  ultimately have "dropWhile space_seg (segs pre) = segs pre" by simp
  moreover obtain zs where "segs pre = rdropWhile space_seg (segs pre) @ zs" using rdropWhile_prefix by blast
  then have "pre = unsegs (rdropWhile space_seg (segs pre)) @ unsegs zs"
    by (metis concat_append map_append unsegs_def unsegs_segs)
  ultimately show ?thesis by (auto simp: trim_space_def)
qed

lemma strip_headers_clean:
  "trim_space t = t \<Longrightarrow> trim_space (strip_headers ch t) = strip_headers ch t \<and>
   (\<forall>l r. match_header (strip_headers ch t) = Some (l, r) \<longrightarrow> \<not> is_character_label l ch)"
proof (induction ch t rule: strip_headers.induct)
  case (1 ch t)
  show ?case
  proof (cases "match_header t")
    case None
    then show ?thesis using 1(2) by (simp add: strip_headers.simps [of ch t])
  next
    case (Some x)
    then obtain l r where x: "match_header t = Some (l, r)" by (cases x) auto
    then show ?thesis using 1(1) [OF x refl] 1(2) by (auto simp: strip_headers.simps [of ch t])
  qed
qed

section \<open>The planner's answer: lemmas\<close>

text \<open>What the planner is asked for: a JSON array of identifiers.\<close>

definition quoted :: "string \<Rightarrow> string" where
  "quoted i = [chr 34] @ i @ [chr 34]"

definition json_list :: "string list \<Rightarrow> string" where
  "json_list is = ''['' @ join '','' (map quoted is) @ '']''"

definition plain_id :: "string \<Rightarrow> bool" where
  "plain_id i \<longleftrightarrow> printable i \<and> chr 34 \<notin> set i \<and> chr 92 \<notin> set i"

lemma json_string_plain: "plain_id i \<Longrightarrow> json_string (map code i @ 34 # rest) = Some (i, rest)"
proof (induction i)
  case (Cons c i)
  then have "code c \<noteq> 34" "code c \<noteq> 92" by (auto simp: plain_id_def chr_eq)
  then show ?case using Cons by (simp add: plain_id_def utf8_char_def)
qed simp

lemma printable_quoted: "plain_id i \<Longrightarrow> printable (quoted i)"
  by (simp add: quoted_def plain_id_def)

lemma printable_join: "\<forall>x \<in> set xs. printable x \<Longrightarrow> printable sep \<Longrightarrow> printable (join sep xs)"
  by (induction sep xs rule: join.induct) simp_all

lemma json_items_plain:
  "ids \<noteq> [] \<Longrightarrow> \<forall>i \<in> set ids. plain_id i \<Longrightarrow>
   json_items (map code (join '','' (map quoted ids)) @ [93]) = Some ids"
proof (induction ids)
  case (Cons i ids)
  have i: "plain_id i" using Cons.prems by simp
  have item: "json_item (skip_json_space (map code (quoted i) @ rest)) = Some (i, rest)" for rest
    using json_string_plain [OF i, of rest] by (simp add: json_item_def skip_json_space_def quoted_def)
  show ?case
  proof (cases ids)
    case Nil
    then show ?thesis using item [of "[93]"]
      by (subst json_items.simps) (simp add: skip_json_space_def)
  next
    case (Cons j js)
    let ?more = "map code (join '','' (map quoted ids)) @ [93]"
    have "map code (join '','' (map quoted (i # ids))) @ [93] = map code (quoted i) @ 44 # ?more"
      using Cons by (simp add: code_letter)
    moreover have "json_items ?more = Some ids" using Cons.IH Cons Cons.prems by simp
    ultimately show ?thesis using item [of "44 # ?more"]
      by (subst json_items.simps) (simp add: skip_json_space_def)
  qed
qed simp

section \<open>Properties\<close>

text \<open>
  C22. A normalised reply is trimmed and does not start with the speaker's own header. A reply
  without headers is only trimmed, and a reply in which others speak but the speaker does not
  keeps what comes before the first header.
\<close>

theorem normalized_reply_clean:
  assumes "t = normalize_character_reply raw ch" "text = trim_space (replace_crlf raw)"
  shows "trim_space t = t \<and>
    (\<forall>l r. match_header t = Some (l, r) \<longrightarrow> \<not> is_character_label l ch) \<and>
    (snd (cut_headers True text) = [] \<longrightarrow> t = text) \<and>
    ((\<forall>(l, body) \<in> set (snd (cut_headers True text)). \<not> is_character_label l ch) \<longrightarrow>
       t = trim_space (fst (cut_headers True text)))"
proof -
  obtain pre hs where cut: "cut_headers True text = (pre, hs)" by fastforce
  have trimmed: "trim_space text = text" using assms(2) by simp
  note c = cut_headers_cut [OF cut]
  consider "hs = []" | l body where "find (\<lambda>(l, body). is_character_label l ch) hs = Some (l, body)" |
    "hs \<noteq> []" "find (\<lambda>(l, body). is_character_label l ch) hs = None" by (cases "find (\<lambda>(l, body). is_character_label l ch) hs") auto
  then show ?thesis
  proof cases
    case 1
    then have "t = text" using assms cut by (simp add: normalize_character_reply_def Let_def)
    then show ?thesis using 1 c trimmed cut by auto
  next
    case 2
    then have "hs \<noteq> []" "text \<noteq> []" using cut by auto
    then have t: "t = strip_headers ch (trim_space body)"
      using 2 assms cut by (cases hs) (auto simp: normalize_character_reply_def strip_repeated_character_headers_def Let_def)
    obtain i where "hs ! i = (l, body)" "i < length hs" "is_character_label l ch"
      using 2 by (auto simp: find_Some_iff)
    then have "(l, body) \<in> set hs" "is_character_label l ch" by (metis nth_mem)+
    then show ?thesis
      using strip_headers_clean [of "trim_space body" ch] t \<open>hs \<noteq> []\<close> cut by auto
  next
    case 3
    have "text \<noteq> []" using 3(1) cut by auto
    then have t: "t = trim_space pre"
      using 3 assms cut by (cases hs) (auto simp: normalize_character_reply_def Let_def)
    have "match_header t = None"
    proof (cases "pre = []")
      case False
      obtain rest where rest: "text = pre @ rest" using c by blast
      obtain ys where ys: "pre = t @ ys" using trim_prefix [of pre rest] trimmed rest False 3(1) c t by auto
      show ?thesis
      proof (cases "match_header t")
        case (Some x)
        then have "\<exists>r'. match_header (t @ ys @ rest) = Some (fst x, r')"
          using match_header_append [of t "fst x" "snd x"] by simp
        then show ?thesis using c False rest ys by simp
      qed
    qed (simp add: t)
    then show ?thesis using t 3 cut by auto
  qed
qed

theorem normalized_reply_clean_witness:
  "normalize_character_reply ''hello'' haruhi_character = trim_space ''hello''"
proof -
  have raw: "trim_space (replace_crlf ''hello'') = trim_space ''hello''" by (simp add: code_def)
  have hello: "trim_space ''hello'' = ''hello''"
    by (rule trim_printable) (simp add: code_def)
  have nl: "c = newline \<longleftrightarrow> code c = 10" "newline = c \<longleftrightarrow> code c = 10" for c
    by (auto simp: newline_def chr_eq)
  have "match_header ''hello'' = None"
    by (simp add: match_header_def speaker_labels_eq has_prefix_def utf8_def utf8_char_def chr_eq code_def
        skip_blank_def blank_def)
  then have "snd (cut_headers True (trim_space (replace_crlf ''hello''))) = []"
    by (simp add: raw hello nl code_def)
  then show ?thesis
    using normalized_reply_clean [OF refl refl, of "''hello''" haruhi_character] raw by simp
qed

text \<open>
  C23. The planner's answer is read back: if the model answers with the JSON array of a list of
  plain identifiers (within the 1024 bytes the adapter accepts), the adapter returns that list.
\<close>

theorem planner_answer_is_read:
  assumes "C [system_message (planner_prompt @ join wide_semicolon
              (map (\<lambda>p. ch_id p @ ''='' @ ch_description p) (sp_participants (pi_space i)))),
             user_message (plan_request i)] s = (Inr (Some (json_list ids)), s')"
    and "\<forall>j \<in> set ids. plain_id j" "length (json_list ids) \<le> 1024"
  shows "rm_plan (deepseek_model C) i s = (Inr ids, s')"
proof -
  have "\<forall>x \<in> set (map quoted ids). printable x" using assms(2) printable_quoted by auto
  then have p: "printable (json_list ids)"
    using printable_join [of "map quoted ids" "'',''"] by (simp add: json_list_def code_letter)
  have "runes (json_list ids) = map code (json_list ids)"
    using segs_printable [OF p] by (simp add: runes_def)
  also have "\<dots> = 91 # map code (join '','' (map quoted ids)) @ [93]"
    by (simp add: json_list_def code_letter)
  finally have r: "runes (json_list ids) = 91 # map code (join '','' (map quoted ids)) @ [93]" .
  have "json_string_array (json_list ids) = Some ids"
  proof (cases ids)
    case Nil
    then show ?thesis using r by (simp add: json_string_array_def skip_json_space_def)
  next
    case (Cons j js)
    have "\<exists>rest. map code (join '','' (map quoted ids)) @ [93] = 34 # rest"
      using Cons by (cases js) (auto simp: quoted_def)
    then show ?thesis using r json_items_plain [of ids] assms(2) Cons
      by (auto simp: json_string_array_def skip_json_space_def)
  qed
  then show ?thesis
    using assms(1,3) trim_printable [OF p]
    by (simp add: deepseek_model_def deepseek_plan_def Let_def json_list_def)
qed

theorem planner_answer_is_read_witness:
  "rm_plan (deepseek_model (\<lambda>_ s. (Inr (Some (json_list [''kyon'', ''yuki''])), s)))
     \<lparr>pi_scope = \<lparr>cp_owner = \<lparr>ow_channel = ''api'', ow_id = ''u''\<rparr>, cp_conversation = ''sos-group''\<rparr>,
      pi_space = group_space, pi_history = [], pi_user = ''hi'', pi_addressed = []\<rparr> () = (Inr [''kyon'', ''yuki''], ())"
  by (rule planner_answer_is_read)
    (auto simp: plain_id_def chr_eq code_def json_list_def quoted_def)

text \<open>
  Normalisation is not idempotent, although the code applies it once before storing a
  reply and again on every reading: a reply in which the speaker's header is followed by the
  name of another character and a colon is stored, and read back as the empty text.
\<close>

theorem normalization_erases_on_reading:
  "normalize_character_reply ''haruhi: kyon: hi'' haruhi_character = ''kyon: hi'' \<and>
   normalize_character_reply (normalize_character_reply ''haruhi: kyon: hi'' haruhi_character) haruhi_character = []"
proof -
  note eval = match_header_def speaker_labels_eq has_prefix_def utf8_def utf8_char_def chr_eq code_def
    of_chr skip_blank_def blank_def skip_note_def skip_colon_def wide_open_def wide_colon_def
  have m: "match_header ''haruhi: kyon: hi'' = Some (''haruhi'', ''kyon: hi'')"
    "match_header ''kyon: hi'' = Some (''kyon'', ''hi'')"
    by (simp_all add: eval)
  have nl: "c = newline \<longleftrightarrow> code c = 10" "newline = c \<longleftrightarrow> code c = 10" for c
    by (auto simp: newline_def chr_eq)
  have trim: "trim_space ''haruhi: kyon: hi'' = ''haruhi: kyon: hi''" "trim_space ''kyon: hi'' = ''kyon: hi''"
    by (simp_all add: trim_space_def decode_rune_def code_def is_space_def rdropWhile_def unsegs_def)
  have raw: "replace_crlf ''haruhi: kyon: hi'' = ''haruhi: kyon: hi''" "replace_crlf ''kyon: hi'' = ''kyon: hi''"
    by (simp_all add: code_def)
  have cut: "cut_headers True ''haruhi: kyon: hi'' = ([], [(''haruhi'', ''kyon: hi'')])"
    "cut_headers True ''kyon: hi'' = ([], [(''kyon'', ''hi'')])"
    by (simp_all add: m nl code_def)
  have lab: "is_character_label ''haruhi'' haruhi_character" "\<not> is_character_label ''kyon'' haruhi_character"
    by (simp_all add: is_character_label_def haruhi_character_def haruhi_def utf8_def utf8_char_def chr_eq code_def)
  have "normalize_character_reply ''haruhi: kyon: hi'' haruhi_character = ''kyon: hi''"
    by (simp add: normalize_character_reply_def raw trim cut lab strip_repeated_character_headers_def
        strip_headers.simps [of _ "''kyon: hi''"] m del: replace_crlf.simps cut_headers.simps)
  moreover have "normalize_character_reply ''kyon: hi'' haruhi_character = []"
    by (simp add: normalize_character_reply_def raw trim cut lab del: replace_crlf.simps cut_headers.simps)
  ultimately show ?thesis by simp
qed

end
