(* ===== verification/Memory.thy ===== *)
theory Memory
  imports Go_Env "HOL-Library.Multiset" "HOL-Library.List_Lexorder"
begin

text \<open>
  Package \<open>internal/memory\<close>: the archive of messages and daily summaries in the relational
  database. The rows are the structs of \<open>model.go\<close> with their \<open>BeforeCreate\<close> hooks, the
  operations those of \<open>repo.go\<close>. The database (through gorm) is outside the repository: the
  statements the code issues are fields of the environment \<open>db_env\<close>, with the conditions,
  orders and conflict clauses that the code passes as arguments, and the locale \<open>database\<close>
  states their documented effect on the two tables.

  A \<open>time.Time\<close> carries a location in Go; the old functions that cut days in the location of
  their argument take that location's offset as the argument \<open>zone\<close>.
\<close>

section \<open>Rows\<close>

record message_row =
  mw_id :: nat
  mw_open :: string
  mw_channel :: string
  mw_external :: string
  mw_turn :: string
  mw_conversation :: string
  mw_speaker_kind :: string
  mw_speaker :: string
  mw_batch :: string
  mw_sequence :: nat
  mw_role :: string
  mw_content :: string
  mw_date :: time
  mw_archived :: time
  mw_created :: time

record summary_row =
  sw_id :: nat
  sw_open :: string
  sw_channel :: string
  sw_external :: string
  sw_conversation :: string
  sw_summary_date :: time
  sw_date :: time
  sw_content :: string
  sw_archived :: time
  sw_created :: time

record archive_turn =
  at_turn :: string
  at_role :: string
  at_content :: string
  at_created :: time
  at_speaker_kind :: string
  at_speaker :: string
  at_batch :: string
  at_sequence :: nat

text \<open>The zero \<open>time.Time\<close>: the first of January of year 1, UTC.\<close>

definition zero_time :: time where
  "zero_time = - 62135596800 * 1000000000"

definition is_zero :: "time \<Rightarrow> bool" where
  "is_zero t \<longleftrightarrow> t = zero_time"

definition blank_message :: message_row where
  "blank_message = \<lparr>mw_id = 0, mw_open = [], mw_channel = [], mw_external = [], mw_turn = [],
     mw_conversation = [], mw_speaker_kind = [], mw_speaker = [], mw_batch = [], mw_sequence = 0,
     mw_role = [], mw_content = [], mw_date = zero_time, mw_archived = zero_time, mw_created = zero_time\<rparr>"

definition blank_summary :: summary_row where
  "blank_summary = \<lparr>sw_id = 0, sw_open = [], sw_channel = [], sw_external = [], sw_conversation = [],
     sw_summary_date = zero_time, sw_date = zero_time, sw_content = [], sw_archived = zero_time,
     sw_created = zero_time\<rparr>"

section \<open>The database\<close>

text \<open>
  The two tables, the statements, and the counter \<open>legacyTurnCounter\<close> of the process, an
  atomic variable. A statement takes the condition of its \<open>WHERE\<close> clause, the key of its
  \<open>ORDER BY\<close> clause, or the rows that its conflict clause calls a conflict.
\<close>

record 's db_env = "'s env" +
  db_messages :: "'s \<Rightarrow> message_row list"
  db_summaries :: "'s \<Rightarrow> summary_row list"
  db_create_message :: "message_row \<Rightarrow> ('s, unit) io"
  db_create_summary :: "summary_row \<Rightarrow> ('s, unit) io"
  db_add_message :: "(message_row \<Rightarrow> bool) \<Rightarrow> message_row \<Rightarrow> ('s, unit) io"
  db_put_summary :: "(summary_row \<Rightarrow> bool) \<Rightarrow> (summary_row \<Rightarrow> summary_row) \<Rightarrow> summary_row \<Rightarrow> ('s, unit) io"
  db_find_messages :: "(message_row \<Rightarrow> bool) \<Rightarrow> (message_row \<Rightarrow> int list) \<Rightarrow> ('s, message_row list) io"
  db_find_summaries :: "(summary_row \<Rightarrow> bool) \<Rightarrow> (summary_row \<Rightarrow> int list) \<Rightarrow> ('s, summary_row list) io"
  db_open_ids :: "(message_row \<Rightarrow> bool) \<Rightarrow> ('s, string list) io"
  db_delete_messages :: "(message_row \<Rightarrow> bool) \<Rightarrow> ('s, unit) io"
  db_delete_summaries :: "(summary_row \<Rightarrow> bool) \<Rightarrow> ('s, unit) io"
  db_transaction :: "('s, unit) io \<Rightarrow> ('s, unit) io"
  db_turn_counter :: "'s \<Rightarrow> nat \<times> 's"

section \<open>Dates\<close>

definition day_range :: "int \<Rightarrow> time \<Rightarrow> time \<times> time" where
  "day_range zone t =
     (let start = (t + zone) div day_length * day_length - zone in (start, start + day_length))"

definition start_of_today :: "('s, 'z) db_env_scheme \<Rightarrow> int \<Rightarrow> 's \<Rightarrow> time \<times> 's" where
  "start_of_today R zone s = (let (now, s') = env_now R s in (fst (day_range zone now), s'))"

definition beijing_date :: "time \<Rightarrow> time" where
  "beijing_date t = day_start (beijing_day t)"

section \<open>The hooks\<close>

definition show_time :: "time \<Rightarrow> string" where
  "show_time t = (if t < 0 then ''-'' @ show_nat (nat (- t)) else show_nat (nat t))"

definition fill_identity :: "message_row \<Rightarrow> message_row" where
  "fill_identity m =
     (let m1 = (if mw_channel m = [] then m\<lparr>mw_channel := ''wechat''\<rparr> else m);
          m2 = (if mw_external m1 = [] then m1\<lparr>mw_external := mw_open m1\<rparr> else m1)
      in if mw_open m2 = [] then m2\<lparr>mw_open := mw_external m2\<rparr> else m2)"

definition fill_speaker :: "message_row \<Rightarrow> message_row" where
  "fill_speaker m =
     (if mw_speaker_kind m \<noteq> [] then m
      else if mw_role m = role_assistant
           then m\<lparr>mw_speaker_kind := ''character'', mw_speaker := ''haruhi''\<rparr>
           else m\<lparr>mw_speaker_kind := ''user'', mw_speaker := ''user''\<rparr>)"

definition fill_batch :: "message_row \<Rightarrow> message_row" where
  "fill_batch m = (if mw_batch m = [] then m\<lparr>mw_batch := ''legacy-batch-'' @ mw_turn m\<rparr> else m)"

definition fill_dates :: "time \<Rightarrow> message_row \<Rightarrow> message_row" where
  "fill_dates now m =
     (let m1 = (if is_zero (mw_created m) then m\<lparr>mw_created := now\<rparr> else m);
          m2 = (if is_zero (mw_date m1) then m1\<lparr>mw_date := beijing_date (mw_created m1)\<rparr> else m1)
      in if is_zero (mw_archived m2) then m2\<lparr>mw_archived := now\<rparr> else m2)"

text \<open>\<open>Message.BeforeCreate\<close>.\<close>

definition before_create_message ::
  "('s, 'z) db_env_scheme \<Rightarrow> message_row \<Rightarrow> 's \<Rightarrow> message_row \<times> 's" where
  "before_create_message R m s =
     (let (now, s1) = env_now R s;
          m1 = fill_identity m;
          (m2, s2) = (if mw_turn m1 = [] then
                        (let (n, s') = db_turn_counter R s1
                         in (m1\<lparr>mw_turn := ''legacy-'' @ show_time now @ ''-'' @ show_nat n\<rparr>, s'))
                      else (m1, s1));
          m3 = (if mw_conversation m2 = [] then m2\<lparr>mw_conversation := default_conversation\<rparr> else m2)
      in (fill_dates now (fill_batch (fill_speaker m3)), s2))"

text \<open>\<open>MemorySummary.BeforeCreate\<close>.\<close>

definition fill_summary_identity :: "summary_row \<Rightarrow> summary_row" where
  "fill_summary_identity x =
     (let x1 = (if sw_channel x = [] then x\<lparr>sw_channel := ''wechat''\<rparr> else x);
          x2 = (if sw_external x1 = [] then x1\<lparr>sw_external := sw_open x1\<rparr> else x1);
          x3 = (if sw_open x2 = [] then x2\<lparr>sw_open := sw_external x2\<rparr> else x2)
      in if sw_conversation x3 = [] then x3\<lparr>sw_conversation := default_conversation\<rparr> else x3)"

definition fill_summary_dates :: "time \<Rightarrow> summary_row \<Rightarrow> summary_row" where
  "fill_summary_dates now x =
     (let x1 = (if is_zero (sw_summary_date x) then x\<lparr>sw_summary_date := now\<rparr> else x);
          x2 = (if is_zero (sw_date x1) then x1\<lparr>sw_date := beijing_date (sw_summary_date x1)\<rparr> else x1);
          x3 = (if is_zero (sw_created x2) then x2\<lparr>sw_created := now\<rparr> else x2)
      in if is_zero (sw_archived x3) then x3\<lparr>sw_archived := now\<rparr> else x3)"

definition before_create_summary ::
  "('s, 'z) db_env_scheme \<Rightarrow> summary_row \<Rightarrow> 's \<Rightarrow> summary_row \<times> 's" where
  "before_create_summary R x s =
     (let (now, s1) = env_now R s in (fill_summary_dates now (fill_summary_identity x), s1))"

section \<open>The repository\<close>

definition save_message ::
  "('s, 'z) db_env_scheme \<Rightarrow> string \<Rightarrow> string \<Rightarrow> string \<Rightarrow> ('s, unit) io" where
  "save_message R open_id role content s =
     (let (now, s1) = env_now R s;
          (m, s2) = before_create_message R (blank_message\<lparr>mw_open := open_id, mw_channel := ''wechat'',
             mw_external := open_id, mw_role := role, mw_content := content, mw_date := beijing_date now,
             mw_archived := now, mw_created := now\<rparr>) s1
      in db_create_message R m s2)"

definition messages_for_date ::
  "('s, 'z) db_env_scheme \<Rightarrow> int \<Rightarrow> string \<Rightarrow> time \<Rightarrow> ('s, message_row list) io" where
  "messages_for_date R zone open_id t =
     (let (start, stop) = day_range zone t
      in db_find_messages R (\<lambda>m. mw_open m = open_id \<and> start \<le> mw_created m \<and> mw_created m < stop)
           (\<lambda>m. [mw_created m]))"

definition today_messages :: "('s, 'z) db_env_scheme \<Rightarrow> int \<Rightarrow> string \<Rightarrow> ('s, message_row list) io" where
  "today_messages R zone open_id s = (let (now, s') = env_now R s in messages_for_date R zone open_id now s')"

definition recent_summaries :: "('s, 'z) db_env_scheme \<Rightarrow> int \<Rightarrow> string \<Rightarrow> ('s, summary_row list) io" where
  "recent_summaries R zone open_id s =
     (let (today, s') = start_of_today R zone s; cutoff = today - 7 * day_length
      in db_find_summaries R (\<lambda>x. sw_open x = open_id \<and> cutoff \<le> sw_summary_date x)
           (\<lambda>x. [sw_summary_date x]) s')"

definition save_summary :: "('s, 'z) db_env_scheme \<Rightarrow> string \<Rightarrow> time \<Rightarrow> string \<Rightarrow> ('s, unit) io" where
  "save_summary R open_id date content s =
     (let (now, s1) = env_now R s;
          (x, s2) = before_create_summary R (blank_summary\<lparr>sw_open := open_id, sw_channel := ''wechat'',
             sw_external := open_id, sw_summary_date := date, sw_date := beijing_date date,
             sw_content := content, sw_archived := now, sw_created := now\<rparr>) s1
      in db_create_summary R x s2)"

definition recent_summaries_for_scope ::
  "('s, 'z) db_env_scheme \<Rightarrow> string \<Rightarrow> string \<Rightarrow> string \<Rightarrow> ('s, summary_row list) io" where
  "recent_summaries_for_scope R channel external conversation s =
     (let (now, s') = env_now R s; cutoff = beijing_date now - 7 * day_length
      in db_find_summaries R (\<lambda>x. sw_channel x = channel \<and> sw_external x = external \<and>
             sw_conversation x = conversation \<and> cutoff \<le> sw_date x) (\<lambda>x. [sw_date x]) s')"

definition recent_summaries_for_identity ::
  "('s, 'z) db_env_scheme \<Rightarrow> string \<Rightarrow> string \<Rightarrow> ('s, summary_row list) io" where
  "recent_summaries_for_identity R channel external =
     recent_summaries_for_scope R channel external default_conversation"

text \<open>The columns of the two conflict clauses.\<close>

definition same_message :: "message_row \<Rightarrow> message_row \<Rightarrow> bool" where
  "same_message a b \<longleftrightarrow> mw_channel a = mw_channel b \<and> mw_external a = mw_external b \<and>
     mw_conversation a = mw_conversation b \<and> mw_date a = mw_date b \<and> mw_turn a = mw_turn b"

definition same_summary :: "summary_row \<Rightarrow> summary_row \<Rightarrow> bool" where
  "same_summary a b \<longleftrightarrow> sw_channel a = sw_channel b \<and> sw_external a = sw_external b \<and>
     sw_conversation a = sw_conversation b \<and> sw_date a = sw_date b"

definition archive_message ::
  "string \<Rightarrow> string \<Rightarrow> string \<Rightarrow> time \<Rightarrow> time \<Rightarrow> archive_turn \<Rightarrow> message_row" where
  "archive_message channel external conversation date now t =
     \<lparr>mw_id = 0, mw_open = external, mw_channel = channel, mw_external = external, mw_turn = at_turn t,
      mw_conversation = conversation, mw_speaker_kind = at_speaker_kind t, mw_speaker = at_speaker t,
      mw_batch = at_batch t, mw_sequence = at_sequence t, mw_role = at_role t, mw_content = at_content t,
      mw_date = date, mw_archived = now,
      mw_created = (if is_zero (at_created t) then now else at_created t)\<rparr>"

fun archive_messages ::
  "('s, 'z) db_env_scheme \<Rightarrow> string \<Rightarrow> string \<Rightarrow> string \<Rightarrow> time \<Rightarrow> time \<Rightarrow> archive_turn list \<Rightarrow> ('s, unit) io" where
  "archive_messages R channel external conversation date now [] s = (Inr (), s)"
| "archive_messages R channel external conversation date now (t # ts) s =
     (let (m, s1) = before_create_message R (archive_message channel external conversation date now t) s
      in case db_add_message R (same_message m) m s1 of
           (Inl e, s2) \<Rightarrow> (Inl e, s2)
         | (Inr _, s2) \<Rightarrow> archive_messages R channel external conversation date now ts s2)"

definition archive_summary ::
  "('s, 'z) db_env_scheme \<Rightarrow> string \<Rightarrow> string \<Rightarrow> string \<Rightarrow> time \<Rightarrow> time \<Rightarrow> string \<Rightarrow> ('s, unit) io" where
  "archive_summary R channel external conversation date now summary s =
     (let (x, s1) = before_create_summary R \<lparr>sw_id = 0, sw_open = external, sw_channel = channel,
             sw_external = external, sw_conversation = conversation, sw_summary_date = date, sw_date = date,
             sw_content = summary, sw_archived = now, sw_created = now\<rparr> s
      in db_put_summary R (same_summary x)
           (\<lambda>y. y\<lparr>sw_open := external, sw_summary_date := date, sw_content := summary, sw_archived := now\<rparr>) x s1)"

definition archive_daily_conversation_for_scope ::
  "('s, 'z) db_env_scheme \<Rightarrow> string \<Rightarrow> string \<Rightarrow> string \<Rightarrow> time \<Rightarrow> archive_turn list \<Rightarrow> string \<Rightarrow> ('s, unit) io" where
  "archive_daily_conversation_for_scope R channel external conversation t turns summary s =
     (let date = beijing_date t; (now, s1) = env_now R s
      in db_transaction R (\<lambda>s2.
           case archive_messages R channel external conversation date now turns s2 of
             (Inl e, s3) \<Rightarrow> (Inl e, s3)
           | (Inr _, s3) \<Rightarrow>
               if summary = [] then (Inr (), s3)
               else archive_summary R channel external conversation date now summary s3) s1)"

definition archive_daily_conversation ::
  "('s, 'z) db_env_scheme \<Rightarrow> string \<Rightarrow> string \<Rightarrow> time \<Rightarrow> archive_turn list \<Rightarrow> string \<Rightarrow> ('s, unit) io" where
  "archive_daily_conversation R channel external =
     archive_daily_conversation_for_scope R channel external default_conversation"

definition messages_for_scope_date ::
  "('s, 'z) db_env_scheme \<Rightarrow> string \<Rightarrow> string \<Rightarrow> string \<Rightarrow> time \<Rightarrow> ('s, message_row list) io" where
  "messages_for_scope_date R channel external conversation t =
     db_find_messages R (\<lambda>m. mw_channel m = channel \<and> mw_external m = external \<and>
         mw_conversation m = conversation \<and> mw_date m = beijing_date t)
       (\<lambda>m. [int (mw_sequence m), mw_created m, int (mw_id m)])"

definition active_open_ids_for_date :: "('s, 'z) db_env_scheme \<Rightarrow> int \<Rightarrow> time \<Rightarrow> ('s, string list) io" where
  "active_open_ids_for_date R zone t =
     (let (start, stop) = day_range zone t
      in db_open_ids R (\<lambda>m. start \<le> mw_created m \<and> mw_created m < stop))"

definition delete_messages_for_date ::
  "('s, 'z) db_env_scheme \<Rightarrow> int \<Rightarrow> string \<Rightarrow> time \<Rightarrow> ('s, unit) io" where
  "delete_messages_for_date R zone open_id t =
     (let (start, stop) = day_range zone t
      in db_delete_messages R (\<lambda>m. mw_open m = open_id \<and> start \<le> mw_created m \<and> mw_created m < stop))"

definition delete_today_messages :: "('s, 'z) db_env_scheme \<Rightarrow> int \<Rightarrow> string \<Rightarrow> ('s, unit) io" where
  "delete_today_messages R zone open_id s =
     (let (now, s') = env_now R s in delete_messages_for_date R zone open_id now s')"

definition purge_summaries_older_than :: "('s, 'z) db_env_scheme \<Rightarrow> time \<Rightarrow> ('s, unit) io" where
  "purge_summaries_older_than R cutoff = db_delete_summaries R (\<lambda>x. sw_summary_date x < cutoff)"

section \<open>The contract of the database\<close>

definition tables :: "('s, 'z) db_env_scheme \<Rightarrow> 's \<Rightarrow> message_row list \<times> summary_row list" where
  "tables R s = (db_messages R s, db_summaries R s)"

definition added_message :: "(message_row \<Rightarrow> bool) \<Rightarrow> message_row \<Rightarrow> message_row list \<Rightarrow> message_row list \<Rightarrow> bool" where
  "added_message c m ms ms' \<longleftrightarrow>
     (if \<exists>x \<in> set ms. c x then ms' = ms else \<exists>i. ms' = ms @ [m\<lparr>mw_id := i\<rparr>])"

definition put_summary ::
  "(summary_row \<Rightarrow> bool) \<Rightarrow> (summary_row \<Rightarrow> summary_row) \<Rightarrow> summary_row \<Rightarrow> summary_row list \<Rightarrow> summary_row list \<Rightarrow> bool" where
  "put_summary c f x xs xs' \<longleftrightarrow>
     (if \<exists>y \<in> set xs. c y then xs' = map (\<lambda>y. if c y then f y else y) xs else \<exists>i. xs' = xs @ [x\<lparr>sw_id := i\<rparr>])"

text \<open>
  A statement that reports success has its effect; a transaction that reports success has run
  its body, which succeeded, on the tables it found, and one that reports an error has left the
  tables alone, unless the body succeeded and only the answer to the commit was lost. Nothing
  the database does touches Redis, and nothing else touches the tables.
\<close>

locale database = quiet_env R for R :: "('s, 'z) db_env_scheme" +
  assumes add_done: "db_add_message R c m s = (Inr u, s') \<Longrightarrow>
      added_message c m (db_messages R s) (db_messages R s') \<and> db_summaries R s' = db_summaries R s"
    and put_done: "db_put_summary R d f x s = (Inr u, s') \<Longrightarrow>
      put_summary d f x (db_summaries R s) (db_summaries R s') \<and> db_messages R s' = db_messages R s"
    and create_message_done: "db_create_message R m s = (Inr u, s') \<Longrightarrow>
      \<exists>i. db_messages R s' = db_messages R s @ [m\<lparr>mw_id := i\<rparr>] \<and> db_summaries R s' = db_summaries R s"
    and create_summary_done: "db_create_summary R x s = (Inr u, s') \<Longrightarrow>
      \<exists>i. db_summaries R s' = db_summaries R s @ [x\<lparr>sw_id := i\<rparr>] \<and> db_messages R s' = db_messages R s"
    and find_messages: "db_find_messages R P key s = (Inr ms, s') \<Longrightarrow>
      mset ms = filter_mset P (mset (db_messages R s)) \<and> sorted_wrt (\<lambda>a b. key a \<le> key b) ms"
    and find_messages_tables: "tables R (snd (db_find_messages R P key s)) = tables R s"
    and find_summaries: "db_find_summaries R Q order s = (Inr xs, s') \<Longrightarrow>
      mset xs = filter_mset Q (mset (db_summaries R s)) \<and> sorted_wrt (\<lambda>a b. order a \<le> order b) xs"
    and find_summaries_tables: "tables R (snd (db_find_summaries R Q order s)) = tables R s"
    and open_ids: "db_open_ids R P s = (Inr ids, s') \<Longrightarrow>
      distinct ids \<and> set ids = mw_open ` {m \<in> set (db_messages R s). P m}"
    and open_ids_tables: "tables R (snd (db_open_ids R P s)) = tables R s"
    and delete_messages: "db_delete_messages R P s = (Inr u, s') \<Longrightarrow>
      tables R s' = (filter (\<lambda>m. \<not> P m) (db_messages R s), db_summaries R s)"
    and delete_summaries: "db_delete_summaries R Q s = (Inr u, s') \<Longrightarrow>
      tables R s' = (db_messages R s, filter (\<lambda>x. \<not> Q x) (db_summaries R s))"
    and delete_summaries_messages: "db_messages R (snd (db_delete_summaries R Q s)) = db_messages R s"
    and tx_done: "db_transaction R body s = (Inr u, s') \<Longrightarrow>
      \<exists>s0 s1. tables R s0 = tables R s \<and> body s0 = (Inr (), s1) \<and> tables R s' = tables R s1"
    and tx_failed: "db_transaction R body s = (Inl e, s') \<Longrightarrow> tables R s' = tables R s \<or>
      (\<exists>s0 s1. tables R s0 = tables R s \<and> body s0 = (Inr (), s1) \<and> tables R s' = tables R s1)"
    and tx_view: "(\<And>s. r_view R (snd (body s)) = r_view R s \<and> r_clock R (snd (body s)) = r_clock R s) \<Longrightarrow>
      r_view R (snd (db_transaction R body s)) = r_view R s \<and>
      r_clock R (snd (db_transaction R body s)) = r_clock R s"
    and db_view: "r_view R (snd (db_add_message R c m s)) = r_view R s"
      "r_view R (snd (db_put_summary R d f x s)) = r_view R s"
      "r_view R (snd (db_create_message R m s)) = r_view R s"
      "r_view R (snd (db_create_summary R x s)) = r_view R s"
      "r_view R (snd (db_find_messages R P key s)) = r_view R s"
      "r_view R (snd (db_find_summaries R Q order s)) = r_view R s"
      "r_view R (snd (db_open_ids R P s)) = r_view R s"
      "r_view R (snd (db_delete_messages R P s)) = r_view R s"
      "r_view R (snd (db_delete_summaries R Q s)) = r_view R s"
      "r_view R (snd (db_turn_counter R s)) = r_view R s"
    and db_clock: "r_clock R (snd (db_add_message R c m s)) = r_clock R s"
      "r_clock R (snd (db_put_summary R d f x s)) = r_clock R s"
      "r_clock R (snd (db_create_message R m s)) = r_clock R s"
      "r_clock R (snd (db_create_summary R x s)) = r_clock R s"
      "r_clock R (snd (db_find_messages R P key s)) = r_clock R s"
      "r_clock R (snd (db_find_summaries R Q order s)) = r_clock R s"
      "r_clock R (snd (db_open_ids R P s)) = r_clock R s"
      "r_clock R (snd (db_delete_messages R P s)) = r_clock R s"
      "r_clock R (snd (db_delete_summaries R Q s)) = r_clock R s"
      "r_clock R (snd (db_turn_counter R s)) = r_clock R s"
    and frame [db_simps]: "tables R (snd (env_now R s)) = tables R s"
      "tables R (snd (env_random R n s)) = tables R s"
      "tables R (snd (env_uuid_new R s)) = tables R s"
      "tables R (snd (db_turn_counter R s)) = tables R s"
      "tables R (snd (r_arrive R s)) = tables R s"
      "tables R (r_set R k v px s) = tables R s"
      "tables R (snd (r_setnx R k v px s)) = tables R s"
      "tables R (r_del R k s) = tables R s"
      "tables R (snd (r_incr R k s)) = tables R s"
      "tables R (r_pexpire R k t s) = tables R s"
      "tables R (r_rpush R k v s) = tables R s"
      "tables R (r_hset R k g v s) = tables R s"
      "tables R (r_hdel R k g s) = tables R s"
      "tables R (snd (r_hincrby R k g t s)) = tables R s"
      "tables R (r_sadd R k g s) = tables R s"
      "tables R (r_srem R k g s) = tables R s"
begin

lemmas frame_parts [db_simps] =
  frame [THEN arg_cong [where f = fst], unfolded tables_def fst_conv]
  frame [THEN arg_cong [where f = snd], unfolded tables_def snd_conv]

end

section \<open>A reference database\<close>

record ref_db_world = ref_world +
  dw_messages :: "message_row list"
  dw_summaries :: "summary_row list"
  dw_turns :: nat

type_synonym 'x dbw = "'x ref_db_world_scheme"

definition ref_statement :: "('x dbw \<Rightarrow> 'x dbw) \<Rightarrow> ('x dbw, unit) io" where
  "ref_statement f s = (Inr (), f s)"

definition ref_add_message :: "(message_row \<Rightarrow> bool) \<Rightarrow> message_row \<Rightarrow> 'x dbw \<Rightarrow> 'x dbw" where
  "ref_add_message c m s =
     (if list_ex c (dw_messages s) then s
      else s\<lparr>dw_messages := dw_messages s @ [m\<lparr>mw_id := length (dw_messages s)\<rparr>]\<rparr>)"

definition ref_put_summary ::
  "(summary_row \<Rightarrow> bool) \<Rightarrow> (summary_row \<Rightarrow> summary_row) \<Rightarrow> summary_row \<Rightarrow> 'x dbw \<Rightarrow> 'x dbw" where
  "ref_put_summary c f x s =
     (if list_ex c (dw_summaries s)
      then s\<lparr>dw_summaries := map (\<lambda>y. if c y then f y else y) (dw_summaries s)\<rparr>
      else s\<lparr>dw_summaries := dw_summaries s @ [x\<lparr>sw_id := length (dw_summaries s)\<rparr>]\<rparr>)"

definition ref_transaction :: "('x dbw, unit) io \<Rightarrow> ('x dbw, unit) io" where
  "ref_transaction body s =
     (case body s of
        (Inr u, s1) \<Rightarrow> (Inr u, s1)
      | (Inl e, s1) \<Rightarrow> (Inl e, s1\<lparr>dw_messages := dw_messages s, dw_summaries := dw_summaries s\<rparr>))"

definition ref_db :: "'z \<Rightarrow> ('x dbw, 'z) db_env_scheme" where
  "ref_db z = db_env.extend (ref_env (db_env.fields dw_messages dw_summaries
     (\<lambda>m. ref_statement (ref_add_message (\<lambda>_. False) m))
     (\<lambda>x. ref_statement (ref_put_summary (\<lambda>_. False) id x))
     (\<lambda>c m. ref_statement (ref_add_message c m))
     (\<lambda>c f x. ref_statement (ref_put_summary c f x))
     (\<lambda>P key s. (Inr (sort_key key (filter P (dw_messages s))), s))
     (\<lambda>P key s. (Inr (sort_key key (filter P (dw_summaries s))), s))
     (\<lambda>P s. (Inr (remdups (map mw_open (filter P (dw_messages s)))), s))
     (\<lambda>P. ref_statement (\<lambda>s. s\<lparr>dw_messages := filter (\<lambda>m. \<not> P m) (dw_messages s)\<rparr>))
     (\<lambda>P. ref_statement (\<lambda>s. s\<lparr>dw_summaries := filter (\<lambda>m. \<not> P m) (dw_summaries s)\<rparr>))
     ref_transaction
     (\<lambda>s. (Suc (dw_turns s), s\<lparr>dw_turns := Suc (dw_turns s)\<rparr>)))) z"

lemma ref_db_env: "\<exists>y. ref_db z = ref_env y"
  by (rule exI, simp add: ref_db_def db_env.defs ref_env_def env.defs ref_redis_def)

lemma ref_db_fields [simp]:
  "db_messages (ref_db z) = dw_messages" "db_summaries (ref_db z) = dw_summaries"
  "db_create_message (ref_db z) m = ref_statement (ref_add_message (\<lambda>_. False) m)"
  "db_create_summary (ref_db z) x = ref_statement (ref_put_summary (\<lambda>_. False) id x)"
  "db_add_message (ref_db z) c m = ref_statement (ref_add_message c m)"
  "db_put_summary (ref_db z) d f x = ref_statement (ref_put_summary d f x)"
  "db_find_messages (ref_db z) P key s = (Inr (sort_key key (filter P (dw_messages s))), s)"
  "db_find_summaries (ref_db z) Q ord s = (Inr (sort_key ord (filter Q (dw_summaries s))), s)"
  "db_open_ids (ref_db z) P s = (Inr (remdups (map mw_open (filter P (dw_messages s)))), s)"
  "db_delete_messages (ref_db z) P =
     ref_statement (\<lambda>s. s\<lparr>dw_messages := filter (\<lambda>m. \<not> P m) (dw_messages s)\<rparr>)"
  "db_delete_summaries (ref_db z) Q =
     ref_statement (\<lambda>s. s\<lparr>dw_summaries := filter (\<lambda>m. \<not> Q m) (dw_summaries s)\<rparr>)"
  "db_transaction (ref_db z) = ref_transaction"
  "db_turn_counter (ref_db z) s = (Suc (dw_turns s), s\<lparr>dw_turns := Suc (dw_turns s)\<rparr>)"
  by (simp_all add: ref_db_def db_env.defs ref_env_def env.defs ref_redis_def)

lemma ref_db_env_fields [simp]:
  "r_view (ref_db z) s = ref_view s" "r_clock (ref_db z) s = rf_clock s"
  "r_arrive (ref_db z) s = ref_arrive s"
  "env_now (ref_db z) = ref_now" "env_random (ref_db z) = ref_random"
  "env_sha256 (ref_db z) = id" "env_scan_int (ref_db z) = ref_scan"
  "env_uuid_ok (ref_db z) = ref_uuid" "env_uuid_new (ref_db z) = ref_new_uuid"
  by (simp_all add: ref_db_def db_env.defs ref_env_def env.defs ref_redis_def)

lemma ref_db_view [simp]:
  "ref_view (s\<lparr>dw_messages := a\<rparr>) = ref_view s" "ref_view (s\<lparr>dw_summaries := b\<rparr>) = ref_view s"
  "ref_view (s\<lparr>dw_turns := n\<rparr>) = ref_view s"
  by (simp_all add: ref_view_def)

lemma ref_statement_simps [simp]: "ref_statement f s = (Inr (), f s)"
  by (simp add: ref_statement_def)

lemma ref_add_simps [simp]:
  "ref_view (ref_add_message c m s) = ref_view s" "rf_clock (ref_add_message c m s) = rf_clock s"
  "ref_view (ref_put_summary d f x s) = ref_view s" "rf_clock (ref_put_summary d f x s) = rf_clock s"
  "dw_summaries (ref_add_message c m s) = dw_summaries s"
  "dw_messages (ref_put_summary d f x s) = dw_messages s"
  by (simp_all add: ref_add_message_def ref_put_summary_def)

lemma ref_redis_tables:
  fixes s :: "'x dbw"
  shows "dw_messages (ref_apply g s) = dw_messages s" "dw_summaries (ref_apply g s) = dw_summaries s"
    "dw_messages (ref_guard b g s) = dw_messages s" "dw_summaries (ref_guard b g s) = dw_summaries s"
    "dw_messages (snd (ref_arrive s)) = dw_messages s" "dw_summaries (snd (ref_arrive s)) = dw_summaries s"
    "dw_messages (snd (ref_now s)) = dw_messages s" "dw_summaries (snd (ref_now s)) = dw_summaries s"
    "dw_messages (snd (ref_random n s)) = dw_messages s" "dw_summaries (snd (ref_random n s)) = dw_summaries s"
    "dw_messages (snd (ref_new_uuid s)) = dw_messages s" "dw_summaries (snd (ref_new_uuid s)) = dw_summaries s"
    "dw_messages (snd (ref_incr k s)) = dw_messages s" "dw_summaries (snd (ref_incr k s)) = dw_summaries s"
    "dw_messages (snd (ref_hincrby k h d s)) = dw_messages s" "dw_summaries (snd (ref_hincrby k h d s)) = dw_summaries s"
  by (simp_all add: ref_apply_def ref_guard_def ref_arrive_def ref_now_def ref_random_def ref_new_uuid_def
      ref_incr_def ref_hincrby_def split: list.splits prod.splits option.splits)

lemma sorted_sort_key: "sorted_wrt (\<lambda>a b. key a \<le> key b) (sort_key key xs)"
  using sorted_sort_key [of key xs] by (simp add: sorted_map)

lemma ref_db_tables [simp]: "tables (ref_db z) s = (dw_messages s, dw_summaries s)"
  by (simp add: tables_def)

lemma ref_db_frame:
  "tables (ref_db z) (r_set (ref_db z) k v px s) = tables (ref_db z) s"
  "tables (ref_db z) (snd (r_setnx (ref_db z) k v px s)) = tables (ref_db z) s"
  "tables (ref_db z) (r_del (ref_db z) k s) = tables (ref_db z) s"
  "tables (ref_db z) (snd (r_incr (ref_db z) k s)) = tables (ref_db z) s"
  "tables (ref_db z) (r_pexpire (ref_db z) k t s) = tables (ref_db z) s"
  "tables (ref_db z) (r_rpush (ref_db z) k v s) = tables (ref_db z) s"
  "tables (ref_db z) (r_hset (ref_db z) k g v s) = tables (ref_db z) s"
  "tables (ref_db z) (r_hdel (ref_db z) k g s) = tables (ref_db z) s"
  "tables (ref_db z) (snd (r_hincrby (ref_db z) k g t s)) = tables (ref_db z) s"
  "tables (ref_db z) (r_sadd (ref_db z) k g s) = tables (ref_db z) s"
  "tables (ref_db z) (r_srem (ref_db z) k g s) = tables (ref_db z) s"
  unfolding ref_db_tables
  by (simp_all add: ref_db_def db_env.defs ref_env_def env.defs ref_redis_def ref_redis_tables)

interpretation ref_db: database "ref_db (z :: 'z) :: ('x dbw, 'z) db_env_scheme"
proof -
  obtain y where y: "(ref_db z :: ('x dbw, 'z) db_env_scheme) = ref_env y" by (rule exE [OF ref_db_env])
  have q: "quiet_env (ref_db z :: ('x dbw, 'z) db_env_scheme)"
    unfolding y by (rule ref_env.quiet_env_axioms)
  show "database (ref_db z :: ('x dbw, 'z) db_env_scheme)"
  proof (intro database.intro q database_axioms.intro)
    fix c m s u s' assume "db_add_message (ref_db z) c m s = (Inr u, s')"
    then show "added_message c m (db_messages (ref_db z) s) (db_messages (ref_db z) s') \<and>
        db_summaries (ref_db z) s' = db_summaries (ref_db z) s"
      by (auto simp: added_message_def ref_add_message_def list_ex_iff)
  next
    fix d f x s u s' assume "db_put_summary (ref_db z) d f x s = (Inr u, s')"
    then show "put_summary d f x (db_summaries (ref_db z) s) (db_summaries (ref_db z) s') \<and>
        db_messages (ref_db z) s' = db_messages (ref_db z) s"
      by (auto simp: put_summary_def ref_put_summary_def list_ex_iff)
  next
    fix body :: "('x dbw, unit) io" and s u s'
    assume "db_transaction (ref_db z) body s = (Inr u, s')"
    then show "\<exists>s0 s1. tables (ref_db z) s0 = tables (ref_db z) s \<and> body s0 = (Inr (), s1) \<and>
        tables (ref_db z) s' = tables (ref_db z) s1"
      by (auto simp: ref_transaction_def split: prod.splits sum.splits)
  next
    fix body :: "('x dbw, unit) io" and s
    assume "\<And>s. r_view (ref_db z) (snd (body s)) = r_view (ref_db z) s \<and> r_clock (ref_db z) (snd (body s)) = r_clock (ref_db z) s"
    then show "r_view (ref_db z) (snd (db_transaction (ref_db z) body s)) = r_view (ref_db z) s \<and>
        r_clock (ref_db z) (snd (db_transaction (ref_db z) body s)) = r_clock (ref_db z) s"
      by (auto simp: ref_transaction_def split: prod.splits sum.splits) (metis snd_conv)+
  qed (auto simp: ref_db_frame [simplified] list_ex_iff ref_add_message_def ref_put_summary_def
      ref_transaction_def mset_filter sorted_sort_key ref_redis_tables split: sum.splits prod.splits)
qed

section \<open>Archiving: lemmas\<close>

lemma date_not_zero: "\<not> is_zero (beijing_date t)"
proof
  assume "is_zero (beijing_date t)"
  then have "beijing_day t * 86400000000000 - 28800000000000 = (- 62135596800000000000 :: int)"
    by (simp add: is_zero_def zero_time_def beijing_date_def day_start_def day_length_def
        beijing_offset_def second_def)
  then have "(3 * beijing_day t - 1) * 28800000000000 = - 2157486 * (28800000000000 :: int)" by (simp add: algebra_simps)
  then have "3 * beijing_day t - 1 = - 2157486" by (metis mult_cancel_right zero_neq_numeral)
  then show False by presburger
qed

text \<open>The rows of a conversation on a date, and what an archived turn looks like there.\<close>

definition in_archive :: "string \<Rightarrow> string \<Rightarrow> string \<Rightarrow> time \<Rightarrow> message_row \<Rightarrow> bool" where
  "in_archive channel external conversation date m \<longleftrightarrow> mw_channel m = channel \<and> mw_external m = external \<and>
     mw_conversation m = conversation \<and> mw_date m = date"

definition holds_turn :: "string \<Rightarrow> string \<Rightarrow> string \<Rightarrow> time \<Rightarrow> message_row list \<Rightarrow> archive_turn \<Rightarrow> bool" where
  "holds_turn channel external conversation date ms t \<longleftrightarrow>
     (\<exists>m \<in> set ms. in_archive channel external conversation date m \<and> mw_turn m = at_turn t)"

definition copy_of :: "string \<Rightarrow> string \<Rightarrow> string \<Rightarrow> time \<Rightarrow> archive_turn \<Rightarrow> message_row \<Rightarrow> bool" where
  "copy_of channel external conversation date t m \<longleftrightarrow> in_archive channel external conversation date m \<and>
     mw_turn m = at_turn t \<and> mw_role m = at_role t \<and> mw_content m = at_content t \<and>
     mw_sequence m = at_sequence t"

lemma copy_of_id [simp]: "copy_of channel external conversation date t (m\<lparr>mw_id := i\<rparr>) =
    copy_of channel external conversation date t m"
  by (simp add: copy_of_def in_archive_def)

lemma copy_same: "copy_of channel external conversation date t m \<Longrightarrow>
   same_message m x \<longleftrightarrow> in_archive channel external conversation date x \<and> mw_turn x = at_turn t"
  by (auto simp: copy_of_def in_archive_def same_message_def)

lemma fill_identity_id:
  "mw_channel m \<noteq> [] \<Longrightarrow> mw_external m \<noteq> [] \<Longrightarrow> mw_open m \<noteq> [] \<Longrightarrow> fill_identity m = m"
  by (simp add: fill_identity_def)

lemma fill_copy:
  "copy_of channel external conversation date t (fill_speaker m) = copy_of channel external conversation date t m"
  "copy_of channel external conversation date t (fill_batch m) = copy_of channel external conversation date t m"
  by (simp_all add: fill_speaker_def fill_batch_def copy_of_def in_archive_def)

lemma fill_dates_copy:
  "\<not> is_zero (mw_date m) \<Longrightarrow> copy_of channel external conversation date t (fill_dates now m) =
     copy_of channel external conversation date t m"
  by (cases "is_zero (mw_created m)"; cases "is_zero (mw_archived m)")
    (simp_all add: fill_dates_def copy_of_def in_archive_def)

lemma fill_date: "mw_date (fill_batch (fill_speaker m)) = mw_date m"
  by (simp add: fill_batch_def fill_speaker_def)

lemma hook_copy:
  assumes "channel \<noteq> []" "external \<noteq> []" "conversation \<noteq> []" "at_turn t \<noteq> []" "\<not> is_zero date"
    and "before_create_message R (archive_message channel external conversation date now t) s = (m, s')"
  shows "copy_of channel external conversation date t m"
proof -
  let ?m = "archive_message channel external conversation date now t"
  have f: "mw_turn ?m \<noteq> []" "mw_conversation ?m \<noteq> []" "\<not> is_zero (mw_date ?m)"
    "copy_of channel external conversation date t ?m" "fill_identity ?m = ?m"
    using assms(1-5) by (simp_all add: archive_message_def copy_of_def in_archive_def fill_identity_id)
  then have "m = fill_dates (fst (env_now R s)) (fill_batch (fill_speaker ?m))"
    using assms(6) by (simp add: before_create_message_def Let_def split_beta)
  then show ?thesis using f(3,4) by (simp add: fill_dates_copy fill_date fill_copy)
qed

lemma hook_summary:
  assumes "channel \<noteq> []" "external \<noteq> []" "conversation \<noteq> []" "\<not> is_zero date"
    and "before_create_summary R \<lparr>sw_id = 0, sw_open = external, sw_channel = channel, sw_external = external,
      sw_conversation = conversation, sw_summary_date = date, sw_date = date, sw_content = summary,
      sw_archived = now, sw_created = now\<rparr> s = (x, s')"
  shows "sw_channel x = channel \<and> sw_external x = external \<and> sw_conversation x = conversation \<and>
    sw_date x = date \<and> sw_content x = summary"
  using assms by (auto simp: before_create_summary_def fill_summary_identity_def fill_summary_dates_def Let_def
      split: prod.splits)

text \<open>The summary of a conversation and date.\<close>

definition has_summary :: "string \<Rightarrow> string \<Rightarrow> string \<Rightarrow> time \<Rightarrow> string \<Rightarrow> summary_row list \<Rightarrow> bool" where
  "has_summary channel external conversation date summary xs \<longleftrightarrow>
     (\<exists>x \<in> set xs. sw_channel x = channel \<and> sw_external x = external \<and> sw_conversation x = conversation \<and>
        sw_date x = date \<and> sw_content x = summary)"

context database
begin

lemma hook_frame:
  "tables R (snd (before_create_message R m s)) = tables R s"
  "tables R (snd (before_create_summary R x s)) = tables R s"
  "r_view R (snd (before_create_message R m s)) = r_view R s"
  "r_view R (snd (before_create_summary R x s)) = r_view R s"
  "r_clock R (snd (before_create_message R m s)) = r_clock R s"
  "r_clock R (snd (before_create_summary R x s)) = r_clock R s"
  by (cases "mw_turn (fill_identity m) = []",
      simp_all add: before_create_message_def before_create_summary_def Let_def split_beta db_simps
      db_view db_clock now_view now_clock)

lemma hook_tables:
  "before_create_message R m s = (m', s') \<Longrightarrow> db_messages R s' = db_messages R s \<and> db_summaries R s' = db_summaries R s"
  "before_create_summary R x s = (x', s') \<Longrightarrow> db_messages R s' = db_messages R s \<and> db_summaries R s' = db_summaries R s"
  using hook_frame(1) [of m s] hook_frame(2) [of x s] by (auto simp: tables_def)

lemma archive_messages_done:
  assumes "channel \<noteq> []" "external \<noteq> []" "conversation \<noteq> []" "\<not> is_zero date"
    and "\<forall>t \<in> set ts. at_turn t \<noteq> []"
    and "archive_messages R channel external conversation date now ts s = (Inr u, s')"
  shows "db_summaries R s' = db_summaries R s \<and>
    (\<exists>new. db_messages R s' = db_messages R s @ new \<and>
       (\<forall>m \<in> set new. \<exists>t \<in> set ts. copy_of channel external conversation date t m) \<and>
       ((\<forall>t \<in> set ts. holds_turn channel external conversation date (db_messages R s) t) \<longrightarrow> new = [])) \<and>
    (\<forall>t \<in> set ts. holds_turn channel external conversation date (db_messages R s') t)"
  using assms(5,6)
proof (induction ts arbitrary: s)
  case (Cons t ts)
  obtain m s1 where h: "before_create_message R (archive_message channel external conversation date now t) s = (m, s1)"
    by fastforce
  obtain v s2 where a: "db_add_message R (same_message m) m s1 = (Inr v, s2)"
    using Cons.prems(2) h by (auto split: prod.splits sum.splits)
  have rest: "archive_messages R channel external conversation date now ts s2 = (Inr u, s')"
    using Cons.prems(2) h a by simp
  have m: "copy_of channel external conversation date t m"
    using hook_copy [OF assms(1-3) _ assms(4) h] Cons.prems(1) by simp
  have s1: "db_messages R s1 = db_messages R s" "db_summaries R s1 = db_summaries R s"
    using hook_tables(1) [OF h] by simp_all
  note same = copy_same [OF m]
  have add: "added_message (same_message m) m (db_messages R s) (db_messages R s2)" "db_summaries R s2 = db_summaries R s"
    using add_done [OF a] s1 by simp_all
  have one: "\<exists>n1. db_messages R s2 = db_messages R s @ n1 \<and>
      (\<forall>x \<in> set n1. copy_of channel external conversation date t x) \<and>
      (holds_turn channel external conversation date (db_messages R s) t \<longrightarrow> n1 = [])"
  proof (cases "\<exists>x \<in> set (db_messages R s). same_message m x")
    case True
    then show ?thesis using add(1) by (intro exI [of _ "[]"]) (simp add: added_message_def)
  next
    case False
    then have "\<not> holds_turn channel external conversation date (db_messages R s) t"
      using same by (auto simp: holds_turn_def)
    moreover obtain i where "db_messages R s2 = db_messages R s @ [m\<lparr>mw_id := i\<rparr>]"
      using add(1) False by (auto simp: added_message_def)
    ultimately show ?thesis using m by (intro exI [of _ "[m\<lparr>mw_id := i\<rparr>]"]) simp
  qed
  have got: "holds_turn channel external conversation date (db_messages R s2) t"
  proof (cases "\<exists>x \<in> set (db_messages R s). same_message m x")
    case True
    then show ?thesis using add(1) same by (auto simp: added_message_def holds_turn_def)
  next
    case False
    then obtain i where "db_messages R s2 = db_messages R s @ [m\<lparr>mw_id := i\<rparr>]"
      using add(1) by (auto simp: added_message_def)
    then show ?thesis using m by (simp add: holds_turn_def copy_of_def in_archive_def)
  qed
  have grow: "holds_turn channel external conversation date (xs @ ys) x"
    if "holds_turn channel external conversation date xs x" for xs ys x
    using that by (auto simp: holds_turn_def)
  have "\<forall>t \<in> set ts. at_turn t \<noteq> []" using Cons.prems(1) by simp
  from Cons.IH [OF this rest] obtain n2 where n2: "db_summaries R s' = db_summaries R s2"
    "db_messages R s' = db_messages R s2 @ n2"
    "\<forall>m \<in> set n2. \<exists>t \<in> set ts. copy_of channel external conversation date t m"
    "(\<forall>t \<in> set ts. holds_turn channel external conversation date (db_messages R s2) t) \<longrightarrow> n2 = []"
    "\<forall>t \<in> set ts. holds_turn channel external conversation date (db_messages R s') t" by blast
  from one obtain n1 where n1: "db_messages R s2 = db_messages R s @ n1"
    "\<forall>x \<in> set n1. copy_of channel external conversation date t x"
    "holds_turn channel external conversation date (db_messages R s) t \<longrightarrow> n1 = []" by blast
  have "\<exists>new. db_messages R s' = db_messages R s @ new \<and>
       (\<forall>m \<in> set new. \<exists>t \<in> set (t # ts). copy_of channel external conversation date t m) \<and>
       ((\<forall>t \<in> set (t # ts). holds_turn channel external conversation date (db_messages R s) t) \<longrightarrow> new = [])"
    by (rule exI [of _ "n1 @ n2"]) (use n1 n2 grow in auto)
  moreover have "holds_turn channel external conversation date (db_messages R s') t"
    using got n2(2) grow by simp
  ultimately show ?case using n2(1,5) add(2) by auto
qed (auto simp: holds_turn_def)

lemma archive_summary_done:
  assumes "channel \<noteq> []" "external \<noteq> []" "conversation \<noteq> []" "\<not> is_zero date"
    and "archive_summary R channel external conversation date now summary s = (Inr u, s')"
  shows "db_messages R s' = db_messages R s \<and>
    has_summary channel external conversation date summary (db_summaries R s')"
proof -
  let ?x = "\<lparr>sw_id = 0, sw_open = external, sw_channel = channel, sw_external = external,
      sw_conversation = conversation, sw_summary_date = date, sw_date = date, sw_content = summary,
      sw_archived = now, sw_created = now\<rparr>"
  obtain x s1 where h: "before_create_summary R ?x s = (x, s1)" by fastforce
  note x = hook_summary [OF assms(1-4) h]
  let ?f = "\<lambda>y. y\<lparr>sw_open := external, sw_summary_date := date, sw_content := summary, sw_archived := now\<rparr>"
  have "db_put_summary R (same_summary x) ?f x s1 = (Inr u, s')"
    using assms(5) h by (simp add: archive_summary_def)
  from put_done [OF this] have p: "put_summary (same_summary x) ?f x (db_summaries R s) (db_summaries R s')"
    "db_messages R s' = db_messages R s" using hook_tables(2) [OF h] by simp_all
  have "has_summary channel external conversation date summary (db_summaries R s')"
  proof (cases "\<exists>y \<in> set (db_summaries R s). same_summary x y")
    case True
    then obtain y where y: "y \<in> set (db_summaries R s)" "same_summary x y" by blast
    have "db_summaries R s' = map (\<lambda>y. if same_summary x y then ?f y else y) (db_summaries R s)"
      using p(1) True by (simp add: put_summary_def)
    then have "?f y \<in> set (db_summaries R s')" using y by (auto intro!: image_eqI [of _ _ y])
    then show ?thesis using x y(2) by (auto simp: has_summary_def same_summary_def intro!: bexI [of _ "?f y"])
  next
    case False
    then show ?thesis using p(1) x by (auto simp: put_summary_def has_summary_def)
  qed
  then show ?thesis using p(2) by simp
qed

end

text \<open>What a successful archiving of a day leaves in the tables.\<close>

definition archived ::
  "string \<Rightarrow> string \<Rightarrow> string \<Rightarrow> time \<Rightarrow> archive_turn list \<Rightarrow> string \<Rightarrow>
   message_row list \<times> summary_row list \<Rightarrow> message_row list \<times> summary_row list \<Rightarrow> bool" where
  "archived channel external conversation date ts summary before after \<longleftrightarrow>
     (\<forall>t \<in> set ts. holds_turn channel external conversation date (fst after) t) \<and>
     (\<exists>new. fst after = fst before @ new \<and>
        (\<forall>m \<in> set new. \<exists>t \<in> set ts. copy_of channel external conversation date t m) \<and>
        ((\<forall>t \<in> set ts. holds_turn channel external conversation date (fst before) t) \<longrightarrow> new = [])) \<and>
     (if summary = [] then snd after = snd before
      else has_summary channel external conversation date summary (snd after))"

context database
begin

lemma archive_result:
  assumes "channel \<noteq> []" "external \<noteq> []" "conversation \<noteq> []" "\<forall>t \<in> set ts. at_turn t \<noteq> []"
    and "archive_daily_conversation_for_scope R channel external conversation day ts summary s = (r, s')"
  shows "(r = Inr () \<longrightarrow> archived channel external conversation (beijing_date day) ts summary (tables R s) (tables R s')) \<and>
    (tables R s' = tables R s \<or>
     archived channel external conversation (beijing_date day) ts summary (tables R s) (tables R s'))"
proof -
  let ?now = "fst (env_now R s)" and ?s1 = "snd (env_now R s)" and ?date = "beijing_date day"
  let ?body = "\<lambda>s2. case archive_messages R channel external conversation ?date ?now ts s2 of
      (Inl e, s3) \<Rightarrow> (Inl e, s3)
    | (Inr _, s3) \<Rightarrow> if summary = [] then (Inr (), s3)
        else archive_summary R channel external conversation ?date ?now summary s3"
  have tx: "db_transaction R ?body ?s1 = (r, s')"
    using assms(5) by (simp add: archive_daily_conversation_for_scope_def Let_def split_beta)
  have body: "archived channel external conversation ?date ts summary (tables R s) (tables R s')"
    if b: "tables R s0 = tables R ?s1" "?body s0 = (Inr (), s2)" "tables R s' = tables R s2" for s0 s2
  proof -
    obtain u s3 where a: "archive_messages R channel external conversation ?date ?now ts s0 = (Inr u, s3)"
      using b(2) by (auto split: prod.splits sum.splits)
    note m = archive_messages_done [OF assms(1-3) date_not_zero assms(4) a]
    have s0: "db_messages R s0 = db_messages R s" "db_summaries R s0 = db_summaries R s"
      using b(1) frame(1) [of s] by (simp_all add: tables_def)
    show ?thesis
    proof (cases "summary = []")
      case True
      then have "s2 = s3" using b(2) a by simp
      then show ?thesis using m b(3) s0 True by (simp add: archived_def tables_def)
    next
      case False
      then have "archive_summary R channel external conversation ?date ?now summary s3 = (Inr (), s2)"
        using b(2) a by simp
      from archive_summary_done [OF assms(1-3) date_not_zero this]
      show ?thesis using m b(3) s0 False by (simp add: archived_def tables_def)
    qed
  qed
  show ?thesis
  proof (cases r)
    case (Inl e)
    then have "tables R s' = tables R ?s1 \<or> (\<exists>s0 s2. tables R s0 = tables R ?s1 \<and> ?body s0 = (Inr (), s2) \<and> tables R s' = tables R s2)"
      using tx_failed [of ?body ?s1 e s'] tx by blast
    then show ?thesis using body Inl frame(1) [of s] by auto
  next
    case (Inr u)
    then obtain s0 s2 where "tables R s0 = tables R ?s1" "?body s0 = (Inr (), s2)" "tables R s' = tables R s2"
      using tx_done [of ?body ?s1 u s'] tx by blast
    then show ?thesis using body by blast
  qed
qed

lemma archive_view:
  "r_view R (snd (archive_daily_conversation_for_scope R channel external conversation day ts summary s)) = r_view R s"
  "r_clock R (snd (archive_daily_conversation_for_scope R channel external conversation day ts summary s)) = r_clock R s"
proof -
  have msgs: "r_view R (snd (archive_messages R channel external conversation date now ts s)) = r_view R s \<and>
      r_clock R (snd (archive_messages R channel external conversation date now ts s)) = r_clock R s" for date now s
  proof (induction ts arbitrary: s)
    case (Cons t ts)
    let ?h = "before_create_message R (archive_message channel external conversation date now t) s"
    let ?a = "db_add_message R (same_message (fst ?h)) (fst ?h) (snd ?h)"
    have "snd (archive_messages R channel external conversation date now (t # ts) s) = snd ?a \<or>
        snd (archive_messages R channel external conversation date now (t # ts) s) =
          snd (archive_messages R channel external conversation date now ts (snd ?a))"
      by (auto simp: split_beta Let_def split: sum.splits)
    then show ?case using Cons.IH [of "snd ?a"] by (auto simp: db_view db_clock hook_frame)
  qed simp
  let ?now = "fst (env_now R s)" and ?date = "beijing_date day"
  let ?body = "\<lambda>s2. case archive_messages R channel external conversation ?date ?now ts s2 of
      (Inl e, s3) \<Rightarrow> (Inl e, s3)
    | (Inr _, s3) \<Rightarrow> if summary = [] then (Inr (), s3)
        else archive_summary R channel external conversation ?date ?now summary s3"
  have "r_view R (snd (?body b)) = r_view R b \<and> r_clock R (snd (?body b)) = r_clock R b" for b
    using msgs [of ?date ?now b]
    by (auto simp: archive_summary_def split_beta Let_def hook_frame db_view db_clock split: prod.splits sum.splits)
  from tx_view [OF this, of "snd (env_now R s)"]
  show "r_view R (snd (archive_daily_conversation_for_scope R channel external conversation day ts summary s)) = r_view R s"
    "r_clock R (snd (archive_daily_conversation_for_scope R channel external conversation day ts summary s)) = r_clock R s"
    by (simp_all add: archive_daily_conversation_for_scope_def Let_def split_beta now_view now_clock)
qed

end

section \<open>Properties\<close>

text \<open>
  C19. Archiving a day is all or nothing, and safe to repeat: on success every turn is in the
  table under its conversation and date, what was added is a copy of a turn that was not there
  before, and the summary (if one was given) is stored; on an error the tables are as they were,
  unless all of this happened and only the answer was lost.
\<close>

theorem archive_is_atomic:
  assumes "database R" "channel \<noteq> []" "external \<noteq> []" "conversation \<noteq> []" "\<forall>t \<in> set ts. at_turn t \<noteq> []"
    and "archive_daily_conversation_for_scope R channel external conversation day ts summary s = (r, s')"
  shows "(r = Inr () \<longrightarrow> archived channel external conversation (beijing_date day) ts summary (tables R s) (tables R s')) \<and>
    (tables R s' = tables R s \<or>
     archived channel external conversation (beijing_date day) ts summary (tables R s) (tables R s'))"
  by (rule database.archive_result [OF assms])

definition db_start :: "time \<Rightarrow> ref_db_world" where
  "db_start now = ref_world.extend (ref_start now) (ref_db_world.fields [] [] 0)"

definition demo_turn :: archive_turn where
  "demo_turn = \<lparr>at_turn = ''t1'', at_role = ''user'', at_content = ''hello'', at_created = 5,
     at_speaker_kind = ''user'', at_speaker = ''user'', at_batch = ''b1'', at_sequence = 1\<rparr>"

theorem archive_is_atomic_witness:
  "\<exists>s'. archive_daily_conversation_for_scope (ref_db ()) ''api'' ''u'' ''sos-group'' 0 [demo_turn] ''sum'' (db_start 0) = (Inr (), s') \<and>
     archived ''api'' ''u'' ''sos-group'' (beijing_date 0) [demo_turn] ''sum'' ([], []) (tables (ref_db ()) s')"
proof -
  let ?run = "archive_daily_conversation_for_scope (ref_db ()) ''api'' ''u'' ''sos-group'' 0 [demo_turn] ''sum'' (db_start 0)"
  have ok: "fst ?run = Inr ()"
    by (simp add: archive_daily_conversation_for_scope_def archive_summary_def ref_transaction_def
        Let_def split_beta ref_now_def)
  have start: "tables (ref_db ()) (db_start 0) = ([], [])"
    by (simp add: db_start_def ref_world.defs ref_db_world.defs)
  have "(fst ?run = Inr () \<longrightarrow> archived ''api'' ''u'' ''sos-group'' (beijing_date 0) [demo_turn] ''sum''
      (tables (ref_db ()) (db_start 0)) (tables (ref_db ()) (snd ?run)))"
    by (rule archive_is_atomic [OF ref_db.database_axioms, THEN conjunct1])
      (simp_all add: demo_turn_def)
  then show ?thesis using ok start by (intro exI [of _ "snd ?run"]) (metis prod.collapse)
qed

text \<open>
  Archiving the same turns again adds no message and loses none, so a maintenance run
  that failed half way can be repeated.
\<close>

theorem archive_twice_adds_nothing:
  assumes "database R" "channel \<noteq> []" "external \<noteq> []" "conversation \<noteq> []" "\<forall>t \<in> set ts. at_turn t \<noteq> []"
    and "archive_daily_conversation_for_scope R channel external conversation day ts summary s = (Inr (), s1)"
    and "tables R s2 = tables R s1"
    and "archive_daily_conversation_for_scope R channel external conversation day ts summary' s2 = (Inr (), s3)"
  shows "db_messages R s3 = db_messages R s1"
proof -
  have "archived channel external conversation (beijing_date day) ts summary (tables R s) (tables R s1)"
    using database.archive_result [OF assms(1-6)] by simp
  then have "\<forall>t \<in> set ts. holds_turn channel external conversation (beijing_date day) (fst (tables R s2)) t"
    using assms(7) by (simp add: archived_def)
  moreover have "archived channel external conversation (beijing_date day) ts summary' (tables R s2) (tables R s3)"
    using database.archive_result [OF assms(1-5) assms(8)] by simp
  ultimately have "fst (tables R s3) = fst (tables R s2)" by (auto simp: archived_def)
  then show ?thesis using assms(7) by (simp add: tables_def)
qed

theorem archive_twice_adds_nothing_witness:
  "\<exists>s1 s3. archive_daily_conversation_for_scope (ref_db ()) ''api'' ''u'' ''sos-group'' 0 [demo_turn] [] (db_start 0) = (Inr (), s1) \<and>
     archive_daily_conversation_for_scope (ref_db ()) ''api'' ''u'' ''sos-group'' 0 [demo_turn] ''sum'' s1 = (Inr (), s3) \<and>
     dw_messages s3 = dw_messages s1"
proof -
  let ?a = "\<lambda>sum. archive_daily_conversation_for_scope (ref_db ()) ''api'' ''u'' ''sos-group'' 0 [demo_turn] sum"
  have ok: "fst (?a sum s) = Inr ()" for sum s
    by (simp add: archive_daily_conversation_for_scope_def archive_summary_def ref_transaction_def
        Let_def split_beta ref_now_def)
  obtain s1 where s1: "?a [] (db_start 0) = (Inr (), s1)" using ok by (metis prod.collapse)
  obtain s3 where s3: "?a ''sum'' s1 = (Inr (), s3)" using ok by (metis prod.collapse)
  have "db_messages (ref_db ()) s3 = db_messages (ref_db ()) s1"
    by (rule archive_twice_adds_nothing [OF ref_db.database_axioms _ _ _ _ s1 refl s3])
      (simp_all add: demo_turn_def)
  then show ?thesis using s1 s3 by auto
qed

end
