(* ===== verification/Orchestration.thy ===== *)
theory Orchestration
  imports Conversation_Correct Replies Memory
begin

text \<open>
  Package \<open>internal/orchestration\<close>: the application (\<open>application.go\<close>) that answers a user's
  message with the replies of one to five characters, and the daily maintenance
  (\<open>maintenance.go\<close>) that moves a day's messages from Redis to the archive. It composes the
  conversation store, the memory repository and the language model, which is a parameter. The
  repository may be missing (a nil pointer): that is the flag \<open>repo\<close>. Logging is left out, and
  so are cancellation and time-outs of contexts.
\<close>

section \<open>The application\<close>

definition storage_scope :: "chat_scope \<Rightarrow> scope" where
  "storage_scope sc =
     \<lparr>sc_identity = \<lparr>id_channel = ow_channel (cp_owner sc), id_external = ow_id (cp_owner sc)\<rparr>,
      sc_conversation = cp_conversation sc\<rparr>"

text \<open>The pseudonym of an owner in the log: the first six bytes of a digest, in hexadecimal.\<close>

definition owner_hash :: "('s, 'z) env_scheme \<Rightarrow> owner \<Rightarrow> string" where
  "owner_hash R ow = hex_encode (take 6 (env_sha256 R (ow_channel ow @ [chr 0] @ ow_id ow)))"

definition list_spaces :: "space list" where
  "list_spaces = fixed_spaces"

definition list_messages :: "('s, 'z) db_env_scheme \<Rightarrow> conv_store \<Rightarrow> chat_scope \<Rightarrow> ('s, turn list) io" where
  "list_messages R c sc s =
     (case find_space (cp_conversation sc) of
        None \<Rightarrow> (Inl ErrConversationNotFound, s)
      | Some _ \<Rightarrow>
          (case messages R c (storage_scope sc) s of
             (Inl e, s') \<Rightarrow> (Inl e, s')
           | (Inr ms, s') \<Rightarrow> (Inr (normalize_character_messages ms), s')))"

definition app_clear_today :: "('s, 'z) db_env_scheme \<Rightarrow> conv_store \<Rightarrow> chat_scope \<Rightarrow> ('s, unit) io" where
  "app_clear_today R c sc s =
     (case find_space (cp_conversation sc) of
        None \<Rightarrow> (Inl ErrConversationNotFound, s)
      | Some _ \<Rightarrow> clear_scope_today R c (storage_scope sc) s)"

text \<open>
  The body of \<open>Send\<close> after a batch was begun. A result is the return value and the flag
  \<open>settled\<close>, which the deferred clean-up reads.
\<close>

definition finish_batch ::
  "('s, 'z) db_env_scheme \<Rightarrow> conv_store \<Rightarrow> scope \<Rightarrow> string \<Rightarrow> batch \<Rightarrow> 's \<Rightarrow> ((go_error + batch) \<times> bool) \<times> 's" where
  "finish_batch R c sc token b s =
     (case save_batch R c sc b token True s of
        ((Some e, _), s') \<Rightarrow> ((Inl e, False), s')
      | ((None, b'), s') \<Rightarrow> ((Inr b', True), s'))"

definition nobody :: character where
  "nobody = \<lparr>ch_id = [], ch_display = [], ch_aliases = [], ch_avatar = [], ch_description = [], ch_prompt = []\<rparr>"

text \<open>A failed call and an empty text end the turn alike: \<open>text\<close> is empty for both.\<close>

definition generated_text :: "go_error + string \<Rightarrow> string" where
  "generated_text answer = (case answer of Inl _ \<Rightarrow> [] | Inr t \<Rightarrow> trim_space t)"

definition interrupted_turn :: "batch \<Rightarrow> batch" where
  "interrupted_turn b =
     b\<lparr>bt_status := (if elems (bt_messages b) = [] then batch_failed else batch_partial),
       bt_code := generation_interrupted\<rparr>"

fun speak_all ::
  "('s, 'z) db_env_scheme \<Rightarrow> conv_store \<Rightarrow> 's reply_model \<Rightarrow> chat_scope \<Rightarrow> string \<Rightarrow> turn list \<Rightarrow> string list \<Rightarrow>
   string \<Rightarrow> character_id list \<Rightarrow> batch \<Rightarrow> 's \<Rightarrow> ((go_error + batch) \<times> bool) \<times> 's" where
  "speak_all R c M sc content history summaries token [] b s =
     finish_batch R c (storage_scope sc) token (b\<lparr>bt_status := batch_complete\<rparr>) s"
| "speak_all R c M sc content history summaries token (i # is) b s =
     (let ch = (case find_character i of Some x \<Rightarrow> x | None \<Rightarrow> nobody);
          prefix_turns = elems (bt_messages b);
          selected = select_history_batches history (ch_prompt ch) content prefix_turns summaries;
          (answer, s1) = rm_generate M \<lparr>ci_scope = sc, ci_character = ch, ci_summaries = summaries,
             ci_history = selected, ci_user = bt_user b, ci_prefix = prefix_turns\<rparr> s;
          reply = generated_text answer
      in if reply = [] then finish_batch R c (storage_scope sc) token (interrupted_turn b) s1
         else case append_character R c (storage_scope sc) b token (ch_id ch) (ch_display ch) (ch_avatar ch) reply s1 of
                ((Inl e, _), s2) \<Rightarrow> ((Inl e, False), s2)
              | ((Inr _, b2), s2) \<Rightarrow> speak_all R c M sc content history summaries token is b2 s2)"

definition plan_turn ::
  "'s reply_model \<Rightarrow> chat_scope \<Rightarrow> space \<Rightarrow> turn list \<Rightarrow> string \<Rightarrow> 's \<Rightarrow> character_id list \<times> 's" where
  "plan_turn M sc sp history content s =
     (if sp_kind sp = space_direct \<and> length (sp_participants sp) = 1
      then ([ch_id (hd (sp_participants sp))], s)
      else plan_speakers M sc sp history content s)"

definition run_batch ::
  "('s, 'z) db_env_scheme \<Rightarrow> conv_store \<Rightarrow> 's reply_model \<Rightarrow> chat_scope \<Rightarrow> space \<Rightarrow> string \<Rightarrow> turn list \<Rightarrow> string list \<Rightarrow>
   string \<Rightarrow> batch \<Rightarrow> 's \<Rightarrow> ((go_error + batch) \<times> bool) \<times> 's" where
  "run_batch R c M sc sp content history summaries token b s =
     (let (plan, s1) = plan_turn M sc sp history content s;
          b1 = b\<lparr>bt_planned := Some plan\<rparr>
      in case save_batch R c (storage_scope sc) b1 token False s1 of
           ((Some e, _), s2) \<Rightarrow> ((Inl e, False), s2)
         | ((None, b2), s2) \<Rightarrow> speak_all R c M sc content history summaries token plan b2 s2)"

text \<open>The deferred clean-up: its outcome is only logged.\<close>

definition clean_up ::
  "('s, 'z) db_env_scheme \<Rightarrow> conv_store \<Rightarrow> scope \<Rightarrow> batch \<Rightarrow> string \<Rightarrow> bool \<Rightarrow> 's \<Rightarrow> 's" where
  "clean_up R c sc b token settled s =
     (if settled then s else snd (interrupt_batch R c sc (bt_id b) (bt_request b) token (bt_created b) s))"

definition load_summaries ::
  "('s, 'z) db_env_scheme \<Rightarrow> bool \<Rightarrow> chat_scope \<Rightarrow> ('s, string list) io" where
  "load_summaries R repo sc s =
     (if \<not> repo then (Inr [], s)
      else case recent_summaries_for_scope R (ow_channel (cp_owner sc)) (ow_id (cp_owner sc)) (cp_conversation sc) s of
             (Inl e, s') \<Rightarrow> (Inl e, s')
           | (Inr xs, s') \<Rightarrow> (Inr (map sw_content xs), s'))"

definition begin_and_run ::
  "('s, 'z) db_env_scheme \<Rightarrow> conv_store \<Rightarrow> 's reply_model \<Rightarrow> send_command \<Rightarrow> space \<Rightarrow> string \<Rightarrow> turn list \<Rightarrow>
   string list \<Rightarrow> ('s, batch) io" where
  "begin_and_run R c M cmd sp content history summaries s =
     (case begin_batch R c (storage_scope (sd_scope cmd)) (sd_request cmd) content s of
        (Inl e, s1) \<Rightarrow> (Inl e, s1)
      | (Inr (b, BeginExisting, _), s1) \<Rightarrow> (Inr b, s1)
      | (Inr (b, BeginStarted, token), s1) \<Rightarrow>
          (case run_batch R c M (sd_scope cmd) sp content history summaries token b s1 of
             ((r, settled), s2) \<Rightarrow> (r, clean_up R c (storage_scope (sd_scope cmd)) b token settled s2)))"

definition send ::
  "('s, 'z) db_env_scheme \<Rightarrow> conv_store \<Rightarrow> 's reply_model \<Rightarrow> bool \<Rightarrow> send_command \<Rightarrow> ('s, batch) io" where
  "send R c M repo cmd s =
     (case find_space (cp_conversation (sd_scope cmd)) of
        None \<Rightarrow> (Inl ErrConversationNotFound, s)
      | Some sp \<Rightarrow>
          (let content = trim_space (sd_content cmd) in
           if content = [] \<or> \<not> env_uuid_ok R (sd_request cmd) then (Inl ErrInvalidRequest, s)
           else if 4000 < rune_count content then (Inl ErrMessageTooLarge, s)
           else case messages R c (storage_scope (sd_scope cmd)) s of
             (Inl _, s1) \<Rightarrow> (Inl ErrNotStarted, s1)
           | (Inr history, s1) \<Rightarrow>
               (case load_summaries R repo (sd_scope cmd) s1 of
                  (Inl _, s2) \<Rightarrow> (Inl ErrNotStarted, s2)
                | (Inr summaries, s2) \<Rightarrow>
                    begin_and_run R c M cmd sp content (normalize_character_messages history) summaries s2)))"

section \<open>Maintenance\<close>

definition archive_of :: "turn \<Rightarrow> archive_turn" where
  "archive_of m = \<lparr>at_turn = tn_id m, at_role = tn_role m, at_content = tn_content m, at_created = tn_created m,
     at_speaker_kind = tn_speaker_kind m, at_speaker = tn_speaker m, at_batch = tn_batch m,
     at_sequence = tn_sequence m\<rparr>"

definition chat_scope_of :: "scope \<Rightarrow> chat_scope" where
  "chat_scope_of sc = \<lparr>cp_owner = \<lparr>ow_channel = id_channel (sc_identity sc), ow_id = id_external (sc_identity sc)\<rparr>,
     cp_conversation = sc_conversation sc\<rparr>"

datatype scope_outcome = ScopeFailed | ScopeEmpty | ScopeDone

text \<open>One round of the loop of \<open>MaintainDay\<close>.\<close>

definition archive_scope ::
  "('s, 'z) db_env_scheme \<Rightarrow> scope \<Rightarrow> time \<Rightarrow> archive_turn list \<Rightarrow> string \<Rightarrow> ('s, unit) io" where
  "archive_scope R sc day turns summary =
     archive_daily_conversation_for_scope R (id_channel (sc_identity sc)) (id_external (sc_identity sc))
       (sc_conversation sc) day turns summary"

definition maintain_messages ::
  "('s, 'z) db_env_scheme \<Rightarrow> conv_store \<Rightarrow> 's reply_model \<Rightarrow> time \<Rightarrow> scope \<Rightarrow> turn list \<Rightarrow> 's \<Rightarrow> scope_outcome \<times> 's" where
  "maintain_messages R c M day sc ms s1 =
     (case archive_scope R sc day (map archive_of ms) [] s1 of
        (Inl _, s2) \<Rightarrow> (ScopeFailed, s2)
      | (Inr _, s2) \<Rightarrow>
          (case rm_summarize M \<lparr>si_scope = chat_scope_of sc, si_messages = ms\<rparr> s2 of
             (Inl _, s3) \<Rightarrow> (ScopeFailed, s3)
           | (Inr summary, s3) \<Rightarrow>
               if trim_space summary = [] then (ScopeFailed, s3)
               else case archive_scope R sc day [] (trim_space summary) s3 of
                      (Inl _, s4) \<Rightarrow> (ScopeFailed, s4)
                    | (Inr _, s4) \<Rightarrow>
                        (case clear_scope_date R c sc day s4 of
                           (Inl _, s5) \<Rightarrow> (ScopeFailed, s5)
                         | (Inr _, s5) \<Rightarrow> (ScopeDone, s5))))"

definition maintain_scope ::
  "('s, 'z) db_env_scheme \<Rightarrow> conv_store \<Rightarrow> 's reply_model \<Rightarrow> time \<Rightarrow> scope \<Rightarrow> 's \<Rightarrow> scope_outcome \<times> 's" where
  "maintain_scope R c M day sc s =
     (case messages_for_date_scope R c sc day s of
        (Inl _, s1) \<Rightarrow> (ScopeFailed, s1)
      | (Inr ms, s1) \<Rightarrow>
          if ms = [] then
            (case clear_scope_date R c sc day s1 of
               (Inl _, s2) \<Rightarrow> (ScopeFailed, s2)
             | (Inr _, s2) \<Rightarrow> (ScopeEmpty, s2))
          else maintain_messages R c M day sc ms s1)"

text \<open>The counts and the owners to greet, a set of which the sorted list is reported.\<close>

fun maintain_scopes ::
  "('s, 'z) db_env_scheme \<Rightarrow> conv_store \<Rightarrow> 's reply_model \<Rightarrow> time \<Rightarrow> scope list \<Rightarrow> nat \<times> nat \<times> string list \<Rightarrow>
   's \<Rightarrow> (nat \<times> nat \<times> string list) \<times> 's" where
  "maintain_scopes R c M day [] acc s = (acc, s)"
| "maintain_scopes R c M day (sc # scs) (processed, failed, greet) s =
     (case maintain_scope R c M day sc s of
        (ScopeFailed, s1) \<Rightarrow> maintain_scopes R c M day scs (processed, failed + 1, greet) s1
      | (ScopeEmpty, s1) \<Rightarrow> maintain_scopes R c M day scs (processed + 1, failed, greet) s1
      | (ScopeDone, s1) \<Rightarrow>
          maintain_scopes R c M day scs (processed + 1, failed,
            (if id_channel (sc_identity sc) = ''wechat'' then List.insert (id_external (sc_identity sc)) greet
             else greet)) s1)"

definition maintain_day ::
  "('s, 'z) db_env_scheme \<Rightarrow> conv_store \<Rightarrow> 's reply_model \<Rightarrow> bool \<Rightarrow> time \<Rightarrow> ('s, maintenance_result) io" where
  "maintain_day R c M repo day s =
     (if \<not> repo then (Inl (ErrText ''memory repository unavailable''), s)
      else case active_scopes R c day s of
        (Inl e, s1) \<Rightarrow> (Inl e, s1)
      | (Inr scs, s1) \<Rightarrow>
          (case maintain_scopes R c M day scs (0, 0, []) s1 of
             ((processed, failed, greet), s2) \<Rightarrow>
               (case purge_summaries_older_than R (day - 7 * day_length) s2 of
                  (r, s3) \<Rightarrow>
                    (Inr \<lparr>mr_greet = sort greet, mr_processed = processed,
                       mr_failed = (case r of Inl _ \<Rightarrow> failed + 1 | Inr _ \<Rightarrow> failed), mr_target = day\<rparr>, s3))))"

end
