(* ===== verification/Orchestration_Correct.thy ===== *)
theory Orchestration_Correct
  imports Orchestration
begin

text \<open>
  What the orchestration promises: the turn it reports is the turn that was planned and
  spoken, the lease is released, and maintenance never loses a message.
\<close>

section \<open>A turn\<close>

lemma answered: "round_trip R script s = (Inr x, s') \<Longrightarrow> \<exists>s1. script s1 = (Some x, s')"
  by (auto simp: round_trip_def split: prod.splits delivery.splits option.splits)

lemma append_reports:
  assumes "append_character R c sc b token sp disp avatar content s = ((Inr m, b'), s')"
    and "elems (bt_planned b) \<noteq> []"
  shows "\<exists>m'. elems (bt_messages b') = elems (bt_messages b) @ [m'] \<and> tn_speaker m' = sp \<and>
    tn_content m' = content \<and> tn_batch m' = bt_id b \<and> bt_planned b' = bt_planned b \<and>
    bt_id b' = bt_id b \<and> bt_request b' = bt_request b \<and> bt_user b' = bt_user b"
proof -
  let ?now = "fst (env_now R s)" and ?e = "snd (env_now R s)"
  let ?raw = "\<lparr>tn_id = ''turn-'' @ fst (new_turn_id R ?e), tn_role = role_assistant, tn_content = content,
            tn_created = ?now, tn_conversation = sc_conversation sc, tn_speaker_kind = speaker_character,
            tn_speaker = sp, tn_batch = bt_id b, tn_sequence = 0, tn_display = disp, tn_avatar = avatar\<rparr>"
  let ?b1 = "b\<lparr>bt_messages := append1 (bt_messages b) ?raw, bt_updated := ?now\<rparr>"
  obtain ps where ps: "bt_planned b = Some ps" "ps \<noteq> []" using assms(2) by (cases "bt_planned b") auto
  let ?script = "append_character_script R (append_keys_of c sc b) token ?raw (marshal_batch ?b1)
      (bt_request b) (milliseconds (cs_ttl c)) (milliseconds (cs_lease_ttl c))"
  obtain r s3 where r: "round_trip R ?script (snd (new_turn_id R ?e)) = (r, s3)" by fastforce
  have run: "append_character R c sc b token sp disp avatar content s =
      (case r of Inl e \<Rightarrow> ((Inl e, ?b1), s3) | Inr ReplyLeaseLost \<Rightarrow> ((Inl ErrLeaseLost, ?b1), s3)
       | Inr (ReplyAppended m d) \<Rightarrow> (case unmarshal_into ?b1 d of
           (b2, ok) \<Rightarrow> (((if ok then Inr m else Inl ErrDecode), b2), s3)))"
    using r by (simp add: append_character_def split_beta Let_def split: sum.split append_reply.split)
  then obtain d where "r = Inr (ReplyAppended m d)" "unmarshal_into ?b1 d = (b', True)" "s3 = s'"
    using assms(1) by (simp split: sum.splits append_reply.splits prod.splits if_splits)
  then obtain s1 where d: "?script s1 = (Some (ReplyAppended m d), s')" "unmarshal_into ?b1 d = (b', True)"
    using answered [of R ?script _ "ReplyAppended m d" s'] r by blast
  obtain n where "d = lua_reencode ((marshal_batch ?b1)\<lparr>bd_messages :=
      JArray (elems (bt_messages b) @ [?raw\<lparr>tn_sequence := n\<rparr>])\<rparr>)"
    using d(1)
    by (auto simp: append_character_script_def marshal_batch_def marshal_slice_def append1_def number_last_def
        Let_def split: prod.splits if_splits)
  then have "unmarshal_into ?b1 d = (?b1\<lparr>bt_messages := Some (elems (bt_messages b) @ [?raw\<lparr>tn_sequence := n\<rparr>])\<rparr>, True)"
    using ps by (cases b) (simp add: lua_reencode_def lua_table_def unmarshal_into_def marshal_batch_def marshal_slice_def Let_def)
  then show ?thesis using d(2) by auto
qed

lemma save_reports:
  assumes "save_batch R c sc b token release s = ((None, b'), s')"
  shows "b' = b\<lparr>bt_updated := fst (env_now R s)\<rparr> \<and>
    (\<exists>s1. save_batch_script R (lease_key c sc) (batch_key c sc (bt_id b))
        (requests_key c sc (beijing_day (bt_created b))) token (marshal_batch b') (bt_request b)
        (milliseconds (cs_ttl c)) release (milliseconds (cs_lease_ttl c)) s1 = (Some 1, s'))"
  using assms
  by (auto simp: save_batch_def split_beta Let_def split: sum.splits if_splits)
    (metis answered prod.collapse)

text \<open>What is reported of a turn, given what was planned.\<close>

definition faithful_turn :: "character_id list \<Rightarrow> batch \<Rightarrow> bool" where
  "faithful_turn plan b \<longleftrightarrow> bt_planned b = Some plan \<and>
     (\<exists>k \<le> length plan. map tn_speaker (elems (bt_messages b)) = take k plan \<and>
        (if k = length plan then bt_status b = batch_complete
         else bt_status b = (if k = 0 then batch_failed else batch_partial) \<and>
              bt_code b = generation_interrupted)) \<and>
     (\<forall>m \<in> set (elems (bt_messages b)). tn_content m \<noteq> [] \<and> tn_batch m = bt_id b)"

lemma finish_reports:
  assumes "finish_batch R c sc token b s = ((Inr b', settled), s')"
  shows "settled \<and> (\<exists>s0 t. save_batch R c sc b token True s0 = ((None, b'), s') \<and> b' = b\<lparr>bt_updated := t\<rparr>)"
  using assms save_reports [of R c sc b token True s]
  by (auto simp: finish_batch_def split: prod.splits option.splits)

lemma speak_all_reports:
  assumes "speak_all R c M sc content h sums token ids b s = ((Inr b', settled), s')"
    and "bt_planned b = Some (done @ ids)" "done @ ids \<noteq> []" "set ids \<subseteq> set (map ch_id registry)"
    and "map tn_speaker (elems (bt_messages b)) = done"
    and "\<forall>m \<in> set (elems (bt_messages b)). tn_content m \<noteq> [] \<and> tn_batch m = bt_id b"
  shows "faithful_turn (done @ ids) b' \<and> settled \<and> bt_request b' = bt_request b \<and> bt_user b' = bt_user b \<and>
    (\<exists>s0 b0. save_batch R c (storage_scope sc) b0 token True s0 = ((None, b'), s'))"
  using assms
proof (induction ids arbitrary: b s "done")
  case Nil
  from finish_reports [of R c "storage_scope sc" token "b\<lparr>bt_status := batch_complete\<rparr>" s b' settled s']
  obtain s0 t where f: "settled" "save_batch R c (storage_scope sc) (b\<lparr>bt_status := batch_complete\<rparr>) token True s0 = ((None, b'), s')"
    "b' = b\<lparr>bt_status := batch_complete, bt_updated := t\<rparr>" using Nil.prems(1) by auto
  have "faithful_turn done b'" using Nil.prems f(3) by (auto simp: faithful_turn_def)
  then show ?case using f by auto
next
  case (Cons i ids)
  obtain ch where ch: "find_character i = Some ch" "ch_id ch = i"
    using Cons.prems(4) find_registered by (force simp: find_character_complete)
  let ?sel = "select_history_batches h (ch_prompt ch) content (elems (bt_messages b)) sums"
  obtain answer s1 where g: "rm_generate M \<lparr>ci_scope = sc, ci_character = ch, ci_summaries = sums,
      ci_history = ?sel, ci_user = bt_user b, ci_prefix = elems (bt_messages b)\<rparr> s = (answer, s1)" by fastforce
  show ?case
  proof (cases "generated_text answer = []")
    case True
    then have "finish_batch R c (storage_scope sc) token (interrupted_turn b) s1 = ((Inr b', settled), s')"
      using Cons.prems(1) ch(1) g by simp
    from finish_reports [OF this]
    obtain s0 t where f: "settled" "save_batch R c (storage_scope sc) (interrupted_turn b) token True s0 = ((None, b'), s')"
      "b' = (interrupted_turn b)\<lparr>bt_updated := t\<rparr>" by blast
    have "faithful_turn (done @ i # ids) b'"
      using Cons.prems(2,5,6) f(3)
      by (auto simp: faithful_turn_def interrupted_turn_def intro!: exI [of _ "length done"])
    moreover have "bt_request b' = bt_request b" "bt_user b' = bt_user b"
      unfolding f(3) by (simp_all add: interrupted_turn_def)
    ultimately show ?thesis using f(1,2) by blast
  next
    case False
    then obtain m b2 s2 where a: "append_character R c (storage_scope sc) b token (ch_id ch) (ch_display ch) (ch_avatar ch)
        (generated_text answer) s1 = ((Inr m, b2), s2)"
      "speak_all R c M sc content h sums token ids b2 s2 = ((Inr b', settled), s')"
      using Cons.prems(1) ch(1) g by (auto simp: Let_def split: prod.splits sum.splits)
    from append_reports [OF a(1)] Cons.prems(2) obtain m' where m': "elems (bt_messages b2) = elems (bt_messages b) @ [m']"
      "tn_speaker m' = i" "tn_content m' = generated_text answer" "tn_batch m' = bt_id b"
      "bt_planned b2 = bt_planned b" "bt_id b2 = bt_id b" "bt_request b2 = bt_request b" "bt_user b2 = bt_user b"
      using ch(2) by auto
    have "faithful_turn ((done @ [i]) @ ids) b' \<and> settled \<and> bt_request b' = bt_request b2 \<and> bt_user b' = bt_user b2 \<and>
        (\<exists>s0 b0. save_batch R c (storage_scope sc) b0 token True s0 = ((None, b'), s'))"
      by (rule Cons.IH [OF a(2)]) (use Cons.prems(2-6) m' False in auto)
    then show ?thesis using m'(7,8) by simp
  qed
qed

lemma plan_turn_valid:
  assumes "find_space i = Some sp" "plan_turn M sc sp h content s = (plan, s')"
  shows "plan \<noteq> [] \<and> length plan \<le> 5 \<and> distinct plan \<and> set plan \<subseteq> set (map ch_id registry) \<and>
    set plan \<subseteq> set (map ch_id (sp_participants sp))"
proof (cases "sp = group_space")
  case True
  then have ids: "map ch_id (sp_participants sp) = map ch_id registry"
    using group_participants registry_ids by simp
  have "plan_speakers M sc sp h content s = (plan, s')"
    using assms(2) True by (simp add: plan_turn_def group_space_def space_group_def space_direct_def)
  from plan_speakers_cases [OF ids this refl] show ?thesis by (simp add: ids)
next
  case False
  then obtain c where "c \<in> set registry" "sp = direct_space c" using find_space_cases [OF assms(1)] by auto
  then show ?thesis using assms(2) by (auto simp: plan_turn_def direct_space_def)
qed

lemma begin_reports:
  assumes "begin_batch R c sc request content s = (Inr (b, BeginStarted, token), s')"
  shows "elems (bt_messages b) = [] \<and> bt_request b = request \<and> tn_content (bt_user b) = content \<and> bt_planned b = Some []"
proof -
  let ?script = "\<lambda>now bid uid tok. begin_batch_script R (begin_keys_of c sc (beijing_day now) bid) request
      (marshal_batch (fresh_batch sc bid uid request content now)) tok (milliseconds (cs_ttl c))
      (milliseconds (cs_lease_ttl c)) (active_scope_member sc)"
  let ?s0 = "snd (env_now R s)"
  let ?mg = "migrate_legacy_scope R c sc (beijing_day (fst (env_now R s))) ?s0"
  let ?now = "fst (env_now R (snd ?mg))" and ?s2 = "snd (env_now R (snd ?mg))"
  let ?bid = "''batch-'' @ fst (new_turn_id R ?s2)" and ?s3 = "snd (new_turn_id R ?s2)"
  let ?uid = "''turn-'' @ fst (new_turn_id R ?s3)" and ?s4 = "snd (new_turn_id R ?s3)"
  let ?tok = "fst (new_turn_id R ?s4)" and ?s5 = "snd (new_turn_id R ?s4)"
  have mg: "\<exists>u. fst ?mg = Inr u"
    using assms by (cases "fst ?mg") (simp_all add: begin_batch_def split_beta Let_def)
  obtain x s6 where x: "round_trip R (?script ?now ?bid ?uid ?tok) ?s5 = (x, s6)" by fastforce
  have "begin_batch R c sc request content s =
      (case x of Inl e \<Rightarrow> (Inl e, s6) | Inr reply \<Rightarrow> (begin_result (fresh_batch sc ?bid ?uid request content ?now) reply, s6))"
    using mg x by (auto simp: begin_batch_def split_beta Let_def split: sum.split)
  then obtain reply where rp: "x = Inr reply" "s6 = s'"
    "begin_result (fresh_batch sc ?bid ?uid request content ?now) reply = Inr (b, BeginStarted, token)"
    using assms by (simp split: sum.splits)
  define now where "now = ?now"
  define bid where "bid = ?bid"
  define uid where "uid = ?uid"
  define tok where "tok = ?tok"
  obtain s1 where r: "?script now bid uid tok s1 = (Some reply, s')"
    "begin_result (fresh_batch sc bid uid request content now) reply = Inr (b, BeginStarted, token)"
    using answered [of R "?script ?now ?bid ?uid ?tok" ?s5 reply s'] x rp
    unfolding now_def bid_def uid_def tok_def by blast
  from r(2) obtain d where d: "reply = ReplyStarted d token"
    "\<exists>b0. unmarshal_batch (fresh_batch sc bid uid request content now) d = Some b0 \<and> b = normalize_batch_collections b0"
    by (auto simp: begin_result_def split: begin_reply.splits option.splits)
  from r(1) d(1) have "\<exists>n. tidy_collections ((marshal_batch (fresh_batch sc bid uid request content now))
      \<lparr>bd_user := (bt_user (fresh_batch sc bid uid request content now))\<lparr>tn_sequence := n\<rparr>\<rparr>) = Some d"
    by (auto simp: begin_batch_script_def marshal_batch_def Let_def split: prod.splits option.splits blob.splits if_splits)
  then show ?thesis using d(2)
    by (auto simp: tidy_collections_def drop_empty_def marshal_batch_def marshal_slice_def fresh_batch_def
        unmarshal_batch_def normalize_batch_collections_def split: option.splits)
qed

text \<open>A turn that reports itself settled has given its lease back, and it reports a batch just then.\<close>

lemma finish_settles:
  assumes "finish_batch R c sc token b s = ((r, settled), s')"
  shows "(\<exists>b'. r = Inr b') = settled" "redis_service R \<Longrightarrow> settled \<Longrightarrow> value_at (r_view R s') (lease_key c sc) = None"
proof -
  show "(\<exists>b'. r = Inr b') = settled"
    using assms by (auto simp: finish_batch_def split: prod.splits option.splits)
  assume R: "redis_service R" and settled
  then obtain b' where "save_batch R c sc b token True s = ((None, b'), s')"
    using assms by (auto simp: finish_batch_def split: prod.splits option.splits)
  from save_reports [OF this] obtain s1 where
    "save_batch_script R (lease_key c sc) (batch_key c sc (bt_id b)) (requests_key c sc (beijing_day (bt_created b))) token
      (marshal_batch b') (bt_request b) (milliseconds (cs_ttl c)) True (milliseconds (cs_lease_ttl c)) s1 = (Some 1, s')" by blast
  then obtain s2 where "s' = r_del R (lease_key c sc) s2"
    by (auto simp: save_batch_script_def Let_def split: if_splits)
  then show "value_at (r_view R s') (lease_key c sc) = None" by (simp add: redis_service.del [OF R] value_at_simps)
qed

lemma speak_all_settles:
  assumes "speak_all R c M sc content h sums token ids b s = ((r, settled), s')"
  shows "(\<exists>b'. r = Inr b') = settled"
    "redis_service R \<Longrightarrow> settled \<Longrightarrow> value_at (r_view R s') (lease_key c (storage_scope sc)) = None"
proof -
  have "(\<exists>b'. r = Inr b') = settled \<and>
      (redis_service R \<longrightarrow> settled \<longrightarrow> value_at (r_view R s') (lease_key c (storage_scope sc)) = None)"
    using assms
  proof (induction ids arbitrary: b s)
    case Nil
    then have "finish_batch R c (storage_scope sc) token (b\<lparr>bt_status := batch_complete\<rparr>) s = ((r, settled), s')" by simp
    from finish_settles [OF this] show ?case by blast
  next
    case (Cons i ids)
    let ?ch = "case find_character i of Some x \<Rightarrow> x | None \<Rightarrow> nobody"
    obtain answer s1 where g: "rm_generate M \<lparr>ci_scope = sc, ci_character = ?ch, ci_summaries = sums,
        ci_history = select_history_batches h (ch_prompt ?ch) content (elems (bt_messages b)) sums,
        ci_user = bt_user b, ci_prefix = elems (bt_messages b)\<rparr> s = (answer, s1)" by fastforce
    show ?case
    proof (cases "generated_text answer = []")
      case True
      then have "finish_batch R c (storage_scope sc) token (interrupted_turn b) s1 = ((r, settled), s')"
        using Cons.prems g by (simp add: Let_def)
      from finish_settles [OF this] show ?thesis by blast
    next
      case False
      obtain x b2 s2 where a: "append_character R c (storage_scope sc) b token (ch_id ?ch) (ch_display ?ch) (ch_avatar ?ch)
          (generated_text answer) s1 = ((x, b2), s2)" by (metis surj_pair)
      then show ?thesis using Cons.prems g False Cons.IH [of b2 s2] by (cases x) (auto simp: Let_def)
    qed
  qed
  then show "(\<exists>b'. r = Inr b') = settled"
    "redis_service R \<Longrightarrow> settled \<Longrightarrow> value_at (r_view R s') (lease_key c (storage_scope sc)) = None" by simp_all
qed

lemma run_batch_settles:
  assumes "run_batch R c M sc sp content h sums token b s = ((r, settled), s')"
  shows "(\<exists>b'. r = Inr b') = settled"
    "redis_service R \<Longrightarrow> settled \<Longrightarrow> value_at (r_view R s') (lease_key c (storage_scope sc)) = None"
proof -
  obtain plan s1 where p: "plan_turn M sc sp h content s = (plan, s1)" by fastforce
  obtain x b2 s2 where sv: "save_batch R c (storage_scope sc) (b\<lparr>bt_planned := Some plan\<rparr>) token False s1 = ((x, b2), s2)"
    by (metis surj_pair)
  have run: "x = None \<and> speak_all R c M sc content h sums token plan b2 s2 = ((r, settled), s') \<or> (\<exists>e. r = Inl e) \<and> \<not> settled"
    using assms p sv by (cases x) (auto simp: run_batch_def)
  show "(\<exists>b'. r = Inr b') = settled"
    using run speak_all_settles(1) [of R c M sc content h sums token plan b2 s2 r settled s'] by auto
  show "value_at (r_view R s') (lease_key c (storage_scope sc)) = None" if "redis_service R" settled
    using run speak_all_settles(2) [of R c M sc content h sums token plan b2 s2 r settled s'] that by auto
qed

text \<open>What the deferred clean-up does, depending on what its request finds.\<close>

lemma clean_up_cases:
  assumes "go_env R" "good_store c" "plain_scope sc" "r_arrive R (snd (env_now R s)) = (arrival, v)" "conv_ok c (r_view R v)"
  shows "clean_up R c sc b token True s = s"
    and "if arrival = LostRequest \<or> string_of (r_view R v) (lease_key c sc) \<noteq> Some (Raw token)
      then clean_up R c sc b token False s = v
      else case stored_batch (r_view R v) (batch_key c sc (bt_id b)) (requests_key c sc (beijing_day (bt_created b))) (bt_request b) of
          None \<Rightarrow> clean_up R c sc b token False s = v
        | Some x \<Rightarrow> string_of (r_view R (clean_up R c sc b token False s)) (lease_key c sc) = None \<and>
            (\<exists>doc. x = BatchDoc doc \<and> (bd_status doc = batch_generating \<longrightarrow>
               hash_of (r_view R (clean_up R c sc b token False s)) (requests_key c sc (beijing_day (bt_created b))) (bt_request b) =
                 Some (BatchDoc (interrupted_doc (fst (env_now R s)) doc))))"
proof -
  have R: "redis_service R" using assms(1) by (simp add: go_env_def)
  show "clean_up R c sc b token True s = s" by (simp add: clean_up_def)
  let ?rk = "requests_key c sc (beijing_day (bt_created b))" and ?bk = "batch_key c sc (bt_id b)"
  define script where "script = interrupt_batch_script R (lease_key c sc) ?bk ?rk token (bt_request b) (milliseconds (cs_ttl c))
      (fst (env_now R s))"
  have c: "clean_up R c sc b token False s = (if arrival = LostRequest then v else snd (script v))"
    using assms(4) by (cases arrival) (simp_all add: clean_up_def interrupt_batch_def script_def [symmetric] round_trip_def split_beta
        Let_def split: sum.splits interrupt_reply.splits blob.splits option.splits)
  have ttl: "0 < milliseconds (cs_ttl c)" using good_store_ms [OF assms(2)] by simp
  show "if arrival = LostRequest \<or> string_of (r_view R v) (lease_key c sc) \<noteq> Some (Raw token)
      then clean_up R c sc b token False s = v
      else case stored_batch (r_view R v) ?bk ?rk (bt_request b) of
          None \<Rightarrow> clean_up R c sc b token False s = v
        | Some x \<Rightarrow> string_of (r_view R (clean_up R c sc b token False s)) (lease_key c sc) = None \<and>
            (\<exists>doc. x = BatchDoc doc \<and> (bd_status doc = batch_generating \<longrightarrow>
               hash_of (r_view R (clean_up R c sc b token False s)) ?rk (bt_request b) =
                 Some (BatchDoc (interrupted_doc (fst (env_now R s)) doc))))"
  proof (cases "string_of (r_view R v) (lease_key c sc) = Some (Raw token)")
    case False
    then show ?thesis using c redis_service.interrupt_fenced [OF R assms(5,3) False] by (simp add: script_def)
  next
    case True
    show ?thesis
    proof (cases "stored_batch (r_view R v) ?bk ?rk (bt_request b)")
      case None
      then show ?thesis using True c redis_service.interrupt_missing [OF R assms(5,3) True None] by (simp add: script_def)
    next
      case (Some x)
      obtain doc s' where r: "x = BatchDoc doc" "script v = (Some (InterruptOk (BatchDoc (interrupted_doc (fst (env_now R s)) doc))), s')"
        "string_of (r_view R s') (lease_key c sc) = None"
        "bd_status doc = batch_generating \<longrightarrow>
          hash_of (r_view R s') ?rk (bt_request b) = Some (BatchDoc (interrupted_doc (fst (env_now R s)) doc))"
        unfolding script_def by (rule redis_service.interrupt_done [OF R assms(5,3) True Some ttl])
      then show ?thesis using True Some c by simp
    qed
  qed
qed

text \<open>
  Where a reported batch comes from: the store already had one for the request when \<open>Send\<close>
  asked it to begin, or a turn was run to its end.
\<close>

definition replays ::
  "('s, 'z) db_env_scheme \<Rightarrow> conv_store \<Rightarrow> bool \<Rightarrow> send_command \<Rightarrow> 's \<Rightarrow> batch \<Rightarrow> 's \<Rightarrow> bool" where
  "replays R c repo cmd s b s' \<longleftrightarrow> (\<exists>history s1 summaries s2 token.
     messages R c (storage_scope (sd_scope cmd)) s = (Inr history, s1) \<and>
     load_summaries R repo (sd_scope cmd) s1 = (Inr summaries, s2) \<and>
     begin_batch R c (storage_scope (sd_scope cmd)) (sd_request cmd) (trim_space (sd_content cmd)) s2 =
       (Inr (b, BeginExisting, token), s'))"

lemma send_cases:
  assumes "send R c M repo cmd s = (Inr b, s')"
  obtains (replayed) "replays R c repo cmd s b s'"
    | (spoken) plan sp token s0 b0 where "find_space (cp_conversation (sd_scope cmd)) = Some sp"
      "plan \<noteq> []" "length plan \<le> 5" "distinct plan" "set plan \<subseteq> set (map ch_id (sp_participants sp))"
      "faithful_turn plan b" "bt_request b = sd_request cmd" "tn_content (bt_user b) = trim_space (sd_content cmd)"
      "save_batch R c (storage_scope (sd_scope cmd)) b0 token True s0 = ((None, b), s')"
proof -
  let ?content = "trim_space (sd_content cmd)" and ?sc = "sd_scope cmd"
  obtain sp history0 history summaries s1 s2 where sp: "find_space (cp_conversation ?sc) = Some sp"
    and pre: "messages R c (storage_scope ?sc) s = (Inr history0, s1)" "load_summaries R repo ?sc s1 = (Inr summaries, s2)"
    and run: "begin_and_run R c M cmd sp ?content history summaries s2 = (Inr b, s')"
    using assms by (auto simp: send_def Let_def split: option.splits prod.splits sum.splits if_splits)
  from run obtain b1 st token s3 where beg: "begin_batch R c (storage_scope ?sc) (sd_request cmd) ?content s2 =
      (Inr (b1, st, token), s3)"
    by (auto simp: begin_and_run_def split: prod.splits sum.splits)
  show ?thesis
  proof (cases st)
    case BeginExisting
    then show ?thesis using run beg pre that(1) by (auto simp: begin_and_run_def replays_def)
  next
    case BeginStarted
    obtain settled s4 where r: "run_batch R c M ?sc sp ?content history summaries token b1 s3 = ((Inr b, settled), s4)"
      "s' = clean_up R c (storage_scope ?sc) b1 token settled s4"
      using run beg BeginStarted by (auto simp: begin_and_run_def split: prod.splits)
    obtain plan s5 where p: "plan_turn M ?sc sp history ?content s3 = (plan, s5)" by fastforce
    obtain b2 s6 where sv: "save_batch R c (storage_scope ?sc) (b1\<lparr>bt_planned := Some plan\<rparr>) token False s5 = ((None, b2), s6)"
      and sa: "speak_all R c M ?sc ?content history summaries token plan b2 s6 = ((Inr b, settled), s4)"
      using r(1) p by (auto simp: run_batch_def split: prod.splits option.splits)
    note b1 = begin_reports [OF beg [unfolded BeginStarted]]
    note valid = plan_turn_valid [OF sp p]
    have b2: "bt_planned b2 = Some plan" "elems (bt_messages b2) = []" "bt_request b2 = sd_request cmd"
      "tn_content (bt_user b2) = ?content"
      using save_reports [OF sv] b1 by auto
    have "faithful_turn ([] @ plan) b \<and> settled \<and> bt_request b = bt_request b2 \<and> bt_user b = bt_user b2 \<and>
        (\<exists>s0 b0. save_batch R c (storage_scope ?sc) b0 token True s0 = ((None, b), s4))"
      by (rule speak_all_reports [OF sa]) (use b2 valid in auto)
    then show ?thesis using that(2) sp valid b2 r(2) by (auto simp: clean_up_def)
  qed
qed

end
