(* ===== verification/Orchestration_Live.thy ===== *)
theory Orchestration_Live
  imports Orchestration_Correct
begin

text \<open>
  Every valid message is answered: on a server that serves every request at once, \<open>Send\<close>
  runs a new request to its end, whatever the language model says.
\<close>

text \<open>With a database that answers its queries.\<close>

locale calm_app = database R + calm_env R for R :: "('s, 'z) db_env_scheme" +
  assumes answers: "\<exists>xs. fst (db_find_summaries R Q order s) = Inr xs"

text \<open>A language model that keeps its hands off Redis.\<close>

definition silent_model :: "('s, 'z) env_scheme \<Rightarrow> 's reply_model \<Rightarrow> bool" where
  "silent_model R M \<longleftrightarrow> (\<forall>i s. r_view R (snd (rm_plan M i s)) = r_view R s) \<and>
     (\<forall>i s. r_view R (snd (rm_generate M i s)) = r_view R s) \<and>
     (\<forall>i s. r_view R (snd (rm_summarize M i s)) = r_view R s)"

text \<open>A conversation in which the holder of the token is generating.\<close>

definition running :: "conv_store \<Rightarrow> scope \<Rightarrow> day \<Rightarrow> string \<Rightarrow> int \<Rightarrow> keyspace \<Rightarrow> bool" where
  "running c sc d token n ks \<longleftrightarrow> conv_ok c ks \<and> string_of ks (lease_key c sc) = Some (Raw token) \<and>
     sequence_at ks (sequence_key c sc d) = n"

text \<open>A conversation without a lease in which the request is new.\<close>

definition at_rest :: "conv_store \<Rightarrow> scope \<Rightarrow> string \<Rightarrow> keyspace \<Rightarrow> bool" where
  "at_rest c sc request ks \<longleftrightarrow> conv_ok c ks \<and> value_at ks (lease_key c sc) = None \<and>
     (\<forall>d. hash_of ks (requests_key c sc d) request = None \<and>
        value_at ks (turns_key c (sc_identity sc) d) = None \<and> sequence_at ks (sequence_key c sc d) < 2 ^ 51)"

context calm_env
begin

lemma append_calm:
  assumes "running c sc (beijing_day (bt_created b)) token n (r_view R s)" "n < 2 ^ 52" "plain_scope sc" "good_store c"
    and "elems (bt_planned b) \<noteq> []"
  shows "\<exists>m b' s'. append_character R c sc b token speaker display avatar content s = ((Inr m, b'), s') \<and>
    running c sc (beijing_day (bt_created b')) token (n + 1) (r_view R s') \<and> elems (bt_planned b') \<noteq> [] \<and>
    bt_messages b' \<noteq> None"
proof -
  let ?now = "fst (env_now R s)" and ?e = "snd (env_now R s)" and ?d = "beijing_day (bt_created b)"
  let ?raw = "\<lparr>tn_id = ''turn-'' @ fst (new_turn_id R ?e), tn_role = role_assistant, tn_content = content,
            tn_created = ?now, tn_conversation = sc_conversation sc, tn_speaker_kind = speaker_character,
            tn_speaker = speaker, tn_batch = bt_id b, tn_sequence = 0, tn_display = display, tn_avatar = avatar\<rparr>"
  let ?b1 = "b\<lparr>bt_messages := append1 (bt_messages b) ?raw, bt_updated := ?now\<rparr>"
  let ?s1 = "snd (new_turn_id R ?e)"
  let ?b2 = "?b1\<lparr>bt_messages := Some (elems (bt_messages b) @ [?raw\<lparr>tn_sequence := nat (n + 1)\<rparr>])\<rparr>"
  have run: "running c sc ?d token n (r_view R ?s1)" using assms(1) by (simp add: now_view)
  then have ok: "conv_ok c (r_view R ?s1)" and lease: "string_of (r_view R ?s1) (lease_key c sc) = Some (Raw token)"
    and n: "sequence_at (r_view R ?s1) (sequence_key c sc ?d) = n" by (simp_all add: running_def)
  obtain ps where ps: "bt_planned b = Some ps" "ps \<noteq> []" using assms(5) by (cases "bt_planned b") auto
  have data: "bd_planned (marshal_batch ?b1) = JArray ps"
    "bd_messages (marshal_batch ?b1) = JArray (elems (bt_messages b) @ [?raw])"
    using ps by (simp_all add: marshal_batch_def marshal_slice_def append1_def)
  have "0 \<le> n" using conv_sequence(2) [OF ok kind_sequence [OF assms(3)], of ?d] n by (auto simp: sequence_at_def)
  then have small: "in_int64 (n + 1)" using assms(2) by (simp add: in_int64_def)
  have ttl: "0 < milliseconds (cs_ttl c)" "0 < milliseconds (cs_lease_ttl c)"
    using good_store_ms [OF assms(4)] by simp_all
  have m1: "bt_planned ?b1 = Some ps" "elems (bt_messages ?b1) = elems (bt_messages b) @ [?raw]"
    using ps(1) by simp_all
  obtain s' where a: "append_character_script R (append_keys_of c sc b) token ?raw (marshal_batch ?b1)
        (bt_request b) (milliseconds (cs_ttl c)) (milliseconds (cs_lease_ttl c)) ?s1 =
      (Some (ReplyAppended (?raw\<lparr>tn_sequence := nat (n + 1)\<rparr>) (appended_doc (marshal_batch ?b1) (nat (n + 1)))), s')"
    and view: "conv_ok c (r_view R s')" "string_of (r_view R s') (lease_key c sc) = Some (Raw token)"
      "sequence_at (r_view R s') (sequence_key c sc ?d) = n + 1"
    by (rule append_done [OF ok assms(3) lease n small data(1) ps(2) data(2) _ ttl, of ?raw "bt_request b"]) simp
  have "append_character R c sc b token speaker display avatar content s =
      ((Inr (?raw\<lparr>tn_sequence := nat (n + 1)\<rparr>), ?b2), s')"
    using a append_unmarshal(1) [OF m1, of "nat (n + 1)"]
    by (simp add: append_character_def split_beta Let_def served)
  moreover have "running c sc (beijing_day (bt_created ?b2)) token (n + 1) (r_view R s')"
    using view by (simp add: running_def)
  ultimately show ?thesis using ps by (intro exI [of _ "?b2"] exI [of _ s'] exI conjI) auto
qed

lemma save_calm:
  assumes "running c sc (beijing_day (bt_created b)) token n (r_view R s)" "plain_scope sc" "good_store c"
    and "bt_planned b \<noteq> None" "bt_messages b \<noteq> None"
  shows "\<exists>t s'. save_batch R c sc b token release s = ((None, b\<lparr>bt_updated := t\<rparr>), s') \<and>
    (release \<or> running c sc (beijing_day (bt_created b)) token n (r_view R s'))"
proof -
  have run: "conv_ok c (r_view R (snd (env_now R s)))"
    "string_of (r_view R (snd (env_now R s))) (lease_key c sc) = Some (Raw token)"
    using assms(1) by (simp_all add: running_def now_view)
  let ?d = "beijing_day (bt_created b)"
  obtain b' s' where sv: "save_batch R c sc b token release s = ((None, b'), s')"
    "b' = b\<lparr>bt_updated := fst (env_now R s)\<rparr>" "conv_ok c (r_view R s')"
    "string_of (r_view R s') (lease_key c sc) = (if release then None else Some (Raw token))"
    "same_but {requests_key c sc ?d, lease_key c sc, batch_key c sc (bt_id b)} (r_view R (snd (env_now R s))) (r_view R s')"
    using save_answered [OF calm run(1) assms(2,3) run(2) assms(4,5), of release] by blast
  have "string_of (r_view R s') (sequence_key c sc ?d) = string_of (r_view R s) (sequence_key c sc ?d)"
    using same_but_typed(4) [OF sv(5)] assms(2) by (simp add: now_view)
  then show ?thesis using sv(1-4) assms(1) by (auto simp: running_def sequence_at_def)
qed

lemma append_lost:
  assumes "conv_ok c (r_view R s)" "plain_scope sc" "string_of (r_view R s) (lease_key c sc) \<noteq> Some (Raw token)"
  shows "\<exists>b'. append_character R c sc b token speaker display avatar content s =
    ((Inl ErrLeaseLost, b'), snd (new_turn_id R (snd (env_now R s))))"
proof -
  have "conv_ok c (r_view R (snd (new_turn_id R (snd (env_now R s)))))"
    "string_of (r_view R (snd (new_turn_id R (snd (env_now R s))))) (lease_key c sc) \<noteq> Some (Raw token)"
    using assms(1,3) by (simp_all add: now_view)
  from append_fenced [OF this(1) assms(2) this(2)] show ?thesis
    by (simp add: append_character_def split_beta Let_def served)
qed

lemma messages_calm:
  assumes "at_rest c sc request (r_view R s)" "plain_scope sc" "good_store c"
  shows "\<exists>ms s'. messages R c sc s = (Inr ms, s') \<and> r_view R s' = r_view R s"
proof -
  let ?t = "fst (env_now R s)" and ?s0 = "snd (env_now R s)"
  let ?d = "beijing_day ?t"
  have v: "r_view R ?s0 = r_view R s" by (simp add: now_view)
  have ok: "conv_ok c (r_view R ?s0)" "value_at (r_view R ?s0) (turns_key c (sc_identity sc) ?d) = None"
    using assms(1) v by (simp_all add: at_rest_def)
  note mk = conv_messages [OF ok(1) kind_messages [OF assms(2), where d = ?d]]
  have "migrate_legacy_scope R c sc ?d ?s0 = (Inr (), ?s0)"
    using migrate_nothing [OF ok(2) mk(1)] by (simp add: migrate_legacy_scope_def served)
  moreover obtain ms where "fill_messages sc 0 [] (list_of (r_view R ?s0) (messages_key c sc ?d)) = Inr ms"
    using fill_messages_total [of _ sc 0 "[]"] mk(2) by blast
  ultimately have "messages R c sc s = (Inr ms, ?s0)"
    using mk(1) by (simp add: messages_def messages_for_date_scope_def split_beta Let_def served reading_def lrange)
  then show ?thesis using v by blast
qed

lemma begin_calm:
  assumes rest: "at_rest c sc request (r_view R s)" and sc: "plain_scope sc" and store: "good_store c"
  shows "\<exists>b token n s'. begin_batch R c sc request content s = (Inr (b, BeginStarted, token), s') \<and>
    running c sc (beijing_day (bt_created b)) token n (r_view R s') \<and> n \<le> 2 ^ 51 \<and> bt_messages b = Some []"
proof -
  let ?t = "fst (env_now R s)" and ?s0 = "snd (env_now R s)"
  let ?now = "fst (env_now R ?s0)" and ?s2 = "snd (env_now R ?s0)"
  let ?bid = "''batch-'' @ fst (new_turn_id R ?s2)" and ?s3 = "snd (new_turn_id R ?s2)"
  let ?uid = "''turn-'' @ fst (new_turn_id R ?s3)" and ?s4 = "snd (new_turn_id R ?s3)"
  let ?tok = "fst (new_turn_id R ?s4)" and ?s5 = "snd (new_turn_id R ?s4)"
  let ?d = "beijing_day ?now" and ?fresh = "fresh_batch sc ?bid ?uid request content ?now"
  have v: "r_view R ?s0 = r_view R s" "r_view R ?s5 = r_view R s" by (simp_all add: now_view)
  have ok: "conv_ok c (r_view R ?s0)" "value_at (r_view R ?s0) (turns_key c (sc_identity sc) (beijing_day ?t)) = None"
    and ok5: "conv_ok c (r_view R ?s5)" "value_at (r_view R ?s5) (lease_key c sc) = None"
    and new: "known_request (begin_keys_of c sc ?d ?bid) request (r_view R ?s5) = None"
    and seq: "sequence_at (r_view R ?s5) (sequence_key c sc ?d) < 2 ^ 51"
    using rest unfolding v by (simp_all add: at_rest_def known_request_def)
  have mg: "migrate_legacy_scope R c sc (beijing_day ?t) ?s0 = (Inr (), ?s0)"
    using migrate_nothing [OF ok(2) conv_messages(1) [OF ok(1) kind_messages [OF sc]]]
    by (simp add: migrate_legacy_scope_def served)
  have doc: "doc_ok (marshal_batch ?fresh)" by (rule marshal_doc_ok) (simp_all add: fresh_batch_def)
  have ttl: "0 < milliseconds (cs_ttl c)" "0 < milliseconds (cs_lease_ttl c)"
    using good_store_ms [OF store] by simp_all
  define n where "n = sequence_at (r_view R ?s5) (sequence_key c sc ?d)"
  have "0 \<le> n" using conv_sequence(2) [OF ok5(1) kind_sequence [OF sc], of ?d]
    by (auto simp: sequence_at_def n_def)
  then have small: "in_int64 (n + 1)" using seq by (simp add: in_int64_def n_def)
  obtain s' where run: "begin_batch_script R (begin_keys_of c sc ?d ?bid) request (marshal_batch ?fresh) ?tok
        (milliseconds (cs_ttl c)) (milliseconds (cs_lease_ttl c)) (active_scope_member sc) ?s5 =
      (Some (ReplyStarted (started_doc (marshal_batch ?fresh) (nat (n + 1))) ?tok), s')"
    and view: "conv_ok c (r_view R s')" "string_of (r_view R s') (lease_key c sc) = Some (Raw ?tok)"
      "sequence_at (r_view R s') (sequence_key c sc ?d) = n + 1"
    by (rule begin_started [OF ok5(1) sc new ok5(2) n_def [symmetric] small doc ttl, of ?tok "active_scope_member sc"])
  let ?b = "?fresh\<lparr>bt_user := (bt_user ?fresh)\<lparr>tn_sequence := nat (n + 1)\<rparr>\<rparr>"
  have "begin_result ?fresh (ReplyStarted (started_doc (marshal_batch ?fresh) (nat (n + 1))) ?tok) = Inr (?b, BeginStarted, ?tok)"
    by (simp add: begin_result_def started_doc_def unmarshal_batch_def unmarshal_tidy marshal_batch_def
        marshal_slice_def normalize_batch_collections_def fresh_batch_def)
  moreover have "begin_batch R c sc request content s =
      (case round_trip R (begin_batch_script R (begin_keys_of c sc ?d ?bid) request (marshal_batch ?fresh) ?tok
          (milliseconds (cs_ttl c)) (milliseconds (cs_lease_ttl c)) (active_scope_member sc)) ?s5 of
         (Inl e, s6) \<Rightarrow> (Inl e, s6) | (Inr reply, s6) \<Rightarrow> (begin_result ?fresh reply, s6))"
    using mg by (auto simp: begin_batch_def split_beta Let_def split: sum.split)
  ultimately have "begin_batch R c sc request content s = (Inr (?b, BeginStarted, ?tok), s')"
    unfolding served run by simp
  moreover have "running c sc (beijing_day (bt_created ?b)) ?tok (n + 1) (r_view R s')"
    using view by (simp add: running_def fresh_batch_def)
  moreover have "n + 1 \<le> 2 ^ 51" "bt_messages ?b = Some []" using seq by (simp_all add: n_def fresh_batch_def)
  ultimately show ?thesis by blast
qed

end

context calm_app
begin

lemma speak_all_calm:
  assumes "running c (storage_scope sc) (beijing_day (bt_created b)) token n (r_view R s)"
    and "n + int (length ids) < 2 ^ 52" "plain_scope (storage_scope sc)" "good_store c" "silent_model R M"
    and "elems (bt_planned b) \<noteq> []" "bt_messages b \<noteq> None"
  shows "\<exists>b' s'. speak_all R c M sc content h sums token ids b s = ((Inr b', True), s')"
  using assms(1,2,6,7)
proof (induction ids arbitrary: b s n)
  case Nil
  have "bt_planned b \<noteq> None" using Nil.prems(3) by (cases "bt_planned b") auto
  with save_calm [of c "storage_scope sc" "b\<lparr>bt_status := batch_complete\<rparr>" token n s True] Nil.prems assms(3,4)
  show ?case by (auto simp: finish_batch_def)
next
  case (Cons i ids)
  let ?ch = "case find_character i of Some x \<Rightarrow> x | None \<Rightarrow> nobody"
  let ?in = "\<lparr>ci_scope = sc, ci_character = ?ch, ci_summaries = sums,
      ci_history = select_history_batches h (ch_prompt ?ch) content (elems (bt_messages b)) sums,
      ci_user = bt_user b, ci_prefix = elems (bt_messages b)\<rparr>"
  obtain answer s1 where g: "rm_generate M ?in s = (answer, s1)" by fastforce
  then have v: "r_view R s1 = r_view R s" using assms(5) by (metis silent_model_def snd_conv)
  show ?case
  proof (cases "generated_text answer = []")
    case True
    have "bt_planned (interrupted_turn b) \<noteq> None" "bt_messages (interrupted_turn b) \<noteq> None"
      "bt_created (interrupted_turn b) = bt_created b"
      using Cons.prems(3,4) by (cases "bt_planned b", auto simp: interrupted_turn_def)
    with save_calm [of c "storage_scope sc" "interrupted_turn b" token n s1 True] Cons.prems(1) assms(3,4) v
    show ?thesis using g True by (auto simp: finish_batch_def)
  next
    case False
    have n: "n < 2 ^ 52" using Cons.prems(2) by simp
    obtain m b' s' where a: "append_character R c (storage_scope sc) b token (ch_id ?ch) (ch_display ?ch) (ch_avatar ?ch)
        (generated_text answer) s1 = ((Inr m, b'), s')"
      "running c (storage_scope sc) (beijing_day (bt_created b')) token (n + 1) (r_view R s')"
      "elems (bt_planned b') \<noteq> []" "bt_messages b' \<noteq> None"
      using append_calm [of c "storage_scope sc" b token n s1] Cons.prems(1,3) n assms(3,4) v by metis
    have "\<exists>b'' s''. speak_all R c M sc content h sums token ids b' s' = ((Inr b'', True), s'')"
      by (rule Cons.IH [OF a(2) _ a(3,4)]) (use Cons.prems(2) in simp)
    then show ?thesis using g False a(1) by (simp add: Let_def)
  qed
qed

lemma load_calm: "\<exists>xs s'. load_summaries R repo sc s = (Inr xs, s') \<and> r_view R s' = r_view R s"
proof -
  let ?cutoff = "beijing_date (fst (env_now R s)) - 7 * day_length"
  let ?q = "db_find_summaries R (\<lambda>x. sw_channel x = ow_channel (cp_owner sc) \<and> sw_external x = ow_id (cp_owner sc) \<and>
      sw_conversation x = cp_conversation sc \<and> ?cutoff \<le> sw_date x) (\<lambda>x. [sw_date x]) (snd (env_now R s))"
  obtain xs where "fst ?q = Inr xs" using answers by blast
  moreover have "r_view R (snd ?q) = r_view R s" by (simp add: db_view now_view)
  ultimately show ?thesis
    by (cases ?q) (simp add: load_summaries_def recent_summaries_for_scope_def split_beta Let_def)
qed

lemma plan_view: "silent_model R M \<Longrightarrow> r_view R (snd (plan_turn M sc sp h content s)) = r_view R s"
  by (simp add: plan_turn_def plan_speakers_def Let_def split_beta silent_model_def)

lemma send_calm:
  assumes rest: "at_rest c (storage_scope (sd_scope cmd)) (sd_request cmd) (r_view R s)"
    and sc: "plain_scope (storage_scope (sd_scope cmd))" and store: "good_store c" and M: "silent_model R M"
    and sp: "find_space (cp_conversation (sd_scope cmd)) = Some sp"
    and valid: "trim_space (sd_content cmd) \<noteq> []" "rune_count (trim_space (sd_content cmd)) \<le> 4000"
      "env_uuid_ok R (sd_request cmd)"
  shows "\<exists>b s'. send R c M repo cmd s = (Inr b, s')"
proof -
  let ?sc = "storage_scope (sd_scope cmd)" and ?content = "trim_space (sd_content cmd)"
  obtain ms s1 where m: "messages R c ?sc s = (Inr ms, s1)" "r_view R s1 = r_view R s"
    using messages_calm [OF rest sc store] by blast
  obtain xs s2 where l: "load_summaries R repo (sd_scope cmd) s1 = (Inr xs, s2)" "r_view R s2 = r_view R s"
    using load_calm [of repo "sd_scope cmd" s1] m(2) by auto
  obtain b token n s3 where b: "begin_batch R c ?sc (sd_request cmd) ?content s2 = (Inr (b, BeginStarted, token), s3)"
    "running c ?sc (beijing_day (bt_created b)) token n (r_view R s3)" "n \<le> 2 ^ 51" "bt_messages b = Some []"
    using begin_calm [of c ?sc "sd_request cmd" s2 ?content] rest sc store l(2) by auto
  let ?h = "normalize_character_messages ms"
  obtain plan s4 where p: "plan_turn M (sd_scope cmd) sp ?h ?content s3 = (plan, s4)" by fastforce
  have v4: "r_view R s4 = r_view R s3" using plan_view [OF M, of "sd_scope cmd" sp ?h ?content s3] p by simp
  note plan = plan_turn_valid [OF sp p]
  let ?b1 = "b\<lparr>bt_planned := Some plan\<rparr>"
  obtain t s5 where sv: "save_batch R c ?sc ?b1 token False s4 = ((None, ?b1\<lparr>bt_updated := t\<rparr>), s5)"
    "running c ?sc (beijing_day (bt_created b)) token n (r_view R s5)"
    using save_calm [of c ?sc ?b1 token n s4 False] b(2,4) v4 sc store by auto
  have "\<exists>b' s'. speak_all R c M (sd_scope cmd) ?content ?h xs token plan (?b1\<lparr>bt_updated := t\<rparr>) s5 = ((Inr b', True), s')"
    by (rule speak_all_calm [where n = n]) (use sv(2) b(3,4) plan sc store M in auto)
  then show ?thesis
    using sp valid m(1) l(1) b(1) p sv(1)
    by (auto simp: send_def begin_and_run_def run_batch_def Let_def)
qed

end

section \<open>A calm reference server\<close>

definition calm_ref :: "(ref_db_world, unit) db_env_scheme" where
  "calm_ref = (ref_db ())\<lparr>r_arrive := Pair Delivered\<rparr>"

lemma calm_ref_fields [simp]:
  "r_view calm_ref = ref_view" "r_arrive calm_ref s = (Delivered, s)" "env_uuid_ok calm_ref = ref_uuid"
  by (auto simp: calm_ref_def fun_eq_iff)

interpretation calm_ref: calm_app calm_ref
proof -
  let ?R = "ref_db () :: (ref_db_world, unit) db_env_scheme"
  have ref: "database ?R" "go_env ?R" "redis_service ?R"
    by (rule ref_db.database_axioms ref_db.go_env_axioms ref_db.redis_service_axioms)+
  have rs: "redis_service calm_ref"
    using ref(3) by (simp add: calm_ref_def redis_service_arrive)
  have ge: "go_env calm_ref"
    using ref(2) rs by (simp add: calm_ref_def go_env_def go_env_axioms_def)
  have purge: "purge (r_clock calm_ref s) (r_view calm_ref s) = r_view calm_ref s" for s
    using redis_service.live [OF rs, of s] by (intro purge_alive) (auto simp: alive_def)
  have "quiet_redis calm_ref"
    by (intro quiet_redis.intro rs quiet_redis_axioms.intro) (simp_all add: purge del: calm_ref_fields(1))
  then have qe: "quiet_env calm_ref" using ge by (rule quiet_env.intro [rotated])
  have db: "database calm_ref"
    using ref(1) qe
    by (simp add: calm_ref_def database_def database_axioms_def tables_def)
  have "calm_env calm_ref" by (intro calm_env.intro qe calm_env_axioms.intro) simp
  then show "calm_app calm_ref"
    by (intro calm_app.intro db calm_app_axioms.intro) (simp_all add: calm_ref_def)
qed

definition demo_command :: send_command where
  "demo_command = \<lparr>sd_scope = \<lparr>cp_owner = \<lparr>ow_channel = ''api'', ow_id = ''user-1''\<rparr>, cp_conversation = ''direct-kyon''\<rparr>,
     sd_content = ''hello'', sd_request = replicate 36 (CHR ''a'')\<rparr>"

definition quiet_reply :: "'s reply_model" where
  "quiet_reply = \<lparr>rm_plan = \<lambda>_ s. (Inr [], s), rm_generate = \<lambda>_ s. (Inr ''hi'', s), rm_summarize = \<lambda>_ s. (Inr [], s)\<rparr>"

lemma demo_space: "find_space ''direct-kyon'' = Some (direct_space kyon_character)"
  by (simp add: find_space_def fixed_spaces_def all_characters_def registry_def group_space_def direct_space_def
      haruhi_character_def kyon_character_def haruhi_def kyon_def)

lemma demo_ready:
  "at_rest demo_conv (storage_scope (sd_scope demo_command)) (sd_request demo_command) (r_view calm_ref (db_start conv_now))"
  "plain_scope (storage_scope (sd_scope demo_command))" "good_store demo_conv" "silent_model calm_ref quiet_reply"
  "find_space (cp_conversation (sd_scope demo_command)) = Some (direct_space kyon_character)"
  "trim_space (sd_content demo_command) \<noteq> []" "rune_count (trim_space (sd_content demo_command)) \<le> 4000"
  "env_uuid_ok calm_ref (sd_request demo_command)"
proof -
  have view: "ref_view (db_start conv_now) = Map.empty"
    by (simp add: db_start_def ref_world.defs ref_db_world.defs ref_start_def ref_view_def purge_def fun_eq_iff)
  show "at_rest demo_conv (storage_scope (sd_scope demo_command)) (sd_request demo_command) (r_view calm_ref (db_start conv_now))"
    by (simp add: at_rest_def view)
  show "plain_scope (storage_scope (sd_scope demo_command))"
    by (simp add: demo_command_def storage_scope_def plain_scope_def plain_identity_def is_supported_channel_def)
  have hello: "printable ''hello''" by (simp add: code_def)
  show "trim_space (sd_content demo_command) \<noteq> []" "rune_count (trim_space (sd_content demo_command)) \<le> 4000"
    using trim_printable [OF hello] rune_count_printable [OF hello] by (simp_all add: demo_command_def)
qed (simp_all add: silent_model_def quiet_reply_def demo_command_def demo_space ref_uuid_def)

lemma demo_answered: "\<exists>b s'. send calm_ref demo_conv quiet_reply True demo_command (db_start conv_now) = (Inr b, s')"
  by (rule calm_ref.send_calm [OF demo_ready])

section \<open>Properties\<close>

text \<open>
  What \<open>Send\<close> returns is the turn: either the batch an earlier call with the same request
  made, or a turn with one to five different speakers, all participants of the conversation, in
  which exactly the first speakers of the plan have spoken, each with a text; the batch is
  complete if all have, failed if none has, and partial (with the interruption code) otherwise.
\<close>

theorem send_reports_turn:
  assumes "send R c M repo cmd s = (Inr b, s')"
  shows "replays R c repo cmd s b s' \<or>
    (\<exists>plan sp. find_space (cp_conversation (sd_scope cmd)) = Some sp \<and> plan \<noteq> [] \<and> length plan \<le> 5 \<and> distinct plan \<and>
       set plan \<subseteq> set (map ch_id (sp_participants sp)) \<and> faithful_turn plan b \<and> bt_request b = sd_request cmd \<and>
       tn_content (bt_user b) = trim_space (sd_content cmd))"
  by (rule send_cases [OF assms]) blast+

theorem send_reports_turn_witness:
  "\<exists>b s'. send calm_ref demo_conv quiet_reply True demo_command (db_start conv_now) = (Inr b, s') \<and>
     (replays calm_ref demo_conv True demo_command (db_start conv_now) b s' \<or>
      (\<exists>plan. length plan \<le> 5 \<and> faithful_turn plan b))"
proof -
  obtain b s' where s: "send calm_ref demo_conv quiet_reply True demo_command (db_start conv_now) = (Inr b, s')"
    using demo_answered by blast
  have "sd_content demo_command = ''hello''" by (simp add: demo_command_def)
  then show ?thesis using send_reports_turn [OF s] s by auto
qed

text \<open>
  C18. A turn that was begun gives its lease back. \<open>Send\<close> returns what the turn returned. If
  the turn was settled (it reports a batch just then), the lease is gone. If it failed, the
  deferred clean-up asks the store to interrupt the batch: a request that is lost, and a lease
  that is another's by then, leave everything as the request found it; otherwise the request,
  whether its reply arrives or not, takes the lease away and leaves the record of the batch
  interrupted, so that it is not found generating for ever. Only when the record has expired is
  there nothing to interrupt, and the lease ends with its deadline.
\<close>

theorem send_releases_lease:
  assumes "go_env R" "good_store c" "plain_scope (storage_scope (sd_scope cmd))" "find_space (cp_conversation (sd_scope cmd)) = Some sp"
    and "trim_space (sd_content cmd) \<noteq> []" "rune_count (trim_space (sd_content cmd)) \<le> 4000" "env_uuid_ok R (sd_request cmd)"
    and "messages R c (storage_scope (sd_scope cmd)) s = (Inr history, s1)" "load_summaries R repo (sd_scope cmd) s1 = (Inr sums, s2)"
    and "begin_batch R c (storage_scope (sd_scope cmd)) (sd_request cmd) (trim_space (sd_content cmd)) s2 = (Inr (b, BeginStarted, token), s3)"
    and "run_batch R c M (sd_scope cmd) sp (trim_space (sd_content cmd)) (normalize_character_messages history) sums token b s3 =
      ((r, settled), s4)"
    and "r_arrive R (snd (env_now R s4)) = (arrival, v)" "conv_ok c (r_view R v)"
  shows "\<exists>s'. send R c M repo cmd s = (r, s') \<and> (\<exists>b'. r = Inr b') = settled \<and>
    (settled \<longrightarrow> s' = s4 \<and> value_at (r_view R s') (lease_key c (storage_scope (sd_scope cmd))) = None) \<and>
    (\<not> settled \<longrightarrow>
      (if arrival = LostRequest \<or> string_of (r_view R v) (lease_key c (storage_scope (sd_scope cmd))) \<noteq> Some (Raw token) then s' = v
       else case stored_batch (r_view R v) (batch_key c (storage_scope (sd_scope cmd)) (bt_id b))
           (requests_key c (storage_scope (sd_scope cmd)) (beijing_day (bt_created b)))
           (sd_request cmd) of
         None \<Rightarrow> s' = v
       | Some x \<Rightarrow> string_of (r_view R s') (lease_key c (storage_scope (sd_scope cmd))) = None \<and>
           (\<exists>doc. x = BatchDoc doc \<and> (bd_status doc = batch_generating \<longrightarrow>
              hash_of (r_view R s') (requests_key c (storage_scope (sd_scope cmd)) (beijing_day (bt_created b))) (sd_request cmd) =
                Some (BatchDoc (interrupted_doc (fst (env_now R s4)) doc))))))"
proof (intro exI conjI)
  let ?s' = "clean_up R c (storage_scope (sd_scope cmd)) b token settled s4"
  have R: "redis_service R" using assms(1) by (simp add: go_env_def)
  show "send R c M repo cmd s = (r, ?s')"
    using assms(4-11) by (simp add: send_def begin_and_run_def Let_def)
  show "(\<exists>b'. r = Inr b') = settled" by (rule run_batch_settles(1) [OF assms(11)])
  note up = clean_up_cases [OF assms(1-3,12,13), where b = b and token = token]
  show "settled \<longrightarrow> ?s' = s4 \<and> value_at (r_view R ?s') (lease_key c (storage_scope (sd_scope cmd))) = None"
    using run_batch_settles(2) [OF assms(11) R] up(1) by simp
  have request: "bt_request b = sd_request cmd" using begin_reports [OF assms(10)] by simp
  show "\<not> settled \<longrightarrow>
      (if arrival = LostRequest \<or> string_of (r_view R v) (lease_key c (storage_scope (sd_scope cmd))) \<noteq> Some (Raw token) then ?s' = v
       else case stored_batch (r_view R v) (batch_key c (storage_scope (sd_scope cmd)) (bt_id b))
           (requests_key c (storage_scope (sd_scope cmd)) (beijing_day (bt_created b)))
           (sd_request cmd) of
         None \<Rightarrow> ?s' = v
       | Some x \<Rightarrow> string_of (r_view R ?s') (lease_key c (storage_scope (sd_scope cmd))) = None \<and>
           (\<exists>doc. x = BatchDoc doc \<and> (bd_status doc = batch_generating \<longrightarrow>
              hash_of (r_view R ?s') (requests_key c (storage_scope (sd_scope cmd)) (beijing_day (bt_created b))) (sd_request cmd) =
                Some (BatchDoc (interrupted_doc (fst (env_now R s4)) doc)))))"
  proof
    assume "\<not> settled"
    then have settled: "settled = False" by simp
    show "if arrival = LostRequest \<or> string_of (r_view R v) (lease_key c (storage_scope (sd_scope cmd))) \<noteq> Some (Raw token) then ?s' = v
       else case stored_batch (r_view R v) (batch_key c (storage_scope (sd_scope cmd)) (bt_id b))
           (requests_key c (storage_scope (sd_scope cmd)) (beijing_day (bt_created b)))
           (sd_request cmd) of
         None \<Rightarrow> ?s' = v
       | Some x \<Rightarrow> string_of (r_view R ?s') (lease_key c (storage_scope (sd_scope cmd))) = None \<and>
           (\<exists>doc. x = BatchDoc doc \<and> (bd_status doc = batch_generating \<longrightarrow>
              hash_of (r_view R ?s') (requests_key c (storage_scope (sd_scope cmd)) (beijing_day (bt_created b))) (sd_request cmd) =
                Some (BatchDoc (interrupted_doc (fst (env_now R s4)) doc))))"
      using up(2) unfolding settled request .
  qed
qed

text \<open>The witness: while the character speaks, the lease of the turn is taken away.\<close>

definition slow_model :: "ref_db_world reply_model" where
  "slow_model = quiet_reply\<lparr>rm_generate := \<lambda>_ s.
     (Inr ''hi'', r_del calm_ref (lease_key demo_conv (storage_scope (sd_scope demo_command))) s)\<rparr>"

lemma speak_all_fails:
  assumes "\<And>x. rm_generate M x s = (Inr t, s1)" "generated_text (Inr t) = x" "x \<noteq> []"
    and "append_character R c (storage_scope sc) b token (ch_id (case find_character i of Some x \<Rightarrow> x | None \<Rightarrow> nobody))
      (ch_display (case find_character i of Some x \<Rightarrow> x | None \<Rightarrow> nobody))
      (ch_avatar (case find_character i of Some x \<Rightarrow> x | None \<Rightarrow> nobody)) x s1 = ((Inl e, b'), s2)"
  shows "speak_all R c M sc content h sums token (i # is) b s = ((Inl e, False), s2)"
  using assms by (simp add: Let_def)

theorem send_releases_lease_witness:
  "\<exists>s'. send calm_ref demo_conv slow_model False demo_command (db_start conv_now) = (Inl ErrLeaseLost, s') \<and>
     string_of (ref_view s') (lease_key demo_conv (storage_scope (sd_scope demo_command))) = None"
proof -
  let ?sc = "storage_scope (sd_scope demo_command)" and ?content = "trim_space (sd_content demo_command)"
  let ?sp = "direct_space kyon_character" and ?lease = "lease_key demo_conv (storage_scope (sd_scope demo_command))"
  obtain ms s1 where m: "messages calm_ref demo_conv ?sc (db_start conv_now) = (Inr ms, s1)"
    "r_view calm_ref s1 = r_view calm_ref (db_start conv_now)"
    using calm_ref.messages_calm [OF demo_ready(1-3)] by blast
  have rest: "at_rest demo_conv ?sc (sd_request demo_command) (r_view calm_ref s1)" unfolding m(2) by (rule demo_ready(1))
  obtain b token n s3 where b: "begin_batch calm_ref demo_conv ?sc (sd_request demo_command) ?content s1 = (Inr (b, BeginStarted, token), s3)"
    "running demo_conv ?sc (beijing_day (bt_created b)) token n (r_view calm_ref s3)" "bt_messages b = Some []"
    using calm_ref.begin_calm [OF rest demo_ready(2,3), of ?content] by blast
  let ?h = "normalize_character_messages ms" and ?b1 = "b\<lparr>bt_planned := Some [ch_id kyon_character]\<rparr>"
  have l: "load_summaries calm_ref False (sd_scope demo_command) s1 = (Inr [], s1)" by (simp add: load_summaries_def)
  obtain t s5 where sv: "save_batch calm_ref demo_conv ?sc ?b1 token False s3 = ((None, ?b1\<lparr>bt_updated := t\<rparr>), s5)"
    "running demo_conv ?sc (beijing_day (bt_created b)) token n (r_view calm_ref s5)"
    using calm_ref.save_calm [of demo_conv ?sc ?b1 token n s3 False] b(2,3) demo_ready(2,3) by auto
  let ?s6 = "r_del calm_ref ?lease s5"
  have ok6: "conv_ok demo_conv (r_view calm_ref ?s6)"
    using sv(2) calm_ref.del_ok by (simp add: running_def del: calm_ref_fields)
  have gone: "string_of (r_view calm_ref ?s6) ?lease = None" by (simp add: calm_ref.del redis_simps del: calm_ref_fields)
  have same: "r_view calm_ref (snd (new_turn_id calm_ref (snd (env_now calm_ref s)))) = r_view calm_ref s" for s
    by (simp add: calm_ref.now_view del: calm_ref_fields)
  let ?s7 = "snd (new_turn_id calm_ref (snd (env_now calm_ref ?s6)))"
  have not_ours: "string_of (r_view calm_ref ?s6) ?lease \<noteq> Some (Raw token)" using gone by simp
  have hi: "generated_text (Inr ''hi'') = ''hi''"
    using trim_printable [of "''hi''"] by (simp add: generated_text_def code_def)
  have speak: "speak_all calm_ref demo_conv slow_model (sd_scope demo_command) ?content ?h [] token [ch_id kyon_character]
      (?b1\<lparr>bt_updated := t\<rparr>) s5 = ((Inl ErrLeaseLost, False), ?s7)"
  proof -
    let ?ch = "case find_character (ch_id kyon_character) of Some x \<Rightarrow> x | None \<Rightarrow> nobody"
    obtain b' where lost: "append_character calm_ref demo_conv ?sc (?b1\<lparr>bt_updated := t\<rparr>) token (ch_id ?ch) (ch_display ?ch)
        (ch_avatar ?ch) ''hi'' ?s6 = ((Inl ErrLeaseLost, b'), ?s7)"
      using calm_ref.append_lost [OF ok6 demo_ready(2) not_ours] by blast
    have said: "rm_generate slow_model x s5 = (Inr ''hi'', ?s6)" for x by (simp add: slow_model_def)
    show ?thesis by (rule speak_all_fails [OF said hi _ lost]) simp
  qed
  have plan: "plan_turn slow_model (sd_scope demo_command) ?sp ?h ?content s3 = ([ch_id kyon_character], s3)"
    by (simp add: plan_turn_def direct_space_def)
  have run: "run_batch calm_ref demo_conv slow_model (sd_scope demo_command) ?sp ?content ?h [] token b s3 = ((Inl ErrLeaseLost, False), ?s7)"
    unfolding run_batch_def plan by (simp add: sv(1) speak del: speak_all.simps)
  have v: "r_view calm_ref (snd (env_now calm_ref ?s7)) = r_view calm_ref ?s6"
    by (simp add: calm_ref.now_view del: calm_ref_fields)
  have arrive: "r_arrive calm_ref (snd (env_now calm_ref ?s7)) = (Delivered, snd (env_now calm_ref ?s7))" by simp
  have okv: "conv_ok demo_conv (r_view calm_ref (snd (env_now calm_ref ?s7)))" unfolding v by (rule ok6)
  from send_releases_lease [OF calm_ref.go_env_axioms demo_ready(3,2,5-8) m(1) l b(1) run arrive okv]
  show ?thesis using gone v by auto
qed



text \<open>
  C17. Every valid message is answered: if Redis and the database serve each request, the
  conversation has no lease and the request is new, then \<open>Send\<close> returns a batch, whatever the
  language model does, including failing.
\<close>

theorem send_answers:
  assumes "calm_app R" "at_rest c (storage_scope (sd_scope cmd)) (sd_request cmd) (r_view R s)"
    and "plain_scope (storage_scope (sd_scope cmd))" "good_store c" "silent_model R M"
    and "find_space (cp_conversation (sd_scope cmd)) = Some sp"
    and "trim_space (sd_content cmd) \<noteq> []" "rune_count (trim_space (sd_content cmd)) \<le> 4000"
    and "env_uuid_ok R (sd_request cmd)"
  shows "\<exists>b s'. send R c M repo cmd s = (Inr b, s')"
  by (rule calm_app.send_calm [OF assms])

theorem send_answers_witness:
  "\<exists>b s'. send calm_ref demo_conv quiet_reply False demo_command (db_start conv_now) = (Inr b, s')"
  by (rule send_answers [OF calm_ref.calm_app_axioms demo_ready])

end
