(* ===== verification/Maintenance_Correct.thy ===== *)
theory Maintenance_Correct
  imports Orchestration_Live
begin

text \<open>
  The daily maintenance moves a conversation's day from Redis to the archive. This theory shows
  that it deletes nothing from Redis before the archive and the summary hold it, and what the
  report of a whole run counts.
\<close>

section \<open>Moving one conversation\<close>

text \<open>A message of the day is in the table: a row that was there before, or a copy of it.\<close>

definition kept_message :: "scope \<Rightarrow> time \<Rightarrow> message_row list \<Rightarrow> message_row list \<Rightarrow> turn list \<Rightarrow> turn \<Rightarrow> bool" where
  "kept_message sc day rows rows' ms m \<longleftrightarrow> (\<exists>row \<in> set rows'.
     in_archive (id_channel (sc_identity sc)) (id_external (sc_identity sc)) (sc_conversation sc) (beijing_date day) row \<and>
     mw_turn row = tn_id m \<and>
     (row \<in> set rows \<or> (\<exists>m' \<in> set ms. tn_id m' = tn_id m \<and> mw_role row = tn_role m' \<and>
        mw_content row = tn_content m' \<and> mw_sequence row = tn_sequence m')))"

definition kept_day :: "scope \<Rightarrow> time \<Rightarrow> turn list \<Rightarrow> message_row list \<times> summary_row list \<Rightarrow>
    message_row list \<times> summary_row list \<Rightarrow> bool" where
  "kept_day sc day ms before after \<longleftrightarrow>
     (\<forall>m \<in> set ms. kept_message sc day (fst before) (fst after) ms m) \<and>
     (\<exists>summary. summary \<noteq> [] \<and> has_summary (id_channel (sc_identity sc)) (id_external (sc_identity sc))
        (sc_conversation sc) (beijing_date day) summary (snd after))"

lemma archived_keeps:
  assumes "archived (id_channel (sc_identity sc)) (id_external (sc_identity sc)) (sc_conversation sc)
      (beijing_date day) (map archive_of ms) summary before after" "m \<in> set ms"
  shows "kept_message sc day (fst before) (fst after) ms m"
proof -
  let ?in = "in_archive (id_channel (sc_identity sc)) (id_external (sc_identity sc)) (sc_conversation sc) (beijing_date day)"
  obtain row where row: "row \<in> set (fst after)" "?in row" "mw_turn row = tn_id m"
    using assms by (fastforce simp: archived_def holds_turn_def archive_of_def)
  obtain new where new: "fst after = fst before @ new"
    "\<forall>x \<in> set new. \<exists>t \<in> set (map archive_of ms). copy_of (id_channel (sc_identity sc)) (id_external (sc_identity sc))
        (sc_conversation sc) (beijing_date day) t x"
    using assms(1) by (auto simp: archived_def)
  have "\<exists>m' \<in> set ms. tn_id m' = tn_id m \<and> mw_role row = tn_role m' \<and> mw_content row = tn_content m' \<and>
      mw_sequence row = tn_sequence m'" if "row \<in> set new"
    using bspec [OF new(2) that] row(3) by (auto simp: copy_of_def archive_of_def)
  then show ?thesis using row new(1) by (auto simp: kept_message_def)
qed

context database
begin

lemma trip_tables:
  assumes "\<And>s. tables R (snd (script s)) = tables R s"
  shows "tables R (snd (round_trip R script s)) = tables R s"
  by (rule round_trip_keeps [where P = "\<lambda>x. tables R x = tables R s"]) (simp_all add: assms frame)

lemma migrate_tables: "tables R (snd (migrate_legacy_scope R c sc d s)) = tables R s"
proof -
  have push: "tables R (fold (r_rpush R k) vs s) = tables R s" for k vs s
    by (induction vs arbitrary: s) (simp_all add: frame)
  have "tables R (snd (migrate_legacy_script R lk mk sk ttl s)) = tables R s" for lk mk sk ttl s
    by (simp add: migrate_legacy_script_def Let_def frame push)
  then have "tables R (snd (round_trip R (migrate_legacy_script R lk mk sk ttl) s)) = tables R s" for lk mk sk ttl s
    by (rule trip_tables)
  then show ?thesis by (simp add: migrate_legacy_scope_def split_beta split: sum.split)
qed

lemma clear_tables: "tables R (snd (clear_scope_date R c sc day s)) = tables R s"
proof -
  let ?m = "migrate_legacy_scope R c sc (beijing_day day) s"
  let ?pipe = "writing (\<lambda>s. (let s2 = r_del R (sequence_key c sc (beijing_day day)) (r_del R (messages_key c sc (beijing_day day)) s);
                    s3 = r_srem R (active_scopes_key c (beijing_day day)) (active_scope_member sc) s2
                in if sc_conversation sc = default_conversation
                   then r_srem R (active_key c (beijing_day day)) (active_member (sc_identity sc)) s3 else s3))"
  have "tables R (snd (round_trip R ?pipe (snd ?m))) = tables R (snd ?m)"
    by (rule trip_tables) (simp add: writing_def Let_def frame)
  then show ?thesis using migrate_tables [of c sc "beijing_day day" s]
    by (simp add: clear_scope_date_def clear_scope_pipe_def [abs_def] Let_def split_beta split: sum.split)
qed

text \<open>When the messages are gone, the day was archived.\<close>

lemma maintain_messages_keeps:
  assumes "silent_model R M" "\<And>i s. tables R (snd (rm_summarize M i s)) = tables R s"
    and "id_channel (sc_identity sc) \<noteq> []" "id_external (sc_identity sc) \<noteq> []" "sc_conversation sc \<noteq> []"
    and "\<forall>m \<in> set ms. tn_id m \<noteq> []"
    and "maintain_messages R c M day sc ms s = (r, s')"
  shows "(r_view R s' = r_view R s \<or> kept_day sc day ms (tables R s) (tables R s')) \<and>
    (r = ScopeDone \<longrightarrow> kept_day sc day ms (tables R s) (tables R s') \<and>
       (\<exists>s0. clear_scope_date R c sc day s0 = (Inr (), s') \<and> r_view R s0 = r_view R s))"
proof -
  let ?archived = "archived (id_channel (sc_identity sc)) (id_external (sc_identity sc)) (sc_conversation sc) (beijing_date day)"
  obtain r1 s2 where a1: "archive_scope R sc day (map archive_of ms) [] s = (r1, s2)" by fastforce
  have ids: "\<forall>t \<in> set (map archive_of ms). at_turn t \<noteq> []" using assms(6) by (simp add: archive_of_def)
  have v2: "r_view R s2 = r_view R s" using archive_view(1) a1 by (metis archive_scope_def snd_conv)
  show ?thesis
  proof (cases r1)
    case (Inl e)
    then show ?thesis using a1 v2 assms(7) by (simp add: maintain_messages_def)
  next
    case (Inr u)
    then have arch: "?archived (map archive_of ms) [] (tables R s) (tables R s2)"
      using archive_result [OF assms(3-5) ids a1 [unfolded archive_scope_def]] by simp
    obtain r2 s3 where sm: "rm_summarize M \<lparr>si_scope = chat_scope_of sc, si_messages = ms\<rparr> s2 = (r2, s3)" by fastforce
    have t3: "tables R s3 = tables R s2" "r_view R s3 = r_view R s"
      using assms(1,2) sm v2 by (auto simp: silent_model_def) (metis snd_conv)+
    show ?thesis
    proof (cases "\<exists>t. r2 = Inr t \<and> trim_space t \<noteq> []")
      case False
      then have "s' = s3 \<and> r = ScopeFailed"
        using a1 Inr sm assms(7) by (cases r2) (simp_all add: maintain_messages_def)
      then show ?thesis using t3 by simp
    next
      case True
      then obtain t where t: "r2 = Inr t" "trim_space t \<noteq> []" by blast
      obtain r3 s4 where a2: "archive_scope R sc day [] (trim_space t) s3 = (r3, s4)" by fastforce
      have v4: "r_view R s4 = r_view R s" using archive_view(1) a2 t3(2) by (metis archive_scope_def snd_conv)
      show ?thesis
      proof (cases r3)
        case (Inl e)
        then show ?thesis using a1 \<open>r1 = Inr u\<close> sm t a2 v4 assms(7) by (simp add: maintain_messages_def)
      next
        case r3: (Inr u3)
        have arch2: "?archived [] (trim_space t) (tables R s3) (tables R s4)"
          using archive_result [OF assms(3-5) _ a2 [unfolded archive_scope_def]] r3 by simp
        obtain r4 s5 where cl: "clear_scope_date R c sc day s4 = (r4, s5)" by fastforce
        have t5: "tables R s5 = tables R s4" using clear_tables cl by (metis snd_conv)
        have "fst (tables R s5) = fst (tables R s2)" using arch2 t3(1) t5 by (simp add: archived_def)
        then have "kept_day sc day ms (tables R s) (tables R s5)"
          using archived_keeps [OF arch] arch2 t(2) t5 by (auto simp: kept_day_def archived_def)
        moreover have "s' = s5 \<and> (r = ScopeDone \<longrightarrow> r4 = Inr ())"
          using a1 \<open>r1 = Inr u\<close> sm t a2 r3 cl assms(7) by (auto simp: maintain_messages_def split: sum.splits)
        ultimately show ?thesis using cl v4 by auto
      qed
    qed
  qed
qed

end

section \<open>The report of a run\<close>

lemma maintain_scopes_counts:
  assumes "maintain_scopes R c M day scs (p, f, g) s = ((p', f', g'), s')"
  shows "p' + f' = p + f + length scs \<and> (distinct g \<longrightarrow> distinct g') \<and>
    set g' \<subseteq> set g \<union> id_external ` sc_identity ` {sc \<in> set scs. id_channel (sc_identity sc) = ''wechat''}"
  using assms
proof (induction scs arbitrary: p f g s)
  case (Cons sc scs)
  obtain r s1 where r: "maintain_scope R c M day sc s = (r, s1)" by fastforce
  show ?case
    using Cons.IH Cons.prems r by (cases r) (fastforce split: if_splits)+
qed simp

section \<open>A day with one message\<close>

definition tidy_model :: "'s reply_model" where
  "tidy_model = \<lparr>rm_plan = \<lambda>_ s. (Inr [], s), rm_generate = \<lambda>_ s. (Inr ''hi'', s), rm_summarize = \<lambda>_ s. (Inr ''sum'', s)\<rparr>"

definition day_scope :: scope where
  "day_scope = \<lparr>sc_identity = \<lparr>id_channel = ''wechat'', id_external = ''o1''\<rparr>, sc_conversation = ''direct-kyon''\<rparr>"

definition day_turn :: turn where
  "day_turn = zero_turn\<lparr>tn_id := ''turn-1'', tn_role := ''user'', tn_content := ''hello''\<rparr>"

definition day_server :: ref_db_world where
  "day_server = r_rpush calm_ref (messages_key demo_conv day_scope (beijing_day 0)) (TurnDoc day_turn) (db_start 0)"

lemma day_read: "\<exists>m. messages_for_date_scope calm_ref demo_conv day_scope 0 day_server = (Inr [m], day_server) \<and> tn_id m = ''turn-1''"
proof -
  let ?k = "messages_key demo_conv day_scope (beijing_day 0)"
  have view: "ref_view (db_start 0) = Map.empty"
    by (simp add: db_start_def ref_world.defs ref_db_world.defs ref_start_def ref_view_def purge_def fun_eq_iff)
  have "r_view calm_ref day_server = store ?k (RList [TurnDoc day_turn]) Map.empty"
    unfolding day_server_def
    by (subst calm_ref.rpush) (simp_all add: view is_list_key_def list_of_def value_at_def)
  then have "r_lrange calm_ref ?k 0 (- 1) day_server = [TurnDoc day_turn]"
    by (subst calm_ref.lrange) (simp_all add: redis_simps is_list_key_def list_of_def redis_range_def)
  then show ?thesis
    by (simp add: messages_for_date_scope_def migrate_legacy_scope_def day_scope_def default_conversation_def
        round_trip_def reading_def fill_message_def day_turn_def role_user_def Let_def)
qed

section \<open>Properties\<close>

text \<open>
  C24. The daily maintenance loses no message: as long as Redis is touched, every message it
  read of the day is in the archive (with its text, unless its turn was archived before) and the
  conversation has a summary of the day; until then the key space of Redis is as it was.
\<close>

theorem maintenance_never_loses:
  assumes "database R" "silent_model R M" "\<forall>i s. tables R (snd (rm_summarize M i s)) = tables R s"
    and "id_channel (sc_identity sc) \<noteq> []" "id_external (sc_identity sc) \<noteq> []" "sc_conversation sc \<noteq> []"
    and "messages_for_date_scope R c sc day s = (Inr ms, s1)" "ms \<noteq> []" "\<forall>m \<in> set ms. tn_id m \<noteq> []"
    and "maintain_scope R c M day sc s = (r, s')"
  shows "(r_view R s' = r_view R s1 \<or> kept_day sc day ms (tables R s1) (tables R s')) \<and>
    (r = ScopeDone \<longrightarrow> kept_day sc day ms (tables R s1) (tables R s'))"
proof -
  have "maintain_messages R c M day sc ms s1 = (r, s')" using assms(7,8,10) by (simp add: maintain_scope_def)
  from database.maintain_messages_keeps [OF assms(1,2) _ assms(4-6,9) this] assms(3) show ?thesis by simp
qed

theorem maintenance_never_loses_witness:
  "\<exists>ms r s'. messages_for_date_scope calm_ref demo_conv day_scope 0 day_server = (Inr ms, day_server) \<and> ms \<noteq> [] \<and>
     maintain_scope calm_ref demo_conv tidy_model 0 day_scope day_server = (r, s') \<and>
     (r = ScopeDone \<longrightarrow> kept_day day_scope 0 ms (tables calm_ref day_server) (tables calm_ref s'))"
proof -
  obtain m where m: "messages_for_date_scope calm_ref demo_conv day_scope 0 day_server = (Inr [m], day_server)"
    "tn_id m = ''turn-1''" using day_read by blast
  obtain r s' where r: "maintain_scope calm_ref demo_conv tidy_model 0 day_scope day_server = (r, s')" by fastforce
  have "silent_model calm_ref tidy_model" by (simp add: silent_model_def tidy_model_def)
  from maintenance_never_loses [OF calm_ref.database_axioms this _ _ _ _ m(1) _ _ r] m r show ?thesis
    by (auto simp: tidy_model_def day_scope_def)
qed

text \<open>
  The report of a run accounts for every active conversation of the day, as processed or
  failed (and one failure more if the old summaries could not be purged), and lists each
  WeChat user to greet once, in order.
\<close>

theorem maintenance_report:
  assumes "maintain_day R c M repo day s = (Inr result, s')"
  shows "\<exists>scs s1. active_scopes R c day s = (Inr scs, s1) \<and>
    mr_processed result + mr_failed result \<in> {length scs, Suc (length scs)} \<and>
    sorted (mr_greet result) \<and> distinct (mr_greet result) \<and>
    set (mr_greet result) \<subseteq> id_external ` sc_identity ` {sc \<in> set scs. id_channel (sc_identity sc) = ''wechat''}"
proof -
  obtain scs s1 p f g s2 where run: "active_scopes R c day s = (Inr scs, s1)"
    "maintain_scopes R c M day scs (0, 0, []) s1 = ((p, f, g), s2)"
    "mr_greet result = sort g" "mr_processed result = p" "mr_failed result \<in> {f, f + 1}"
    using assms by (auto simp: maintain_day_def split: if_splits sum.splits prod.splits)
  from maintain_scopes_counts [OF run(2)] run show ?thesis by auto
qed

theorem maintenance_report_witness:
  "\<exists>r s'. maintain_day calm_ref demo_conv tidy_model True 0 (db_start 0) = (Inr r, s') \<and> distinct (mr_greet r)"
proof -
  have view: "ref_view (db_start 0) = Map.empty"
    by (simp add: db_start_def ref_world.defs ref_db_world.defs ref_start_def ref_view_def purge_def fun_eq_iff)
  have none: "r_smembers calm_ref k (db_start 0) = []" for k
    using calm_ref.smembers [of "db_start 0" k] by (simp add: view is_set_key_def set_of_def value_at_def)
  have "active_scopes calm_ref demo_conv 0 (db_start 0) = (Inr [], db_start 0)"
    by (simp add: active_scopes_def active_identities_def round_trip_def reading_def none Let_def map_filter_simps)
  then obtain r s' where r: "maintain_day calm_ref demo_conv tidy_model True 0 (db_start 0) = (Inr r, s')"
    by (simp add: maintain_day_def split_beta)
  from maintenance_report [OF r] r show ?thesis by blast
qed

end
