(* ===== verification/Agent.thy ===== *)
theory Agent
  imports Orchestration "HOL-Library.Word"
begin

text \<open>
  Package \<open>internal/agent\<close> (\<open>server.go\<close>): the gRPC service in front of the conversations.
  A request names its user by channel and external identifier, or (in older clients) by a
  WeChat open identifier. With a conversation application the server delegates to it; without
  one it serves the older single-character conversations itself. The messages of the protocol
  are the records of \<open>agent.proto\<close>. What a method returns beside its answer is a status of
  gRPC or another Go error.
\<close>

unbundle bit_operations_syntax

section \<open>Statuses and messages\<close>

datatype grpc_code =
    CodeOK | CodeCanceled | CodeUnknown | CodeInvalidArgument | CodeDeadlineExceeded | CodeNotFound
  | CodeAlreadyExists | CodePermissionDenied | CodeResourceExhausted | CodeFailedPrecondition
  | CodeAborted | CodeOutOfRange | CodeUnimplemented | CodeInternal | CodeUnavailable | CodeDataLoss
  | CodeUnauthenticated

datatype rpc_error = Status grpc_code string | Plain go_error

type_synonym ('s, 'a) rpc = "'s \<Rightarrow> (rpc_error + 'a) \<times> 's"

text \<open>\<open>status.Code\<close>: an error that carries no status has code Unknown.\<close>

fun status_code :: "rpc_error \<Rightarrow> grpc_code" where
  "status_code (Status c m) = c"
| "status_code (Plain e) = CodeUnknown"

text \<open>
  \<open>timestamppb.New\<close>: seconds and nanoseconds since 1970. In a message a timestamp, like another
  message, is a pointer and may be missing.
\<close>

type_synonym timestamp = "int \<times> int"

definition timestamp_of :: "time \<Rightarrow> timestamp" where
  "timestamp_of t = (t div 1000000000, t mod 1000000000)"

record reply_request =
  rq_open :: string
  rq_text :: string
  rq_channel :: string
  rq_external :: string

record list_request =
  lq_open :: string
  lq_channel :: string
  lq_external :: string
  lq_conversation :: string

record send_request =
  sq_channel :: string
  sq_external :: string
  sq_conversation :: string
  sq_content :: string
  sq_request :: string

record character_metadata =
  cd_id :: string
  cd_display :: string
  cd_avatar :: string
  cd_description :: string

record conversation_space =
  cv_id :: string
  cv_kind :: string
  cv_display :: string
  cv_participants :: "character_metadata list"

record conversation_message =
  cm_id :: "64 word"
  cm_role :: string
  cm_content :: string
  cm_created :: "timestamp option"
  cm_turn :: string
  cm_conversation :: string
  cm_speaker_kind :: string
  cm_speaker :: string
  cm_batch :: string
  cm_sequence :: nat
  cm_display :: string
  cm_avatar :: string

record response_batch =
  rb_id :: string
  rb_request :: string
  rb_conversation :: string
  rb_planned :: "string list"
  rb_user :: "conversation_message option"
  rb_messages :: "conversation_message list"
  rb_status :: string
  rb_code :: string
  rb_created :: "timestamp option"
  rb_updated :: "timestamp option"

section \<open>The server\<close>

text \<open>
  The application, where there is one, is its language model and whether it has a repository;
  \<open>av_chat\<close> is the model of the older replier and summarizer.
\<close>

record 's agent_server =
  av_store :: conv_store
  av_chat :: "'s chat"
  av_app :: "('s reply_model \<times> bool) option"

definition to_turns :: "turn list \<Rightarrow> chat_turn list" where
  "to_turns ms = map (\<lambda>m. \<lparr>ct_role = tn_role m, ct_content = tn_content m\<rparr>) ms"

definition legacy_identity :: "string \<Rightarrow> identity" where
  "legacy_identity open_id = \<lparr>id_channel = ''wechat'', id_external = open_id\<rparr>"

definition identity_from_reply :: "reply_request \<Rightarrow> identity" where
  "identity_from_reply q =
     (if rq_channel q \<noteq> [] \<or> rq_external q \<noteq> []
      then \<lparr>id_channel = rq_channel q, id_external = rq_external q\<rparr> else legacy_identity (rq_open q))"

text \<open>The requests to list and to delete have the same fields.\<close>

definition identity_from_list :: "list_request \<Rightarrow> identity" where
  "identity_from_list q =
     (if lq_channel q \<noteq> [] \<or> lq_external q \<noteq> []
      then \<lparr>id_channel = lq_channel q, id_external = lq_external q\<rparr> else legacy_identity (lq_open q))"

definition identity_from_delete :: "list_request \<Rightarrow> identity" where
  "identity_from_delete q =
     (if lq_channel q \<noteq> [] \<or> lq_external q \<noteq> []
      then \<lparr>id_channel = lq_channel q, id_external = lq_external q\<rparr> else legacy_identity (lq_open q))"

definition validate_identity :: "identity \<Rightarrow> rpc_error option" where
  "validate_identity i =
     (if id_channel i = [] \<or> id_external i = []
      then Some (Status CodeInvalidArgument ''channel and external_id are required'')
      else if \<not> is_supported_channel (id_channel i) then Some (Status CodeInvalidArgument ''unsupported channel'')
      else if max_external_id < length (id_external i)
      then Some (Status CodeInvalidArgument ''external_id is too long'')
      else None)"

text \<open>The identifier older clients use: the 64-bit FNV-1a hash of the turn's, or the position.\<close>

definition fnv1a_step :: "char \<Rightarrow> 64 word \<Rightarrow> 64 word" where
  "fnv1a_step c h = (h XOR of_nat (code c)) * 1099511628211"

definition fnv1a :: "string \<Rightarrow> 64 word" where
  "fnv1a t = fold fnv1a_step t 14695981039346656037"

definition compatibility_message_id :: "string \<Rightarrow> nat \<Rightarrow> 64 word" where
  "compatibility_message_id turn_id position =
     (if turn_id = [] then of_nat (position + 1)
      else let h = fnv1a turn_id in if h = 0 then of_nat (position + 1) else h)"

definition conversation_message_proto :: "turn \<Rightarrow> nat \<Rightarrow> conversation_message" where
  "conversation_message_proto m position =
     \<lparr>cm_id = compatibility_message_id (tn_id m) position, cm_role = tn_role m, cm_content = tn_content m,
      cm_created = Some (timestamp_of (tn_created m)), cm_turn = tn_id m, cm_conversation = tn_conversation m,
      cm_speaker_kind = tn_speaker_kind m, cm_speaker = tn_speaker m, cm_batch = tn_batch m,
      cm_sequence = tn_sequence m, cm_display = tn_display m, cm_avatar = tn_avatar m\<rparr>"

text \<open>Messages with their positions, from \<open>k\<close> on.\<close>

definition message_protos :: "nat \<Rightarrow> turn list \<Rightarrow> conversation_message list" where
  "message_protos k ms = map2 conversation_message_proto ms [k..<k + length ms]"

definition response_batch_proto :: "batch \<Rightarrow> response_batch" where
  "response_batch_proto b =
     \<lparr>rb_id = bt_id b, rb_request = bt_request b, rb_conversation = bt_conversation b,
      rb_planned = elems (bt_planned b), rb_user = Some (conversation_message_proto (bt_user b) 0),
      rb_messages = message_protos 1 (elems (bt_messages b)), rb_status = bt_status b, rb_code = bt_code b,
      rb_created = Some (timestamp_of (bt_created b)),
      rb_updated = Some (timestamp_of (bt_updated b))\<rparr>"

fun orchestration_status :: "go_error \<Rightarrow> rpc_error" where
  "orchestration_status ErrInvalidRequest = Status CodeInvalidArgument ''invalid request''"
| "orchestration_status ErrMessageTooLarge = Status CodeResourceExhausted ''message too large''"
| "orchestration_status ErrConversationNotFound = Status CodeNotFound ''conversation not found''"
| "orchestration_status ErrConversationBusy = Status CodeAborted ''conversation busy''"
| "orchestration_status ErrLeaseLost = Status CodeAborted ''conversation busy''"
| "orchestration_status ErrNotStarted = Status CodeFailedPrecondition ''conversation generation not started''"
| "orchestration_status e = Plain e"

definition scope_of_identity :: "identity \<Rightarrow> string \<Rightarrow> chat_scope" where
  "scope_of_identity i conversation =
     \<lparr>cp_owner = \<lparr>ow_channel = id_channel i, ow_id = id_external i\<rparr>, cp_conversation = conversation\<rparr>"

section \<open>Methods\<close>

text \<open>\<open>Reply\<close> of a server without an application.\<close>

definition legacy_reply ::
  "('s, 'z) db_env_scheme \<Rightarrow> 's agent_server \<Rightarrow> identity \<Rightarrow> string \<Rightarrow> ('s, string) io" where
  "legacy_reply R v i txt s =
     (case recent_summaries_for_identity R (id_channel i) (id_external i) s of
        (Inl e, s1) \<Rightarrow> (Inl e, s1)
      | (Inr summaries, s1) \<Rightarrow>
          (case recent_turns R (av_store v) i 30 s1 of
             (Inl e, s2) \<Rightarrow> (Inl e, s2)
           | (Inr history, s2) \<Rightarrow>
               (case add_turn R (av_store v) i role_user txt s2 of
                  (Inl e, s3) \<Rightarrow> (Inl e, s3)
                | (Inr _, s3) \<Rightarrow>
                    (case replier_reply (av_chat v) (map sw_content summaries) (to_turns history) txt s3 of
                       (Inl e, s4) \<Rightarrow> (Inl e, s4)
                     | (Inr reply, s4) \<Rightarrow>
                         (case add_turn R (av_store v) i role_assistant reply s4 of
                            (Inl e, s5) \<Rightarrow> (Inl e, s5)
                          | (Inr _, s5) \<Rightarrow> (Inr reply, s5))))))"

definition app_reply ::
  "('s, 'z) db_env_scheme \<Rightarrow> 's agent_server \<Rightarrow> 's reply_model \<times> bool \<Rightarrow> identity \<Rightarrow> string \<Rightarrow> ('s, string) rpc" where
  "app_reply R v app i txt s =
     (let (request, s1) = env_uuid_new R s
      in case send R (av_store v) (fst app) (snd app)
                \<lparr>sd_scope = scope_of_identity i default_conversation, sd_content = txt, sd_request = request\<rparr> s1 of
           (Inl e, s2) \<Rightarrow> (Inl (orchestration_status e), s2)
         | (Inr b, s2) \<Rightarrow>
             (case elems (bt_messages b) of
                [] \<Rightarrow> (Inl (Status CodeUnavailable ''reply generation interrupted''), s2)
              | m # _ \<Rightarrow> (Inr (tn_content m), s2)))"

definition plain_result :: "(go_error + 'a) \<times> 's \<Rightarrow> (rpc_error + 'a) \<times> 's" where
  "plain_result x = (case x of (Inl e, s) \<Rightarrow> (Inl (Plain e), s) | (Inr a, s) \<Rightarrow> (Inr a, s))"

definition agent_reply :: "('s, 'z) db_env_scheme \<Rightarrow> 's agent_server \<Rightarrow> reply_request \<Rightarrow> ('s, string) rpc" where
  "agent_reply R v q s =
     (let i = identity_from_reply q
      in case validate_identity i of
           Some e \<Rightarrow> (Inl e, s)
         | None \<Rightarrow>
             (case av_app v of
                Some app \<Rightarrow> app_reply R v app i (rq_text q) s
              | None \<Rightarrow> plain_result (legacy_reply R v i (rq_text q) s)))"

definition character_proto :: "character \<Rightarrow> character_metadata" where
  "character_proto c = \<lparr>cd_id = ch_id c, cd_display = ch_display c, cd_avatar = ch_avatar c,
     cd_description = ch_description c\<rparr>"

definition space_proto :: "space \<Rightarrow> conversation_space" where
  "space_proto sp = \<lparr>cv_id = sp_id sp, cv_kind = sp_kind sp, cv_display = sp_display sp,
     cv_participants = map character_proto (sp_participants sp)\<rparr>"

definition agent_list_spaces :: "string \<Rightarrow> string \<Rightarrow> rpc_error + conversation_space list" where
  "agent_list_spaces channel external =
     (case validate_identity \<lparr>id_channel = channel, id_external = external\<rparr> of
        Some e \<Rightarrow> Inl e
      | None \<Rightarrow> Inr (map space_proto fixed_spaces))"

text \<open>An older client's message has no fields beyond the turn's own.\<close>

definition legacy_message_proto :: "turn \<Rightarrow> nat \<Rightarrow> conversation_message" where
  "legacy_message_proto m position =
     \<lparr>cm_id = compatibility_message_id (tn_id m) position, cm_role = tn_role m, cm_content = tn_content m,
      cm_created = Some (timestamp_of (tn_created m)), cm_turn = tn_id m, cm_conversation = [],
      cm_speaker_kind = [], cm_speaker = [], cm_batch = [], cm_sequence = 0, cm_display = [], cm_avatar = []\<rparr>"

definition conversation_or_default :: "string \<Rightarrow> string" where
  "conversation_or_default c = (if c = [] then default_conversation else c)"

definition agent_list_messages ::
  "('s, 'z) db_env_scheme \<Rightarrow> 's agent_server \<Rightarrow> list_request \<Rightarrow> ('s, conversation_message list) rpc" where
  "agent_list_messages R v q s =
     (let i = identity_from_list q
      in case validate_identity i of
           Some e \<Rightarrow> (Inl e, s)
         | None \<Rightarrow>
             (case av_app v of
                Some _ \<Rightarrow>
                  (case list_messages R (av_store v) (scope_of_identity i (conversation_or_default (lq_conversation q))) s of
                     (Inl e, s1) \<Rightarrow> (Inl (orchestration_status e), s1)
                   | (Inr ms, s1) \<Rightarrow> (Inr (message_protos 0 ms), s1))
              | None \<Rightarrow>
                  (let (now, s0) = env_now R s
                   in case turns_of_day R (av_store v) i now s0 of
                        (Inl e, s1) \<Rightarrow> (Inl (Plain e), s1)
                      | (Inr ms, s1) \<Rightarrow> (Inr (map2 legacy_message_proto ms [0..<length ms]), s1))))"

definition agent_send ::
  "('s, 'z) db_env_scheme \<Rightarrow> 's agent_server \<Rightarrow> send_request \<Rightarrow> ('s, response_batch option) rpc" where
  "agent_send R v q s =
     (let i = \<lparr>id_channel = sq_channel q, id_external = sq_external q\<rparr>
      in case validate_identity i of
           Some e \<Rightarrow> (Inl e, s)
         | None \<Rightarrow>
             (case av_app v of
                None \<Rightarrow> (Inl (Status CodeFailedPrecondition ''conversation application unavailable''), s)
              | Some app \<Rightarrow>
                  (case send R (av_store v) (fst app) (snd app)
                          \<lparr>sd_scope = scope_of_identity i (sq_conversation q), sd_content = sq_content q,
                           sd_request = sq_request q\<rparr> s of
                     (Inl e, s1) \<Rightarrow> (Inl (orchestration_status e), s1)
                   | (Inr b, s1) \<Rightarrow> (Inr (Some (response_batch_proto b)), s1))))"

definition agent_delete :: "('s, 'z) db_env_scheme \<Rightarrow> 's agent_server \<Rightarrow> list_request \<Rightarrow> ('s, unit) rpc" where
  "agent_delete R v q s =
     (let i = identity_from_delete q
      in case validate_identity i of
           Some e \<Rightarrow> (Inl e, s)
         | None \<Rightarrow>
             (case av_app v of
                Some _ \<Rightarrow>
                  (case app_clear_today R (av_store v) (scope_of_identity i (conversation_or_default (lq_conversation q))) s of
                     (Inl e, s1) \<Rightarrow> (Inl (orchestration_status e), s1)
                   | (Inr u, s1) \<Rightarrow> (Inr u, s1))
              | None \<Rightarrow> plain_result (clear_today R (av_store v) i s)))"

section \<open>Maintenance\<close>

text \<open>Of an older turn only identifier, role, text and time are archived.\<close>

definition legacy_archive_of :: "turn \<Rightarrow> archive_turn" where
  "legacy_archive_of m = \<lparr>at_turn = tn_id m, at_role = tn_role m, at_content = tn_content m,
     at_created = tn_created m, at_speaker_kind = [], at_speaker = [], at_batch = [], at_sequence = 0\<rparr>"

text \<open>
  One round of the loop; the flag tells whether the round reached its end, where a user of
  WeChat is added to those to greet. A failure to delete is only logged.
\<close>

definition legacy_maintain_messages ::
  "('s, 'z) db_env_scheme \<Rightarrow> 's agent_server \<Rightarrow> time \<Rightarrow> identity \<Rightarrow> turn list \<Rightarrow> 's \<Rightarrow> bool \<times> 's" where
  "legacy_maintain_messages R v day i ms s =
     (case archive_daily_conversation R (id_channel i) (id_external i) day (map legacy_archive_of ms) [] s of
        (Inl _, s1) \<Rightarrow> (False, s1)
      | (Inr _, s1) \<Rightarrow>
          (case summarizer_summarize (av_chat v) (to_turns ms) s1 of
             (Inl _, s2) \<Rightarrow> (False, s2)
           | (Inr summary, s2) \<Rightarrow>
               (case archive_daily_conversation R (id_channel i) (id_external i) day [] summary s2 of
                  (Inl _, s3) \<Rightarrow> (False, s3)
                | (Inr _, s3) \<Rightarrow> (True, snd (clear_date R (av_store v) i day s3)))))"

definition legacy_maintain_identity ::
  "('s, 'z) db_env_scheme \<Rightarrow> 's agent_server \<Rightarrow> time \<Rightarrow> identity \<Rightarrow> 's \<Rightarrow> bool \<times> 's" where
  "legacy_maintain_identity R v day i s =
     (case turns_of_day R (av_store v) i day s of
        (Inl _, s1) \<Rightarrow> (False, s1)
      | (Inr ms, s1) \<Rightarrow>
          if ms = [] then (False, snd (clear_date R (av_store v) i day s1))
          else legacy_maintain_messages R v day i ms s1)"

fun legacy_maintain_all ::
  "('s, 'z) db_env_scheme \<Rightarrow> 's agent_server \<Rightarrow> time \<Rightarrow> identity list \<Rightarrow> string list \<Rightarrow> 's \<Rightarrow> string list \<times> 's" where
  "legacy_maintain_all R v day [] greet s = (greet, s)"
| "legacy_maintain_all R v day (i # is) greet s =
     (case legacy_maintain_identity R v day i s of
        (ended, s1) \<Rightarrow> legacy_maintain_all R v day is
          (if ended \<and> id_channel i = ''wechat'' then greet @ [id_external i] else greet) s1)"

definition run_daily_maintenance ::
  "('s, 'z) db_env_scheme \<Rightarrow> 's agent_server \<Rightarrow> string \<Rightarrow> ('s, string list) io" where
  "run_daily_maintenance R v target s =
     (if target = [] then (Inl (ErrText ''target_date is required''), s)
      else case map_option day_start (parse_date target) of
        None \<Rightarrow> (Inl (ErrText ''invalid date''), s)
      | Some day \<Rightarrow>
          (case av_app v of
             Some (M, repo) \<Rightarrow>
               (case maintain_day R (av_store v) M repo day s of
                  (Inl e, s1) \<Rightarrow> (Inl e, s1)
                | (Inr r, s1) \<Rightarrow> (Inr (mr_greet r), s1))
           | None \<Rightarrow>
               (case active_identities R (av_store v) day s of
                  (Inl e, s1) \<Rightarrow> (Inl e, s1)
                | (Inr ids, s1) \<Rightarrow>
                    (case legacy_maintain_all R v day ids [] s1 of
                       (greet, s2) \<Rightarrow> (Inr greet, snd (purge_summaries_older_than R (day - 7 * day_length) s2))))))"

end
