(* ===== verification/Agent_Correct.thy ===== *)
theory Agent_Correct
  imports Agent Maintenance_Correct
begin

text \<open>
  What the agent service promises its clients: a request refused for its own fault has done
  nothing, and the older maintenance path, like the newer, archives before it deletes.
\<close>

section \<open>Refusals\<close>

text \<open>The errors that say that the request itself is at fault.\<close>

definition refusal :: "go_error \<Rightarrow> bool" where
  "refusal e \<longleftrightarrow> e \<in> {ErrInvalidRequest, ErrMessageTooLarge, ErrConversationNotFound}"

lemma refusal_simps [simp]:
  "\<not> refusal ErrService" "\<not> refusal ErrLeaseLost" "\<not> refusal ErrDecode" "\<not> refusal ErrConversationBusy"
  "\<not> refusal ErrNotStarted"
  by (simp_all add: refusal_def)

lemma round_trip_refusal: "fst (round_trip R script s) = Inl e \<Longrightarrow> \<not> refusal e"
  by (auto simp: round_trip_def split: prod.splits delivery.splits option.splits)

lemma migrate_refusal: "fst (migrate_legacy_scope R c sc d s) = Inl e \<Longrightarrow> \<not> refusal e"
  by (auto simp: migrate_legacy_scope_def split_beta dest: round_trip_refusal split: if_splits sum.splits)

lemma begin_refusal: "begin_batch R c sc request content s = (Inl e, s') \<Longrightarrow> \<not> refusal e"
  by (auto simp: begin_batch_def Let_def split_beta begin_result_def dest: migrate_refusal round_trip_refusal
      split: sum.splits begin_reply.splits option.splits)

lemma save_refusal: "save_batch R c sc b token release s = ((Some e, b'), s') \<Longrightarrow> \<not> refusal e"
  by (auto simp: save_batch_def Let_def split_beta dest: round_trip_refusal split: sum.splits if_splits)

lemma append_refusal: "append_character R c sc b token i d a t s = ((Inl e, b'), s') \<Longrightarrow> \<not> refusal e"
  by (auto simp: append_character_def Let_def split_beta dest: round_trip_refusal
      split: sum.splits if_splits append_reply.splits)

lemma finish_refusal: "finish_batch R c sc token b s = ((Inl e, settled), s') \<Longrightarrow> \<not> refusal e"
  by (auto simp: finish_batch_def dest: save_refusal split: prod.splits option.splits)

lemma speak_all_refusal:
  "speak_all R c M sc content h xs token ids b s = ((Inl e, settled), s') \<Longrightarrow> \<not> refusal e"
proof (induction ids arbitrary: b s)
  case (Cons i ids)
  then show ?case
    by (auto simp: Let_def dest: finish_refusal append_refusal split: prod.splits sum.splits if_splits)
qed (auto dest: finish_refusal)

text \<open>A message that is refused has a fault, and it was not even looked up.\<close>

definition faulty :: "('s, 'z) env_scheme \<Rightarrow> send_command \<Rightarrow> bool" where
  "faulty R cmd \<longleftrightarrow> find_space (cp_conversation (sd_scope cmd)) = None \<or> trim_space (sd_content cmd) = [] \<or>
     \<not> env_uuid_ok R (sd_request cmd) \<or> 4000 < rune_count (trim_space (sd_content cmd))"

lemma send_refusal:
  assumes "send R c M repo cmd s = (Inl e, s')" "refusal e"
  shows "s' = s \<and> faulty R cmd"
proof (rule ccontr)
  assume "\<not> (s' = s \<and> faulty R cmd)"
  then obtain sp h xs s2 where
    "begin_and_run R c M cmd sp (trim_space (sd_content cmd)) h xs s2 = (Inl e, s')"
    using assms by (auto simp: send_def faulty_def Let_def split: option.splits if_splits prod.splits sum.splits)
  then show False using assms(2)
    by (auto simp: begin_and_run_def run_batch_def Let_def dest: begin_refusal save_refusal speak_all_refusal
        split: prod.splits sum.splits begin_state.splits option.splits)
qed

lemma status_refusal:
  "orchestration_status e = Status c m \<Longrightarrow> c \<in> {CodeInvalidArgument, CodeResourceExhausted, CodeNotFound} \<Longrightarrow> refusal e"
  by (cases e) (auto simp: refusal_def)

section \<open>Properties\<close>

text \<open>
  C25. A message the service refuses with InvalidArgument, ResourceExhausted or NotFound has
  changed nothing, in Redis, in the database or elsewhere, and the refusal has one of the
  announced reasons: the identity is not valid, the conversation does not exist, the message is
  empty or has more than 4000 characters, or its request identifier is no UUID.
\<close>

theorem agent_refusal_is_free:
  assumes "agent_send R v q s = (Inl (Status c m), s')"
    and "c \<in> {CodeInvalidArgument, CodeResourceExhausted, CodeNotFound}"
  shows "s' = s \<and> (validate_identity \<lparr>id_channel = sq_channel q, id_external = sq_external q\<rparr> = Some (Status c m) \<or>
    faulty R \<lparr>sd_scope = scope_of_identity \<lparr>id_channel = sq_channel q, id_external = sq_external q\<rparr> (sq_conversation q),
        sd_content = sq_content q, sd_request = sq_request q\<rparr>)"
  using assms
  by (auto simp: agent_send_def Let_def dest!: send_refusal status_refusal
      split: option.splits prod.splits sum.splits)

definition demo_request :: send_request where
  "demo_request = \<lparr>sq_channel = ''api'', sq_external = ''u'', sq_conversation = ''direct-nobody'', sq_content = ''hello'',
     sq_request = replicate 36 (CHR ''a'')\<rparr>"

theorem agent_refusal_is_free_witness:
  "\<exists>m. agent_send calm_ref \<lparr>av_store = demo_conv, av_chat = \<lambda>_ s. (Inr None, s), av_app = Some (quiet_reply, True)\<rparr>
     demo_request (db_start 0) = (Inl (Status CodeNotFound m), db_start 0)"
proof -
  let ?v = "\<lparr>av_store = demo_conv, av_chat = \<lambda>_ s. (Inr None, s), av_app = Some (quiet_reply, True)\<rparr>"
  have space: "find_space ''direct-nobody'' = None"
    by (simp add: find_space_def fixed_spaces_def group_space_def direct_space_def all_characters_def registry_def
        haruhi_character_def kyon_character_def yuki_character_def mikuru_character_def koizumi_character_def
        haruhi_def kyon_def yuki_def mikuru_def koizumi_def)
  obtain m s' where run: "agent_send calm_ref ?v demo_request (db_start 0) = (Inl (Status CodeNotFound m), s')"
    by (simp add: agent_send_def demo_request_def validate_identity_def is_supported_channel_def max_external_id_def
        send_def scope_of_identity_def space)
  from agent_refusal_is_free [OF run] run show ?thesis by auto
qed

end
