(* ===== verification/Auth_Crypto.thy ===== *)
theory Auth_Crypto
  imports Go_Env "HOL-Library.Word"
begin

text \<open>
  The byte encodings and password hashes of package \<open>internal/auth\<close> (\<open>password.go\<close> and the
  helpers at the end of \<open>service.go\<close>): base64, HMAC over the digest of the environment, the
  encoded form of an Argon2id hash, and its reading. Argon2id itself is a parameter.
\<close>

unbundle bit_operations_syntax

section \<open>Base64\<close>

text \<open>
  Three bytes are four digits of six bits; an alphabet maps digits to characters. The raw
  encodings write no padding. The two alphabets differ in the last two characters.
\<close>

definition base64_char :: "char \<Rightarrow> char \<Rightarrow> nat \<Rightarrow> char" where
  "base64_char p q n =
     (if n < 26 then chr (65 + n) else if n < 52 then chr (71 + n) else if n < 62 then chr (n - 4)
      else if n = 62 then p else q)"

definition base64_digit :: "char \<Rightarrow> char \<Rightarrow> char \<Rightarrow> nat option" where
  "base64_digit p q c =
     (let n = code c
      in if 65 \<le> n \<and> n \<le> 90 then Some (n - 65) else if 97 \<le> n \<and> n \<le> 122 then Some (n - 71)
         else if 48 \<le> n \<and> n \<le> 57 then Some (n + 4)
         else if c = p then Some 62 else if c = q then Some 63 else None)"

fun base64_digits :: "nat list \<Rightarrow> nat list" where
  "base64_digits [] = []"
| "base64_digits [a] = [a div 4, a mod 4 * 16]"
| "base64_digits [a, b] = [a div 4, a mod 4 * 16 + b div 16, b mod 16 * 4]"
| "base64_digits (a # b # c # bs) =
     a div 4 # (a mod 4 * 16 + b div 16) # (b mod 16 * 4 + c div 64) # c mod 64 # base64_digits bs"

definition base64_encode :: "char \<Rightarrow> char \<Rightarrow> string \<Rightarrow> string" where
  "base64_encode p q bs = map (base64_char p q) (base64_digits (map code bs))"

text \<open>\<open>RawURLEncoding\<close>, \<open>RawStdEncoding\<close>, and \<open>StdEncoding\<close>, which pads.\<close>

definition raw_url_encode :: "string \<Rightarrow> string" where
  "raw_url_encode = base64_encode (CHR ''-'') (CHR ''_'')"

definition raw_std_encode :: "string \<Rightarrow> string" where
  "raw_std_encode = base64_encode (CHR ''+'') (CHR ''/'')"

definition std_encode :: "string \<Rightarrow> string" where
  "std_encode bs = raw_std_encode bs @
     (case length bs mod 3 of 0 \<Rightarrow> [] | Suc 0 \<Rightarrow> ''=='' | _ \<Rightarrow> ''='')"

text \<open>Decoding: line ends are skipped, one digit alone is an error, spare bits are ignored.\<close>

fun base64_bytes :: "nat list \<Rightarrow> nat list option" where
  "base64_bytes [] = Some []"
| "base64_bytes [a] = None"
| "base64_bytes [a, b] = Some [a * 4 + b div 16]"
| "base64_bytes [a, b, c] = Some [a * 4 + b div 16, b mod 16 * 16 + c div 4]"
| "base64_bytes (a # b # c # d # ds) =
     map_option (\<lambda>bs. (a * 4 + b div 16) # (b mod 16 * 16 + c div 4) # (c mod 4 * 64 + d) # bs) (base64_bytes ds)"

definition raw_std_decode :: "string \<Rightarrow> string option" where
  "raw_std_decode t =
     (let ds = map (base64_digit (CHR ''+'') (CHR ''/'')) (filter (\<lambda>c. code c \<noteq> 10 \<and> code c \<noteq> 13) t)
      in if None \<in> set ds then None else map_option (map chr) (base64_bytes (map the ds)))"

lemma base64_digits_bound:
  "\<forall>n \<in> set ns. n < 256 \<Longrightarrow> n \<in> set (base64_digits ns) \<Longrightarrow> n < 64"
  by (induction ns rule: base64_digits.induct) (auto simp: less_mult_imp_div_less)

lemma base64_bytes_digits: "\<forall>n \<in> set ns. n < 256 \<Longrightarrow> base64_bytes (base64_digits ns) = Some ns"
proof (induction ns rule: base64_digits.induct)
  case (2 a)
  then show ?case by (simp add: mult.commute)
next
  case (3 a b)
  have "(a mod 4 * 16 + b div 16) div 16 = a mod 4" "(a mod 4 * 16 + b div 16) mod 16 = b div 16"
    using 3 by (simp_all add: less_mult_imp_div_less div_add1_eq)
  then show ?case by (simp add: mult.commute)
next
  case (4 a b c bs)
  have "(a mod 4 * 16 + b div 16) div 16 = a mod 4" "(a mod 4 * 16 + b div 16) mod 16 = b div 16"
    "(b mod 16 * 4 + c div 64) div 4 = b mod 16" "(b mod 16 * 4 + c div 64) mod 4 = c div 64"
    using 4(2) by (simp_all add: less_mult_imp_div_less div_add1_eq)
  then show ?case using 4 by (simp add: mult.commute)
qed simp

lemma base64_digit_char:
  assumes "n < 64"
  shows "base64_digit (CHR ''+'') (CHR ''/'') (base64_char (CHR ''+'') (CHR ''/'') n) = Some n"
    and "code (base64_char (CHR ''+'') (CHR ''/'') n) \<notin> {10, 13, 36}"
  using assms by (auto simp: base64_digit_def base64_char_def code_def Let_def chr_def)

lemma base64_clean:
  "c \<in> set (raw_std_encode bs) \<Longrightarrow> code c \<notin> {10, 13, 36}"
  using base64_digits_bound [of "map code bs"] base64_digit_char(2)
  by (fastforce simp: raw_std_encode_def base64_encode_def code_def)

lemma raw_std_decode_encode: "raw_std_decode (raw_std_encode bs) = Some bs"
proof -
  let ?ns = "base64_digits (map code bs)"
  have b: "\<forall>n \<in> set ?ns. n < 64" using base64_digits_bound [of "map code bs"] by (auto simp: code_def)
  have "filter (\<lambda>c. code c \<noteq> 10 \<and> code c \<noteq> 13) (raw_std_encode bs) = raw_std_encode bs"
    using base64_clean by (simp add: filter_id_conv)
  moreover have "map (base64_digit (CHR ''+'') (CHR ''/'')) (raw_std_encode bs) = map Some ?ns"
    using b base64_digit_char(1) by (simp add: raw_std_encode_def base64_encode_def)
  moreover have "base64_bytes ?ns = Some (map code bs)"
    by (rule base64_bytes_digits) (simp add: code_def)
  moreover have "map chr (map code bs) = bs" by (simp add: comp_def)
  ultimately show ?thesis by (auto simp: raw_std_decode_def Let_def comp_def)
qed

section \<open>Keyed digests\<close>

text \<open>\<open>hmac.New(sha256.New, key)\<close> over the digest \<open>H\<close>, whose block has 64 bytes.\<close>

definition xor_byte :: "nat \<Rightarrow> char \<Rightarrow> char" where
  "xor_byte n c = chr (unat ((of_nat (code c) :: 8 word) XOR of_nat n))"

definition hmac_key :: "(string \<Rightarrow> string) \<Rightarrow> string \<Rightarrow> string" where
  "hmac_key H key =
     (let k = (if 64 < length key then H key else key) in k @ replicate (64 - length k) (chr 0))"

definition hmac_sha256 :: "(string \<Rightarrow> string) \<Rightarrow> string \<Rightarrow> string \<Rightarrow> string" where
  "hmac_sha256 H key msg =
     (let k = hmac_key H key
      in H (map (xor_byte 0x5C) k @ H (map (xor_byte 0x36) k @ msg)))"

section \<open>Passwords\<close>

definition argon_time :: nat where "argon_time = 1"
definition argon_memory :: nat where "argon_memory = 64 * 1024"
definition argon_threads :: nat where "argon_threads = 4"
definition argon_key_len :: nat where "argon_key_len = 32"

lemmas argon_defs = argon_time_def argon_memory_def argon_threads_def argon_key_len_def

text \<open>Argon2id: password, salt, rounds, memory, threads and length of the key.\<close>

type_synonym argon2 = "string \<Rightarrow> string \<Rightarrow> nat \<Rightarrow> nat \<Rightarrow> nat \<Rightarrow> nat \<Rightarrow> string"

definition validate_password :: "string \<Rightarrow> go_error option" where
  "validate_password password =
     (if length password < 8 then Some (ErrText ''password must be at least 8 characters'')
      else if 128 < length password then Some (ErrText ''password must be at most 128 characters'')
      else None)"

definition encoded_hash :: "string \<Rightarrow> string \<Rightarrow> string" where
  "encoded_hash salt hash =
     ''$argon2id$v=19$m='' @ show_nat argon_memory @ '',t='' @ show_nat argon_time @ '',p='' @ show_nat argon_threads @
     ''$'' @ raw_std_encode salt @ ''$'' @ raw_std_encode hash"

definition hash_password :: "('s, 'z) env_scheme \<Rightarrow> argon2 \<Rightarrow> string \<Rightarrow> ('s, string) io" where
  "hash_password R A password s =
     (case validate_password password of
        Some e \<Rightarrow> (Inl e, s)
      | None \<Rightarrow>
          (case env_random R 16 s of
             (None, s1) \<Rightarrow> (Inl ErrService, s1)
           | (Some salt, s1) \<Rightarrow>
               (Inr (encoded_hash salt (A password salt argon_time argon_memory argon_threads argon_key_len)), s1)))"

text \<open>
  \<open>fmt.Sscanf\<close> with \<open>m=%d,t=%d,p=%d\<close> into unsigned numbers: the literals must match, spaces may
  precede a number (a line end is an error), a number that does not fit is an error, and what
  follows the last number is not looked at.
\<close>

definition after_literal :: "string \<Rightarrow> string \<Rightarrow> string option" where
  "after_literal lit t = (if has_prefix t lit then Some (drop (length lit) t) else None)"

definition scan_uint :: "nat \<Rightarrow> string \<Rightarrow> (nat \<times> string) option" where
  "scan_uint width t =
     (let u = unsegs (dropWhile (\<lambda>(r, b). is_space r \<and> r \<noteq> 10) (segs t));
          n = parse_nat (takeWhile is_digit u)
      in if takeWhile is_digit u = [] \<or> 2 ^ width \<le> n then None else Some (n, dropWhile is_digit u))"

definition scan_params :: "string \<Rightarrow> (nat \<times> nat \<times> nat) option" where
  "scan_params t =
     Option.bind (after_literal ''m='' t) (\<lambda>t1. Option.bind (scan_uint 32 t1) (\<lambda>(m, t2).
     Option.bind (after_literal '',t='' t2) (\<lambda>t3. Option.bind (scan_uint 32 t3) (\<lambda>(n, t4).
     Option.bind (after_literal '',p='' t4) (\<lambda>t5. map_option (\<lambda>(p, t6). (m, n, p)) (scan_uint 8 t5))))))"

text \<open>\<open>strings.Split\<close>.\<close>

fun split_all :: "char \<Rightarrow> string \<Rightarrow> string list" where
  "split_all sep [] = [[]]"
| "split_all sep (c # cs) =
     (if c = sep then [] # split_all sep cs
      else case split_all sep cs of [] \<Rightarrow> [[c]] | t # ts \<Rightarrow> (c # t) # ts)"

text \<open>No rounds or no threads make Argon2 panic: then there is no answer.\<close>

definition verify_password :: "argon2 \<Rightarrow> string \<Rightarrow> string \<Rightarrow> bool option" where
  "verify_password A encoded password =
     (let parts = split_all (CHR ''$'') encoded
      in if length parts \<noteq> 6 \<or> parts ! 1 \<noteq> ''argon2id'' \<or> parts ! 2 \<noteq> ''v=19'' then Some False
         else case scan_params (parts ! 3) of
           None \<Rightarrow> Some False
         | Some (memory, rounds, threads) \<Rightarrow>
             (case (raw_std_decode (parts ! 4), raw_std_decode (parts ! 5)) of
                (Some salt, Some want) \<Rightarrow>
                  if want = [] then Some False
                  else if rounds = 0 \<or> threads = 0 then None
                  else Some (A password salt rounds memory threads (length want) = want)
              | _ \<Rightarrow> Some False))"

lemma split_all_cut: "sep \<notin> set a \<Longrightarrow> split_all sep (a @ sep # b) = a # split_all sep b"
  by (induction a) auto

lemma split_all_last: "sep \<notin> set a \<Longrightarrow> split_all sep a = [a]"
  by (induction a) auto

lemma show_numbers: "show_nat 65536 = ''65536''" "show_nat 1 = ''1''" "show_nat 4 = ''4''"
  by (simp_all add: show_nat.simps digit_def flip: code_inject) (simp_all add: code_def)

lemma show_params:
  "''m='' @ show_nat argon_memory @ '',t='' @ show_nat argon_time @ '',p='' @ show_nat argon_threads = ''m=65536,t=1,p=4''"
  using show_numbers by (simp add: argon_defs)

lemma scan_digits:
  assumes "ds \<noteq> []" "\<forall>c \<in> set ds. is_digit c" "t = [] \<or> t = CHR '','' # t'" "parse_nat ds < 2 ^ width"
  shows "scan_uint width (ds @ t) = Some (parse_nat ds, t)"
proof -
  obtain d ds' where d: "ds = d # ds'" using assms(1) by (cases ds) auto
  have dd: "48 \<le> code d" "code d \<le> 57" using assms(2) d by (auto simp: is_digit_def code_def)
  have "dropWhile (\<lambda>(r, b). is_space r \<and> r \<noteq> 10) (segs (ds @ t)) = segs (ds @ t)"
    using d dd by (simp add: decode_rune_def is_space_def Let_def)
  then have u: "unsegs (dropWhile (\<lambda>(r, b). is_space r \<and> r \<noteq> 10) (segs (ds @ t))) = ds @ t" by simp
  have t: "\<not> is_digit (CHR '','')" by (simp add: is_digit_def code_def)
  have "takeWhile is_digit (ds @ t) = ds" "dropWhile is_digit (ds @ t) = t"
    using assms(2,3) t by (auto simp: takeWhile_append2 dropWhile_append2)
  then show ?thesis using assms(1,4) by (simp add: scan_uint_def u Let_def)
qed

lemma scan_own_params: "scan_params ''m=65536,t=1,p=4'' = Some (65536, 1, 4)"
proof -
  have digits: "is_digit c \<longleftrightarrow> 48 \<le> code c \<and> code c \<le> 57" for c by (simp add: is_digit_def)
  have n: "parse_nat ''65536'' = 65536" "parse_nat ''1'' = 1" "parse_nat ''4'' = 4"
    using parse_show_nat [of 65536] parse_show_nat [of 1] parse_show_nat [of 4]
    by (simp_all only: show_numbers)
  have "scan_uint 32 (''65536'' @ '',t=1,p=4'') = Some (65536, '',t=1,p=4'')"
    using scan_digits [of "''65536''" "'',t=1,p=4''" "''t=1,p=4''" 32] n by (simp add: digits code_def)
  moreover have "scan_uint 32 (''1'' @ '',p=4'') = Some (1, '',p=4'')"
    using scan_digits [of "''1''" "'',p=4''" "''p=4''" 32] n by (simp add: digits code_def)
  moreover have "scan_uint 8 (''4'' @ []) = Some (4, [])"
    using scan_digits [of "''4''" "[]" "[]" 8] n by (simp add: digits code_def)
  ultimately show ?thesis by (simp add: scan_params_def after_literal_def has_prefix_def)
qed

text \<open>A hash is read back with its own salt, and accepts exactly the passwords with that key.\<close>

lemma verify_encoded:
  assumes "hash \<noteq> []"
  shows "verify_password A (encoded_hash salt hash) password =
    Some (A password salt argon_time argon_memory argon_threads (length hash) = hash)"
proof -
  have free: "CHR ''$'' \<notin> set (raw_std_encode bs)" for bs
    using base64_clean [of "CHR ''$''" bs] by (auto simp: code_def)
  have enc: "encoded_hash salt hash = [] @ CHR ''$'' # ''argon2id'' @ CHR ''$'' # ''v=19'' @ CHR ''$'' #
      ''m=65536,t=1,p=4'' @ CHR ''$'' # raw_std_encode salt @ CHR ''$'' # raw_std_encode hash"
    using arg_cong [OF show_params, of "\<lambda>x. ''$argon2id$v=19$'' @ x @ ''$'' @ raw_std_encode salt @ ''$'' @ raw_std_encode hash"]
    by (simp add: encoded_hash_def)
  have parts: "split_all (CHR ''$'') (encoded_hash salt hash) =
      [[], ''argon2id'', ''v=19'', ''m=65536,t=1,p=4'', raw_std_encode salt, raw_std_encode hash]"
    unfolding enc by (simp only: split_all_cut split_all_last free list.set append_Nil not_False_eq_True)
      (simp add: split_all_cut split_all_last free)
  show ?thesis
    using assms by (simp add: verify_password_def parts scan_own_params raw_std_decode_encode argon_defs)
qed

end
