(* ===== verification/Auth.thy ===== *)
theory Auth
  imports Auth_Crypto Memory Redis_Stores
begin

text \<open>
  Package \<open>internal/auth\<close>: registration, login, password reset and sessions (\<open>service.go\<close>) and
  the seeding of an administrator (\<open>admin.go\<close>). Sessions, captchas and pending verifications
  live in Redis, users in the database. The statements on the table of users, Argon2id, the
  mailer, the parser of mail addresses and the letter cases of runes outside ASCII are
  parameters, fields of the environment.
\<close>

section \<open>Data\<close>

record user =
  us_id :: string
  us_email :: string
  us_hash :: string
  us_admin :: bool
  us_verified :: time
  us_created :: time
  us_updated :: time

definition zero_user :: user where
  "zero_user = \<lparr>us_id = [], us_email = [], us_hash = [], us_admin = False, us_verified = zero_time,
     us_created = zero_time, us_updated = zero_time\<rparr>"

text \<open>
  A create reports a duplicate email or identifier as \<open>ErrDuplicatedKey\<close>; the queries report
  a missing row as an error. The upsert is \<open>ON CONFLICT (email)\<close> with its four assignments.
\<close>

record 's auth_env = "'s db_env" +
  au_users :: "'s \<Rightarrow> user list"
  au_count :: "string \<Rightarrow> ('s, nat) io"
  au_create :: "user \<Rightarrow> ('s, user) io"
  au_by_email :: "string \<Rightarrow> ('s, user) io"
  au_by_id :: "string \<Rightarrow> ('s, user) io"
  au_set_hash :: "string \<Rightarrow> string \<Rightarrow> time \<Rightarrow> ('s, unit) io"
  au_upsert :: "user \<Rightarrow> ('s, unit) io"
  au_transaction :: "('s, user) io \<Rightarrow> ('s, user) io"
  au_argon :: argon2
  au_mail :: "string \<Rightarrow> string \<Rightarrow> string \<Rightarrow> ('s, unit) io"
  au_address :: "string \<Rightarrow> string option"
  au_lower :: "rune \<Rightarrow> rune"
  au_upper :: "rune \<Rightarrow> rune"

record auth_config =
  ag_pepper :: string
  ag_session_ttl :: time
  ag_captcha_ttl :: time
  ag_code_ttl :: time
  ag_resend :: time

definition minutes :: "int \<Rightarrow> time" where
  "minutes n = n * 60 * second"

definition or_default :: "time \<Rightarrow> time \<Rightarrow> time" where
  "or_default t d = (if t = 0 then d else t)"

text \<open>\<open>NewService\<close> fills in the durations; its dependencies are never nil here.\<close>

definition new_service :: "auth_config \<Rightarrow> go_error + auth_config" where
  "new_service cfg =
     (if trim_space (ag_pepper cfg) = [] then Inl (ErrText ''auth pepper is required'')
      else Inr \<lparr>ag_pepper = ag_pepper cfg, ag_session_ttl = or_default (ag_session_ttl cfg) (7 * day_length),
        ag_captcha_ttl = or_default (ag_captcha_ttl cfg) (minutes 5),
        ag_code_ttl = or_default (ag_code_ttl cfg) (minutes 10),
        ag_resend = or_default (ag_resend cfg) (minutes 1)\<rparr>)"

section \<open>Helpers\<close>

definition digest :: "('s, 'z) env_scheme \<Rightarrow> auth_config \<Rightarrow> string \<Rightarrow> string" where
  "digest R cfg v = hex_encode (hmac_sha256 (env_sha256 R) (ag_pepper cfg) v)"

definition session_key :: "('s, 'z) env_scheme \<Rightarrow> auth_config \<Rightarrow> string \<Rightarrow> string" where
  "session_key R cfg token = ''auth:session:'' @ digest R cfg token"

definition pending_key :: "string \<Rightarrow> string \<Rightarrow> string" where
  "pending_key purpose email = ''auth:pending:'' @ purpose @ '':'' @ email"

definition cooldown_key :: "string \<Rightarrow> string \<Rightarrow> string" where
  "cooldown_key purpose email = ''auth:cooldown:'' @ purpose @ '':'' @ email"

definition captcha_key :: "string \<Rightarrow> string" where
  "captcha_key i = ''auth:captcha:'' @ i"

definition user_sessions_key :: "string \<Rightarrow> string" where
  "user_sessions_key user_id = ''auth:user_sessions:'' @ user_id"

text \<open>\<open>strings.ToLower\<close> and \<open>strings.ToUpper\<close>, rune by rune.\<close>

definition lower_rune :: "('s, 'z) auth_env_scheme \<Rightarrow> rune \<Rightarrow> rune" where
  "lower_rune R r = (if 65 \<le> r \<and> r \<le> 90 then r + 32 else if r < 128 then r else au_lower R r)"

definition upper_rune :: "('s, 'z) auth_env_scheme \<Rightarrow> rune \<Rightarrow> rune" where
  "upper_rune R r = (if 97 \<le> r \<and> r \<le> 122 then r - 32 else if r < 128 then r else au_upper R r)"

definition to_lower :: "('s, 'z) auth_env_scheme \<Rightarrow> string \<Rightarrow> string" where
  "to_lower R t = utf8 (map (lower_rune R) (runes t))"

definition to_upper :: "('s, 'z) auth_env_scheme \<Rightarrow> string \<Rightarrow> string" where
  "to_upper R t = utf8 (map (upper_rune R) (runes t))"

definition invalid_email :: go_error where
  "invalid_email = ErrText ''invalid email address''"

definition normalize_email :: "('s, 'z) auth_env_scheme \<Rightarrow> string \<Rightarrow> string option" where
  "normalize_email R v0 =
     (let v = to_lower R (trim_space v0)
      in case au_address R v of
           None \<Rightarrow> None
         | Some a \<Rightarrow> if to_lower R a \<noteq> v \<or> 320 < length v then None else Some v)"

definition random_from_alphabet :: "('s, 'z) env_scheme \<Rightarrow> nat \<Rightarrow> string \<Rightarrow> ('s, string) io" where
  "random_from_alphabet R n alphabet s =
     (case env_random R n s of
        (None, s1) \<Rightarrow> (Inl ErrService, s1)
      | (Some raw, s1) \<Rightarrow> (Inr (map (\<lambda>b. alphabet ! (code b mod length alphabet)) raw), s1))"

definition random_token :: "('s, 'z) env_scheme \<Rightarrow> nat \<Rightarrow> ('s, string) io" where
  "random_token R n s =
     (case env_random R n s of
        (None, s1) \<Rightarrow> (Inl ErrService, s1)
      | (Some b, s1) \<Rightarrow> (Inr (raw_url_encode b), s1))"

definition random_hex :: "('s, 'z) env_scheme \<Rightarrow> nat \<Rightarrow> ('s, string) io" where
  "random_hex R n s =
     (case env_random R n s of
        (None, s1) \<Rightarrow> (Inl ErrService, s1)
      | (Some b, s1) \<Rightarrow> (Inr (hex_encode b), s1))"

section \<open>Captchas\<close>

definition captcha_alphabet :: string where
  "captcha_alphabet = ''ABCDEFGHJKLMNPQRSTUVWXYZ23456789''"

text \<open>In the literal a tilde stands for a double quote.\<close>

definition with_quotes :: "string \<Rightarrow> string" where
  "with_quotes t = map (\<lambda>c. if c = CHR ''~'' then chr 34 else c) t"

definition captcha_svg_head :: string where
  "captcha_svg_head = with_quotes
     (''<svg xmlns=~http://www.w3.org/2000/svg~ width=~180~ height=~64~ viewBox=~0 0 180 64~>'' @
      ''<rect width=~180~ height=~64~ fill=~#fffaf0~/>'' @
      ''<path d=~M3 18L177 45M5 51L174 12M12 31L168 27~ stroke=~#b72b27~ opacity=~.22~/>'' @
      ''<text x=~90~ y=~43~ text-anchor=~middle~ fill=~#1f1c18~ font-family=~monospace~ '' @
      ''font-size=~32~ font-weight=~800~ letter-spacing=~8~>'')"

text \<open>\<open>html.EscapeString\<close>.\<close>

definition html_escape :: "string \<Rightarrow> string" where
  "html_escape t = concat (map (\<lambda>c. if c = CHR ''&'' then ''&amp;'' else if c = CHR ''<'' then ''&lt;''
     else if c = CHR ''>'' then ''&gt;'' else if code c = 34 then ''&#34;'' else if code c = 39 then ''&#39;'' else [c]) t)"

definition new_captcha :: "('s, 'z) auth_env_scheme \<Rightarrow> auth_config \<Rightarrow> ('s, string \<times> string) io" where
  "new_captcha R cfg s =
     (case random_from_alphabet R 4 captcha_alphabet s of
        (Inl e, s1) \<Rightarrow> (Inl e, s1)
      | (Inr answer, s1) \<Rightarrow>
          (case random_token R 18 s1 of
             (Inl e, s2) \<Rightarrow> (Inl e, s2)
           | (Inr i, s2) \<Rightarrow>
               (case round_trip R (writing (r_set R (captcha_key i) (Raw (digest R cfg answer))
                        (expiry_of (ag_captcha_ttl cfg)))) s2 of
                  (Inl e, s3) \<Rightarrow> (Inl e, s3)
                | (Inr _, s3) \<Rightarrow>
                    (Inr (i, ''data:image/svg+xml;base64,'' @
                       std_encode (captcha_svg_head @ html_escape answer @ ''</text></svg>'')), s3))))"

text \<open>\<open>GETDEL\<close> reads and deletes in one step.\<close>

definition get_del :: "('s, 'z) redis_scheme \<Rightarrow> string \<Rightarrow> 's \<Rightarrow> blob option option \<times> 's" where
  "get_del R k s = (Some (r_get R k s), r_del R k s)"

definition consume_captcha :: "('s, 'z) auth_env_scheme \<Rightarrow> auth_config \<Rightarrow> string \<Rightarrow> string \<Rightarrow> ('s, unit) io" where
  "consume_captcha R cfg i answer s =
     (case round_trip R (get_del R (captcha_key (trim_space i))) s of
        (Inr (Some (Raw want)), s1) \<Rightarrow>
          if want = digest R cfg (to_upper R (trim_space answer)) then (Inr (), s1) else (Inl ErrInvalidCaptcha, s1)
      | (_, s1) \<Rightarrow> (Inl ErrInvalidCaptcha, s1))"

section \<open>Pending verifications\<close>

text \<open>
  \<open>TTL\<close> answers whole seconds, rounded to the nearest; the client hands on \<open>-2\<close> for a missing
  key and \<open>-1\<close> for a key without expiry as that many nanoseconds, and 0 when the call fails.
  \<open>Set\<close> takes a duration of \<open>-1\<close> as \<open>KEEPTTL\<close>, and any other that is not positive as no expiry.
\<close>

definition ttl_script :: "('s, 'z) redis_scheme \<Rightarrow> string \<Rightarrow> 's \<Rightarrow> time option \<times> 's" where
  "ttl_script R k s =
     (Some (if \<not> r_exists R k s then - 2
            else case r_pttl R k s of None \<Rightarrow> - 1 | Some ms \<Rightarrow> (ms + 500) div 1000 * second), s)"

definition ttl_val :: "('s, 'z) redis_scheme \<Rightarrow> string \<Rightarrow> 's \<Rightarrow> time \<times> 's" where
  "ttl_val R k s = (case round_trip R (ttl_script R k) s of (Inl _, s1) \<Rightarrow> (0, s1) | (Inr t, s1) \<Rightarrow> (t, s1))"

definition set_for :: "('s, 'z) redis_scheme \<Rightarrow> string \<Rightarrow> blob \<Rightarrow> time \<Rightarrow> 's \<Rightarrow> 's" where
  "set_for R k v ttl s = (if ttl = - 1 then r_set R k v (r_pttl R k s) s else r_set R k v (expiry_of ttl) s)"

definition create_pending ::
  "('s, 'z) auth_env_scheme \<Rightarrow> auth_config \<Rightarrow> string \<Rightarrow> string \<Rightarrow> string \<Rightarrow> ('s, unit) io" where
  "create_pending R cfg purpose email hash s =
     (case round_trip R (\<lambda>s. case r_setnx R (cooldown_key purpose email) (Raw ''1'') (expiry_of (ag_resend cfg)) s of
                               (added, s') \<Rightarrow> (Some added, s')) s of
        (Inl e, s1) \<Rightarrow> (Inl e, s1)
      | (Inr added, s1) \<Rightarrow>
          if \<not> added then (Inl ErrRateLimited, s1)
          else case random_from_alphabet R 6 ''0123456789'' s1 of
            (Inl e, s2) \<Rightarrow> (Inl e, s2)
          | (Inr fresh, s2) \<Rightarrow>
              (let p = \<lparr>pv_email = email, pv_password_hash = hash, pv_code_hash = digest R cfg fresh, pv_attempts = 0\<rparr>
               in case round_trip R (writing (r_set R (pending_key purpose email) (PendingDoc p)
                         (expiry_of (ag_code_ttl cfg)))) s2 of
                    (Inl e, s3) \<Rightarrow> (Inl e, s3)
                  | (Inr _, s3) \<Rightarrow>
                      (case au_mail R email fresh purpose s3 of
                         (Inr _, s4) \<Rightarrow> (Inr (), s4)
                       | (Inl _, s4) \<Rightarrow>
                           (Inl ErrMailUnavailable,
                            snd (round_trip R (writing (\<lambda>s. r_del R (cooldown_key purpose email)
                                   (r_del R (pending_key purpose email) s))) s4)))))"

text \<open>A wrong code: one attempt more, and the fifth one ends the verification.\<close>

definition wrong_code :: "('s, 'z) auth_env_scheme \<Rightarrow> string \<Rightarrow> pending \<Rightarrow> 's \<Rightarrow> 's" where
  "wrong_code R key p s =
     (let p' = p\<lparr>pv_attempts := pv_attempts p + 1\<rparr>;
          (ttl, s1) = ttl_val R key s
      in if 5 \<le> pv_attempts p' then snd (round_trip R (writing (r_del R key)) s1)
         else snd (round_trip R (writing (set_for R key (PendingDoc p') ttl)) s1))"

definition verify_pending ::
  "('s, 'z) auth_env_scheme \<Rightarrow> auth_config \<Rightarrow> string \<Rightarrow> string \<Rightarrow> string \<Rightarrow> ('s, pending) io" where
  "verify_pending R cfg purpose email typed s =
     (let key = pending_key purpose email
      in case round_trip R (reading (r_get R key)) s of
           (Inr (Some (PendingDoc p)), s1) \<Rightarrow>
             if 5 \<le> pv_attempts p then (Inl ErrInvalidCode, s1)
             else if pv_code_hash p = digest R cfg (trim_space typed) then (Inr p, s1)
             else (Inl ErrInvalidCode, wrong_code R key p s1)
         | (_, s1) \<Rightarrow> (Inl ErrInvalidCode, s1))"

section \<open>Sessions\<close>

text \<open>\<open>Expire\<close> sends whole seconds, at least one.\<close>

definition expire_seconds :: "time \<Rightarrow> int" where
  "expire_seconds ttl = 1000 * (if 0 < ttl \<and> ttl < second then 1 else ttl div second)"

definition create_session :: "('s, 'z) auth_env_scheme \<Rightarrow> auth_config \<Rightarrow> string \<Rightarrow> 's \<Rightarrow> (go_error option \<times> string) \<times> 's" where
  "create_session R cfg user_id s =
     (case random_token R 32 s of
        (Inl e, s1) \<Rightarrow> ((Some e, []), s1)
      | (Inr token, s1) \<Rightarrow>
          (let key = session_key R cfg token; set_key = user_sessions_key user_id;
               pipe = writing (\<lambda>s. r_pexpire R set_key (expire_seconds (ag_session_ttl cfg))
                 (r_sadd R set_key key (r_set R key (Raw user_id) (expiry_of (ag_session_ttl cfg)) s)))
           in case round_trip R pipe s1 of
                (Inl e, s2) \<Rightarrow> ((Some e, token), s2)
              | (Inr _, s2) \<Rightarrow> ((None, token), s2)))"

definition with_session :: "('s, 'z) auth_env_scheme \<Rightarrow> auth_config \<Rightarrow> user \<Rightarrow> ('s, user \<times> string) io" where
  "with_session R cfg u s =
     (case create_session R cfg (us_id u) s of
        ((Some e, _), s1) \<Rightarrow> (Inl e, s1)
      | ((None, token), s1) \<Rightarrow> (Inr (u, token), s1))"

definition current_user :: "('s, 'z) auth_env_scheme \<Rightarrow> auth_config \<Rightarrow> string \<Rightarrow> ('s, user) io" where
  "current_user R cfg token s =
     (if token = [] then (Inl ErrUnauthorized, s)
      else case round_trip R (reading (r_get R (session_key R cfg token))) s of
        (Inr (Some b), s1) \<Rightarrow>
          (case au_by_id R (blob_text b) s1 of
             (Inl _, s2) \<Rightarrow> (Inl ErrUnauthorized, s2)
           | (Inr u, s2) \<Rightarrow> (Inr u, s2))
      | (_, s1) \<Rightarrow> (Inl ErrUnauthorized, s1))"

text \<open>A failed read of the session leaves its owner empty; the transaction is sent all the same.\<close>

definition logout :: "('s, 'z) auth_env_scheme \<Rightarrow> auth_config \<Rightarrow> string \<Rightarrow> ('s, unit) io" where
  "logout R cfg token s =
     (if token = [] then (Inr (), s)
      else
        (let key = session_key R cfg token;
             (r, s1) = round_trip R (reading (r_get R key)) s;
             user_id = (case r of Inr (Some b) \<Rightarrow> blob_text b | _ \<Rightarrow> [])
         in round_trip R (writing (\<lambda>s. let s2 = r_del R key s
              in if user_id \<noteq> [] then r_srem R (user_sessions_key user_id) key s2 else s2)) s1))"

definition revoke_all_sessions :: "('s, 'z) auth_env_scheme \<Rightarrow> string \<Rightarrow> ('s, unit) io" where
  "revoke_all_sessions R user_id s =
     (let set_key = user_sessions_key user_id
      in case round_trip R (reading (r_smembers R set_key)) s of
           (Inl e, s1) \<Rightarrow> (Inl e, s1)
         | (Inr keys, s1) \<Rightarrow> round_trip R (writing (\<lambda>s. r_del R set_key (fold (r_del R) keys s))) s1)"

section \<open>Registration, login and reset\<close>

definition start_registration ::
  "('s, 'z) auth_env_scheme \<Rightarrow> auth_config \<Rightarrow> string \<Rightarrow> string \<Rightarrow> string \<Rightarrow> string \<Rightarrow> ('s, unit) io" where
  "start_registration R cfg email0 password captcha answer s =
     (case normalize_email R email0 of
        None \<Rightarrow> (Inl invalid_email, s)
      | Some email \<Rightarrow>
          (case consume_captcha R cfg captcha answer s of
             (Inl e, s1) \<Rightarrow> (Inl e, s1)
           | (Inr _, s1) \<Rightarrow>
               (case au_count R email s1 of
                  (Inl e, s2) \<Rightarrow> (Inl e, s2)
                | (Inr n, s2) \<Rightarrow>
                    if 0 < n then (Inl ErrEmailInUse, s2)
                    else case hash_password R (au_argon R) password s2 of
                      (Inl e, s3) \<Rightarrow> (Inl e, s3)
                    | (Inr hash, s3) \<Rightarrow> create_pending R cfg ''register'' email hash s3)))"

definition resend_registration :: "('s, 'z) auth_env_scheme \<Rightarrow> auth_config \<Rightarrow> string \<Rightarrow> ('s, unit) io" where
  "resend_registration R cfg email0 s =
     (case normalize_email R email0 of
        None \<Rightarrow> (Inl invalid_email, s)
      | Some email \<Rightarrow>
          (case round_trip R (reading (r_get R (pending_key ''register'' email))) s of
             (Inr (Some (PendingDoc p)), s1) \<Rightarrow> create_pending R cfg ''register'' email (pv_password_hash p) s1
           | (_, s1) \<Rightarrow> (Inl ErrInvalidCode, s1)))"

definition verify_registration ::
  "('s, 'z) auth_env_scheme \<Rightarrow> auth_config \<Rightarrow> string \<Rightarrow> string \<Rightarrow> ('s, user \<times> string) io" where
  "verify_registration R cfg email0 typed s =
     (case normalize_email R email0 of
        None \<Rightarrow> (Inl invalid_email, s)
      | Some email \<Rightarrow>
          (case verify_pending R cfg ''register'' email typed s of
             (Inl e, s1) \<Rightarrow> (Inl e, s1)
           | (Inr p, s1) \<Rightarrow>
               (case random_hex R 16 s1 of
                  (Inl e, s2) \<Rightarrow> (Inl e, s2)
                | (Inr i, s2) \<Rightarrow>
                    (let (now, s3) = env_now R s2
                     in case au_create R (zero_user\<lparr>us_id := i, us_email := email, us_hash := pv_password_hash p,
                               us_verified := now\<rparr>) s3 of
                          (Inl e, s4) \<Rightarrow> (Inl (if e = ErrDuplicatedKey then ErrEmailInUse else e), s4)
                        | (Inr u, s4) \<Rightarrow>
                            with_session R cfg u (snd (round_trip R
                              (writing (r_del R (pending_key ''register'' email))) s4))))))"

definition login ::
  "('s, 'z) auth_env_scheme \<Rightarrow> auth_config \<Rightarrow> string \<Rightarrow> string \<Rightarrow> string \<Rightarrow> string \<Rightarrow> ('s, user \<times> string) io" where
  "login R cfg email0 password captcha answer s =
     (case normalize_email R email0 of
        None \<Rightarrow> (Inl ErrInvalidCredentials, s)
      | Some email \<Rightarrow>
          (case consume_captcha R cfg captcha answer s of
             (Inl e, s1) \<Rightarrow> (Inl e, s1)
           | (Inr _, s1) \<Rightarrow>
               (case au_by_email R email s1 of
                  (Inl _, s2) \<Rightarrow> (Inl ErrInvalidCredentials, s2)
                | (Inr u, s2) \<Rightarrow>
                    (case verify_password (au_argon R) (us_hash u) password of
                       None \<Rightarrow> (Inl ErrPanic, s2)
                     | Some False \<Rightarrow> (Inl ErrInvalidCredentials, s2)
                     | Some True \<Rightarrow> with_session R cfg u s2))))"

definition start_password_reset ::
  "('s, 'z) auth_env_scheme \<Rightarrow> auth_config \<Rightarrow> string \<Rightarrow> string \<Rightarrow> string \<Rightarrow> ('s, unit) io" where
  "start_password_reset R cfg email0 captcha answer s =
     (case normalize_email R email0 of
        None \<Rightarrow> (Inr (), s)
      | Some email \<Rightarrow>
          (case consume_captcha R cfg captcha answer s of
             (Inl e, s1) \<Rightarrow> (Inl e, s1)
           | (Inr _, s1) \<Rightarrow>
               (case au_by_email R email s1 of
                  (Inl _, s2) \<Rightarrow> (Inr (), s2)
                | (Inr _, s2) \<Rightarrow> create_pending R cfg ''reset'' email [] s2)))"

text \<open>\<open>Updates\<close> writes the assigned values into the row it was given as well.\<close>

definition reset_password ::
  "('s, 'z) auth_env_scheme \<Rightarrow> auth_config \<Rightarrow> string \<Rightarrow> string \<Rightarrow> string \<Rightarrow> ('s, user \<times> string) io" where
  "reset_password R cfg email0 typed password s =
     (case normalize_email R email0 of
        None \<Rightarrow> (Inl ErrInvalidCode, s)
      | Some email \<Rightarrow>
          (case verify_pending R cfg ''reset'' email typed s of
             (Inl e, s1) \<Rightarrow> (Inl e, s1)
           | (Inr _, s1) \<Rightarrow>
               (case hash_password R (au_argon R) password s1 of
                  (Inl e, s2) \<Rightarrow> (Inl e, s2)
                | (Inr hash, s2) \<Rightarrow>
                    (case au_by_email R email s2 of
                       (Inl _, s3) \<Rightarrow> (Inl ErrInvalidCode, s3)
                     | (Inr u, s3) \<Rightarrow>
                         (let (now, s4) = env_now R s3
                          in case au_set_hash R (us_id u) hash now s4 of
                               (Inl e, s5) \<Rightarrow> (Inl e, s5)
                             | (Inr _, s5) \<Rightarrow>
                                 (case revoke_all_sessions R (us_id u) s5 of
                                    (Inl e, s6) \<Rightarrow> (Inl e, s6)
                                  | (Inr _, s6) \<Rightarrow>
                                      with_session R cfg (u\<lparr>us_hash := hash, us_updated := now\<rparr>)
                                        (snd (round_trip R (writing (r_del R (pending_key ''reset'' email))) s6))))))))"

section \<open>The administrator\<close>

definition ensure_admin :: "('s, 'z) auth_env_scheme \<Rightarrow> string \<Rightarrow> string \<Rightarrow> ('s, user) io" where
  "ensure_admin R email0 password s =
     (case normalize_email R email0 of
        None \<Rightarrow> (Inl invalid_email, s)
      | Some email \<Rightarrow>
          (case hash_password R (au_argon R) password s of
             (Inl e, s1) \<Rightarrow> (Inl e, s1)
           | (Inr hash, s1) \<Rightarrow>
               (case random_hex R 16 s1 of
                  (Inl e, s2) \<Rightarrow> (Inl e, s2)
                | (Inr i, s2) \<Rightarrow>
                    (let (now, s3) = env_now R s2;
                         seed = \<lparr>us_id = i, us_email = email, us_hash = hash, us_admin = True, us_verified = now,
                                 us_created = now, us_updated = now\<rparr>
                     in au_transaction R (\<lambda>s4.
                          case au_upsert R seed s4 of
                            (Inl e, s5) \<Rightarrow> (Inl e, s5)
                          | (Inr _, s5) \<Rightarrow> au_by_email R email s5) s3))))"

end
