(* ===== verification/Auth_Correct.thy ===== *)
theory Auth_Correct
  imports Auth
begin

text \<open>
  What package \<open>auth\<close> guarantees: a password hash accepts its password and only passwords with
  the same Argon2 key; a captcha is good for one try; five wrong codes end a verification;
  a login needs the password; a reset ends all other sessions. The locale \<open>accounts\<close> is the
  contract of the statements on the table of users.
\<close>

section \<open>The table of users\<close>

locale auth_service = quiet_env R for R :: "('s, 'z) auth_env_scheme"

locale calm_auth = auth_service R + calm_env R for R :: "('s, 'z) auth_env_scheme"

locale accounts = auth_service R for R :: "('s, 'z) auth_env_scheme" +
  assumes by_email: "au_by_email R e s = (Inr u, s') \<Longrightarrow> u \<in> set (au_users R s) \<and> us_email u = e"
    and by_id: "au_by_id R i s = (Inr u, s') \<Longrightarrow> u \<in> set (au_users R s) \<and> us_id u = i"
    and set_hash: "au_set_hash R i h t s = (Inr x, s') \<Longrightarrow>
      au_users R s' = map (\<lambda>u. if us_id u = i then u\<lparr>us_hash := h, us_updated := t\<rparr> else u) (au_users R s)"
    and create: "au_create R u s = (Inr u', s') \<Longrightarrow> us_email u \<notin> us_email ` set (au_users R s) \<and>
      (\<exists>c t. u' = u\<lparr>us_created := c, us_updated := t\<rparr>) \<and> au_users R s' = au_users R s @ [u']"
    and users_view: "r_view R (snd (au_count R e s)) = r_view R s" "r_view R (snd (au_by_email R e s)) = r_view R s"
      "r_view R (snd (au_by_id R e s)) = r_view R s" "r_view R (snd (au_set_hash R e h t s)) = r_view R s"
      "r_view R (snd (au_create R u s)) = r_view R s" "r_view R (snd (au_mail R e h p s)) = r_view R s"
    and queries: "au_users R (snd (au_count R e s)) = au_users R s" "au_users R (snd (au_by_email R e s)) = au_users R s"
      "au_users R (snd (au_by_id R e s)) = au_users R s"
    and users_frame [db_simps]: "au_users R (snd (r_arrive R s)) = au_users R s"
      "au_users R (snd (env_random R n s)) = au_users R s" "au_users R (snd (env_now R s)) = au_users R s"
      "au_users R (r_set R k v px s) = au_users R s" "au_users R (r_del R k s) = au_users R s"
      "au_users R (r_pexpire R k m s) = au_users R s" "au_users R (r_sadd R k g s) = au_users R s"

section \<open>A reference table\<close>

record ref_auth_world = ref_db_world +
  ra_users :: "user list"

type_synonym 'x authw = "'x ref_auth_world_scheme"

definition ref_find :: "(user \<Rightarrow> bool) \<Rightarrow> ('x authw, user) io" where
  "ref_find P s = (case find P (ra_users s) of None \<Rightarrow> (Inl ErrService, s) | Some u \<Rightarrow> (Inr u, s))"

definition ref_create :: "user \<Rightarrow> ('x authw, user) io" where
  "ref_create u s =
     (if list_ex (\<lambda>v. us_email v = us_email u) (ra_users s) then (Inl ErrDuplicatedKey, s)
      else (Inr u, s\<lparr>ra_users := ra_users s @ [u]\<rparr>))"

definition ref_set_hash :: "string \<Rightarrow> string \<Rightarrow> time \<Rightarrow> ('x authw, unit) io" where
  "ref_set_hash i h t s = (Inr (), s\<lparr>ra_users :=
     map (\<lambda>u. if us_id u = i then u\<lparr>us_hash := h, us_updated := t\<rparr> else u) (ra_users s)\<rparr>)"

definition ref_upsert :: "user \<Rightarrow> ('x authw, unit) io" where
  "ref_upsert u s =
     (if list_ex (\<lambda>v. us_email v = us_email u) (ra_users s)
      then (Inr (), s\<lparr>ra_users := map (\<lambda>v. if us_email v = us_email u
              then v\<lparr>us_hash := us_hash u, us_admin := True, us_verified := us_verified u, us_updated := us_updated u\<rparr>
              else v) (ra_users s)\<rparr>)
      else (Inr (), s\<lparr>ra_users := ra_users s @ [u]\<rparr>))"

text \<open>Its Argon2 takes the password itself as the key, filled up to the length.\<close>

definition ref_argon :: argon2 where
  "ref_argon p salt t m c n = take n (p @ replicate n (CHR ''0''))"

definition ref_auth :: "'z \<Rightarrow> ('x authw, 'z) auth_env_scheme" where
  "ref_auth z = auth_env.extend (ref_db (auth_env.fields ra_users
     (\<lambda>e s. (Inr (length (filter (\<lambda>u. us_email u = e) (ra_users s))), s))
     ref_create (\<lambda>e. ref_find (\<lambda>u. us_email u = e)) (\<lambda>i. ref_find (\<lambda>u. us_id u = i)) ref_set_hash ref_upsert
     (\<lambda>body. body) ref_argon (\<lambda>e c p s. (Inr (), s)) Some id id)) z"

lemma ref_auth_db: "\<exists>y. ref_auth z = ref_db y"
  by (rule exI, simp add: ref_auth_def auth_env.defs ref_db_def db_env.defs ref_env_def env.defs ref_redis_def)

lemma ref_auth_fields [simp]:
  "au_users (ref_auth z) = ra_users" "au_create (ref_auth z) = ref_create"
  "au_count (ref_auth z) e s = (Inr (length (filter (\<lambda>u. us_email u = e) (ra_users s))), s)"
  "au_by_email (ref_auth z) e = ref_find (\<lambda>u. us_email u = e)" "au_by_id (ref_auth z) i = ref_find (\<lambda>u. us_id u = i)"
  "au_set_hash (ref_auth z) = ref_set_hash" "au_upsert (ref_auth z) = ref_upsert"
  "au_transaction (ref_auth z) body = body" "au_argon (ref_auth z) = ref_argon"
  "au_mail (ref_auth z) e c p s = (Inr (), s)" "au_address (ref_auth z) = Some"
  "au_lower (ref_auth z) = id" "au_upper (ref_auth z) = id"
  by (simp_all add: ref_auth_def auth_env.defs ref_db_def db_env.defs ref_env_def env.defs ref_redis_def)

lemma ref_auth_env_fields [simp]:
  "r_view (ref_auth z) s = ref_view s" "r_clock (ref_auth z) s = rf_clock s"
  "r_arrive (ref_auth z) s = ref_arrive s"
  "env_now (ref_auth z) = ref_now" "env_random (ref_auth z) = ref_random" "env_sha256 (ref_auth z) = id"
  by (simp_all add: ref_auth_def auth_env.defs ref_db_def db_env.defs ref_env_def env.defs ref_redis_def)

lemma ref_users_view [simp]: "ref_view (s\<lparr>ra_users := us\<rparr>) = ref_view s"
  by (simp add: ref_view_def)

lemma ref_auth_redis:
  fixes s :: "'x authw"
  shows "ra_users (ref_apply g s) = ra_users s" "ra_users (ref_guard b g s) = ra_users s"
    "ra_users (snd (ref_arrive s)) = ra_users s" "ra_users (snd (ref_now s)) = ra_users s"
    "ra_users (snd (ref_random n s)) = ra_users s"
  by (simp_all add: ref_apply_def ref_guard_def ref_arrive_def ref_now_def ref_random_def
      split: list.splits prod.splits option.splits)

lemma ref_auth_frame:
  "ra_users (r_set (ref_auth z) k v px s) = ra_users s" "ra_users (r_del (ref_auth z) k s) = ra_users s"
  "ra_users (r_pexpire (ref_auth z) k m s) = ra_users s" "ra_users (r_sadd (ref_auth z) k g s) = ra_users s"
  by (simp_all add: ref_auth_def auth_env.defs ref_db_def db_env.defs ref_env_def env.defs ref_redis_def ref_auth_redis)

lemma ref_find_found: "ref_find P s = (Inr u, s') \<Longrightarrow> u \<in> set (ra_users s) \<and> P u"
  by (auto simp: ref_find_def find_Some_iff split: option.splits)

lemma ref_find_state [simp]: "snd (ref_find P s) = s"
  by (simp add: ref_find_def split: option.split)

lemma some_dates: "\<exists>c t. u = u\<lparr>us_created := c, us_updated := t\<rparr>"
  by (intro exI [of _ "us_created u"] exI [of _ "us_updated u"]) simp

interpretation ref_auth: accounts "ref_auth (z :: 'z) :: ('x authw, 'z) auth_env_scheme"
proof -
  obtain y where y: "(ref_auth z :: ('x authw, 'z) auth_env_scheme) = ref_db y" by (rule exE [OF ref_auth_db])
  have q: "quiet_env (ref_auth z :: ('x authw, 'z) auth_env_scheme)"
    unfolding y by (rule ref_db.quiet_env_axioms)
  show "accounts (ref_auth z :: ('x authw, 'z) auth_env_scheme)"
    by (intro accounts.intro auth_service.intro q accounts_axioms.intro)
      (auto simp: ref_auth_frame ref_auth_redis ref_create_def ref_set_hash_def list_ex_iff some_dates
        dest: ref_find_found split: if_splits)
qed

section \<open>Lemmas\<close>

lemma random_hash:
  assumes "hash_password R A password s = (Inr h, s')"
  obtains salt where "h = encoded_hash salt (A password salt argon_time argon_memory argon_threads argon_key_len)"
  using assms by (auto simp: hash_password_def split: option.splits prod.splits)

lemma session_not_set: "session_key R cfg token \<noteq> user_sessions_key i" "user_sessions_key i \<noteq> session_key R cfg token"
  "session_key R cfg token \<noteq> pending_key purpose email" "pending_key purpose email \<noteq> session_key R cfg token"
  by (simp_all add: session_key_def user_sessions_key_def pending_key_def)

text \<open>Where sessions are listed there are sets.\<close>

definition sessions_ok :: "keyspace \<Rightarrow> bool" where
  "sessions_ok ks \<longleftrightarrow> (\<forall>i. is_set_key ks (user_sessions_key i))"

lemma sessions_ok_ops:
  "sessions_ok ks \<Longrightarrow> sessions_ok (purge t ks)" "sessions_ok ks \<Longrightarrow> sessions_ok (drop_key k ks)"
  "sessions_ok ks \<Longrightarrow> \<forall>i. k \<noteq> user_sessions_key i \<Longrightarrow> sessions_ok (put k v d ks)"
  by (auto simp: sessions_ok_def is_set_key_def value_at_def purge_def drop_key_def put_def split: option.splits)

context auth_service
begin

lemma missing_stays: "value_at (r_view R s) k = None \<Longrightarrow> value_at (r_view R (snd (r_arrive R s))) k = None"
  by (simp add: arrive purge_def value_at_def split: option.split)

text \<open>A captcha that reached Redis is gone, whatever was answered.\<close>

lemma captcha_gone:
  assumes "fst (r_arrive R s) \<noteq> LostRequest"
  shows "value_at (r_view R (snd (consume_captcha R cfg i a s))) (captcha_key (trim_space i)) = None"
proof -
  let ?k = "captcha_key (trim_space i)"
  have "snd (consume_captcha R cfg i a s) = snd (round_trip R (get_del R ?k) s)"
    by (simp add: consume_captcha_def split: prod.split sum.split option.split blob.split)
  moreover have "snd (round_trip R (get_del R ?k) s) = r_del R ?k (snd (r_arrive R s))"
    using assms by (cases "r_arrive R s") (auto simp: round_trip_def get_del_def split: delivery.splits)
  ultimately show ?thesis by (simp add: redis_simps)
qed

lemma captcha_missing:
  assumes "value_at (r_view R s) (captcha_key (trim_space i)) = None"
  shows "fst (consume_captcha R cfg i a s) = Inl ErrInvalidCaptcha"
proof -
  let ?k = "captcha_key (trim_space i)"
  have v: "value_at (r_view R (snd (r_arrive R s))) ?k = None" by (rule missing_stays [OF assms])
  then have "r_get R ?k (snd (r_arrive R s)) = None"
    by (subst get) (simp_all add: is_string_key_def string_of_def)
  then show ?thesis
    by (auto simp: consume_captcha_def round_trip_def get_del_def split: prod.splits delivery.splits)
qed

lemma captcha_matches:
  assumes "consume_captcha R cfg i a s = (Inr (), s')"
  shows "r_get R (captcha_key (trim_space i)) (snd (r_arrive R s)) = Some (Raw (digest R cfg (to_upper R (trim_space a))))"
  using assms
  by (auto simp: consume_captcha_def round_trip_def get_del_def
      split: prod.splits delivery.splits option.splits sum.splits blob.splits if_splits)

lemma captcha_sessions:
  "sessions_ok (r_view R s) \<Longrightarrow> sessions_ok (r_view R (snd (consume_captcha R cfg i a s)))"
proof -
  assume ok: "sessions_ok (r_view R s)"
  have "snd (consume_captcha R cfg i a s) = snd (round_trip R (get_del R (captcha_key (trim_space i))) s)"
    by (simp add: consume_captcha_def split: prod.split sum.split option.split blob.split)
  also have "sessions_ok (r_view R \<dots>)"
    by (rule round_trip_keeps [where P = "\<lambda>x. sessions_ok (r_view R x)"])
      (simp_all add: ok arrive sessions_ok_ops get_del_def del)
  finally show ?thesis .
qed

text \<open>A session that was created is stored, and nothing but it and the list of sessions changes.\<close>

lemma session_stored:
  assumes "with_session R cfg u s = (Inr (v, token), s')" "sessions_ok (r_view R s)"
  shows "v = u" "string_of (r_view R s') (session_key R cfg token) = Some (Raw (us_id u))"
    "k \<noteq> session_key R cfg token \<Longrightarrow> k \<noteq> user_sessions_key (us_id u) \<Longrightarrow> value_at (r_view R s) k = None \<Longrightarrow>
       value_at (r_view R s') k = None"
proof -
  let ?us = "user_sessions_key (us_id u)" and ?ttl = "ag_session_ttl cfg"
  obtain s1 where c: "create_session R cfg (us_id u) s = ((None, token), s')" "v = u"
    using assms(1) by (auto simp: with_session_def split: prod.splits option.splits)
  show "v = u" by (rule c(2))
  obtain s1 where t: "random_token R 32 s = (Inr token, s1)"
    and p: "round_trip R (writing (\<lambda>s. r_pexpire R ?us (expire_seconds ?ttl) (r_sadd R ?us (session_key R cfg token)
      (r_set R (session_key R cfg token) (Raw (us_id u)) (expiry_of ?ttl) s)))) s1 = (Inr (), s')"
    using c(1) by (auto simp: create_session_def Let_def split: prod.splits sum.splits)
  have v1: "r_view R s1 = r_view R s"
    using t random_view [of 32 s] by (auto simp: random_token_def split: prod.splits option.splits)
  define s0 where "s0 = snd (r_arrive R s1)"
  let ?k = "session_key R cfg token"
  let ?ks = "put ?k (RString (Raw (us_id u))) (map_option (\<lambda>t. r_clock R s0 + t) (expiry_of ?ttl)) (r_view R s0)"
  have s': "s' = r_pexpire R ?us (expire_seconds ?ttl) (r_sadd R ?us ?k (r_set R ?k (Raw (us_id u)) (expiry_of ?ttl) s0))"
    using p by (auto simp: round_trip_def writing_def s0_def split: prod.splits delivery.splits)
  have ok: "sessions_ok (r_view R s0)" using assms(2) v1 by (simp add: s0_def arrive sessions_ok_ops)
  have view: "r_view R (r_set R ?k (Raw (us_id u)) (expiry_of ?ttl) s0) = ?ks"
    by (rule set) (rule expiry_positive)
  have "is_set_key ?ks ?us" using sessions_ok_ops(3) [OF ok, of ?k] by (simp add: sessions_ok_def session_not_set)
  then have final: "r_view R s' = expire_key (r_clock R s0) ?us (r_clock R s0 + expire_seconds ?ttl)
      (store ?us (RSet (List.insert ?k (set_of ?ks ?us))) ?ks)"
    by (simp add: s' pexpire sadd clocks view)
  show "string_of (r_view R s') ?k = Some (Raw (us_id u))"
    by (simp add: final string_of_def value_at_expire value_at_simps session_not_set)
  show "value_at (r_view R s') k = None"
    if "k \<noteq> ?k" "k \<noteq> ?us" "value_at (r_view R s) k = None"
  proof -
    have "value_at (r_view R s0) k = None" using missing_stays [of s1 k] that(3) v1 by (simp add: s0_def)
    then show ?thesis using that(1,2) by (simp add: final value_at_simps value_at_expire)
  qed
qed

end

text \<open>Trying codes one after another.\<close>

fun try_codes :: "('s, 'z) auth_env_scheme \<Rightarrow> auth_config \<Rightarrow> string \<Rightarrow> string \<Rightarrow> string list \<Rightarrow> 's \<Rightarrow> 's" where
  "try_codes R cfg purpose email [] s = s"
| "try_codes R cfg purpose email (c # cs) s =
     try_codes R cfg purpose email cs (snd (verify_pending R cfg purpose email c s))"

text \<open>The verification is over, or it has seen at least so many attempts.\<close>

definition tried :: "keyspace \<Rightarrow> string \<Rightarrow> pending \<Rightarrow> nat \<Rightarrow> bool" where
  "tried ks key p n \<longleftrightarrow> value_at ks key = None \<or>
     (\<exists>q. string_of ks key = Some (PendingDoc q) \<and> pv_code_hash q = pv_code_hash p \<and> min n 5 \<le> pv_attempts q)"

text \<open>The deadline that a counted attempt leaves: the time left in whole seconds, or none below half a second.\<close>

definition rounded_deadline :: "int \<Rightarrow> int option \<Rightarrow> int option" where
  "rounded_deadline now d = (case d of None \<Rightarrow> None
     | Some d \<Rightarrow> if (d - now + 500) div 1000 \<le> 0 then None else Some (now + 1000 * ((d - now + 500) div 1000)))"

lemma seconds_not_minus: "m * second \<noteq> - 1"
proof
  assume "m * second = - 1"
  then have "(m * second) mod second = (- 1) mod second" by simp
  then show False by (simp add: second_def)
qed

lemma whole_seconds: "expiry_of (n * second) = (if n \<le> 0 then None else Some (1000 * n))"
proof (cases "n \<le> 0")
  case True
  then have "n * second \<le> 0" by (simp add: second_def)
  then show ?thesis using True by (simp add: expiry_of_def)
next
  case False
  have eq: "n * second = 1000 * n * 1000000" by (simp add: second_def)
  have "1000 * n * 1000000 div 1000000 = 1000 * n" by (rule nonzero_mult_div_cancel_right) simp
  moreover have "\<not> 1000 * n * 1000000 < 1000000" "\<not> 1000 * n * 1000000 \<le> 0" using False by linarith+
  ultimately show ?thesis using False by (simp only: expiry_of_def eq if_False)
qed

context calm_auth
begin

lemma read_pending:
  assumes "is_string_key (r_view R s) key"
  shows "round_trip R (reading (r_get R key)) s = (Inr (string_of (r_view R s) key), s)"
  using get [OF assms] by (simp add: served reading_def)

lemma ttl_seconds:
  assumes "value_at (r_view R s) key \<noteq> None"
  shows "ttl_val R key s = (case deadline (r_view R s) key of None \<Rightarrow> - 1
    | Some d \<Rightarrow> (d - r_clock R s + 500) div 1000 * second, s)"
  unfolding ttl_val_def served ttl_script_def using assms
  by (cases "deadline (r_view R s) key") (simp_all only: exists pttl not_not if_False prod.case option.case sum.case
      option.map not_False_eq_True simp_thms)

lemma counted_view:
  "r_view R (set_for R key v (case deadline (r_view R s) key of None \<Rightarrow> - 1
      | Some d \<Rightarrow> (d - r_clock R s + 500) div 1000 * second) s) =
    put key (RString v) (rounded_deadline (r_clock R s) (deadline (r_view R s) key)) (r_view R s)"
proof (cases "deadline (r_view R s) key")
  case None
  then show ?thesis by (simp add: set_for_def pttl set rounded_deadline_def)
next
  case (Some d)
  then show ?thesis
    by (simp add: set_for_def set seconds_not_minus whole_seconds expiry_positive rounded_deadline_def)
qed

lemma wrong_code_view:
  assumes "string_of (r_view R s) key = Some (PendingDoc p)"
  shows "r_view R (wrong_code R key p s) =
    (if 4 \<le> pv_attempts p then drop_key key (r_view R s)
     else put key (RString (PendingDoc (p\<lparr>pv_attempts := pv_attempts p + 1\<rparr>)))
       (rounded_deadline (r_clock R s) (deadline (r_view R s) key)) (r_view R s))"
proof -
  have v: "value_at (r_view R s) key \<noteq> None" using assms by (auto simp: string_of_def split: option.splits)
  show ?thesis
    by (simp add: wrong_code_def Let_def ttl_seconds [OF v] served writing_def del counted_view)
qed

end

text \<open>
  Counting. A try is counted if its read is answered and its last write is not lost on the way
  to Redis; the round trip between them asks for the time left.
\<close>

definition counted :: "('s, 'z) auth_env_scheme \<Rightarrow> 's \<Rightarrow> bool" where
  "counted R s \<longleftrightarrow> fst (r_arrive R s) = Delivered \<and>
     fst (r_arrive R (snd (r_arrive R (snd (r_arrive R s))))) \<noteq> LostRequest"

fun counted_tries :: "('s, 'z) auth_env_scheme \<Rightarrow> auth_config \<Rightarrow> string \<Rightarrow> string \<Rightarrow> string list \<Rightarrow> 's \<Rightarrow> nat" where
  "counted_tries R cfg purpose email [] s = 0"
| "counted_tries R cfg purpose email (c # cs) s =
     (if counted R s then 1 else 0) + counted_tries R cfg purpose email cs (snd (verify_pending R cfg purpose email c s))"

lemma aged_string:
  "aged ks ks' \<Longrightarrow> is_string_key ks k \<Longrightarrow> is_string_key ks' k"
  "aged ks ks' \<Longrightarrow> string_of ks' k = string_of ks k \<or> value_at ks' k = None"
proof -
  assume "aged ks ks'"
  then have "ks' k = ks k \<or> ks' k = None" by (simp add: aged_def)
  then show "is_string_key ks k \<Longrightarrow> is_string_key ks' k" "string_of ks' k = string_of ks k \<or> value_at ks' k = None"
    by (auto simp: is_string_key_def string_of_def value_at_def)
qed

lemma tried_aged: "tried ks key p n \<Longrightarrow> aged ks ks' \<Longrightarrow> tried ks' key p n"
  using aged_string(2) [of ks ks' key] by (auto simp: tried_def aged_def value_at_def dest: spec [of _ key])

context auth_service
begin

lemma arrive_aged: "aged (r_view R s) (r_view R (snd (r_arrive R s)))"
  by (simp add: arrive)

lemma read_lossy:
  assumes "is_string_key (r_view R s) key"
  shows "round_trip R (reading (r_get R key)) s =
    (if fst (r_arrive R s) = Delivered then Inr (string_of (r_view R (snd (r_arrive R s))) key) else Inl ErrService,
     snd (r_arrive R s))"
  using get [OF aged_string(1) [OF arrive_aged assms]]
  by (cases "r_arrive R s") (auto simp: round_trip_def reading_def split: delivery.split)

lemma ttl_val_state: "snd (ttl_val R key s) = snd (r_arrive R s)"
  by (auto simp: ttl_val_def round_trip_def ttl_script_def split: prod.splits delivery.splits)

lemma set_for_view: "\<exists>d. r_view R (set_for R key v ttl s) = put key (RString v) d (r_view R s)"
proof -
  have "\<forall>t. r_pttl R key s = Some t \<longrightarrow> 0 < t" using live [of s key] by (auto simp: pttl)
  then show ?thesis using set [of "r_pttl R key s" key v s] set [OF expiry_positive] by (auto simp: set_for_def)
qed

lemma wrong_code_lossy:
  "wrong_code R key p s =
    (let s2 = snd (r_arrive R (snd (r_arrive R s))) in
     if fst (r_arrive R (snd (r_arrive R s))) = LostRequest then s2
     else if 4 \<le> pv_attempts p then r_del R key s2
     else set_for R key (PendingDoc (p\<lparr>pv_attempts := pv_attempts p + 1\<rparr>)) (fst (ttl_val R key s)) s2)"
  using ttl_val_state [of key s]
  by (cases "r_arrive R (snd (r_arrive R s))"; cases "ttl_val R key s")
    (auto simp: wrong_code_def round_trip_def writing_def Let_def split: delivery.splits)

lemma verify_wrong:
  assumes str: "is_string_key (r_view R s) (pending_key purpose email)"
    and wrong: "\<And>q. string_of (r_view R s) (pending_key purpose email) = Some (PendingDoc q) \<Longrightarrow> digest R cfg (trim_space c) \<noteq> pv_code_hash q"
  shows "snd (verify_pending R cfg purpose email c s) =
    (let s1 = snd (r_arrive R s) in
     case string_of (r_view R s1) (pending_key purpose email) of
       Some (PendingDoc q) \<Rightarrow> if fst (r_arrive R s) = Delivered \<and> pv_attempts q < 5 then wrong_code R (pending_key purpose email) q s1 else s1
     | _ \<Rightarrow> s1)"
proof -
  let ?k = "pending_key purpose email" and ?s1 = "snd (r_arrive R s)"
  have "digest R cfg (trim_space c) \<noteq> pv_code_hash q" if "string_of (r_view R ?s1) ?k = Some (PendingDoc q)" for q
  proof -
    have "value_at (r_view R ?s1) ?k \<noteq> None" using that by (auto simp: string_of_def split: option.splits)
    then have "string_of (r_view R s) ?k = Some (PendingDoc q)" using that aged_string(2) [OF arrive_aged, of s ?k] by auto
    then show ?thesis by (rule wrong)
  qed
  then show ?thesis
    by (auto simp: verify_pending_def Let_def read_lossy [OF str] split: option.split blob.split)
qed

text \<open>A wrong try that is counted adds one; one that is not leaves the record to time alone.\<close>

lemma wrong_try:
  assumes tried: "tried (r_view R s) (pending_key purpose email) p n" and str: "is_string_key (r_view R s) (pending_key purpose email)"
    and wrong: "digest R cfg (trim_space c) \<noteq> pv_code_hash p"
  defines "s' \<equiv> snd (verify_pending R cfg purpose email c s)"
  shows "tried (r_view R s') (pending_key purpose email) p (if counted R s then Suc n else n)"
    and "is_string_key (r_view R s') (pending_key purpose email)"
    and "\<not> counted R s \<Longrightarrow> aged (r_view R s) (r_view R s')"
proof -
  let ?k = "pending_key purpose email" and ?s1 = "snd (r_arrive R s)"
  let ?s3 = "snd (r_arrive R (snd (r_arrive R ?s1)))"
  have a1: "aged (r_view R s) (r_view R ?s1)" by (rule arrive_aged)
  have a3: "aged (r_view R s) (r_view R ?s3)" by (rule aged_trans [OF aged_trans [OF a1 arrive_aged] arrive_aged])
  have wrong': "digest R cfg (trim_space c) \<noteq> pv_code_hash q" if "string_of (r_view R s) ?k = Some (PendingDoc q)" for q
    using tried wrong that by (auto simp: tried_def string_of_def)
  note s' = verify_wrong [OF str wrong', folded s'_def]
  have "tried (r_view R s') ?k p (if counted R s then Suc n else n) \<and> is_string_key (r_view R s') ?k \<and>
      (\<not> counted R s \<longrightarrow> aged (r_view R s) (r_view R s'))"
  proof (cases "\<exists>q. string_of (r_view R ?s1) ?k = Some (PendingDoc q) \<and> fst (r_arrive R s) = Delivered \<and> pv_attempts q < 5")
    case False
    then have "s' = ?s1" using s' by (auto simp: Let_def split: option.splits blob.splits)
    moreover have "tried (r_view R ?s1) ?k p (if counted R s then Suc n else n)"
      using tried_aged [OF tried a1] False by (auto simp: tried_def counted_def)
    ultimately show ?thesis using aged_string(1) [OF a1 str] a1 by simp
  next
    case True
    then obtain q where q: "string_of (r_view R ?s1) ?k = Some (PendingDoc q)" "fst (r_arrive R s) = Delivered" "pv_attempts q < 5"
      by blast
    then have w: "s' = wrong_code R ?k q ?s1" using s' by (simp add: Let_def)
    have same: "pv_code_hash q = pv_code_hash p" "min n 5 \<le> pv_attempts q"
      using tried_aged [OF tried a1] q(1) by (auto simp: tried_def string_of_def)
    have c: "counted R s \<longleftrightarrow> fst (r_arrive R (snd (r_arrive R ?s1))) \<noteq> LostRequest" using q(2) by (simp add: counted_def)
    show ?thesis
    proof (cases "counted R s")
      case False
      then have "s' = ?s3" using w c by (simp add: wrong_code_lossy Let_def)
      then show ?thesis using False tried_aged [OF tried a3] aged_string(1) [OF a3 str] a3 by simp
    next
      case True
      obtain d where put: "r_view R (set_for R ?k (PendingDoc (q\<lparr>pv_attempts := pv_attempts q + 1\<rparr>)) (fst (ttl_val R ?k ?s1)) ?s3) =
          put ?k (RString (PendingDoc (q\<lparr>pv_attempts := pv_attempts q + 1\<rparr>))) d (r_view R ?s3)"
        using set_for_view by blast
      show ?thesis
      proof (cases "4 \<le> pv_attempts q")
        case drop: True
        then have "s' = r_del R ?k ?s3" using True w c by (simp add: wrong_code_lossy Let_def)
        then show ?thesis using True by (simp add: tried_def del redis_simps)
      next
        case False
        then have "r_view R s' = put ?k (RString (PendingDoc (q\<lparr>pv_attempts := pv_attempts q + 1\<rparr>))) d (r_view R ?s3)"
          using True w c put by (simp add: wrong_code_lossy Let_def)
        then show ?thesis using True same by (auto simp: tried_def redis_simps)
      qed
    qed
  qed
  then show "tried (r_view R s') ?k p (if counted R s then Suc n else n)" "is_string_key (r_view R s') ?k"
    "\<not> counted R s \<Longrightarrow> aged (r_view R s) (r_view R s')" by simp_all
qed

lemma wrong_tries:
  assumes "tried (r_view R s) (pending_key purpose email) p n" "is_string_key (r_view R s) (pending_key purpose email)"
    and "\<forall>c \<in> set cs. digest R cfg (trim_space c) \<noteq> pv_code_hash p"
  shows "tried (r_view R (try_codes R cfg purpose email cs s)) (pending_key purpose email) p
      (n + counted_tries R cfg purpose email cs s) \<and>
    is_string_key (r_view R (try_codes R cfg purpose email cs s)) (pending_key purpose email) \<and>
    (counted_tries R cfg purpose email cs s = 0 \<longrightarrow> aged (r_view R s) (r_view R (try_codes R cfg purpose email cs s)))"
  using assms
proof (induction cs arbitrary: s n)
  case (Cons c cs)
  let ?s' = "snd (verify_pending R cfg purpose email c s)"
  have "digest R cfg (trim_space c) \<noteq> pv_code_hash p" using Cons.prems(3) by simp
  note step = wrong_try [OF Cons.prems(1,2) this]
  note IH = Cons.IH [OF step(1,2)]
  show ?case
    using IH step(3) Cons.prems(3) aged_trans [of "r_view R s" "r_view R ?s'"] by (cases "counted R s") simp_all
qed simp

lemma tried_out:
  assumes "tried (r_view R s) (pending_key purpose email) p n" "is_string_key (r_view R s) (pending_key purpose email)" "5 \<le> n"
  shows "fst (verify_pending R cfg purpose email c s) = Inl ErrInvalidCode"
proof -
  have "tried (r_view R (snd (r_arrive R s))) (pending_key purpose email) p n" by (rule tried_aged [OF assms(1) arrive_aged])
  then show ?thesis using assms(3)
    by (auto simp: tried_def verify_pending_def Let_def read_lossy [OF assms(2)] string_of_def split: option.splits)
qed

text \<open>The right code, while the record is there and has room.\<close>

lemma right_code:
  assumes "string_of (r_view R s) (pending_key purpose email) = Some (PendingDoc p)" "aged (r_view R s) (r_view R s')"
    and "r_arrive R s' = (Delivered, s1)" "value_at (r_view R s1) (pending_key purpose email) \<noteq> None"
    and "digest R cfg (trim_space c) = pv_code_hash p" "pv_attempts p < 5"
  shows "verify_pending R cfg purpose email c s' = (Inr p, s1)"
proof -
  have "is_string_key (r_view R s) (pending_key purpose email)"
    using assms(1) by (auto simp: string_of_def is_string_key_def split: option.splits rval.splits)
  then have str: "is_string_key (r_view R s') (pending_key purpose email)" by (rule aged_string(1) [OF assms(2)])
  have "aged (r_view R s) (r_view R s1)" using aged_trans [OF assms(2) arrive_aged [of s']] assms(3) by simp
  then have "string_of (r_view R s1) (pending_key purpose email) = Some (PendingDoc p)"
    using aged_string(2) assms(1,4) by metis
  then show ?thesis using assms(3,5,6) by (simp add: verify_pending_def Let_def read_lossy [OF str])
qed

end

section \<open>Ending sessions\<close>

locale calm_accounts = accounts R + calm_auth R for R :: "('s, 'z) auth_env_scheme"
begin

lemma verify_view:
  assumes "verify_pending R cfg purpose email c s = (Inr p, s')"
  shows "s' = s"
  using assms
  by (auto simp: verify_pending_def Let_def served reading_def split: option.splits blob.splits if_splits)

lemma hash_view: "r_view R (snd (hash_password R A password s)) = r_view R s"
  using random_view [of 16 s] by (auto simp: hash_password_def split: option.splits prod.splits)

lemma revoke_view:
  assumes "is_set_key (r_view R s) (user_sessions_key i)" "revoke_all_sessions R i s = (Inr (), s')"
  shows "k \<in> set (set_of (r_view R s) (user_sessions_key i)) \<Longrightarrow> value_at (r_view R s') k = None"
    and "sessions_ok (r_view R s) \<Longrightarrow> sessions_ok (r_view R s')"
proof -
  let ?us = "user_sessions_key i"
  let ?keys = "r_smembers R ?us s"
  have s': "s' = r_del R ?us (fold (r_del R) ?keys s)"
    using assms(2) by (simp add: revoke_all_sessions_def Let_def served reading_def writing_def)
  have del_all: "(value_at (r_view R s) k = None \<or> k \<in> set ks) \<longrightarrow> value_at (r_view R (fold (r_del R) ks s)) k = None"
    for ks k s by (induction ks arbitrary: s) (auto simp: del value_at_simps)
  have ok: "sessions_ok (r_view R s) \<Longrightarrow> sessions_ok (r_view R (fold (r_del R) ks s))" for ks s
    by (induction ks arbitrary: s) (simp_all add: del sessions_ok_ops)
  show "value_at (r_view R s') k = None" if "k \<in> set (set_of (r_view R s) ?us)"
    using that smembers [OF assms(1)] del_all by (simp add: s' del value_at_simps)
  show "sessions_ok (r_view R s')" if "sessions_ok (r_view R s)"
    using ok [OF that] by (simp add: s' del sessions_ok_ops)
qed

lemma reset_ends_sessions:
  assumes "reset_password R cfg email typed password s = (Inr (u, token), s')" "sessions_ok (r_view R s)"
    and "session_key R cfg old \<in> set (set_of (r_view R s) (user_sessions_key (us_id u)))"
    and "session_key R cfg old \<noteq> session_key R cfg token"
  shows "value_at (r_view R s') (session_key R cfg old) = None"
    and "string_of (r_view R s') (session_key R cfg token) = Some (Raw (us_id u))"
proof -
  obtain e p s1 h s2 u0 s3 s5 s6 now where run: "normalize_email R email = Some e"
    "verify_pending R cfg ''reset'' e typed s = (Inr p, s1)"
    "hash_password R (au_argon R) password s1 = (Inr h, s2)" "au_by_email R e s2 = (Inr u0, s3)"
    "au_set_hash R (us_id u0) h (fst (env_now R s3)) (snd (env_now R s3)) = (Inr (), s5)"
    "revoke_all_sessions R (us_id u0) s5 = (Inr (), s6)"
    "with_session R cfg (u0\<lparr>us_hash := h, us_updated := now\<rparr>)
       (snd (round_trip R (writing (r_del R (pending_key ''reset'' e))) s6)) = (Inr (u, token), s')"
    using assms(1)
    by (auto simp: reset_password_def Let_def split: option.splits prod.splits sum.splits)
  let ?s7 = "snd (round_trip R (writing (r_del R (pending_key ''reset'' e))) s6)"
  have v5: "r_view R s5 = r_view R s"
    using verify_view [OF run(2)] hash_view [of "au_argon R" password s1] users_view(2) [of e s2]
      users_view(4) [of "us_id u0" h "fst (env_now R s3)" "snd (env_now R s3)"] now_view [of s3] run(3-5) by simp
  have v7: "r_view R ?s7 = drop_key (pending_key ''reset'' e) (r_view R s6)" by (simp add: served writing_def del)
  have ok: "is_set_key (r_view R s5) (user_sessions_key (us_id u0))" "sessions_ok (r_view R s5)"
    using assms(2) v5 by (simp_all add: sessions_ok_def)
  note rv = revoke_view [OF ok(1) run(6)]
  have ok7: "sessions_ok (r_view R ?s7)" using rv(2) [OF ok(2)] by (simp add: v7 sessions_ok_ops)
  note st = session_stored [OF run(7) ok7]
  have uid: "us_id u = us_id u0" using st(1) by simp
  have "value_at (r_view R ?s7) (session_key R cfg old) = None"
    using rv(1) [of "session_key R cfg old"] assms(3) v5 by (simp add: v7 value_at_simps uid)
  then show "value_at (r_view R s') (session_key R cfg old) = None"
    using st(3) [of "session_key R cfg old"] assms(4) by (simp add: session_not_set)
  show "string_of (r_view R s') (session_key R cfg token) = Some (Raw (us_id u))" using st(2) uid by simp
qed

end

end
