(* ===== verification/Auth_Secure.thy ===== *)
theory Auth_Secure
  imports Auth_Correct
begin

text \<open>
  The properties of package \<open>auth\<close>, over every environment that meets the contracts of
  \<open>Auth_Correct\<close>, each applied to a concrete run on the reference environment.
\<close>

context accounts
begin

lemma captcha_users: "au_users R (snd (consume_captcha R cfg i a s)) = au_users R s"
proof -
  have "snd (consume_captcha R cfg i a s) = snd (round_trip R (get_del R (captcha_key (trim_space i))) s)"
    by (simp add: consume_captcha_def split: prod.split sum.split option.split blob.split)
  also have "au_users R \<dots> = au_users R s"
    by (rule round_trip_keeps [where P = "\<lambda>x. au_users R x = au_users R s"]) (simp_all add: users_frame get_del_def)
  finally show ?thesis .
qed

end

section \<open>A calm reference environment\<close>

definition auth_ref :: "(ref_auth_world, unit) auth_env_scheme" where
  "auth_ref = (ref_auth ())\<lparr>r_arrive := Pair Delivered\<rparr>"

lemma auth_ref_fields [simp]:
  "r_view auth_ref = ref_view" "r_clock auth_ref = rf_clock" "r_arrive auth_ref s = (Delivered, s)"
  "env_now auth_ref = ref_now" "env_random auth_ref = ref_random" "env_sha256 auth_ref = id"
  "au_users auth_ref = ra_users" "au_create auth_ref = ref_create"
  "au_by_email auth_ref e = ref_find (\<lambda>u. us_email u = e)" "au_by_id auth_ref i = ref_find (\<lambda>u. us_id u = i)"
  "au_set_hash auth_ref = ref_set_hash" "au_argon auth_ref = ref_argon" "au_mail auth_ref e c p s = (Inr (), s)"
  "au_address auth_ref = Some" "au_lower auth_ref = id" "au_upper auth_ref = id"
  by (auto simp: auth_ref_def fun_eq_iff)

lemma calm_frame:
  "ra_users (r_set auth_ref k v px s) = ra_users s" "ra_users (r_del auth_ref k s) = ra_users s"
  "ra_users (r_pexpire auth_ref k m s) = ra_users s" "ra_users (r_sadd auth_ref k g s) = ra_users s"
  "au_count auth_ref e s = (Inr (length (filter (\<lambda>u. us_email u = e) (ra_users s))), s)"
  by (simp_all add: auth_ref_def ref_auth_frame)

interpretation auth_ref: calm_accounts auth_ref
proof -
  let ?R = "ref_auth () :: (ref_auth_world, unit) auth_env_scheme"
  have ref: "accounts ?R" "go_env ?R" "redis_service ?R"
    by (rule ref_auth.accounts_axioms ref_auth.go_env_axioms ref_auth.redis_service_axioms)+
  have rs: "redis_service auth_ref" using ref(3) by (simp add: auth_ref_def redis_service_arrive)
  have ge: "go_env auth_ref"
    using ref(2) rs by (simp add: auth_ref_def go_env_def go_env_axioms_def)
  have purge: "purge (r_clock auth_ref s) (r_view auth_ref s) = r_view auth_ref s" for s
    using redis_service.live [OF rs, of s] by (intro purge_alive) (auto simp: alive_def)
  have "quiet_redis auth_ref"
    by (intro quiet_redis.intro rs quiet_redis_axioms.intro) (simp_all add: purge del: auth_ref_fields(1,2))
  then have qe: "quiet_env auth_ref" using ge by (rule quiet_env.intro [rotated])
  have ce: "calm_env auth_ref" by (intro calm_env.intro qe calm_env_axioms.intro) simp
  have ac: "accounts auth_ref"
    by (intro accounts.intro auth_service.intro qe accounts_axioms.intro)
      (auto simp: calm_frame ref_create_def ref_set_hash_def list_ex_iff some_dates
        ref_auth_redis dest: ref_find_found split: if_splits)
  show "calm_accounts auth_ref"
    by (intro calm_accounts.intro ac calm_auth.intro auth_service.intro qe ce)
qed

definition auth_start :: "keyspace \<Rightarrow> user list \<Rightarrow> ref_auth_world" where
  "auth_start ks us = ref_db_world.extend ((db_start 0)\<lparr>rf_keys := ks\<rparr>) (ref_auth_world.fields us)"

lemma auth_start_simps [simp]:
  "rf_keys (auth_start ks us) = ks" "rf_clock (auth_start ks us) = 0" "ra_users (auth_start ks us) = us"
  "rw_random (auth_start ks us) = replicate 512 (CHR ''7'')" "rw_now (auth_start ks us) = 0"
  "ref_view (auth_start ks us) = purge 0 ks"
  by (simp_all add: auth_start_def ref_view_def db_start_def ref_start_def ref_world.defs ref_db_world.defs
      ref_auth_world.defs)

definition demo_auth :: auth_config where
  "demo_auth = \<lparr>ag_pepper = ''pepper'', ag_session_ttl = day_length, ag_captcha_ttl = minutes 5,
     ag_code_ttl = minutes 10, ag_resend = minutes 1\<rparr>"

definition demo_pending :: "string \<Rightarrow> pending" where
  "demo_pending answer = \<lparr>pv_email = ''a'', pv_password_hash = [], pv_code_hash = digest auth_ref demo_auth answer,
     pv_attempts = 0\<rparr>"

definition pending_start :: "string \<Rightarrow> string \<Rightarrow> int option \<Rightarrow> user list \<Rightarrow> ref_auth_world" where
  "pending_start purpose answer d =
     auth_start (put (pending_key purpose ''a'') (RString (PendingDoc (demo_pending answer))) d Map.empty)"

section \<open>Passwords\<close>

text \<open>
  C26. A password that was hashed is accepted, and another one exactly when Argon2 gives it the
  same key under the same salt: what \<open>hashPassword\<close> writes, \<open>verifyPassword\<close> reads back. The
  hypothesis on Argon2 is that its key has the length asked for.
\<close>

theorem password_roundtrip:
  assumes "\<And>p salt. length (A p salt argon_time argon_memory argon_threads argon_key_len) = argon_key_len"
    and "fst (env_random R 16 s) = Some salt"
    and "hash_password R A password s = (Inr h, s')"
  shows "verify_password A h other =
    Some (A other salt argon_time argon_memory argon_threads argon_key_len =
          A password salt argon_time argon_memory argon_threads argon_key_len)"
proof -
  let ?key = "A password salt argon_time argon_memory argon_threads argon_key_len"
  have h: "h = encoded_hash salt ?key"
    using assms(2,3) by (auto simp: hash_password_def split: option.splits prod.splits)
  have "length ?key = 32" using assms(1) by (simp add: argon_key_len_def)
  then have "?key \<noteq> []" by fastforce
  then show ?thesis using verify_encoded [of ?key A salt other] assms(1) by (simp add: h)
qed

theorem password_roundtrip_witness:
  "\<exists>h s'. hash_password auth_ref ref_argon ''password'' (auth_start Map.empty []) = (Inr h, s') \<and>
     verify_password ref_argon h ''password'' = Some True \<and> verify_password ref_argon h ''passw0rd'' = Some False"
proof -
  have l: "length (ref_argon p salt argon_time argon_memory argon_threads argon_key_len) = argon_key_len" for p salt
    by (simp add: ref_argon_def)
  have r: "fst (env_random auth_ref 16 (auth_start Map.empty [])) = Some (replicate 16 (CHR ''7''))"
    by (simp add: ref_random_def)
  have "\<exists>h s'. hash_password auth_ref ref_argon ''password'' (auth_start Map.empty []) = (Inr h, s')"
    by (simp add: hash_password_def validate_password_def ref_random_def)
  then obtain h s' where h: "hash_password auth_ref ref_argon ''password'' (auth_start Map.empty []) = (Inr h, s')"
    by blast
  show ?thesis
    using h password_roundtrip [of ref_argon auth_ref "auth_start Map.empty []", OF l r h, of "''password''"]
      password_roundtrip [of ref_argon auth_ref "auth_start Map.empty []", OF l r h, of "''passw0rd''"]
    by (auto simp: ref_argon_def argon_key_len_def)
qed

section \<open>Captchas\<close>

text \<open>
  C27. A captcha is good for one try: once a try reached Redis, right or wrong and whether or not
  its answer came back, every further try fails.
\<close>

theorem captcha_single_use:
  assumes "auth_service R" "fst (r_arrive R s) \<noteq> LostRequest"
    and "consume_captcha R cfg i answer s = (r, s1)"
  shows "fst (consume_captcha R cfg i answer' s1) = Inl ErrInvalidCaptcha"
  using auth_service.captcha_missing [OF assms(1) auth_service.captcha_gone [OF assms(1,2), of cfg i answer]] assms(3)
  by simp

lemma letters:
  "printable ''A''" "printable ''a''" "printable ''c''" "code (CHR ''A'') = 65" "code (CHR ''a'') = 97"
  by (simp_all add: code_def)

lemma letter_chars: "chr 65 = CHR ''A''" "chr 97 = CHR ''a''"
  by (simp_all flip: code_inject) (simp_all add: code_def)

lemma letter_cases: "to_upper auth_ref ''A'' = ''A''" "to_lower auth_ref ''a'' = ''a''"
  unfolding to_upper_def to_lower_def runes_def segs_printable [OF letters(1)] segs_printable [OF letters(2)]
  by (simp_all add: upper_rune_def lower_rune_def utf8_def utf8_char_def letters letter_chars)

lemma trim_letters: "trim_space ''A'' = ''A''" "trim_space ''a'' = ''a''" "trim_space ''c'' = ''c''"
  by (simp_all only: trim_printable letters)

lemma demo_email: "normalize_email auth_ref ''a'' = Some ''a''"
  by (simp add: normalize_email_def Let_def trim_letters letter_cases del: segs.simps)

definition captcha_start :: ref_auth_world where
  "captcha_start = auth_start (put (captcha_key ''c'') (RString (Raw (digest auth_ref demo_auth ''A''))) (Some 5) Map.empty) []"

lemma captcha_answered: "fst (consume_captcha auth_ref demo_auth ''c'' ''A'' captcha_start) = Inr ()"
proof -
  have "r_get auth_ref (captcha_key ''c'') captcha_start = Some (Raw (digest auth_ref demo_auth ''A''))"
    by (subst auth_ref.get) (simp_all add: captcha_start_def is_string_key_def string_of_def value_at_def purge_def put_def)
  then show ?thesis by (simp add: consume_captcha_def auth_ref.served get_del_def trim_letters letter_cases)
qed

theorem captcha_single_use_witness:
  "\<exists>s1. consume_captcha auth_ref demo_auth ''c'' ''A'' captcha_start = (Inr (), s1) \<and>
     fst (consume_captcha auth_ref demo_auth ''c'' ''A'' s1) = Inl ErrInvalidCaptcha"
proof -
  obtain s1 where "consume_captcha auth_ref demo_auth ''c'' ''A'' captcha_start = (Inr (), s1)"
    using captcha_answered by (metis prod.collapse)
  then show ?thesis using captcha_single_use [OF auth_ref.auth_service_axioms] by simp
qed

section \<open>Verification codes\<close>

text \<open>
  C28. Guessing is bounded by what is counted. Codes are tried one after another on a server
  that loses requests and replies. A try is counted if its read was answered and its last write
  reached Redis: after five counted tries of wrong codes no code is accepted any more, the right
  one included, whatever attempts were counted before. But the service ignores the error of
  that write: if none of the tries was counted, however many there were, the right code is
  accepted as if there had been none, as long as the verification has not expired.
\<close>

theorem code_guesses_bounded:
  assumes "auth_service R" "string_of (r_view R s) (pending_key purpose email) = Some (PendingDoc p)"
    and "\<forall>c \<in> set cs. digest R cfg (trim_space c) \<noteq> pv_code_hash p"
  shows "(5 \<le> counted_tries R cfg purpose email cs s \<longrightarrow>
      fst (verify_pending R cfg purpose email c (try_codes R cfg purpose email cs s)) = Inl ErrInvalidCode) \<and>
    (counted_tries R cfg purpose email cs s = 0 \<longrightarrow> r_arrive R (try_codes R cfg purpose email cs s) = (Delivered, s1) \<longrightarrow>
      value_at (r_view R s1) (pending_key purpose email) \<noteq> None \<longrightarrow> digest R cfg (trim_space c) = pv_code_hash p \<longrightarrow>
      pv_attempts p < 5 \<longrightarrow> verify_pending R cfg purpose email c (try_codes R cfg purpose email cs s) = (Inr p, s1))"
proof -
  have "tried (r_view R s) (pending_key purpose email) p 0" using assms(2) by (simp add: tried_def)
  moreover have "is_string_key (r_view R s) (pending_key purpose email)"
    using assms(2) by (auto simp: string_of_def is_string_key_def split: option.splits rval.splits)
  ultimately have tries: "tried (r_view R (try_codes R cfg purpose email cs s)) (pending_key purpose email) p
      (counted_tries R cfg purpose email cs s)"
    "is_string_key (r_view R (try_codes R cfg purpose email cs s)) (pending_key purpose email)"
    "counted_tries R cfg purpose email cs s = 0 \<longrightarrow> aged (r_view R s) (r_view R (try_codes R cfg purpose email cs s))"
    using auth_service.wrong_tries [OF assms(1) _ _ assms(3), of s purpose email 0] by simp_all
  show ?thesis
    using auth_service.tried_out [OF assms(1) tries(1,2)] auth_service.right_code [OF assms(1,2)] tries(3) by blast
qed

lemma pending_read:
  assumes "\<forall>t. d = Some t \<longrightarrow> 0 < t"
  shows "string_of (r_view auth_ref (pending_start purpose answer d us)) (pending_key purpose ''a'') =
      Some (PendingDoc (demo_pending answer))"
    "deadline (r_view auth_ref (pending_start purpose answer d us)) (pending_key purpose ''a'') = d"
  using assms by (auto simp: pending_start_def string_of_def value_at_def deadline_def purge_def put_def split: option.split)

lemma demo_digests: "digest auth_ref demo_auth a = digest auth_ref demo_auth b \<longleftrightarrow> a = b"
  by (simp add: digest_def hmac_sha256_def Let_def)

text \<open>The witness: five tries on a calm server, and one whose write is lost.\<close>

definition lost_write :: ref_auth_world where
  "lost_write = (pending_start ''reset'' ''A'' (Some 600000) [])\<lparr>rf_net := [(Delivered, 0), (Delivered, 0), (LostRequest, 0)]\<rparr>"

theorem code_guesses_bounded_witness:
  "fst (verify_pending auth_ref demo_auth ''reset'' ''a'' ''A''
     (try_codes auth_ref demo_auth ''reset'' ''a'' (replicate 5 ''c'') (pending_start ''reset'' ''A'' (Some 600000) []))) =
   Inl ErrInvalidCode \<and>
   fst (verify_pending (ref_auth ()) demo_auth ''reset'' ''a'' ''A''
     (try_codes (ref_auth ()) demo_auth ''reset'' ''a'' [''c''] lost_write)) = Inr (demo_pending ''A'')"
proof
  have wrong: "\<forall>c \<in> set (replicate 5 ''c''). digest auth_ref demo_auth (trim_space c) \<noteq> pv_code_hash (demo_pending ''A'')"
    by (simp add: demo_pending_def demo_digests trim_letters)
  have "counted_tries auth_ref demo_auth ''reset'' ''a'' (replicate 5 ''c'') s = 5" for s
    by (simp add: counted_def eval_nat_numeral)
  then show "fst (verify_pending auth_ref demo_auth ''reset'' ''a'' ''A''
     (try_codes auth_ref demo_auth ''reset'' ''a'' (replicate 5 ''c'') (pending_start ''reset'' ''A'' (Some 600000) []))) =
     Inl ErrInvalidCode"
    using code_guesses_bounded [OF auth_ref.auth_service_axioms pending_read(1) wrong] by simp
next
  let ?R = "ref_auth () :: (ref_auth_world, unit) auth_env_scheme"
  show "fst (verify_pending ?R demo_auth ''reset'' ''a'' ''A'' (try_codes ?R demo_auth ''reset'' ''a'' [''c''] lost_write)) =
      Inr (demo_pending ''A'')"
  proof -
    let ?k = "pending_key ''reset'' ''a''" and ?net = "\<lambda>n. lost_write\<lparr>rf_net := n\<rparr>" and ?p = "demo_pending ''A''"
    have view: "r_view ?R (?net n) = r_view auth_ref (pending_start ''reset'' ''A'' (Some 600000) [])" for n
      by (simp add: lost_write_def ref_view_def)
    have start: "lost_write = ?net [(Delivered, 0), (Delivered, 0), (LostRequest, 0)]" by (simp add: lost_write_def)
    have arrive: "r_arrive ?R (?net ((d, 0) # n)) = (d, ?net n)" "r_arrive ?R (?net []) = (Delivered, ?net [])" for d n
      by (simp_all add: ref_arrive_def lost_write_def)
    have read: "string_of (r_view ?R (?net n)) ?k = Some (PendingDoc ?p)" for n unfolding view by (rule pending_read(1)) simp
    have str: "is_string_key (r_view ?R (?net n)) ?k" for n
      using read [of n] by (auto simp: string_of_def is_string_key_def split: option.splits rval.splits)
    have digest: "digest ?R = digest auth_ref" by (simp add: fun_eq_iff digest_def hmac_sha256_def Let_def)
    have wrong: "digest ?R demo_auth (trim_space ''c'') \<noteq> pv_code_hash ?p"
      by (simp add: digest demo_pending_def demo_digests trim_letters)
    have state: "snd (verify_pending ?R demo_auth ''reset'' ''a'' ''c'' lost_write) = ?net []"
    proof -
      have "snd (verify_pending ?R demo_auth ''reset'' ''a'' ''c'' lost_write) = wrong_code ?R ?k ?p (?net [(Delivered, 0), (LostRequest, 0)])"
        by (subst start, subst ref_auth.verify_wrong [OF str])
          (use wrong read in \<open>simp_all add: arrive demo_pending_def del: ref_auth_env_fields\<close>)
      then show ?thesis by (simp add: ref_auth.wrong_code_lossy arrive del: ref_auth_env_fields)
    qed
    have none: "\<not> counted ?R lost_write"
      by (subst start) (simp add: counted_def arrive del: ref_auth_env_fields)
    have there: "value_at (r_view ?R (?net [])) ?k \<noteq> None"
      using read [of "[]"] by (auto simp: string_of_def split: option.splits)
    show ?thesis
      using code_guesses_bounded [OF ref_auth.auth_service_axioms read [of "[(Delivered, 0), (Delivered, 0), (LostRequest, 0)]", folded start],
          of "[''c'']" demo_auth "''A''" "?net []"] wrong none state there arrive(2)
      by (simp add: demo_pending_def digest trim_letters del: ref_auth_env_fields)
  qed
qed

text \<open>
  C29. On a server that serves each request, a wrong code (not the fifth) entered less than half a second before a verification expires makes it last
  for ever: \<open>TTL\<close> rounds the time left to 0 seconds, and \<open>Set\<close> with 0 sets no expiry.
\<close>

theorem wrong_code_drops_expiry:
  assumes "calm_auth R" "string_of (r_view R s) (pending_key purpose email) = Some (PendingDoc p)"
    and "deadline (r_view R s) (pending_key purpose email) = Some d" "d - r_clock R s < 500"
    and "digest R cfg (trim_space typed) \<noteq> pv_code_hash p" "pv_attempts p < 4"
    and "verify_pending R cfg purpose email typed s = (r, s')"
  shows "string_of (r_view R s') (pending_key purpose email) =
      Some (PendingDoc (p\<lparr>pv_attempts := pv_attempts p + 1\<rparr>)) \<and>
    deadline (r_view R s') (pending_key purpose email) = None"
proof -
  have str: "is_string_key (r_view R s) (pending_key purpose email)"
    using assms(2) by (auto simp: string_of_def is_string_key_def split: option.splits rval.splits)
  have s': "s' = wrong_code R (pending_key purpose email) p s"
    using assms(2,5,6,7) by (simp add: verify_pending_def Let_def calm_auth.read_pending [OF assms(1) str])
  have "rounded_deadline (r_clock R s) (deadline (r_view R s) (pending_key purpose email)) = None"
    using assms(3,4) by (simp add: rounded_deadline_def)
  then show ?thesis
    using calm_auth.wrong_code_view [OF assms(1,2)] assms(6)
    by (simp add: s' string_of_def value_at_def put_def deadline_def)
qed

theorem wrong_code_drops_expiry_witness:
  "\<exists>r s'. verify_pending auth_ref demo_auth ''reset'' ''a'' ''c'' (pending_start ''reset'' ''A'' (Some 499) []) = (r, s') \<and>
     deadline (r_view auth_ref s') (pending_key ''reset'' ''a'') = None"
proof -
  let ?s = "pending_start ''reset'' ''A'' (Some 499) []"
  obtain r s' where run: "verify_pending auth_ref demo_auth ''reset'' ''a'' ''c'' ?s = (r, s')" by fastforce
  have read: "string_of (r_view auth_ref ?s) (pending_key ''reset'' ''a'') = Some (PendingDoc (demo_pending ''A''))"
    "deadline (r_view auth_ref ?s) (pending_key ''reset'' ''a'') = Some 499"
    by (rule pending_read; simp)+
  have "deadline (r_view auth_ref s') (pending_key ''reset'' ''a'') = None"
    using wrong_code_drops_expiry [OF auth_ref.calm_auth_axioms read _ _ _ run]
    by (simp add: pending_start_def demo_pending_def demo_digests trim_letters)
  then show ?thesis using run by blast
qed

section \<open>Logging in and resetting\<close>

text \<open>
  C30. A login that succeeds was asked for with the email of a stored user, a password that the
  user's hash accepts and the answer of a stored captcha, and its token opens a session of
  that user.
\<close>

theorem login_needs_password:
  assumes "accounts R" "sessions_ok (r_view R s)"
    and "login R cfg email password captcha answer s = (Inr (u, token), s')"
  shows "normalize_email R email = Some (us_email u) \<and> u \<in> set (au_users R s) \<and>
    verify_password (au_argon R) (us_hash u) password = Some True \<and>
    r_get R (captcha_key (trim_space captcha)) (snd (r_arrive R s)) =
      Some (Raw (digest R cfg (to_upper R (trim_space answer)))) \<and>
    string_of (r_view R s') (session_key R cfg token) = Some (Raw (us_id u))"
proof -
  obtain e s1 u0 s2 where run: "normalize_email R email = Some e"
    "consume_captcha R cfg captcha answer s = (Inr (), s1)" "au_by_email R e s1 = (Inr u0, s2)"
    "verify_password (au_argon R) (us_hash u0) password = Some True"
    "with_session R cfg u0 s2 = (Inr (u, token), s')"
    using assms(3) by (auto simp: login_def split: option.splits prod.splits sum.splits bool.splits)
  have svc: "auth_service R" using assms(1) by (simp add: accounts_def)
  have ok: "sessions_ok (r_view R s2)"
    using auth_service.captcha_sessions [OF svc assms(2), of cfg captcha answer]
      accounts.users_view(2) [OF assms(1), of e s1] run(2,3) by simp
  note st = auth_service.session_stored [OF svc run(5) ok]
  have "au_users R s1 = au_users R s"
    using accounts.captcha_users [OF assms(1), of cfg captcha answer s] run(2) by simp
  then show ?thesis
    using accounts.by_email [OF assms(1) run(3)] run(1,4) st(1,2)
      auth_service.captcha_matches [OF svc run(2)] by simp
qed

definition demo_user :: user where
  "demo_user = zero_user\<lparr>us_id := ''u1'', us_email := ''a'',
     us_hash := encoded_hash ''salt'' (ref_argon ''password'' ''salt'' argon_time argon_memory argon_threads argon_key_len)\<rparr>"

definition login_start :: ref_auth_world where
  "login_start = auth_start (put (captcha_key ''c'') (RString (Raw (digest auth_ref demo_auth ''A''))) (Some 5) Map.empty)
     [demo_user]"

lemma demo_password: "verify_password ref_argon (us_hash demo_user) ''password'' = Some True"
proof -
  let ?key = "ref_argon ''password'' ''salt'' argon_time argon_memory argon_threads argon_key_len"
  have l: "length ?key = argon_key_len" by (simp add: ref_argon_def)
  then have "?key \<noteq> []" by (auto simp: argon_key_len_def)
  then show ?thesis using verify_encoded [of ?key ref_argon "''salt''" "''password''"]
    unfolding l by (simp add: demo_user_def zero_user_def)
qed

lemma calm_random:
  "rw_random (r_set auth_ref k v px s) = rw_random s" "rw_random (r_del auth_ref k s) = rw_random s"
  by (simp_all add: auth_ref_def ref_auth_def auth_env.defs ref_db_def db_env.defs ref_env_def env.defs ref_redis_def
      ref_apply_def)

lemma session_made:
  assumes "32 \<le> length (rw_random s)"
  shows "\<exists>s'. with_session auth_ref demo_auth u s = (Inr (u, raw_url_encode (take 32 (rw_random s))), s')"
  using assms
  by (simp add: with_session_def create_session_def random_token_def ref_random_def Let_def auth_ref.served
      writing_def)

lemma demo_login:
  "\<exists>u token s'. login auth_ref demo_auth ''a'' ''password'' ''c'' ''A'' login_start = (Inr (u, token), s')"
proof -
  have "r_get auth_ref (captcha_key ''c'') login_start = Some (Raw (digest auth_ref demo_auth ''A''))"
    by (subst auth_ref.get) (simp_all add: login_start_def is_string_key_def string_of_def value_at_def purge_def put_def)
  then have c: "consume_captcha auth_ref demo_auth ''c'' ''A'' login_start =
      (Inr (), r_del auth_ref (captcha_key ''c'') login_start)"
    by (simp add: consume_captcha_def auth_ref.served get_del_def trim_letters letter_cases)
  let ?s = "r_del auth_ref (captcha_key ''c'') login_start"
  have f: "ref_find (\<lambda>u. us_email u = ''a'') ?s = (Inr demo_user, ?s)"
    by (simp add: ref_find_def calm_frame login_start_def demo_user_def)
  have r: "32 \<le> length (rw_random ?s)" by (simp add: calm_random) (simp add: login_start_def)
  show ?thesis using session_made [OF r, of demo_user]
    by (auto simp: login_def demo_email c f demo_password)
qed

theorem login_needs_password_witness:
  "\<exists>token s'. login auth_ref demo_auth ''a'' ''password'' ''c'' ''A'' login_start = (Inr (demo_user, token), s') \<and>
     string_of (r_view auth_ref s') (session_key auth_ref demo_auth token) = Some (Raw ''u1'')"
proof -
  obtain u token s' where run: "login auth_ref demo_auth ''a'' ''password'' ''c'' ''A'' login_start = (Inr (u, token), s')"
    using demo_login by blast
  have ok: "sessions_ok (r_view auth_ref login_start)"
    by (simp add: sessions_ok_def is_set_key_def value_at_def login_start_def purge_def put_def captcha_key_def
        user_sessions_key_def)
  have p: "u \<in> set (au_users auth_ref login_start) \<and>
      string_of (r_view auth_ref s') (session_key auth_ref demo_auth token) = Some (Raw (us_id u))"
    using login_needs_password [OF auth_ref.accounts_axioms ok run] by blast
  then have "u = demo_user" by (simp add: login_start_def)
  then show ?thesis using run p by (auto simp: demo_user_def)
qed

text \<open>
  C31. On a server that serves each request, a reset of the password ends every session listed for the user, so that its token is
  unauthorized, and opens the one new session it returns.
\<close>

theorem reset_ends_old_sessions:
  assumes "calm_accounts R" "sessions_ok (r_view R s)"
    and "reset_password R cfg email typed password s = (Inr (u, token), s')"
    and "session_key R cfg old \<in> set (set_of (r_view R s) (user_sessions_key (us_id u)))"
    and "session_key R cfg old \<noteq> session_key R cfg token"
  shows "fst (current_user R cfg old s') = Inl ErrUnauthorized \<and>
    string_of (r_view R s') (session_key R cfg token) = Some (Raw (us_id u))"
proof -
  note ends = calm_accounts.reset_ends_sessions [OF assms(1,3,2,4,5)]
  have calm: "calm_auth R" using assms(1) by (simp add: calm_accounts_def)
  have "is_string_key (r_view R s') (session_key R cfg old)" using ends(1) by (simp add: is_string_key_def)
  then show ?thesis
    using ends calm_auth.read_pending [OF calm, of s' "session_key R cfg old"]
    by (simp add: current_user_def string_of_def)
qed

definition reset_start :: ref_auth_world where
  "reset_start = pending_start ''reset'' ''A'' (Some 600000) [demo_user]
     \<lparr>rf_keys := put (user_sessions_key ''u1'') (RSet [session_key auth_ref demo_auth ''old'']) (Some 900)
        (rf_keys (pending_start ''reset'' ''A'' (Some 600000) [demo_user]))\<rparr>"

lemma fresh_token: "raw_url_encode (replicate 32 (CHR ''7'')) \<noteq> ''old''"
  by code_simp

lemma revoked_random:
  "\<exists>s'. revoke_all_sessions auth_ref i s = (Inr (), s') \<and> rw_random s' = rw_random s"
proof -
  have "rw_random (fold (r_del auth_ref) ks s) = rw_random s" for ks s
    by (induction ks arbitrary: s) (simp_all add: calm_random)
  then show ?thesis
    by (simp add: revoke_all_sessions_def Let_def auth_ref.served reading_def writing_def calm_random)
qed

lemma reset_start_read:
  "r_view auth_ref reset_start = rf_keys reset_start"
  "verify_pending auth_ref demo_auth ''reset'' ''a'' ''A'' reset_start = (Inr (demo_pending ''A''), reset_start)"
proof -
  show v: "r_view auth_ref reset_start = rf_keys reset_start"
    by (rule ext) (simp add: reset_start_def pending_start_def ref_view_def purge_def put_def)
  have "r_get auth_ref (pending_key ''reset'' ''a'') reset_start = Some (PendingDoc (demo_pending ''A''))"
    by (subst auth_ref.get)
      (simp_all only: v, simp_all add: reset_start_def pending_start_def is_string_key_def string_of_def value_at_def
        put_def purge_def pending_key_def user_sessions_key_def)
  then show "verify_pending auth_ref demo_auth ''reset'' ''a'' ''A'' reset_start = (Inr (demo_pending ''A''), reset_start)"
    by (simp add: verify_pending_def Let_def auth_ref.served reading_def demo_pending_def trim_letters)
qed

lemma demo_reset:
  "\<exists>u token s'. reset_password auth_ref demo_auth ''a'' ''A'' ''password'' reset_start = (Inr (u, token), s') \<and>
     us_id u = ''u1'' \<and> token \<noteq> ''old''"
proof -
  define s2 where "s2 = reset_start\<lparr>rw_random := replicate 496 (CHR ''7'')\<rparr>"
  have s2: "ra_users s2 = [demo_user]" "rw_random s2 = replicate 496 (CHR ''7'')"
    by (simp_all add: s2_def reset_start_def pending_start_def)
  have "env_random auth_ref 16 reset_start = (Some (replicate 16 (CHR ''7'')), s2)"
    by (simp add: ref_random_def s2_def reset_start_def pending_start_def)
  then obtain h where h: "hash_password auth_ref ref_argon ''password'' reset_start = (Inr h, s2)"
    by (simp add: hash_password_def validate_password_def)
  have f: "ref_find (\<lambda>u. us_email u = ''a'') s2 = (Inr demo_user, s2)"
    by (simp add: ref_find_def s2 demo_user_def)
  define s5 where "s5 = snd (ref_set_hash (us_id demo_user) h (rw_now s2) s2)"
  have s5: "ref_set_hash (us_id demo_user) h (rw_now s2) s2 = (Inr (), s5)" "rw_random s5 = replicate 496 (CHR ''7'')"
    by (simp_all add: s5_def ref_set_hash_def s2)
  obtain s6 where s6: "revoke_all_sessions auth_ref (us_id demo_user) s5 = (Inr (), s6)"
    "rw_random s6 = replicate 496 (CHR ''7'')"
    using revoked_random [of "us_id demo_user" s5] s5(2) by auto
  define s7 where "s7 = r_del auth_ref (pending_key ''reset'' ''a'') s6"
  define u where "u = demo_user\<lparr>us_hash := h, us_updated := rw_now s2\<rparr>"
  have s7: "rw_random s7 = replicate 496 (CHR ''7'')" by (simp add: s7_def calm_random s6(2))
  then obtain s' where w: "with_session auth_ref demo_auth u s7 = (Inr (u, raw_url_encode (replicate 32 (CHR ''7''))), s')"
    using session_made [of s7 u] by auto
  have "reset_password auth_ref demo_auth ''a'' ''A'' ''password'' reset_start =
      (Inr (u, raw_url_encode (replicate 32 (CHR ''7''))), s')"
    using w by (simp add: reset_password_def demo_email reset_start_read(2) h f ref_now_def s5(1) s6(1) auth_ref.served
        writing_def flip: s7_def u_def)
  then show ?thesis using fresh_token by (auto simp: u_def demo_user_def)
qed

theorem reset_ends_old_sessions_witness:
  "\<exists>u token s'. reset_password auth_ref demo_auth ''a'' ''A'' ''password'' reset_start = (Inr (u, token), s') \<and>
     fst (current_user auth_ref demo_auth ''old'' s') = Inl ErrUnauthorized"
proof -
  obtain u token s' where run: "reset_password auth_ref demo_auth ''a'' ''A'' ''password'' reset_start = (Inr (u, token), s')"
    "us_id u = ''u1''" "token \<noteq> ''old''" using demo_reset by blast
  have ok: "sessions_ok (r_view auth_ref reset_start)"
    unfolding reset_start_read(1)
    by (auto simp: sessions_ok_def is_set_key_def value_at_def reset_start_def pending_start_def put_def
        pending_key_def user_sessions_key_def)
  have old: "session_key auth_ref demo_auth ''old'' \<in> set (set_of (r_view auth_ref reset_start) (user_sessions_key (us_id u)))"
    unfolding reset_start_read(1) run(2) by (simp add: reset_start_def set_of_def value_at_def put_def)
  show ?thesis
    using reset_ends_old_sessions [OF auth_ref.calm_accounts_axioms ok run(1) old] run(1,3)
    by (auto simp: session_key_def demo_digests)
qed

end
