(* ===== verification/Agent_Client.thy ===== *)
theory Agent_Client
  imports Agent
begin

text \<open>
  The gateway's client of the agent service (\<open>gateway/agent_client.go\<close>). The stub generated
  from \<open>agent.proto\<close>, with the network behind it, is the record \<open>agent_stub\<close>; the client turns
  its messages into the values the gateway answers in JSON.
\<close>

section \<open>The generated stub\<close>

record 's agent_stub =
  as_reply :: "reply_request \<Rightarrow> ('s, string) rpc"
  as_spaces :: "string \<Rightarrow> string \<Rightarrow> ('s, conversation_space list) rpc"
  as_send :: "send_request \<Rightarrow> ('s, response_batch option) rpc"
  as_messages :: "list_request \<Rightarrow> ('s, conversation_message list) rpc"
  as_delete :: "list_request \<Rightarrow> ('s, unit) rpc"
  as_maintenance :: "string \<Rightarrow> ('s, string list) rpc"
  as_check :: "('s, unit) rpc"

section \<open>Values of the gateway\<close>

record web_character =
  wc_id :: string
  wc_display :: string
  wc_avatar :: string
  wc_description :: string

record web_space =
  wp_id :: string
  wp_kind :: string
  wp_display :: string
  wp_participants :: "web_character list"

record web_message =
  wm_id :: "64 word"
  wm_turn :: string
  wm_role :: string
  wm_content :: string
  wm_created :: string
  wm_conversation :: string
  wm_speaker_kind :: string
  wm_speaker :: string
  wm_batch :: string
  wm_sequence :: nat
  wm_display :: string
  wm_avatar :: string

record web_batch =
  wb_id :: string
  wb_request :: string
  wb_conversation :: string
  wb_planned :: "string list"
  wb_user :: web_message
  wb_messages :: "web_message list"
  wb_status :: string
  wb_code :: string
  wb_created :: string
  wb_updated :: string

text \<open>The interface \<open>AgentCaller\<close>.\<close>

record 's agent_caller =
  ac_reply :: "string \<Rightarrow> string \<Rightarrow> string \<Rightarrow> ('s, string) rpc"
  ac_spaces :: "string \<Rightarrow> string \<Rightarrow> ('s, web_space list) rpc"
  ac_send :: "string \<Rightarrow> string \<Rightarrow> string \<Rightarrow> string \<Rightarrow> string \<Rightarrow> ('s, web_batch) rpc"
  ac_messages_of :: "string \<Rightarrow> string \<Rightarrow> string \<Rightarrow> ('s, web_message list) rpc"
  ac_delete_of :: "string \<Rightarrow> string \<Rightarrow> string \<Rightarrow> ('s, unit) rpc"
  ac_messages :: "string \<Rightarrow> string \<Rightarrow> ('s, web_message list) rpc"
  ac_delete :: "string \<Rightarrow> string \<Rightarrow> ('s, unit) rpc"
  ac_maintenance :: "string \<Rightarrow> ('s, string list) rpc"
  ac_check :: "('s, unit) rpc"

section \<open>Times in JSON\<close>

text \<open>The time of day of an instant, and \<open>Format(time.RFC3339)\<close> in UTC and in the Beijing zone.\<close>

definition clock_of :: "int \<Rightarrow> string" where
  "clock_of t =
     (let s = t mod day_length div second
      in pad_nat 2 (nat (s div 3600)) @ '':'' @ pad_nat 2 (nat (s div 60 mod 60)) @ '':'' @ pad_nat 2 (nat (s mod 60)))"

definition rfc3339_utc :: "time \<Rightarrow> string" where
  "rfc3339_utc t = fmt_date (t div day_length) @ ''T'' @ clock_of t @ ''Z''"

definition rfc3339_beijing :: "time \<Rightarrow> string" where
  "rfc3339_beijing t = fmt_date (beijing_day t) @ ''T'' @ clock_of (t + beijing_offset) @ ''+08:00''"

text \<open>\<open>Timestamp.AsTime\<close>.\<close>

definition as_time :: "timestamp \<Rightarrow> time" where
  "as_time x = fst x * second + snd x"

lemma as_time_timestamp [simp]: "as_time (timestamp_of t) = t"
  by (simp add: as_time_def timestamp_of_def second_def)

definition created_text :: "timestamp option \<Rightarrow> string" where
  "created_text x = (case x of None \<Rightarrow> [] | Some y \<Rightarrow> rfc3339_utc (as_time y))"

section \<open>Conversions\<close>

definition conversation_message_dto :: "conversation_message \<Rightarrow> web_message" where
  "conversation_message_dto m =
     \<lparr>wm_id = cm_id m, wm_turn = cm_turn m, wm_role = cm_role m, wm_content = cm_content m,
      wm_created = created_text (cm_created m), wm_conversation = cm_conversation m,
      wm_speaker_kind = cm_speaker_kind m, wm_speaker = cm_speaker m, wm_batch = cm_batch m,
      wm_sequence = cm_sequence m, wm_display = cm_display m, wm_avatar = cm_avatar m\<rparr>"

definition conversation_messages_dto :: "conversation_message list \<Rightarrow> web_message list" where
  "conversation_messages_dto ms = map conversation_message_dto ms"

definition zero_web_message :: web_message where
  "zero_web_message = \<lparr>wm_id = 0, wm_turn = [], wm_role = [], wm_content = [], wm_created = [],
     wm_conversation = [], wm_speaker_kind = [], wm_speaker = [], wm_batch = [], wm_sequence = 0,
     wm_display = [], wm_avatar = []\<rparr>"

definition zero_web_batch :: web_batch where
  "zero_web_batch = \<lparr>wb_id = [], wb_request = [], wb_conversation = [], wb_planned = [], wb_user = zero_web_message,
     wb_messages = [], wb_status = [], wb_code = [], wb_created = [], wb_updated = []\<rparr>"

text \<open>The getters of a missing message answer zero values.\<close>

definition response_batch_dto :: "response_batch option \<Rightarrow> web_batch" where
  "response_batch_dto x =
     (case x of
        None \<Rightarrow> zero_web_batch
      | Some b \<Rightarrow>
          \<lparr>wb_id = rb_id b, wb_request = rb_request b, wb_conversation = rb_conversation b, wb_planned = rb_planned b,
           wb_user = (case rb_user b of None \<Rightarrow> zero_web_message | Some m \<Rightarrow> conversation_message_dto m),
           wb_messages = conversation_messages_dto (rb_messages b), wb_status = rb_status b, wb_code = rb_code b,
           wb_created = created_text (rb_created b), wb_updated = created_text (rb_updated b)\<rparr>)"

definition character_dto :: "character_metadata \<Rightarrow> web_character" where
  "character_dto c = \<lparr>wc_id = cd_id c, wc_display = cd_display c, wc_avatar = cd_avatar c,
     wc_description = cd_description c\<rparr>"

definition space_dto :: "conversation_space \<Rightarrow> web_space" where
  "space_dto sp = \<lparr>wp_id = cv_id sp, wp_kind = cv_kind sp, wp_display = cv_display sp,
     wp_participants = map character_dto (cv_participants sp)\<rparr>"

section \<open>The client\<close>

definition rpc_map :: "('a \<Rightarrow> 'b) \<Rightarrow> ('s, 'a) rpc \<Rightarrow> ('s, 'b) rpc" where
  "rpc_map f call s = (case call s of (Inl e, s') \<Rightarrow> (Inl e, s') | (Inr x, s') \<Rightarrow> (Inr (f x), s'))"

definition client_reply :: "'s agent_stub \<Rightarrow> string \<Rightarrow> string \<Rightarrow> string \<Rightarrow> ('s, string) rpc" where
  "client_reply a channel external txt =
     as_reply a \<lparr>rq_open = [], rq_text = txt, rq_channel = channel, rq_external = external\<rparr>"

definition client_spaces :: "'s agent_stub \<Rightarrow> string \<Rightarrow> string \<Rightarrow> ('s, web_space list) rpc" where
  "client_spaces a channel external = rpc_map (map space_dto) (as_spaces a channel external)"

definition client_send ::
  "'s agent_stub \<Rightarrow> string \<Rightarrow> string \<Rightarrow> string \<Rightarrow> string \<Rightarrow> string \<Rightarrow> ('s, web_batch) rpc" where
  "client_send a channel external conversation content request =
     rpc_map response_batch_dto (as_send a \<lparr>sq_channel = channel, sq_external = external,
       sq_conversation = conversation, sq_content = content, sq_request = request\<rparr>)"

definition client_messages_of :: "'s agent_stub \<Rightarrow> string \<Rightarrow> string \<Rightarrow> string \<Rightarrow> ('s, web_message list) rpc" where
  "client_messages_of a channel external conversation =
     rpc_map conversation_messages_dto (as_messages a \<lparr>lq_open = [], lq_channel = channel, lq_external = external,
       lq_conversation = conversation\<rparr>)"

definition client_delete_of :: "'s agent_stub \<Rightarrow> string \<Rightarrow> string \<Rightarrow> string \<Rightarrow> ('s, unit) rpc" where
  "client_delete_of a channel external conversation =
     as_delete a \<lparr>lq_open = [], lq_channel = channel, lq_external = external, lq_conversation = conversation\<rparr>"

definition client_messages :: "'s agent_stub \<Rightarrow> string \<Rightarrow> string \<Rightarrow> ('s, web_message list) rpc" where
  "client_messages a channel external =
     rpc_map conversation_messages_dto (as_messages a \<lparr>lq_open = [], lq_channel = channel, lq_external = external,
       lq_conversation = []\<rparr>)"

definition client_delete :: "'s agent_stub \<Rightarrow> string \<Rightarrow> string \<Rightarrow> ('s, unit) rpc" where
  "client_delete a channel external =
     as_delete a \<lparr>lq_open = [], lq_channel = channel, lq_external = external, lq_conversation = []\<rparr>"

definition client_maintenance :: "'s agent_stub \<Rightarrow> string \<Rightarrow> ('s, string list) rpc" where
  "client_maintenance a date = as_maintenance a date"

definition client_check :: "'s agent_stub \<Rightarrow> ('s, unit) rpc" where
  "client_check a = as_check a"

definition new_agent_client :: "'s agent_stub \<Rightarrow> 's agent_caller" where
  "new_agent_client a = \<lparr>ac_reply = client_reply a, ac_spaces = client_spaces a, ac_send = client_send a,
     ac_messages_of = client_messages_of a, ac_delete_of = client_delete_of a, ac_messages = client_messages a,
     ac_delete = client_delete a, ac_maintenance = client_maintenance a, ac_check = client_check a\<rparr>"

text \<open>A connection on which nothing is lost: the stub hands on what the server answers.\<close>

definition direct_stub :: "('s, 'z) db_env_scheme \<Rightarrow> 's agent_server \<Rightarrow> 's agent_stub" where
  "direct_stub R v = \<lparr>as_reply = agent_reply R v, as_spaces = (\<lambda>ch ex s. (agent_list_spaces ch ex, s)),
     as_send = agent_send R v, as_messages = agent_list_messages R v, as_delete = agent_delete R v,
     as_maintenance = (\<lambda>d s. plain_result (run_daily_maintenance R v d s)), as_check = Pair (Inr ())\<rparr>"

end
