(* ===== verification/Json.thy ===== *)
theory Json
  imports Replies
begin

text \<open>
  JSON values and the part of \<open>json.Unmarshal\<close> that reads an object into a Go struct with text
  and integer fields: names match up to case, a later member replaces an earlier one, \<open>null\<close>
  leaves a field as it is, unknown members are skipped, and a member of the wrong kind is an
  error. The syntax is checked to the end of the input first, as Go does. (Go also refuses
  values nested beyond than 10000 deep; that limit is not modelled.)
\<close>

section \<open>Values\<close>

datatype json = JNil | JBool bool | JNumber "rune list" | JText string | JList "json list" | JMembers "(string \<times> json) list"

definition digit_rune :: "rune \<Rightarrow> bool" where
  "digit_rune r \<longleftrightarrow> 48 \<le> r \<and> r \<le> 57"

text \<open>A number is split off in parts: integer part, fraction, exponent.\<close>

definition json_whole :: "rune list \<Rightarrow> (rune list \<times> rune list) option" where
  "json_whole rs =
     (case rs of
        [] \<Rightarrow> None
      | r # rest \<Rightarrow>
          if r = 48 then Some ([48], rest)
          else if digit_rune r then Some (takeWhile digit_rune rs, dropWhile digit_rune rs) else None)"

definition json_fraction :: "rune list \<Rightarrow> (rune list \<times> rune list) option" where
  "json_fraction rs =
     (case rs of
        r # d # rest \<Rightarrow>
          if r \<noteq> 46 then Some ([], rs)
          else if digit_rune d then Some (46 # takeWhile digit_rune (d # rest), dropWhile digit_rune (d # rest))
          else None
      | [r] \<Rightarrow> if r = 46 then None else Some ([], rs)
      | [] \<Rightarrow> Some ([], rs))"

definition json_exponent :: "rune list \<Rightarrow> (rune list \<times> rune list) option" where
  "json_exponent rs =
     (case rs of
        [] \<Rightarrow> Some ([], rs)
      | r # rest \<Rightarrow>
          if r \<noteq> 69 \<and> r \<noteq> 101 then Some ([], rs)
          else (let (sign, ds) = (case rest of s # beyond \<Rightarrow> if s = 43 \<or> s = 45 then ([s], beyond) else ([], rest)
                                  | [] \<Rightarrow> ([], []))
                in if ds \<noteq> [] \<and> digit_rune (hd ds)
                   then Some (r # sign @ takeWhile digit_rune ds, dropWhile digit_rune ds) else None))"

definition json_number :: "rune list \<Rightarrow> (rune list \<times> rune list) option" where
  "json_number rs =
     (let (sign, rs1) = (case rs of r # rest \<Rightarrow> if r = 45 then ([45], rest) else ([], rs) | [] \<Rightarrow> ([], []))
      in case json_whole rs1 of
           None \<Rightarrow> None
         | Some (w, rs2) \<Rightarrow>
             (case json_fraction rs2 of
                None \<Rightarrow> None
              | Some (f, rs3) \<Rightarrow>
                  (case json_exponent rs3 of
                     None \<Rightarrow> None
                   | Some (e, rs4) \<Rightarrow> Some (sign @ w @ f @ e, rs4))))"

definition json_literal :: "rune list \<Rightarrow> (json \<times> rune list) option" where
  "json_literal rs =
     (if take 4 rs = json_null then Some (JNil, drop 4 rs)
      else if take 4 rs = [116, 114, 117, 101] then Some (JBool True, drop 4 rs)
      else if take 5 rs = [102, 97, 108, 115, 101] then Some (JBool False, drop 5 rs)
      else map_option (\<lambda>(n, rest). (JNumber n, rest)) (json_number rs))"

text \<open>
  The fuel bounds the number of values, members and commas on the way down and along; the
  length of the input is always enough.
\<close>

fun json_value :: "nat \<Rightarrow> rune list \<Rightarrow> (json \<times> rune list) option"
and json_elements :: "nat \<Rightarrow> rune list \<Rightarrow> (json list \<times> rune list) option"
and json_members :: "nat \<Rightarrow> rune list \<Rightarrow> ((string \<times> json) list \<times> rune list) option" where
  "json_value 0 rs = None"
| "json_value (Suc n) rs =
     (case skip_json_space rs of
        [] \<Rightarrow> None
      | r # rest \<Rightarrow>
          if r = 34 then map_option (\<lambda>(t, beyond). (JText t, beyond)) (json_string rest)
          else if r = 91 then
            (case skip_json_space rest of
               [] \<Rightarrow> None
             | q # beyond \<Rightarrow> if q = 93 then Some (JList [], beyond)
                            else map_option (\<lambda>(vs, m). (JList vs, m)) (json_elements n rest))
          else if r = 123 then
            (case skip_json_space rest of
               [] \<Rightarrow> None
             | q # beyond \<Rightarrow> if q = 125 then Some (JMembers [], beyond)
                            else map_option (\<lambda>(vs, m). (JMembers vs, m)) (json_members n rest))
          else json_literal (r # rest))"
| "json_elements 0 rs = None"
| "json_elements (Suc n) rs =
     (case json_value n rs of
        None \<Rightarrow> None
      | Some (v, r1) \<Rightarrow>
          (case skip_json_space r1 of
             [] \<Rightarrow> None
           | r # beyond \<Rightarrow>
               if r = 44 then map_option (\<lambda>(vs, m). (v # vs, m)) (json_elements n beyond)
               else if r = 93 then Some ([v], beyond) else None))"
| "json_members 0 rs = None"
| "json_members (Suc n) rs =
     (case skip_json_space rs of
        [] \<Rightarrow> None
      | q # rest \<Rightarrow>
          if q \<noteq> 34 then None
          else case json_string rest of
            None \<Rightarrow> None
          | Some (k, r1) \<Rightarrow>
              (case skip_json_space r1 of
                 [] \<Rightarrow> None
               | c # r2 \<Rightarrow>
                   if c \<noteq> 58 then None
                   else case json_value n r2 of
                     None \<Rightarrow> None
                   | Some (v, r3) \<Rightarrow>
                       (case skip_json_space r3 of
                          [] \<Rightarrow> None
                        | r # beyond \<Rightarrow>
                            if r = 44 then map_option (\<lambda>(vs, m). ((k, v) # vs, m)) (json_members n beyond)
                            else if r = 125 then Some ([(k, v)], beyond) else None)))"

definition parse_json :: "string \<Rightarrow> json option" where
  "parse_json body =
     (case json_value (Suc (2 * length body)) (runes body) of
        Some (v, rest) \<Rightarrow> if skip_json_space rest = [] then Some v else None
      | None \<Rightarrow> None)"

section \<open>Structs\<close>

text \<open>Names are compared up to case; two letters outside ASCII fold to \<open>s\<close> and \<open>k\<close>.\<close>

definition fold_rune :: "rune \<Rightarrow> rune" where
  "fold_rune r = (if 65 \<le> r \<and> r \<le> 90 then r + 32 else if r = 0x17F then 115 else if r = 0x212A then 107 else r)"

definition same_name :: "string \<Rightarrow> string \<Rightarrow> bool" where
  "same_name a b \<longleftrightarrow> map fold_rune (runes a) = map fold_rune (runes b)"

text \<open>Reading a member into a text field and into an integer field.\<close>

definition json_text_field :: "json \<Rightarrow> string \<Rightarrow> string option" where
  "json_text_field v old = (case v of JText t \<Rightarrow> Some t | JNil \<Rightarrow> Some old | _ \<Rightarrow> None)"

fun decimal :: "rune list \<Rightarrow> int" where
  "decimal [] = 0"
| "decimal (r # rs) = (int r - 48) * 10 ^ length rs + decimal rs"

definition number_int :: "rune list \<Rightarrow> int option" where
  "number_int n =
     (let (neg, ds) = (case n of r # rest \<Rightarrow> if r = 45 then (True, rest) else (False, n) | [] \<Rightarrow> (False, []));
          v = (if neg then - decimal ds else decimal ds)
      in if list_all digit_rune ds \<and> - (2 ^ 63) \<le> v \<and> v < 2 ^ 63 then Some v else None)"

definition json_int_field :: "json \<Rightarrow> int \<Rightarrow> int option" where
  "json_int_field v old = (case v of JNumber n \<Rightarrow> number_int n | JNil \<Rightarrow> Some old | _ \<Rightarrow> None)"

text \<open>The members of the object, or none for \<open>null\<close>; another value is an error.\<close>

definition json_object :: "string \<Rightarrow> (string \<times> json) list option" where
  "json_object body =
     (case parse_json body of
        Some (JMembers ms) \<Rightarrow> Some ms
      | Some JNil \<Rightarrow> Some []
      | _ \<Rightarrow> None)"

fun read_text :: "string \<Rightarrow> (string \<times> json) list \<Rightarrow> string \<Rightarrow> string option" where
  "read_text name [] old = Some old"
| "read_text name ((k, v) # ms) old =
     (if same_name k name then Option.bind (json_text_field v old) (read_text name ms) else read_text name ms old)"

fun read_int :: "string \<Rightarrow> (string \<times> json) list \<Rightarrow> int \<Rightarrow> int option" where
  "read_int name [] old = Some old"
| "read_int name ((k, v) # ms) old =
     (if same_name k name then Option.bind (json_int_field v old) (read_int name ms) else read_int name ms old)"

end
