(* ===== verification/WeChat.thy ===== *)
theory WeChat
  imports Json Redis_Stores Memory "HOL-Library.List_Lexorder" "HOL-Library.Char_ord"
begin

text \<open>
  Package \<open>internal/wechat\<close>: the signature of incoming calls (\<open>verify.go\<close>), the access token
  and its cache (\<open>token.go\<close>) and pushing a text to a user (\<open>kf.go\<close>). The digest SHA-1 and the
  HTTP client are parameters; a transport takes a request to the body of the answer or an
  error (a URL that does not parse included). An incoming message (\<open>message.go\<close>) is read by
  the XML decoder, a parameter too.
\<close>

section \<open>Incoming calls\<close>

definition check_signature :: "(string \<Rightarrow> string) \<Rightarrow> string \<Rightarrow> string \<Rightarrow> string \<Rightarrow> string \<Rightarrow> bool" where
  "check_signature sha1 token timestamp nonce signature \<longleftrightarrow>
     hex_encode (sha1 (concat (sort [token, timestamp, nonce]))) = signature"

record incoming_message =
  im_to :: string
  im_from :: string
  im_kind :: string
  im_content :: string
  im_id :: string

section \<open>Errors\<close>

datatype wx_error = ApiError int string | WxOther go_error

type_synonym ('s, 'a) wx = "'s \<Rightarrow> (wx_error + 'a) \<times> 's"

fun is_token_expired_error :: "wx_error \<Rightarrow> bool" where
  "is_token_expired_error (ApiError c m) = (c = 40001 \<or> c = 42001)"
| "is_token_expired_error (WxOther e) = False"

section \<open>HTTP\<close>

record http_request =
  hq_method :: string
  hq_url :: string
  hq_json :: bool
  hq_body :: string

type_synonym 's transport = "http_request \<Rightarrow> ('s, string) io"

text \<open>\<open>url.QueryEscape\<close>: letters, digits and \<open>-_.~\<close> stay, a space becomes a plus.\<close>

definition hex_upper :: "nat \<Rightarrow> char" where
  "hex_upper n = chr (if n < 10 then 48 + n else 55 + n)"

definition escape_char :: "char \<Rightarrow> string" where
  "escape_char c =
     (let n = code c
      in if ascii_alnum n \<or> c \<in> {CHR ''-'', CHR ''_'', CHR ''.'', CHR ''~''} then [c]
         else if n = 32 then ''+'' else [CHR ''%'', hex_upper (n div 16), hex_upper (n mod 16)])"

definition query_escape :: "string \<Rightarrow> string" where
  "query_escape t = concat (map escape_char t)"

section \<open>The access token\<close>

text \<open>
  The manager keeps a token in memory with its expiry; the cache, if there is one, is shared.
  The endpoint is a URL without a query, so the query is appended, its names in order.
\<close>

record token_memory =
  tk_token :: string
  tk_expires :: time

record 's token_manager =
  tm_app :: string
  tm_secret :: string
  tm_endpoint :: string
  tm_has_cache :: bool
  tm_cache_get :: "('s, string option) io"
  tm_cache_set :: "string \<Rightarrow> time \<Rightarrow> ('s, unit) io"
  tm_cache_delete :: "('s, unit) io"
  tm_now :: "'s \<Rightarrow> time \<times> 's"
  tm_client :: "'s transport"

record token_resp =
  tr_token :: string
  tr_expires :: int
  tr_code :: int
  tr_message :: string

definition read_token_resp :: "string \<Rightarrow> token_resp option" where
  "read_token_resp body =
     (case json_object body of
        None \<Rightarrow> None
      | Some ms \<Rightarrow>
          (case (read_text ''access_token'' ms [], read_int ''expires_in'' ms 0, read_int ''errcode'' ms 0,
                 read_text ''errmsg'' ms []) of
             (Some t, Some x, Some c, Some m) \<Rightarrow>
               Some \<lparr>tr_token = t, tr_expires = x, tr_code = c, tr_message = m\<rparr>
           | _ \<Rightarrow> None))"

definition token_url :: "'s token_manager \<Rightarrow> string" where
  "token_url tm = tm_endpoint tm @ ''?appid='' @ query_escape (tm_app tm) @
     ''&grant_type=client_credential&secret='' @ query_escape (tm_secret tm)"

definition forget :: "token_memory" where
  "forget = \<lparr>tk_token = [], tk_expires = zero_time\<rparr>"

text \<open>A duration is a 64-bit number of nanoseconds; the product wraps around.\<close>

definition seconds64 :: "int \<Rightarrow> time" where
  "seconds64 n = (n * second + 2 ^ 63) mod 2 ^ 64 - 2 ^ 63"

definition fetch_locked :: "'s token_manager \<Rightarrow> (token_memory \<times> 's, string) wx" where
  "fetch_locked tm ms =
     (let (mem, s) = ms
      in case tm_client tm \<lparr>hq_method = ''GET'', hq_url = token_url tm, hq_json = False, hq_body = []\<rparr> s of
           (Inl e, s1) \<Rightarrow> (Inl (WxOther e), (mem, s1))
         | (Inr body, s1) \<Rightarrow>
             (case read_token_resp body of
                None \<Rightarrow> (Inl (WxOther ErrDecode), (mem, s1))
              | Some r \<Rightarrow>
                  if tr_code r \<noteq> 0 then (Inl (ApiError (tr_code r) (tr_message r)), (mem, s1))
                  else if tr_token r = [] then
                    (Inl (WxOther (ErrText ''wechat token response missing access_token'')), (mem, s1))
                  else
                    (let ttl = seconds64 (tr_expires r - 60);
                         (now, s2) = tm_now tm s1;
                         mem' = \<lparr>tk_token = tr_token r, tk_expires = now + ttl\<rparr>;
                         s3 = (if tm_has_cache tm \<and> 0 < ttl then snd (tm_cache_set tm (tr_token r) ttl s2) else s2)
                     in (Inr (tr_token r), (mem', s3)))))"

text \<open>Without a token in memory, or with an expired one: the cache, and then the service.\<close>

definition cached_or_fetched :: "'s token_manager \<Rightarrow> (token_memory \<times> 's, string) wx" where
  "cached_or_fetched tm ms =
     (let (mem, s) = ms
      in if \<not> tm_has_cache tm then fetch_locked tm (mem, s)
         else case tm_cache_get tm s of
                (Inr (Some token), s1) \<Rightarrow>
                  if token \<noteq> [] then
                    (let (now, s2) = tm_now tm s1
                     in (Inr token, (\<lparr>tk_token = token, tk_expires = now + 60 * second\<rparr>, s2)))
                  else fetch_locked tm (mem, s1)
              | (_, s1) \<Rightarrow> fetch_locked tm (mem, s1))"

definition token_manager_get :: "'s token_manager \<Rightarrow> (token_memory \<times> 's, string) wx" where
  "token_manager_get tm ms =
     (let (mem, s) = ms
      in if tk_token mem = [] then cached_or_fetched tm (mem, s)
         else let (now, s1) = tm_now tm s
              in if now < tk_expires mem then (Inr (tk_token mem), (mem, s1)) else cached_or_fetched tm (mem, s1))"

definition token_manager_refresh :: "'s token_manager \<Rightarrow> (token_memory \<times> 's, string) wx" where
  "token_manager_refresh tm ms =
     (let (mem, s) = ms; s1 = (if tm_has_cache tm then snd (tm_cache_delete tm s) else s)
      in fetch_locked tm (forget, s1))"

text \<open>\<open>NewTokenManager(...).WithCache\<close> on the cache in Redis.\<close>

definition new_token_manager ::
  "('s, 'z) env_scheme \<Rightarrow> token_cache \<Rightarrow> string \<Rightarrow> string \<Rightarrow> 's transport \<Rightarrow> 's token_manager" where
  "new_token_manager R c app secret client =
     \<lparr>tm_app = app, tm_secret = secret, tm_endpoint = ''https://api.weixin.qq.com/cgi-bin/token'',
      tm_has_cache = True, tm_cache_get = token_get R c, tm_cache_set = token_set R c,
      tm_cache_delete = token_delete R c, tm_now = env_now R, tm_client = client\<rparr>"

section \<open>Pushing a text\<close>

text \<open>
  A string in JSON as \<open>json.Marshal\<close> writes it: quotes, backslashes and control characters
  escaped, and \<open><\<close>, \<open>>\<close>, \<open>&\<close>, the two line separators and bytes that are no UTF-8 too; the
  members of a map come in the order of their names.
\<close>

definition json_escape_seg :: "rune \<times> string \<Rightarrow> string" where
  "json_escape_seg x =
     (let (r, bytes) = x in
      if r = 34 \<or> r = 92 then [chr 92, chr r]
      else if r = 8 then [chr 92, CHR ''b''] else if r = 12 then [chr 92, CHR ''f'']
      else if r = 10 then [chr 92, CHR ''n''] else if r = 13 then [chr 92, CHR ''r'']
      else if r = 9 then [chr 92, CHR ''t'']
      else if r < 32 \<or> r = 60 \<or> r = 62 \<or> r = 38 then chr 92 # ''u00'' @ [hex_digit (r div 16), hex_digit (r mod 16)]
      else if r = rune_error \<and> length bytes = 1 then chr 92 # ''ufffd''
      else if r = 0x2028 \<or> r = 0x2029 then chr 92 # ''u202'' @ [hex_digit (r mod 16)]
      else bytes)"

definition json_quote :: "string \<Rightarrow> string" where
  "json_quote t = [chr 34] @ concat (map json_escape_seg (segs t)) @ [chr 34]"

definition kf_payload :: "string \<Rightarrow> string \<Rightarrow> string" where
  "kf_payload open_id txt =
     ''{'' @ json_quote ''msgtype'' @ '':'' @ json_quote ''text'' @ '','' @ json_quote ''text'' @ '':{'' @
     json_quote ''content'' @ '':'' @ json_quote txt @ ''},'' @ json_quote ''touser'' @ '':'' @ json_quote open_id @ ''}''"

record 's kf_client =
  kf_endpoint :: string
  kf_http :: "'s transport"

definition new_kf_client :: "'s transport \<Rightarrow> 's kf_client" where
  "new_kf_client client = \<lparr>kf_endpoint = ''https://api.weixin.qq.com/cgi-bin/message/custom/send'', kf_http = client\<rparr>"

definition kf_send_text :: "'s kf_client \<Rightarrow> string \<Rightarrow> string \<Rightarrow> string \<Rightarrow> ('s, unit) wx" where
  "kf_send_text k token open_id txt s =
     (case kf_http k \<lparr>hq_method = ''POST'', hq_url = kf_endpoint k @ ''?access_token='' @ token, hq_json = True,
                      hq_body = kf_payload open_id txt\<rparr> s of
        (Inl e, s1) \<Rightarrow> (Inl (WxOther e), s1)
      | (Inr body, s1) \<Rightarrow>
          (case json_object body of
             None \<Rightarrow> (Inl (WxOther ErrDecode), s1)
           | Some ms \<Rightarrow>
               (case (read_int ''errcode'' ms 0, read_text ''errmsg'' ms []) of
                  (Some c, Some m) \<Rightarrow> if c \<noteq> 0 then (Inl (ApiError c m), s1) else (Inr (), s1)
                | _ \<Rightarrow> (Inl (WxOther ErrDecode), s1))))"

end
