(* ===== verification/Gateway.thy ===== *)
theory Gateway
  imports Agent_Client Quota WeChat Auth
begin

text \<open>
  Package \<open>internal/gateway\<close>: the HTTP handlers. What a handler uses of a request (query and path
  parameters, the decoded body, the session cookie) are its arguments: a body is \<open>None\<close> when
  \<open>ShouldBindJSON\<close> refuses it. A handler answers a response and the new state; the agent, the
  token source, the pusher, the deduper, the limiter and the quota manager are interfaces, the
  fields of the record \<open>handlers\<close>, as in the code.
\<close>

section \<open>Messages\<close>

definition msg_content_request_required :: string where
  "msg_content_request_required = utf8 [99, 111, 110, 116, 101, 110, 116, 32, 21644, 32, 99, 108,
     105, 101, 110, 116, 95, 114, 101, 113, 117, 101, 115, 116, 95, 105, 100, 32, 24517, 22635]"

definition msg_content_required :: string where
  "msg_content_required = utf8 [99, 111, 110, 116, 101, 110, 116, 32, 24517, 22635]"

definition msg_too_large :: string where
  "msg_too_large = utf8 [28040, 24687, 19981, 33021, 36229, 36807, 32, 52, 48, 48, 48, 32, 20010,
     23383, 31526]"

definition msg_bad_request_id :: string where
  "msg_bad_request_id = utf8 [99, 108, 105, 101, 110, 116, 95, 114, 101, 113, 117, 101, 115, 116, 95,
     105, 100, 32, 26684, 24335, 19981, 27491, 30830]"

definition msg_chat_required :: string where
  "msg_chat_required = utf8 [99, 104, 97, 110, 110, 101, 108, 12289, 101, 120, 116, 101, 114, 110,
     97, 108, 95, 105, 100, 32, 21644, 32, 116, 101, 120, 116, 32, 24517, 22635]"

definition msg_params_required :: string where
  "msg_params_required = utf8 [99, 104, 97, 110, 110, 101, 108, 32, 21644, 32, 101, 120, 116, 101,
     114, 110, 97, 108, 95, 105, 100, 32, 24517, 22635]"

definition msg_quota_exhausted :: string where
  "msg_quota_exhausted = utf8 [20170, 26085, 23545, 35805, 39069, 24230, 24050, 29992, 23436]"

definition msg_quota_unavailable :: string where
  "msg_quota_unavailable = utf8 [23545, 35805, 39069, 24230, 26242, 26102, 19981, 21487, 29992,
     65292, 35831, 31245, 21518, 37325, 35797]"

definition msg_distracted :: string where
  "msg_distracted = utf8 [21756, 65292, 26412, 23567, 22992, 31361, 28982, 36208, 31070, 20102,
     65292, 20877, 35828, 19968, 36941, 65281]"

definition msg_captcha_unavailable :: string where
  "msg_captcha_unavailable = utf8 [39564, 35777, 30721, 26242, 26102, 19981, 21487, 29992]"

definition msg_registration_required :: string where
  "msg_registration_required = utf8 [35831, 23436, 25972, 22635, 20889, 27880, 20876, 20449, 24687]"

definition msg_email_required :: string where
  "msg_email_required = utf8 [37038, 31665, 24517, 22635]"

definition msg_email_code_required :: string where
  "msg_email_code_required = utf8 [37038, 31665, 21644, 39564, 35777, 30721, 24517, 22635]"

definition msg_login_required :: string where
  "msg_login_required = utf8 [35831, 23436, 25972, 22635, 20889, 30331, 24405, 20449, 24687]"

definition msg_email_captcha_required :: string where
  "msg_email_captcha_required = utf8 [37038, 31665, 21644, 22270, 24418, 39564, 35777, 30721, 24517, 22635]"

definition msg_reset_required :: string where
  "msg_reset_required = utf8 [37038, 31665, 12289, 39564, 35777, 30721, 21644, 26032, 23494, 30721,
     24517, 22635]"

definition msg_logout_failed :: string where
  "msg_logout_failed = utf8 [26242, 26102, 26080, 27861, 36864, 20986, 30331, 24405]"

definition msg_please_login :: string where
  "msg_please_login = utf8 [35831, 20808, 30331, 24405]"

definition msg_session_ended :: string where
  "msg_session_ended = utf8 [30331, 24405, 29366, 24577, 24050, 22833, 25928]"

definition msg_bad_credentials :: string where
  "msg_bad_credentials = utf8 [37038, 31665, 25110, 23494, 30721, 19981, 27491, 30830]"

definition msg_bad_captcha :: string where
  "msg_bad_captcha = utf8 [22270, 24418, 39564, 35777, 30721, 19981, 27491, 30830, 25110, 24050,
     36807, 26399]"

definition msg_bad_code :: string where
  "msg_bad_code = utf8 [37038, 31665, 39564, 35777, 30721, 19981, 27491, 30830, 25110, 24050, 36807, 26399]"

definition msg_email_in_use :: string where
  "msg_email_in_use = utf8 [35813, 37038, 31665, 24050, 32463, 27880, 20876]"

definition msg_mail_unavailable :: string where
  "msg_mail_unavailable = utf8 [37038, 20214, 21457, 36865, 26242, 26102, 19981, 21487, 29992, 65292,
     35831, 31245, 21518, 37325, 35797]"

definition msg_rate_limited :: string where
  "msg_rate_limited = utf8 [35831, 31245, 21518, 20877, 21457, 36865, 39564, 35777, 30721]"


section \<open>Responses\<close>

text \<open>An error text is written out, or is \<open>Error()\<close> of an error at hand.\<close>

datatype web_text = Said string | TextOf go_error | TextOfRpc rpc_error

text \<open>The values behind the JSON bodies.\<close>

datatype web_body =
    NoBody
  | PlainText string
  | StatusBody string
  | ErrorBody string web_text
  | QuotaErrorBody string string string snapshot
  | DependencyBody string string string
  | SpacesBody "web_space list"
  | MessagesBody "web_message list"
  | BatchBody web_batch snapshot
  | ReplyBody string "snapshot option"
  | CaptchaBody string string
  | UserBody user
  | SessionBody user snapshot

record cookie =
  ck_name :: string
  ck_value :: string
  ck_path :: string
  ck_max_age :: int
  ck_http_only :: bool
  ck_secure :: bool
  ck_lax :: bool

record web_response =
  ws_status :: nat
  ws_headers :: "(string \<times> string) list"
  ws_cookies :: "cookie list"
  ws_body :: web_body

definition json_response :: "nat \<Rightarrow> web_body \<Rightarrow> web_response" where
  "json_response status body = \<lparr>ws_status = status, ws_headers = [], ws_cookies = [], ws_body = body\<rparr>"

definition no_content :: web_response where
  "no_content = json_response 204 NoBody"

definition api_error :: "nat \<Rightarrow> string \<Rightarrow> web_text \<Rightarrow> web_response" where
  "api_error status err_code msg = json_response status (ErrorBody err_code msg)"

definition api_agent_error :: "rpc_error \<Rightarrow> web_response" where
  "api_agent_error e =
     (case status_code e of
        CodeInvalidArgument \<Rightarrow> api_error 400 ''invalid_request'' (Said ''invalid request'')
      | CodeResourceExhausted \<Rightarrow> api_error 413 ''message_too_large'' (Said ''message is too large'')
      | CodeNotFound \<Rightarrow> api_error 404 ''conversation_not_found'' (Said ''conversation not found'')
      | CodeAborted \<Rightarrow> api_error 409 ''conversation_busy'' (Said ''conversation is busy'')
      | _ \<Rightarrow> api_error 502 ''agent_error'' (Said ''agent unavailable''))"

definition mark_deprecated :: "web_response \<Rightarrow> web_response" where
  "mark_deprecated r = r\<lparr>ws_headers := (''Deprecation'', ''true'') #
     (''Link'', ''</api/v1/conversations/direct-haruhi/messages>; rel='' @ [chr 34] @ ''successor-version'' @ [chr 34]) #
     ws_headers r\<rparr>"

text \<open>\<open>Snapshot.MarshalJSON\<close> (\<open>quota.go\<close>).\<close>

definition snapshot_json :: "snapshot \<Rightarrow> string" where
  "snapshot_json sn =
     (if sn_unlimited sn then ''{'' @ json_quote ''unlimited'' @ '':true}''
      else ''{'' @ json_quote ''unlimited'' @ '':false,'' @ json_quote ''limit'' @ '':'' @ show_int (sn_limit sn) @
        '','' @ json_quote ''used'' @ '':'' @ show_int (sn_used sn) @ '','' @ json_quote ''remaining'' @ '':'' @
        show_int (sn_remaining sn) @ '','' @ json_quote ''reset_at'' @ '':'' @ json_quote (rfc3339_beijing (sn_reset sn)) @
        '','' @ json_quote ''revision'' @ '':'' @ show_int (sn_revision sn) @ ''}'')"

section \<open>The handlers' dependencies\<close>

text \<open>The interfaces \<open>quota.Manager\<close>, \<open>TokenSource\<close> and \<open>Pusher\<close>.\<close>

record 's quota_manager =
  qm_snapshot :: "subject \<Rightarrow> time \<Rightarrow> ('s, snapshot) io"
  qm_reserve :: "subject \<Rightarrow> string \<Rightarrow> time \<Rightarrow> 's \<Rightarrow> (reservation \<times> snapshot \<times> go_error option) \<times> 's"
  qm_settle :: "reservation \<Rightarrow> string \<Rightarrow> time \<Rightarrow> ('s, snapshot) io"

definition redis_quota :: "('s, 'z) env_scheme \<Rightarrow> quota \<Rightarrow> 's quota_manager" where
  "redis_quota R q = \<lparr>qm_snapshot = quota_snapshot R q, qm_reserve = reserve R q, qm_settle = settle R q\<rparr>"

record 's token_source =
  ts_get :: "('s, string) wx"
  ts_refresh :: "('s, string) wx"

type_synonym 's pusher = "string \<Rightarrow> string \<Rightarrow> string \<Rightarrow> ('s, unit) wx"

text \<open>
  \<open>Handlers\<close>. The deduper and the clock have their defaults already (\<open>RegisterRoutes\<close>,
  \<open>quotaNow\<close>); \<open>hd_auth\<close> is the configuration of the auth service, if there is one.
\<close>

record 's handlers =
  hd_wechat :: bool
  hd_token :: string
  hd_agent :: "'s agent_caller"
  hd_tokens :: "'s token_source"
  hd_pusher :: "'s pusher"
  hd_dedupe :: "string \<Rightarrow> ('s, bool) io"
  hd_limiter :: "(string \<Rightarrow> ('s, bool) io) option"
  hd_auth :: "auth_config option"
  hd_quota :: "'s quota_manager option"
  hd_session :: "(string \<Rightarrow> ('s, user) io) option"
  hd_secure :: bool
  hd_now :: "'s \<Rightarrow> time \<times> 's"

text \<open>A failing limiter lets the request pass.\<close>

definition allow_open_id :: "('s, 'z) handlers_scheme \<Rightarrow> string \<Rightarrow> 's \<Rightarrow> bool \<times> 's" where
  "allow_open_id h open_id s =
     (case hd_limiter h of
        None \<Rightarrow> (True, s)
      | Some allow \<Rightarrow> (case allow open_id s of (Inl e, s1) \<Rightarrow> (True, s1) | (Inr b, s1) \<Rightarrow> (b, s1)))"

section \<open>Quota\<close>

definition quota_subject :: "user \<Rightarrow> subject" where
  "quota_subject u = \<lparr>sj_user = us_id u, sj_admin = us_admin u\<rparr>"

definition scoped_quota_request_id :: "string \<Rightarrow> string \<Rightarrow> string" where
  "scoped_quota_request_id conversation request = conversation @ [chr 0] @ request"

definition quota_unavailable :: web_response where
  "quota_unavailable = api_error 503 ''quota_unavailable'' (Said msg_quota_unavailable)"

definition err_quota_manager_unavailable :: go_error where
  "err_quota_manager_unavailable = ErrText ''quota manager is unavailable''"

definition current_quota :: "('s, 'z) handlers_scheme \<Rightarrow> user \<Rightarrow> ('s, snapshot) io" where
  "current_quota h u s =
     (case hd_quota h of
        None \<Rightarrow> (if us_admin u then Inr unlimited_snapshot else Inl err_quota_manager_unavailable, s)
      | Some m \<Rightarrow> (case hd_now h s of (now, s1) \<Rightarrow> qm_snapshot m (quota_subject u) now s1))"

definition reserve_quota ::
  "('s, 'z) handlers_scheme \<Rightarrow> user \<Rightarrow> string \<Rightarrow> 's \<Rightarrow> (web_response + reservation \<times> snapshot) \<times> 's" where
  "reserve_quota h u request s =
     (case hd_quota h of
        None \<Rightarrow> (if us_admin u then Inr (zero_reservation, unlimited_snapshot) else Inl quota_unavailable, s)
      | Some m \<Rightarrow>
          (let (now, s1) = hd_now h s
           in case qm_reserve m (quota_subject u) request now s1 of
                ((res, snap, None), s2) \<Rightarrow> (Inr (res, snap), s2)
              | ((res, snap, Some e), s2) \<Rightarrow>
                  (if e = ErrQuotaExhausted
                   then Inl (json_response 429 (QuotaErrorBody ''daily_quota_exhausted'' msg_quota_exhausted
                          (rfc3339_beijing (sn_reset snap)) snap))
                   else Inl quota_unavailable, s2)))"

definition settle_quota :: "('s, 'z) handlers_scheme \<Rightarrow> reservation \<Rightarrow> string \<Rightarrow> ('s, snapshot) io" where
  "settle_quota h res outcome s =
     (case hd_quota h of
        None \<Rightarrow> (Inr unlimited_snapshot, s)
      | Some m \<Rightarrow> (case hd_now h s of (now, s1) \<Rightarrow> qm_settle m res outcome now s1))"

definition quota_outcome :: "web_batch \<Rightarrow> string" where
  "quota_outcome b =
     (if wb_messages b \<noteq> [] then outcome_delivered
      else if wb_status b = ''failed'' \<or> wb_status b = ''partial'' \<or> wb_status b = ''complete'' then outcome_failed
      else outcome_pending)"

definition definitive_agent_failure :: "rpc_error \<Rightarrow> bool" where
  "definitive_agent_failure e \<longleftrightarrow>
     status_code e \<in> {CodeInvalidArgument, CodeResourceExhausted, CodeNotFound, CodeAborted, CodeAlreadyExists,
       CodePermissionDenied, CodeUnauthenticated, CodeFailedPrecondition}"

definition settle_agent_error ::
  "('s, 'z) handlers_scheme \<Rightarrow> reservation \<Rightarrow> rpc_error \<Rightarrow> 's \<Rightarrow> web_response option \<times> 's" where
  "settle_agent_error h res e s =
     (case settle_quota h res (if definitive_agent_failure e then outcome_failed else outcome_pending) s of
        (Inl _, s1) \<Rightarrow> (Some quota_unavailable, s1)
      | (Inr _, s1) \<Rightarrow> (None, s1))"

section \<open>Conversations of a signed-in user\<close>

record web_message_req =
  mq_content :: string
  mq_request :: string

definition web_list_conversation_spaces :: "('s, 'z) handlers_scheme \<Rightarrow> user \<Rightarrow> 's \<Rightarrow> web_response \<times> 's" where
  "web_list_conversation_spaces h u s =
     (case ac_spaces (hd_agent h) ''api'' (us_id u) s of
        (Inl e, s1) \<Rightarrow> (api_agent_error e, s1)
      | (Inr sps, s1) \<Rightarrow> (json_response 200 (SpacesBody sps), s1))"

definition web_list_conversation_messages ::
  "('s, 'z) handlers_scheme \<Rightarrow> user \<Rightarrow> string \<Rightarrow> 's \<Rightarrow> web_response \<times> 's" where
  "web_list_conversation_messages h u conversation s =
     (case ac_messages_of (hd_agent h) ''api'' (us_id u) conversation s of
        (Inl e, s1) \<Rightarrow> (api_agent_error e, s1)
      | (Inr ms, s1) \<Rightarrow> (json_response 200 (MessagesBody ms), s1))"

text \<open>
  The common end of the two sending handlers, from the limiter on: reserve, ask the agent,
  settle. The last argument makes the answer of a batch that was settled.
\<close>

definition charged_turn ::
  "('s, 'z) handlers_scheme \<Rightarrow> user \<Rightarrow> string \<Rightarrow> string \<Rightarrow> string \<Rightarrow> (web_batch \<Rightarrow> snapshot \<Rightarrow> web_response) \<Rightarrow>
   's \<Rightarrow> web_response \<times> 's" where
  "charged_turn h u conversation content request answer s =
     (let (ok, s1) = allow_open_id h (us_id u) s
      in if \<not> ok then (api_error 429 ''rate_limited'' (Said ''too many requests''), s1)
         else case reserve_quota h u (scoped_quota_request_id conversation request) s1 of
           (Inl r, s2) \<Rightarrow> (r, s2)
         | (Inr (res, _), s2) \<Rightarrow>
             (case ac_send (hd_agent h) ''api'' (us_id u) conversation content request s2 of
                (Inl e, s3) \<Rightarrow>
                  (case settle_agent_error h res e s3 of
                     (Some r, s4) \<Rightarrow> (r, s4)
                   | (None, s4) \<Rightarrow> (api_agent_error e, s4))
              | (Inr batch, s3) \<Rightarrow>
                  (case settle_quota h res (quota_outcome batch) s3 of
                     (Inl _, s4) \<Rightarrow> (quota_unavailable, s4)
                   | (Inr snap, s4) \<Rightarrow> (answer batch snap, s4))))"

definition web_send_conversation_message ::
  "('s, 'y) env_scheme \<Rightarrow> ('s, 'z) handlers_scheme \<Rightarrow> user \<Rightarrow> string \<Rightarrow> web_message_req option \<Rightarrow>
   's \<Rightarrow> web_response \<times> 's" where
  "web_send_conversation_message R h u conversation req s =
     (case req of
        None \<Rightarrow> (api_error 400 ''invalid_request'' (Said msg_content_request_required), s)
      | Some q \<Rightarrow>
          if trim_space (mq_content q) = [] \<or> trim_space (mq_request q) = [] then
            (api_error 400 ''invalid_request'' (Said msg_content_request_required), s)
          else if 4000 < rune_count (trim_space (mq_content q)) then
            (api_error 413 ''message_too_large'' (Said msg_too_large), s)
          else if \<not> env_uuid_ok R (trim_space (mq_request q)) then
            (api_error 400 ''invalid_request'' (Said msg_bad_request_id), s)
          else charged_turn h u conversation (mq_content q) (trim_space (mq_request q))
                 (\<lambda>batch snap. json_response 200 (BatchBody batch snap)) s)"

definition web_delete_conversation_messages ::
  "('s, 'z) handlers_scheme \<Rightarrow> user \<Rightarrow> string \<Rightarrow> 's \<Rightarrow> web_response \<times> 's" where
  "web_delete_conversation_messages h u conversation s =
     (case ac_delete_of (hd_agent h) ''api'' (us_id u) conversation s of
        (Inl e, s1) \<Rightarrow> (api_agent_error e, s1)
      | (Inr _, s1) \<Rightarrow> (no_content, s1))"

text \<open>The deprecated routes are about the default conversation, and a missing request identifier is made up.\<close>

definition deprecated :: "web_response \<times> 's \<Rightarrow> web_response \<times> 's" where
  "deprecated x = (mark_deprecated (fst x), snd x)"

definition web_list_messages :: "('s, 'z) handlers_scheme \<Rightarrow> user \<Rightarrow> 's \<Rightarrow> web_response \<times> 's" where
  "web_list_messages h u s = deprecated (web_list_conversation_messages h u default_conversation s)"

definition first_reply :: "web_batch \<Rightarrow> snapshot \<Rightarrow> web_response" where
  "first_reply batch snap =
     (case wb_messages batch of
        [] \<Rightarrow> api_error 502 ''agent_error'' (Said ''agent unavailable'')
      | m # _ \<Rightarrow> json_response 200 (ReplyBody (wm_content m) (Some snap)))"

definition web_send_message ::
  "('s, 'y) env_scheme \<Rightarrow> ('s, 'z) handlers_scheme \<Rightarrow> user \<Rightarrow> web_message_req option \<Rightarrow> 's \<Rightarrow> web_response \<times> 's" where
  "web_send_message R h u req s = deprecated
     (case req of
        None \<Rightarrow> (api_error 400 ''invalid_request'' (Said msg_content_required), s)
      | Some q \<Rightarrow>
          if trim_space (mq_content q) = [] then
            (api_error 400 ''invalid_request'' (Said msg_content_required), s)
          else if 4000 < rune_count (trim_space (mq_content q)) then
            (api_error 413 ''message_too_large'' (Said msg_too_large), s)
          else if trim_space (mq_request q) = [] then
            (let (request, s1) = env_uuid_new R s
             in charged_turn h u default_conversation (mq_content q) request first_reply s1)
          else if \<not> env_uuid_ok R (trim_space (mq_request q)) then
            (api_error 400 ''invalid_request'' (Said msg_bad_request_id), s)
          else charged_turn h u default_conversation (mq_content q) (trim_space (mq_request q)) first_reply s)"

definition web_delete_messages :: "('s, 'z) handlers_scheme \<Rightarrow> user \<Rightarrow> 's \<Rightarrow> web_response \<times> 's" where
  "web_delete_messages h u s = deprecated (web_delete_conversation_messages h u default_conversation s)"

section \<open>The older interface\<close>

record chat_req =
  hq_channel :: string
  hq_external :: string
  hq_text :: string

definition api_chat :: "('s, 'z) handlers_scheme \<Rightarrow> chat_req option \<Rightarrow> 's \<Rightarrow> web_response \<times> 's" where
  "api_chat h req s =
     (case req of
        None \<Rightarrow> (api_error 400 ''invalid_request'' (Said msg_chat_required), s)
      | Some q \<Rightarrow>
          if hq_channel q = [] \<or> hq_external q = [] \<or> hq_text q = [] then
            (api_error 400 ''invalid_request'' (Said msg_chat_required), s)
          else if \<not> is_supported_channel (hq_channel q) then
            (api_error 400 ''invalid_request'' (Said ''unsupported channel''), s)
          else
            (let (ok, s1) = allow_open_id h (hq_external q) s
             in if \<not> ok then (api_error 429 ''rate_limited'' (Said ''too many requests''), s1)
                else case ac_reply (hd_agent h) (hq_channel q) (hq_external q) (hq_text q) s1 of
                  (Inl e, s2) \<Rightarrow> (api_agent_error e, s2)
                | (Inr t, s2) \<Rightarrow> (json_response 200 (ReplyBody t None), s2)))"

definition conversation_params :: "string \<Rightarrow> string \<Rightarrow> bool" where
  "conversation_params channel external \<longleftrightarrow> channel \<noteq> [] \<and> external \<noteq> [] \<and> is_supported_channel channel"

definition api_list_messages :: "('s, 'z) handlers_scheme \<Rightarrow> string \<Rightarrow> string \<Rightarrow> 's \<Rightarrow> web_response \<times> 's" where
  "api_list_messages h channel external s =
     (if \<not> conversation_params channel external then
        (api_error 400 ''invalid_request'' (Said msg_params_required), s)
      else case ac_messages (hd_agent h) channel external s of
        (Inl e, s1) \<Rightarrow> (api_agent_error e, s1)
      | (Inr ms, s1) \<Rightarrow> (json_response 200 (MessagesBody ms), s1))"

definition api_delete_messages :: "('s, 'z) handlers_scheme \<Rightarrow> string \<Rightarrow> string \<Rightarrow> 's \<Rightarrow> web_response \<times> 's" where
  "api_delete_messages h channel external s =
     (if \<not> conversation_params channel external then
        (api_error 400 ''invalid_request'' (Said msg_params_required), s)
      else case ac_delete (hd_agent h) channel external s of
        (Inl e, s1) \<Rightarrow> (api_agent_error e, s1)
      | (Inr _, s1) \<Rightarrow> (no_content, s1))"

section \<open>Health\<close>

definition healthz :: "('s, 'z) handlers_scheme \<Rightarrow> 's \<Rightarrow> web_response \<times> 's" where
  "healthz h s =
     (case ac_check (hd_agent h) s of
        (Inl e, s1) \<Rightarrow> (api_error 503 ''agent_unavailable'' (TextOfRpc e), s1)
      | (Inr _, s1) \<Rightarrow> (json_response 200 (StatusBody ''ok''), s1))"

definition livez :: web_response where
  "livez = json_response 200 (StatusBody ''ok'')"

fun readyz :: "(string \<times> ('s, unit) io option) list \<Rightarrow> 's \<Rightarrow> web_response \<times> 's" where
  "readyz [] s = (json_response 200 (StatusBody ''ok''), s)"
| "readyz ((name, None) # checks) s =
     (json_response 503 (DependencyBody ''dependency_unavailable'' ''service is not ready'' name), s)"
| "readyz ((name, Some check) # checks) s =
     (case check s of
        (Inl _, s1) \<Rightarrow> (json_response 503 (DependencyBody ''dependency_unavailable'' ''service is not ready'' name), s1)
      | (Inr _, s1) \<Rightarrow> readyz checks s1)"

section \<open>WeChat\<close>

definition wechat_verify :: "(string \<Rightarrow> string) \<Rightarrow> ('s, 'z) handlers_scheme \<Rightarrow> string \<Rightarrow> string \<Rightarrow> string \<Rightarrow> string \<Rightarrow> web_response" where
  "wechat_verify sha1 h sig ts nonce echo =
     (if check_signature sha1 (hd_token h) ts nonce sig then json_response 200 (PlainText echo)
      else json_response 403 (PlainText ''invalid signature''))"

text \<open>
  The body is the message the XML decoder reads from it, if it can be read at all. The second
  component is the work that goes on after the answer: a reply to the sender.
\<close>

definition receive ::
  "(string \<Rightarrow> string) \<Rightarrow> ('s, 'z) handlers_scheme \<Rightarrow> string \<Rightarrow> string \<Rightarrow> string \<Rightarrow> incoming_message option \<Rightarrow>
   's \<Rightarrow> (web_response \<times> (string \<times> string) option) \<times> 's" where
  "receive sha1 h sig ts nonce body s =
     (let success = json_response 200 (PlainText ''success'')
      in if \<not> check_signature sha1 (hd_token h) ts nonce sig then
           ((json_response 403 (PlainText ''invalid signature''), None), s)
         else case body of
           None \<Rightarrow> ((success, None), s)
         | Some m \<Rightarrow>
             if im_kind m \<noteq> ''text'' then ((success, None), s)
             else case hd_dedupe h (im_id m) s of
               (Inr True, s1) \<Rightarrow> ((success, None), s1)
             | (_, s1) \<Rightarrow>
                 (let (ok, s2) = allow_open_id h (im_from m) s1
                  in ((success, if ok then Some (im_from m, im_content m) else None), s2)))"

definition push_text_with_token_refresh ::
  "'s token_source \<Rightarrow> 's pusher \<Rightarrow> string \<Rightarrow> string \<Rightarrow> ('s, unit) wx" where
  "push_text_with_token_refresh tokens push open_id txt s =
     (case ts_get tokens s of
        (Inl e, s1) \<Rightarrow> (Inl e, s1)
      | (Inr token, s1) \<Rightarrow>
          (case push token open_id txt s1 of
             (Inr u, s2) \<Rightarrow> (Inr u, s2)
           | (Inl e, s2) \<Rightarrow>
               if \<not> is_token_expired_error e then (Inl e, s2)
               else case ts_refresh tokens s2 of
                 (Inl e, s3) \<Rightarrow> (Inl e, s3)
               | (Inr token', s3) \<Rightarrow> push token' open_id txt s3))"

definition handle_async :: "('s, 'z) handlers_scheme \<Rightarrow> string \<Rightarrow> string \<Rightarrow> 's \<Rightarrow> 's" where
  "handle_async h open_id txt s =
     (let (r, s1) = ac_reply (hd_agent h) ''wechat'' open_id txt s;
          reply = (case r of Inl _ \<Rightarrow> msg_distracted | Inr t \<Rightarrow> t)
      in snd (push_text_with_token_refresh (hd_tokens h) (hd_pusher h) open_id reply s1))"

section \<open>The nightly run\<close>

fun push_good_nights :: "'s token_source \<Rightarrow> 's pusher \<Rightarrow> string list \<Rightarrow> 's \<Rightarrow> 's" where
  "push_good_nights tokens push [] s = s"
| "push_good_nights tokens push (i # ids) s =
     push_good_nights tokens push ids (snd (push_text_with_token_refresh tokens push i good_night s))"

definition run_maintenance_for_date ::
  "string \<Rightarrow> 's agent_caller \<Rightarrow> 's token_source \<Rightarrow> 's pusher \<Rightarrow> 's \<Rightarrow> 's" where
  "run_maintenance_for_date date agent tokens push s =
     (case ac_maintenance agent date s of
        (Inl _, s1) \<Rightarrow> s1
      | (Inr ids, s1) \<Rightarrow> push_good_nights tokens push ids s1)"

definition run_maintenance ::
  "('s \<Rightarrow> time \<times> 's) \<Rightarrow> 's agent_caller \<Rightarrow> 's token_source \<Rightarrow> 's pusher \<Rightarrow> 's \<Rightarrow> 's" where
  "run_maintenance clock agent tokens push s =
     (let (now, s1) = clock s
      in run_maintenance_for_date (fmt_date (beijing_day now - 1)) agent tokens push s1)"

section \<open>Sessions and accounts\<close>

definition session_cookie :: string where
  "session_cookie = ''sos_session''"

definition set_session_cookie :: "('s, 'z) handlers_scheme \<Rightarrow> string \<Rightarrow> web_response \<Rightarrow> web_response" where
  "set_session_cookie h token r = r\<lparr>ws_cookies := \<lparr>ck_name = session_cookie, ck_value = token, ck_path = ''/'',
     ck_max_age = 7 * 24 * 3600, ck_http_only = True, ck_secure = hd_secure h, ck_lax = True\<rparr> # ws_cookies r\<rparr>"

definition clear_session_cookie :: "('s, 'z) handlers_scheme \<Rightarrow> web_response \<Rightarrow> web_response" where
  "clear_session_cookie h r = r\<lparr>ws_cookies := \<lparr>ck_name = session_cookie, ck_value = [], ck_path = ''/'',
     ck_max_age = - 1, ck_http_only = True, ck_secure = hd_secure h, ck_lax = True\<rparr> # ws_cookies r\<rparr>"

definition auth_error :: "go_error \<Rightarrow> web_response" where
  "auth_error e =
     (case e of
        ErrInvalidCredentials \<Rightarrow> api_error 401 ''invalid_credentials'' (Said msg_bad_credentials)
      | ErrInvalidCaptcha \<Rightarrow> api_error 400 ''invalid_captcha'' (Said msg_bad_captcha)
      | ErrInvalidCode \<Rightarrow> api_error 400 ''invalid_code'' (Said msg_bad_code)
      | ErrEmailInUse \<Rightarrow> api_error 409 ''email_in_use'' (Said msg_email_in_use)
      | ErrMailUnavailable \<Rightarrow> api_error 503 ''email_unavailable'' (Said msg_mail_unavailable)
      | ErrRateLimited \<Rightarrow> api_error 429 ''rate_limited'' (Said msg_rate_limited)
      | _ \<Rightarrow> api_error 400 ''invalid_request'' (TextOf e))"

text \<open>
  \<open>requireUser\<close>: the adapter for tests if there is one, else the auth service (without either
  the routes that use it are not registered).
\<close>

definition require_user ::
  "('s, 'y) auth_env_scheme \<Rightarrow> ('s, 'z) handlers_scheme \<Rightarrow> string option \<Rightarrow> (user \<Rightarrow> 's \<Rightarrow> web_response \<times> 's) \<Rightarrow>
   's \<Rightarrow> web_response \<times> 's" where
  "require_user R h cookie_token handler s =
     (case cookie_token of
        None \<Rightarrow> (api_error 401 ''unauthorized'' (Said msg_please_login), s)
      | Some token \<Rightarrow>
          (case (case (hd_session h, hd_auth h) of
                   (Some authenticate, _) \<Rightarrow> authenticate token s
                 | (None, Some cfg) \<Rightarrow> current_user R cfg token s
                 | (None, None) \<Rightarrow> (Inl ErrPanic, s)) of
             (Inl e, s1) \<Rightarrow> (clear_session_cookie h (api_error 401 ''unauthorized'' (Said msg_session_ended)), s1)
           | (Inr u, s1) \<Rightarrow> handler u s1))"

record credentials_req =
  cq_email :: string
  cq_password :: string
  cq_captcha :: string
  cq_answer :: string

record verify_req =
  vq_email :: string
  vq_typed :: string

record reset_req =
  eq_email :: string
  eq_typed :: string
  eq_password :: string

definition auth_captcha :: "('s, 'y) auth_env_scheme \<Rightarrow> auth_config \<Rightarrow> 's \<Rightarrow> web_response \<times> 's" where
  "auth_captcha R cfg s =
     (case new_captcha R cfg s of
        (Inl e, s1) \<Rightarrow> (api_error 503 ''captcha_unavailable'' (Said msg_captcha_unavailable), s1)
      | (Inr (i, picture), s1) \<Rightarrow>
          ((json_response 200 (CaptchaBody i picture))\<lparr>ws_headers := [(''Cache-Control'', ''no-store'')]\<rparr>, s1))"

definition auth_register_start ::
  "('s, 'y) auth_env_scheme \<Rightarrow> auth_config \<Rightarrow> credentials_req option \<Rightarrow> 's \<Rightarrow> web_response \<times> 's" where
  "auth_register_start R cfg req s =
     (case req of
        None \<Rightarrow> (api_error 400 ''invalid_request'' (Said msg_registration_required), s)
      | Some q \<Rightarrow>
          (case start_registration R cfg (cq_email q) (cq_password q) (cq_captcha q) (cq_answer q) s of
             (Inl e, s1) \<Rightarrow> (auth_error e, s1)
           | (Inr _, s1) \<Rightarrow> (json_response 202 (StatusBody ''verification_sent''), s1)))"

definition auth_register_resend ::
  "('s, 'y) auth_env_scheme \<Rightarrow> auth_config \<Rightarrow> string option \<Rightarrow> 's \<Rightarrow> web_response \<times> 's" where
  "auth_register_resend R cfg req s =
     (case req of
        None \<Rightarrow> (api_error 400 ''invalid_request'' (Said msg_email_required), s)
      | Some email \<Rightarrow>
          (case resend_registration R cfg email s of
             (Inl e, s1) \<Rightarrow> (auth_error e, s1)
           | (Inr _, s1) \<Rightarrow> (json_response 202 (StatusBody ''verification_sent''), s1)))"

text \<open>The answer of the three handlers that open a session.\<close>

definition signed_in ::
  "('s, 'z) handlers_scheme \<Rightarrow> nat \<Rightarrow> (go_error + user \<times> string) \<times> 's \<Rightarrow> web_response \<times> 's" where
  "signed_in h status x =
     (case x of
        (Inl e, s1) \<Rightarrow> (auth_error e, s1)
      | (Inr (u, token), s1) \<Rightarrow> (set_session_cookie h token (json_response status (UserBody u)), s1))"

definition auth_register_verify ::
  "('s, 'y) auth_env_scheme \<Rightarrow> auth_config \<Rightarrow> ('s, 'z) handlers_scheme \<Rightarrow> verify_req option \<Rightarrow> 's \<Rightarrow> web_response \<times> 's" where
  "auth_register_verify R cfg h req s =
     (case req of
        None \<Rightarrow> (api_error 400 ''invalid_request'' (Said msg_email_code_required), s)
      | Some q \<Rightarrow> signed_in h 201 (verify_registration R cfg (vq_email q) (vq_typed q) s))"

definition auth_login ::
  "('s, 'y) auth_env_scheme \<Rightarrow> auth_config \<Rightarrow> ('s, 'z) handlers_scheme \<Rightarrow> credentials_req option \<Rightarrow>
   's \<Rightarrow> web_response \<times> 's" where
  "auth_login R cfg h req s =
     (case req of
        None \<Rightarrow> (api_error 400 ''invalid_request'' (Said msg_login_required), s)
      | Some q \<Rightarrow> signed_in h 200 (login R cfg (cq_email q) (cq_password q) (cq_captcha q) (cq_answer q) s))"

text \<open>Only a wrong captcha and a failing mail are told apart: nothing shows whether an account exists.\<close>

definition auth_forgot_password ::
  "('s, 'y) auth_env_scheme \<Rightarrow> auth_config \<Rightarrow> credentials_req option \<Rightarrow> 's \<Rightarrow> web_response \<times> 's" where
  "auth_forgot_password R cfg req s =
     (case req of
        None \<Rightarrow> (api_error 400 ''invalid_request'' (Said msg_email_captcha_required), s)
      | Some q \<Rightarrow>
          (case start_password_reset R cfg (cq_email q) (cq_captcha q) (cq_answer q) s of
             (r, s1) \<Rightarrow>
               (if r = Inl ErrInvalidCaptcha then auth_error ErrInvalidCaptcha
                else if r = Inl ErrMailUnavailable then auth_error ErrMailUnavailable
                else json_response 202 (StatusBody ''if_account_exists_email_sent''), s1)))"

definition auth_reset_password ::
  "('s, 'y) auth_env_scheme \<Rightarrow> auth_config \<Rightarrow> ('s, 'z) handlers_scheme \<Rightarrow> reset_req option \<Rightarrow> 's \<Rightarrow> web_response \<times> 's" where
  "auth_reset_password R cfg h req s =
     (case req of
        None \<Rightarrow> (api_error 400 ''invalid_request'' (Said msg_reset_required), s)
      | Some q \<Rightarrow> signed_in h 200 (reset_password R cfg (eq_email q) (eq_typed q) (eq_password q) s))"

definition auth_session :: "('s, 'z) handlers_scheme \<Rightarrow> user \<Rightarrow> 's \<Rightarrow> web_response \<times> 's" where
  "auth_session h u s =
     (case current_quota h u s of
        (Inl _, s1) \<Rightarrow> (quota_unavailable, s1)
      | (Inr snap, s1) \<Rightarrow> (json_response 200 (SessionBody u snap), s1))"

definition auth_logout ::
  "('s, 'y) auth_env_scheme \<Rightarrow> auth_config \<Rightarrow> ('s, 'z) handlers_scheme \<Rightarrow> string option \<Rightarrow> 's \<Rightarrow> web_response \<times> 's" where
  "auth_logout R cfg h cookie_token s =
     (case logout R cfg (case cookie_token of None \<Rightarrow> [] | Some t \<Rightarrow> t) s of
        (Inl _, s1) \<Rightarrow> (api_error 503 ''logout_failed'' (Said msg_logout_failed), s1)
      | (Inr _, s1) \<Rightarrow> (clear_session_cookie h no_content, s1))"

section \<open>The static application\<close>

definition is_reserved_backend_path :: "string \<Rightarrow> bool" where
  "is_reserved_backend_path path \<longleftrightarrow>
     (\<exists>p \<in> set [''/api'', ''/healthz'', ''/livez'', ''/readyz'', ''/wechat''].
        path = p \<or> has_prefix path (p @ ''/''))"

text \<open>What a path without a route answers: the application (\<open>True\<close>) or 404.\<close>

definition serves_application :: "string \<Rightarrow> string \<Rightarrow> bool" where
  "serves_application method path \<longleftrightarrow> (method = ''GET'' \<or> method = ''HEAD'') \<and> \<not> is_reserved_backend_path path"

section \<open>Routes\<close>

text \<open>Method, path and whether a session is required (\<open>RegisterRoutes\<close>, \<open>registerAPI\<close>, \<open>registerAuth\<close>).\<close>

definition auth_routes :: "(string \<times> string \<times> bool) list" where
  "auth_routes =
     [(''GET'', ''/api/v1/auth/captcha'', False), (''POST'', ''/api/v1/auth/register/start'', False),
      (''POST'', ''/api/v1/auth/register/resend'', False), (''POST'', ''/api/v1/auth/register/verify'', False),
      (''POST'', ''/api/v1/auth/login'', False), (''POST'', ''/api/v1/auth/password/forgot'', False),
      (''POST'', ''/api/v1/auth/password/reset'', False), (''GET'', ''/api/v1/auth/session'', True),
      (''POST'', ''/api/v1/auth/logout'', True)]"

definition api_routes :: "('s, 'z) handlers_scheme \<Rightarrow> (string \<times> string \<times> bool) list" where
  "api_routes h =
     (if hd_auth h = None \<and> hd_session h = None then
        [(''POST'', ''/api/v1/chat'', False),
         (''GET'', ''/api/v1/conversations/:channel/:external_id/messages'', False),
         (''DELETE'', ''/api/v1/conversations/:channel/:external_id/messages'', False)]
      else (if hd_auth h \<noteq> None then auth_routes else []) @
        [(''GET'', ''/api/v1/conversations'', True),
         (''GET'', ''/api/v1/conversations/:conversation_id/messages'', True),
         (''POST'', ''/api/v1/conversations/:conversation_id/messages'', True),
         (''DELETE'', ''/api/v1/conversations/:conversation_id/messages'', True),
         (''GET'', ''/api/v1/conversations/messages'', True), (''POST'', ''/api/v1/conversations/messages'', True),
         (''DELETE'', ''/api/v1/conversations/messages'', True)]) @ [(''GET'', ''/healthz'', False)]"

definition register_routes :: "('s, 'z) handlers_scheme \<Rightarrow> (string \<times> string \<times> bool) list" where
  "register_routes h =
     (if hd_wechat h then [(''GET'', ''/wechat'', False), (''POST'', ''/wechat'', False)] else []) @
     [(''GET'', ''/'', False), (''GET'', ''/assets/*filepath'', False), (''GET'', ''/app/*filepath'', False),
      (''HEAD'', ''/app/*filepath'', False)] @ api_routes h"

end
