(* ===== verification/Gateway_Quota.thy ===== *)
theory Gateway_Quota
  imports Gateway Quota_Correct Agent_Correct
begin

text \<open>
  Turns and their charges. The locale \<open>turn_quota\<close> is what the sending handlers need of the quota
  manager: reserving and settling act on the user's ledger of the day as the abstract
  operations do, the settling whenever it comes. The manager on Redis meets it in a calm environment (\<open>calm_quota\<close>), and the
  handlers' lemmas are proved from the contract alone.
\<close>

section \<open>The contract of a quota manager\<close>

text \<open>
  \<open>book user s\<close> is the ledger of the day; \<open>ready user request n s\<close> says that \<open>n\<close> more calls about
  the request are in order; \<open>issued\<close> are the reservations handed out for it.
\<close>

locale turn_quota =
  fixes M :: "'s quota_manager" and now :: time and limit :: int and field :: "string \<Rightarrow> string"
    and book :: "string \<Rightarrow> 's \<Rightarrow> ledger" and ready :: "string \<Rightarrow> string \<Rightarrow> nat \<Rightarrow> 's \<Rightarrow> bool"
    and issued :: "string \<Rightarrow> string \<Rightarrow> reservation \<Rightarrow> bool"
  assumes reserves: "ready user request (Suc n) s \<Longrightarrow>
      ledger_reserve limit (field request) (book user s) = (ok, m) \<Longrightarrow>
      \<exists>res snap s'. qm_reserve M \<lparr>sj_user = user, sj_admin = False\<rparr> request now s =
          ((res, snap, if ok then None else Some ErrQuotaExhausted), s') \<and>
        book user s' = m \<and> ready user request n s' \<and> (ok \<longrightarrow> issued user request res)"
    and settles: "ready user request (Suc n) s \<Longrightarrow> issued user request res \<Longrightarrow>
      outcome \<in> {outcome_pending, outcome_delivered, outcome_failed} \<Longrightarrow>
      \<exists>snap s'. qm_settle M res outcome later s = (Inr snap, s') \<and>
        book user s' = ledger_settle (field request) outcome (book user s) \<and> ready user request n s'"

text \<open>What the answer of the agent makes of the reservation.\<close>

definition turn_outcome :: "rpc_error + web_batch \<Rightarrow> string" where
  "turn_outcome r = (case r of
     Inl e \<Rightarrow> if definitive_agent_failure e then outcome_failed else outcome_pending
   | Inr b \<Rightarrow> quota_outcome b)"

lemma turn_outcome_known: "turn_outcome r \<in> {outcome_pending, outcome_delivered, outcome_failed}"
  by (simp add: turn_outcome_def quota_outcome_def split: sum.split)

text \<open>The agent and the limiter leave the ledger of a user alone.\<close>

definition keeps_book :: "(string \<Rightarrow> 's \<Rightarrow> ledger) \<Rightarrow> (string \<Rightarrow> string \<Rightarrow> nat \<Rightarrow> 's \<Rightarrow> bool) \<Rightarrow> string \<Rightarrow> string \<Rightarrow>
    ('s \<Rightarrow> 's) \<Rightarrow> bool" where
  "keeps_book book ready user request f \<longleftrightarrow>
     (\<forall>n s. ready user request n s \<longrightarrow> book user (f s) = book user s \<and> ready user request n (f s))"

context turn_quota
begin

text \<open>A turn reserves, asks the agent, and settles as the agent's answer says.\<close>

lemma turn_books:
  assumes h: "hd_quota h = Some M" "fst (hd_now h (snd (allow_open_id h (us_id u) s))) = now" and u: "\<not> us_admin u"
    and request: "request' = scoped_quota_request_id conversation request"
    and s: "ready (us_id u) request' (Suc (Suc 0)) s" "fst (allow_open_id h (us_id u) s)"
    and apart: "keeps_book book ready (us_id u) request' (\<lambda>s. snd (allow_open_id h (us_id u) s))"
      "keeps_book book ready (us_id u) request' (\<lambda>s. snd (hd_now h s))"
      "keeps_book book ready (us_id u) request'
         (\<lambda>s. snd (ac_send (hd_agent h) ''api'' (us_id u) conversation content request s))"
    and run: "charged_turn h u conversation content request answer s = (resp, s')"
    and step: "ledger_reserve limit (field request') (book (us_id u) s) = (ok, m)"
  shows "if ok then \<exists>s2 r s3 snap. ac_send (hd_agent h) ''api'' (us_id u) conversation content request s2 = (r, s3) \<and>
        s2 = snd (reserve_quota h u request' (snd (allow_open_id h (us_id u) s))) \<and>
        book (us_id u) s2 = m \<and> book (us_id u) s' = ledger_settle (field request') (turn_outcome r) m \<and>
        resp = (case r of Inl e \<Rightarrow> api_agent_error e | Inr b \<Rightarrow> answer b snap)
    else ws_status resp = 429 \<and> book (us_id u) s' = book (us_id u) s"
proof -
  let ?user = "us_id u"
  obtain s1 where al: "allow_open_id h ?user s = (True, s1)" using s(2) by (metis prod.collapse)
  obtain t1 where t1: "hd_now h s1 = (now, t1)" using h(2) al by (metis prod.collapse snd_conv)
  have s1: "book ?user s1 = book ?user s" "ready ?user request' (Suc (Suc 0)) s1"
    using apart(1) s(1) al by (force simp: keeps_book_def)+
  have t: "book ?user t1 = book ?user s" "ready ?user request' (Suc (Suc 0)) t1"
    using apart(2) s1 t1 by (force simp: keeps_book_def)+
  have step1: "ledger_reserve limit (field request') (book ?user t1) = (ok, m)" using step t(1) by simp
  obtain res snap s2 where rs: "qm_reserve M \<lparr>sj_user = ?user, sj_admin = False\<rparr> request' now t1 =
        ((res, snap, if ok then None else Some ErrQuotaExhausted), s2)"
    "book ?user s2 = m" "ready ?user request' (Suc 0) s2" "ok \<longrightarrow> issued ?user request' res"
    using reserves [OF t(2) step1] by blast
  have rq: "reserve_quota h u request' s1 = (if ok then Inr (res, snap) else Inl (json_response 429
      (QuotaErrorBody ''daily_quota_exhausted'' msg_quota_exhausted (rfc3339_beijing (sn_reset snap)) snap)), s2)"
    using rs(1) u by (simp add: reserve_quota_def h(1) t1 quota_subject_def)
  note head = run [unfolded charged_turn_def al Let_def prod.case request [symmetric] rq]
  show ?thesis
  proof (cases ok)
    case False
    have m: "m = book ?user s" using step False by (auto simp: ledger_reserve_def split: if_splits)
    show ?thesis using head rs(2) False m by (auto simp: json_response_def)
  next
    case True
    obtain r s3 where sent: "ac_send (hd_agent h) ''api'' ?user conversation content request s2 = (r, s3)" by fastforce
    obtain later t3 where t3: "hd_now h s3 = (later, t3)" by fastforce
    have s3: "book ?user s3 = m" "ready ?user request' (Suc 0) s3"
      using apart(3) rs(2,3) sent by (force simp: keeps_book_def)+
    then have t4: "book ?user t3 = m" "ready ?user request' (Suc 0) t3"
      using apart(2) t3 by (force simp: keeps_book_def)+
    obtain snap' s4 where st: "qm_settle M res (turn_outcome r) later t3 = (Inr snap', s4)"
      "book ?user s4 = ledger_settle (field request') (turn_outcome r) m"
      using settles [OF t4(2) _ turn_outcome_known] rs(4) True t4(1) by blast
    have "s' = s4 \<and> resp = (case r of Inl e \<Rightarrow> api_agent_error e | Inr b \<Rightarrow> answer b snap')"
      using head True sent st(1)
      by (cases r) (auto simp: settle_agent_error_def settle_quota_def h(1) t3 turn_outcome_def)
    then show ?thesis using True sent st(2) rs(2) al rq by auto
  qed
qed

end

section \<open>The quota on Redis meets the contract\<close>

text \<open>
  In a calm environment, with the wall clock at one instant and counters that Lua holds exactly.
  A request is ready if its ledgers are in order, the keys of today are not due yet and
  yesterday's ledger does not know it (a request of yesterday is answered from there).
\<close>

definition today_book :: "('s, 'z) env_scheme \<Rightarrow> quota \<Rightarrow> time \<Rightarrow> string \<Rightarrow> 's \<Rightarrow> ledger" where
  "today_book R q now user s = ledger_of (hash_of (r_view R s) (quota_key q user (beijing_day now)))"

definition quota_ready :: "('s, 'z) env_scheme \<Rightarrow> quota \<Rightarrow> time \<Rightarrow> string \<Rightarrow> string \<Rightarrow> nat \<Rightarrow> 's \<Rightarrow> bool" where
  "quota_ready R q now user request n s \<longleftrightarrow>
     trim_space user \<noteq> [] \<and> trim_space request \<noteq> [] \<and> layout_day (beijing_day now) \<and> layout_day (beijing_day now - 1) \<and>
     int n < 2 ^ 52 \<and> ledgers_ok q (2 ^ 52 - int n) (r_view R s) \<and>
     r_clock R s < 1000 * unix (day_start (beijing_day now + 2)) \<and>
     ledger_of (hash_of (r_view R s) (quota_key q user (beijing_day now - 1))) (request_field R request) = None"

lemma unissued_before: "quota_ready R q now user request n s \<Longrightarrow>
    ledger_of (hash_of (r_view R s) (quota_key q user (beijing_day now - 1))) (request_field R request) = None"
  by (simp add: quota_ready_def)

context calm_env
begin

lemma reserve_clock: "r_clock R (snd (reserve R q subject request now s)) = r_clock R s"
proof (cases "countable_subject subject \<and> trim_space request \<noteq> []")
  case True
  have sc: "r_clock R (snd (reserve_script R k k' f l e e' s)) = r_clock R s" for k k' f l e e' s
    by (simp add: reserve_script_def split_beta clocks Let_def split: option.split)
  obtain x s1 where run: "reserve_script R (quota_key q (sj_user subject) (beijing_day now))
      (quota_key q (sj_user subject) (beijing_day now - 1)) (request_field R request) (q_limit q)
      (unix (day_start (beijing_day now + 2))) (unix (day_start (beijing_day now + 1))) s = (x, s1)" by fastforce
  have "r_clock R s1 = r_clock R s" using arg_cong [OF run, of "\<lambda>y. r_clock R (snd y)"] by (simp add: sc)
  then show ?thesis
    unfolding reserve_unfold [OF conjunct1 [OF True] conjunct2 [OF True]] Let_def served run by (cases x) simp_all
qed (auto simp: reserve_def countable_subject_def)

lemma settle_script_clock: "r_clock R (snd (settle_script R k f out e s)) = r_clock R s"
proof -
  consider "r_hget R k f s = Some st_reserved" "out = outcome_delivered"
    | "r_hget R k f s = Some st_reserved" "out = outcome_failed"
    | "\<not> (r_hget R k f s = Some st_reserved \<and> (out = outcome_delivered \<or> out = outcome_failed))" by blast
  then show ?thesis
    by cases (auto simp: settle_script_def split_beta clocks Let_def)
qed

lemma settle_clock: "r_clock R (snd (settle R q res outcome now s)) = r_clock R s"
proof -
  have sn: "r_clock R (snd (quota_snapshot R q subject now s)) = r_clock R s" for subject s
    by (simp add: quota_snapshot_def window_day served snapshot_script_def Let_def split: option.split)
  obtain x s1 where run: "settle_script R (rs_key res) (rs_hash res) outcome (unix (rs_expires res)) s = (x, s1)"
    by fastforce
  have "r_clock R s1 = r_clock R s"
    using arg_cong [OF run, of "\<lambda>y. r_clock R (snd y)"] by (simp add: settle_script_clock)
  then show ?thesis
    unfolding settle_def served run window_day by (cases x) (simp_all add: sn split: sum.split)
qed

end

context calm_env
begin

text \<open>What a settlement does to the ledger does not depend on when it comes; only its figures do.\<close>

lemma settle_later:
  assumes "settle R q res outcome now s = (Inr snap, s')" "countable_subject (rs_subject res)"
    and "rs_key res = quota_key q (sj_user (rs_subject res)) (beijing_day now)" "ledgers_ok q n (r_view R s')"
  shows "\<exists>snap. settle R q res outcome later s = (Inr snap, s')"
proof (cases "rs_unlimited res")
  case False
  let ?sj = "rs_subject res"
  obtain x s1 where sc: "settle_script R (rs_key res) (rs_hash res) outcome (unix (rs_expires res)) s = (x, s1)"
    by fastforce
  have ready: "\<not> sj_admin ?sj" "rs_key res \<noteq> []" "rs_hash res \<noteq> []" "sj_user ?sj \<noteq> []"
    "outcome = outcome_pending \<or> outcome = outcome_delivered \<or> outcome = outcome_failed"
    using assms(1,2) False by (auto simp: settle_def countable_subject_def split: if_splits)
  note unfolded = settle_def served sc window_day prod.case Let_def
  obtain result where x: "x = Some result"
    using assms(1) ready False unfolding unfolded by (cases x) (auto split: if_splits)
  have s': "s' = s1" and snap: "\<exists>u v. \<forall>reset. snapshot_of (env_scan_int R) q result reset = Inr (limited_snapshot q u v reset)"
    using assms(1,3) ready False unfolding unfolded x
    by (auto simp: snapshot_of_def split: if_splits sum.splits)
  from snap obtain u v where snap: "snapshot_of (env_scan_int R) q result reset = Inr (limited_snapshot q u v reset)"
    for reset by blast
  have "\<exists>m. ledger_at (r_view R s1) (quota_key q (sj_user ?sj) (beijing_day later)) m"
    using assms(4) unfolding s' ledgers_ok_def ledger_ok_def by blast
  then obtain m where "ledger_at (r_view R s1) (quota_key q (sj_user ?sj) (beijing_day later)) m" by blast
  note figures = snapshot_script_ledger [OF this]
  have qs: "\<exists>sn. quota_snapshot R q ?sj later s1 = (Inr sn, s1)"
    using assms(2) ready unfolding quota_snapshot_def served window_day
    by (simp add: figures snapshot_of_reply countable_subject_def)
  show ?thesis
    using ready False qs unfolding unfolded x s' by (auto simp: snap)
qed (use assms(1) in \<open>auto simp: settle_def\<close>)

end

locale calm_quota = calm_env R for R :: "('s, 'z) env_scheme" +
  fixes q :: quota and now :: time
  assumes exact: "lua_exact (q_limit q)"
begin

lemma book_at:
  assumes "quota_ready R q now user request n s"
  shows "ledger_at (r_view R s) (quota_key q user d) (ledger_of (hash_of (r_view R s) (quota_key q user d)))"
    "0 \<le> revision_at (r_view R s) (quota_key q user d)" "revision_at (r_view R s) (quota_key q user d) \<le> 2 ^ 52 - int n"
    "int (ledger_used (ledger_of (hash_of (r_view R s) (quota_key q user d)))) \<le> q_limit q"
  using assms by (auto simp: quota_ready_def ledgers_ok_def ledger_ok_def ledger_at_def)

lemma exact_revision:
  assumes "quota_ready R q now user request n s"
  shows "lua_exact (revision_at (r_view R s) (quota_key q user d))"
  using book_at(2,3) [OF assms, of d] by (simp add: lua_exact_def)

lemma ready_next:
  assumes "quota_ready R q now user request (Suc n) s" "ledgers_ok q (2 ^ 52 - int (Suc n) + 1) (r_view R s')"
    and "r_clock R s' = r_clock R s" "same_but {quota_key q user (beijing_day now)} (r_view R s) (r_view R s')"
  shows "quota_ready R q now user request n s'"
proof -
  have "quota_key q user (beijing_day now - 1) \<noteq> quota_key q user (beijing_day now)"
    using assms(1) by (simp add: quota_ready_def quota_key_inject)
  then have "r_view R s' (quota_key q user (beijing_day now - 1)) = r_view R s (quota_key q user (beijing_day now - 1))"
    using assms(4) by (simp add: same_but_def)
  then show ?thesis using assms(1-3) by (simp add: quota_ready_def hash_of_def value_at_def)
qed

lemma reserves_book:
  assumes "quota_ready R q now user request (Suc n) s"
    and "ledger_reserve (q_limit q) (request_field R request) (today_book R q now user s) = (ok, m)"
  shows "\<exists>res snap s'. reserve R q \<lparr>sj_user = user, sj_admin = False\<rparr> request now s =
      ((res, snap, if ok then None else Some ErrQuotaExhausted), s') \<and> today_book R q now user s' = m \<and>
    quota_ready R q now user request n s' \<and>
    (ok \<longrightarrow> res = issued_reservation R q \<lparr>sj_user = user, sj_admin = False\<rparr> request (beijing_day now))"
proof -
  let ?sj = "\<lparr>sj_user = user, sj_admin = False\<rparr>"
  have c: "countable_subject ?sj" "trim_space request \<noteq> []"
    using assms(1) by (simp_all add: countable_subject_def quota_ready_def)
  have early: "r_clock R s < 1000 * unix (day_start (beijing_day now + 2))" using assms(1) by (simp add: quota_ready_def)
  obtain s' v where r: "reserve R q ?sj request now s =
      ((if ok then issued_reservation R q ?sj request (beijing_day now) else zero_reservation,
        limited_snapshot q (int (ledger_used m)) v (day_start (beijing_day now + 1)),
        if ok then None else Some ErrQuotaExhausted), s')"
    "ledger_at (r_view R s') (quota_key q user (beijing_day now)) m"
    "same_but {quota_key q user (beijing_day now)} (r_view R s) (r_view R s')"
    using reserve_contract [OF c calm [of s], of q now "today_book R q now user s"
        "ledger_of (hash_of (r_view R s) (quota_key q user (beijing_day now - 1)))" ok m]
      book_at(1) [OF assms(1)] unissued_before [OF assms(1)] exact exact_revision [OF assms(1)] early assms(2)
    by (auto simp: today_book_def)
  have "lua_exact (2 ^ 52 - int (Suc n))" using assms(1) by (auto simp: quota_ready_def lua_exact_def)
  then have "ledgers_ok q (2 ^ 52 - int (Suc n) + 1) (r_view R s')"
    using reserve_ok [of q "2 ^ 52 - int (Suc n)" s ?sj request now] assms(1) exact r(1) by (simp add: quota_ready_def)
  then have "quota_ready R q now user request n s'"
    using ready_next [OF assms(1)] reserve_clock [where q = q and subject = ?sj and request = request and now = now and s = s] r(1,3) by simp
  then show ?thesis using r(1,2) by (auto simp: today_book_def ledger_at_def)
qed

lemma settles_book:
  assumes "quota_ready R q now user request (Suc n) s"
    and res: "res = issued_reservation R q \<lparr>sj_user = user, sj_admin = False\<rparr> request (beijing_day now)"
    and outcome: "outcome \<in> {outcome_pending, outcome_delivered, outcome_failed}"
  shows "\<exists>snap s'. settle R q res outcome later s = (Inr snap, s') \<and>
    today_book R q now user s' = ledger_settle (request_field R request) outcome (today_book R q now user s) \<and>
    quota_ready R q now user request n s'"
proof -
  let ?m = "today_book R q now user s" and ?key = "quota_key q user (beijing_day now)"
  have f: "rs_key res = ?key" "rs_hash res = request_field R request" "rs_subject res = \<lparr>sj_user = user, sj_admin = False\<rparr>"
    "\<not> rs_unlimited res" "rs_expires res = day_start (beijing_day now + 2)"
    by (simp_all add: res issued_reservation_def)
  have c: "countable_subject (rs_subject res)" using assms(1) by (simp add: f countable_subject_def quota_ready_def)
  have at: "ledger_at (r_view R s) (rs_key res) ?m"
    using book_at(1) [OF assms(1)] by (simp add: today_book_def f)
  have used: "lua_exact (int (ledger_used ?m))"
    using book_at(4) [OF assms(1), of "beijing_day now"] exact by (simp add: today_book_def lua_exact_def)
  have key: "rs_key res = quota_key q (sj_user (rs_subject res)) (beijing_day now)" by (simp add: f)
  have ex: "lua_exact (revision_at (r_view R s) (rs_key res))"
    using exact_revision [OF assms(1)] by (simp add: f)
  have early: "r_clock R s < 1000 * unix (rs_expires res)" using assms(1) by (simp add: f quota_ready_def)
  have req: "is_request (rs_hash res)" by (simp add: f request_field_request)
  obtain s' v where st: "settle R q res outcome now s =
      (Inr (limited_snapshot q (int (ledger_used (ledger_settle (rs_hash res) outcome ?m))) v
         (day_start (beijing_day now + 1))), s')"
    "ledger_at (r_view R s') (rs_key res) (ledger_settle (rs_hash res) outcome ?m)"
    "same_but {rs_key res} (r_view R s) (r_view R s')"
    using settle_contract [OF c f(4) req key outcome calm [of s] at used ex early] by blast
  have "lua_exact (2 ^ 52 - int (Suc n))" using assms(1) by (auto simp: quota_ready_def lua_exact_def)
  moreover have "valid_reservation q res" using key req by (auto simp: valid_reservation_def)
  ultimately have ok: "ledgers_ok q (2 ^ 52 - int (Suc n) + 1) (r_view R s')"
    using settle_ok [of q "2 ^ 52 - int (Suc n)" s res outcome now] assms(1) exact st(1) by (simp add: quota_ready_def)
  then have "quota_ready R q now user request n s'"
    using ready_next [OF assms(1)] settle_clock [where q = q and res = res and outcome = outcome and now = now and s = s] st(1,3) f(1) by simp
  moreover obtain snap where "settle R q res outcome later s = (Inr snap, s')"
    using settle_later [OF st(1) c _ ok] f by auto
  ultimately show ?thesis using st(2) f(1,2) by (auto simp: today_book_def ledger_at_def)
qed

lemma redis_books: "turn_quota (redis_quota R q) now (q_limit q) (request_field R) (today_book R q now) (quota_ready R q now)
    (\<lambda>user request res. res = issued_reservation R q \<lparr>sj_user = user, sj_admin = False\<rparr> request (beijing_day now))"
  by (unfold_locales; unfold redis_quota_def quota_manager.simps)
    (erule (1) reserves_book, rule settles_book)

end

sublocale calm_quota \<subseteq> books: turn_quota "redis_quota R q" now "q_limit q" "request_field R" "today_book R q now"
    "quota_ready R q now" "\<lambda>user request res. res = issued_reservation R q \<lparr>sj_user = user, sj_admin = False\<rparr> request (beijing_day now)"
  by (rule redis_books)

interpretation demo_books: calm_quota calm_ref demo_quota demo_now
  by (intro calm_quota.intro calm_quota_axioms.intro calm_ref.calm_env_axioms) simp

end
