(* ===== verification/Gateway_Correct.thy ===== *)
theory Gateway_Correct
  imports Gateway_Quota Auth_Secure
begin

text \<open>
  What the gateway guarantees end to end: a turn is charged by what the agent answered, a message
  to a conversation that does not exist costs nothing, an expired WeChat token is replaced by
  one the service just issued, and a session ends when its user logs out.
\<close>

section \<open>Turns\<close>

text \<open>A message the sending handler hands on.\<close>

definition sendable :: "('s, 'z) env_scheme \<Rightarrow> web_message_req \<Rightarrow> bool" where
  "sendable R m \<longleftrightarrow> trim_space (mq_content m) \<noteq> [] \<and> rune_count (trim_space (mq_content m)) \<le> 4000 \<and>
     trim_space (mq_request m) \<noteq> [] \<and> env_uuid_ok R (trim_space (mq_request m))"

lemma sendable_turn: "sendable R m \<Longrightarrow> web_send_conversation_message R h u conversation (Some m) s =
    charged_turn h u conversation (mq_content m) (trim_space (mq_request m))
      (\<lambda>batch snap. json_response 200 (BatchBody batch snap)) s"
  by (simp add: web_send_conversation_message_def sendable_def)

text \<open>
  C32. A sendable message of a user whose request is ready is charged by the agent's answer: the
  request is refused with 429 when the day's ledger has no room, and otherwise reserved before
  the agent is asked and then delivered, given back or left pending as the answer says, in the
  ledger of the day it was reserved on, however late the answer comes; the
  response is the agent's batch or the error that belongs to its status.
\<close>

theorem web_turn_follows_ledger:
  assumes "calm_env R" "lua_exact (q_limit q)"
    and "hd_quota h = Some (redis_quota R q)" "fst (hd_now h (snd (allow_open_id h (us_id u) s))) = now"
    and "\<not> us_admin u" "sendable R m"
    and "request = trim_space (mq_request m)" "rid = scoped_quota_request_id conversation request"
    and "quota_ready R q now (us_id u) rid 2 s" "fst (allow_open_id h (us_id u) s)"
    and "keeps_book (today_book R q now) (quota_ready R q now) (us_id u) rid (\<lambda>s. snd (allow_open_id h (us_id u) s))"
    and "keeps_book (today_book R q now) (quota_ready R q now) (us_id u) rid (\<lambda>s. snd (hd_now h s))"
    and "keeps_book (today_book R q now) (quota_ready R q now) (us_id u) rid
         (\<lambda>s. snd (ac_send (hd_agent h) ''api'' (us_id u) conversation (mq_content m) request s))"
    and "web_send_conversation_message R h u conversation (Some m) s = (resp, s')"
    and "ledger_reserve (q_limit q) (request_field R rid) (today_book R q now (us_id u) s) = (ok, b)"
  shows "if ok then \<exists>s2 r s3 snap. ac_send (hd_agent h) ''api'' (us_id u) conversation (mq_content m) request s2 = (r, s3) \<and>
        today_book R q now (us_id u) s2 = b \<and>
        today_book R q now (us_id u) s' = ledger_settle (request_field R rid) (turn_outcome r) b \<and>
        resp = (case r of Inl e \<Rightarrow> api_agent_error e | Inr batch \<Rightarrow> json_response 200 (BatchBody batch snap))
    else ws_status resp = 429 \<and> today_book R q now (us_id u) s' = today_book R q now (us_id u) s"
proof -
  have "calm_quota R q" using assms(1,2) by (intro calm_quota.intro calm_quota_axioms.intro)
  note books = calm_quota.redis_books [OF this, of now]
  have run: "charged_turn h u conversation (mq_content m) request
      (\<lambda>batch snap. json_response 200 (BatchBody batch snap)) s = (resp, s')"
    using assms(7,14) by (simp add: sendable_turn [OF assms(6)])
  have ready: "quota_ready R q now (us_id u) rid (Suc (Suc 0)) s" using assms(9) by (simp add: numeral_2_eq_2)
  show ?thesis
    using turn_quota.turn_books [OF books assms(3,4,5,8) ready assms(10,11,12,13) run assms(15)] by metis
qed

definition gateway_for :: "ref_db_world agent_caller \<Rightarrow> ref_db_world handlers" where
  "gateway_for agent = \<lparr>hd_wechat = False, hd_token = [], hd_agent = agent,
     hd_tokens = \<lparr>ts_get = Pair (Inl (WxOther ErrService)), ts_refresh = Pair (Inl (WxOther ErrService))\<rparr>,
     hd_pusher = \<lambda>token user txt. Pair (Inr ()), hd_dedupe = \<lambda>i. Pair (Inr False), hd_limiter = None, hd_auth = None,
     hd_quota = Some (redis_quota calm_ref demo_quota), hd_session = None, hd_secure = False, hd_now = Pair demo_now\<rparr>"

lemma gateway_for_simps [simp]:
  "hd_agent (gateway_for agent) = agent" "hd_limiter (gateway_for agent) = None"
  "hd_quota (gateway_for agent) = Some (redis_quota calm_ref demo_quota)" "hd_now (gateway_for agent) = Pair demo_now"
  by (simp_all add: gateway_for_def)

definition alice :: user where
  "alice = zero_user\<lparr>us_id := ''alice''\<rparr>"

definition hello :: web_message_req where
  "hello = \<lparr>mq_content = ''hello'', mq_request = replicate 36 (CHR ''a'')\<rparr>"

abbreviation hello_id :: "string \<Rightarrow> string" where
  "hello_id conversation \<equiv> scoped_quota_request_id conversation (trim_space (mq_request hello))"

lemma alice_simps [simp]: "us_id alice = ''alice''" "\<not> us_admin alice"
  by (simp_all add: alice_def zero_user_def)

lemma hello_trimmed: "trim_space (mq_request hello) = replicate 36 (CHR ''a'')" "trim_space (mq_content hello) = ''hello''"
proof -
  have "printable ''hello''" by (simp add: code_def)
  then show "trim_space (mq_content hello) = ''hello''" by (simp only: hello_def web_message_req.simps trim_printable)
  have "printable (replicate 36 (CHR ''a''))" by (simp add: printable_def list_all_iff code_def)
  then show "trim_space (mq_request hello) = replicate 36 (CHR ''a'')"
    by (simp only: hello_def web_message_req.simps trim_printable)
qed

lemma hello_sendable: "sendable calm_ref hello"
  using rune_count_printable [of "''hello''"]
  by (simp add: sendable_def hello_trimmed ref_uuid_def code_def)

lemma demo_view: "ref_view (db_start now) = Map.empty" "r_clock calm_ref (db_start now) = now div 1000000"
  by (simp_all add: calm_ref_def ref_view_def purge_def db_start_def ref_start_def ref_world.defs ref_db_world.defs
      fun_eq_iff)

lemma demo_book: "today_book calm_ref demo_quota demo_now user (db_start demo_now) = Map.empty"
  by (simp add: today_book_def demo_view hash_of_def)

lemma hello_ready:
  assumes "0 \<le> q_limit q" "conversation = c # rest" "33 \<le> code c" "code c < 127"
  shows "quota_ready calm_ref q demo_now ''alice'' (hello_id conversation) 2 (db_start demo_now)"
proof -
  have "code c \<in> set (runes (hello_id conversation))"
    using assms by (simp add: runes_def scoped_quota_request_id_def decode_rune_def)
  moreover have "\<not> is_space (code c)" using assms by (simp add: is_space_def)
  ultimately have "trim_space (hello_id conversation) \<noteq> []" using trim_space_empty_iff by blast
  moreover have "demo_now div 1000000 < 1000 * unix (day_start 19678)" using demo_times(1) unfolding demo_day by simp
  ultimately show ?thesis
    using ledgers_ok_mono [OF empty_ledgers [OF assms(1)], of "2 ^ 52 - 2"]
    by (simp add: quota_ready_def demo_view hash_of_def demo_day demo_days)
qed

definition quiet_server :: "ref_db_world agent_server" where
  "quiet_server = \<lparr>av_store = demo_conv, av_chat = \<lambda>i s. (Inr None, s), av_app = Some (quiet_reply, True)\<rparr>"

lemma quiet_app: "av_app quiet_server \<noteq> None"
  unfolding quiet_server_def by (simp only: agent_server.simps) simp

lemma nobody: "find_space ''direct-nobody'' = None"
  by (simp add: find_space_def fixed_spaces_def group_space_def direct_space_def all_characters_def registry_def
      haruhi_character_def kyon_character_def yuki_character_def mikuru_character_def koizumi_character_def
      haruhi_def kyon_def yuki_def mikuru_def koizumi_def)

theorem web_turn_follows_ledger_witness:
  "\<exists>resp s'. web_send_conversation_message calm_ref (gateway_for ((new_agent_client (direct_stub calm_ref quiet_server))
       \<lparr>ac_send := \<lambda>ch ex co txt i s. (Inr (zero_web_batch\<lparr>wb_messages := [zero_web_message]\<rparr>), s)\<rparr>))
       alice ''d'' (Some hello) (db_start demo_now) = (resp, s') \<and> ws_status resp = 200 \<and>
     today_book calm_ref demo_quota demo_now ''alice'' s' = [request_field calm_ref (hello_id ''d'') \<mapsto> Charged]"
proof -
  let ?batch = "zero_web_batch\<lparr>wb_messages := [zero_web_message]\<rparr>"
  let ?h = "gateway_for ((new_agent_client (direct_stub calm_ref quiet_server))
       \<lparr>ac_send := \<lambda>ch ex co txt i s. (Inr ?batch, s)\<rparr>)"
  let ?f = "request_field calm_ref (hello_id ''d'')"
  obtain resp s' where run: "web_send_conversation_message calm_ref ?h alice ''d'' (Some hello) (db_start demo_now) = (resp, s')"
    by fastforce
  have "if True then \<exists>s2 r s3 snap. ac_send (hd_agent ?h) ''api'' (us_id alice) ''d'' (mq_content hello)
        (trim_space (mq_request hello)) s2 = (r, s3) \<and>
      today_book calm_ref demo_quota demo_now (us_id alice) s2 = [?f \<mapsto> Reserved] \<and>
      today_book calm_ref demo_quota demo_now (us_id alice) s' = ledger_settle ?f (turn_outcome r) [?f \<mapsto> Reserved] \<and>
      resp = (case r of Inl e \<Rightarrow> api_agent_error e | Inr batch \<Rightarrow> json_response 200 (BatchBody batch snap))
    else ws_status resp = 429 \<and> today_book calm_ref demo_quota demo_now (us_id alice) s' =
      today_book calm_ref demo_quota demo_now (us_id alice) (db_start demo_now)"
    by (rule web_turn_follows_ledger [OF calm_ref.calm_env_axioms _ _ _ _ hello_sendable refl refl _ _ _ _ _ run])
      (use hello_ready [of demo_quota "''d''" "CHR ''d''" "[]"] in \<open>simp_all add: demo_book keeps_book_def allow_open_id_def
        ledger_reserve_def ledger_used_def code_def\<close>)
  then show ?thesis using run
    by (auto simp: turn_outcome_def quota_outcome_def ledger_settle_def json_response_def)
qed

section \<open>A conversation that does not exist\<close>

lemma unknown_conversation:
  assumes "validate_identity \<lparr>id_channel = ''api'', id_external = user\<rparr> = None" "av_app v \<noteq> None"
    and "find_space conversation = None"
  shows "ac_send (new_agent_client (direct_stub R v)) ''api'' user conversation content request s =
    (Inl (Status CodeNotFound ''conversation not found''), s)"
  using assms
  by (auto simp: new_agent_client_def client_send_def direct_stub_def rpc_map_def agent_send_def send_def
      scope_of_identity_def)

text \<open>
  C33. Through gateway, client and agent, on a server that serves each request and with no rate
  limit in the way: a message to a conversation that does not exist is answered with 404 (429 when the day is used up), and costs nothing: the request that was
  reserved for it is given back, and the day's ledger is what it was.
\<close>

theorem unknown_conversation_is_free:
  assumes "calm_env R" "lua_exact (q_limit q)"
    and "hd_quota h = Some (redis_quota R q)" "fst (hd_now h s) = now" "hd_limiter h = None"
    and "hd_agent h = new_agent_client (direct_stub R v)" "av_app v \<noteq> None" "find_space conversation = None"
    and "\<not> us_admin u" "validate_identity \<lparr>id_channel = ''api'', id_external = us_id u\<rparr> = None" "sendable R m"
    and "rid = scoped_quota_request_id conversation (trim_space (mq_request m))"
    and "quota_ready R q now (us_id u) rid 2 s" "today_book R q now (us_id u) s (request_field R rid) = None"
    and "keeps_book (today_book R q now) (quota_ready R q now) (us_id u) rid (\<lambda>s. snd (hd_now h s))"
    and "web_send_conversation_message R h u conversation (Some m) s = (resp, s')"
  shows "ws_status resp = (if int (ledger_used (today_book R q now (us_id u) s)) < q_limit q then 404 else 429) \<and>
    today_book R q now (us_id u) s' = today_book R q now (us_id u) s"
proof -
  have "calm_quota R q" using assms(1,2) by (intro calm_quota.intro calm_quota_axioms.intro)
  note books = calm_quota.redis_books [OF this, of now]
  let ?book = "today_book R q now (us_id u)" and ?f = "request_field R rid"
  note sent = unknown_conversation [OF assms(10,7,8), of R]
  obtain ok b where step: "ledger_reserve (q_limit q) ?f (?book s) = (ok, b)" by fastforce
  have b: "ok = (int (ledger_used (?book s)) < q_limit q)" "b = (if ok then (?book s)(?f \<mapsto> Reserved) else ?book s)"
    using step assms(14) by (auto simp: ledger_reserve_def split: if_splits)
  have run: "charged_turn h u conversation (mq_content m) (trim_space (mq_request m))
      (\<lambda>batch snap. json_response 200 (BatchBody batch snap)) s = (resp, s')"
    using assms(16) by (simp add: sendable_turn [OF assms(11)])
  have ready: "quota_ready R q now (us_id u) rid (Suc (Suc 0)) s" using assms(13) by (simp add: numeral_2_eq_2)
  have free: "fst (allow_open_id h (us_id u) s)"
    "keeps_book (today_book R q now) (quota_ready R q now) (us_id u) rid (\<lambda>s. snd (allow_open_id h (us_id u) s))"
    "keeps_book (today_book R q now) (quota_ready R q now) (us_id u) rid
       (\<lambda>s. snd (ac_send (hd_agent h) ''api'' (us_id u) conversation (mq_content m) (trim_space (mq_request m)) s))"
    by (simp_all add: keeps_book_def allow_open_id_def assms(5,6) sent)
  have now: "fst (hd_now h (snd (allow_open_id h (us_id u) s))) = now" using assms(4,5) by (simp add: allow_open_id_def)
  note turn = turn_quota.turn_books [OF books assms(3) now assms(9,12) ready free(1,2) assms(15) free(3) run step]
  show ?thesis
    using turn b assms(14) unfolding assms(6) sent
    by (auto simp: turn_outcome_def definitive_agent_failure_def ledger_settle_def api_agent_error_def api_error_def
        json_response_def split: if_splits)
qed

theorem unknown_conversation_is_free_witness:
  "\<exists>resp s'. web_send_conversation_message calm_ref (gateway_for (new_agent_client (direct_stub calm_ref quiet_server)))
       alice ''direct-nobody'' (Some hello) (db_start demo_now) = (resp, s') \<and> ws_status resp = 404 \<and>
     today_book calm_ref demo_quota demo_now ''alice'' s' = Map.empty"
proof -
  let ?h = "gateway_for (new_agent_client (direct_stub calm_ref quiet_server))"
  obtain resp s' where run: "web_send_conversation_message calm_ref ?h alice ''direct-nobody'' (Some hello) (db_start demo_now) =
      (resp, s')" by fastforce
  have "ws_status resp = (if int (ledger_used (today_book calm_ref demo_quota demo_now (us_id alice) (db_start demo_now))) <
        q_limit demo_quota then 404 else 429) \<and>
      today_book calm_ref demo_quota demo_now (us_id alice) s' =
      today_book calm_ref demo_quota demo_now (us_id alice) (db_start demo_now)"
    by (rule unknown_conversation_is_free [OF calm_ref.calm_env_axioms _ _ _ _ _ quiet_app nobody _ _ hello_sendable refl _ _ _ run])
      (use hello_ready [of demo_quota "''direct-nobody''" "CHR ''d''" "''irect-nobody''"] in
        \<open>simp_all add: demo_book keeps_book_def validate_identity_def is_supported_channel_def max_external_id_def code_def\<close>)
  then show ?thesis using run by (simp add: demo_book ledger_used_def)
qed

section \<open>The WeChat token\<close>

text \<open>A token the service just issued: the answer of a request for a token.\<close>

definition issues :: "'s token_manager \<Rightarrow> 's \<Rightarrow> string \<Rightarrow> bool" where
  "issues tm s token \<longleftrightarrow> (\<exists>body s' r. tm_client tm \<lparr>hq_method = ''GET'', hq_url = token_url tm, hq_json = False, hq_body = []\<rparr> s =
      (Inr body, s') \<and> read_token_resp body = Some r \<and> tr_code r = 0 \<and> tr_token r = token \<and> token \<noteq> [])"

lemma fetched_token:
  assumes "fetch_locked tm (mem, s) = (Inr token, (mem', s'))"
  shows "issues tm s token \<and> tk_token mem' = token"
  using assms
  by (auto simp: fetch_locked_def Let_def issues_def split: prod.splits sum.splits option.splits if_splits)

text \<open>
  When WeChat answers that the token has expired, the text is pushed again with a token that
  the service issued after that answer: not from memory, and not from the shared cache; from
  then on it is the token in memory. When no token can be had the push fails with that error.
\<close>

theorem expired_token_is_replaced:
  assumes "tokens = \<lparr>ts_get = token_manager_get tm, ts_refresh = token_manager_refresh tm\<rparr>"
    and "token_manager_get tm ms = (Inr old, ms1)" "push old open_id txt ms1 = (Inl e, ms2)" "is_token_expired_error e"
    and "push_text_with_token_refresh tokens push open_id txt ms = (r, ms')"
  shows "(\<exists>e'. token_manager_refresh tm ms2 = (Inl e', ms') \<and> r = Inl e') \<or>
    (\<exists>token ms3 s. token_manager_refresh tm ms2 = (Inr token, ms3) \<and> issues tm s token \<and> tk_token (fst ms3) = token \<and>
      push token open_id txt ms3 = (r, ms'))"
proof -
  obtain x ms3 where x: "token_manager_refresh tm ms2 = (x, ms3)" by (metis surj_pair)
  show ?thesis
  proof (cases x)
    case (Inl e')
    then show ?thesis using assms x by (simp add: push_text_with_token_refresh_def)
  next
    case (Inr token)
    obtain s where "fetch_locked tm (forget, s) = (Inr token, ms3)"
      using x Inr by (auto simp: token_manager_refresh_def Let_def split: prod.splits)
    then have "issues tm s token \<and> tk_token (fst ms3) = token" by (cases ms3) (auto dest: fetched_token)
    then show ?thesis using assms x Inr by (auto simp: push_text_with_token_refresh_def)
  qed
qed

text \<open>A service that answers every request with the token \<open>new\<close>, and a pusher that wants that one.\<close>

definition demo_tokens :: "unit token_manager" where
  "demo_tokens = \<lparr>tm_app = ''app'', tm_secret = ''secret'', tm_endpoint = ''token'', tm_has_cache = False,
     tm_cache_get = Pair (Inr None), tm_cache_set = \<lambda>t x. Pair (Inr ()), tm_cache_delete = Pair (Inr ()),
     tm_now = Pair 0, tm_client = \<lambda>q. Pair (Inr (with_quotes ''{~access_token~:~new~,~expires_in~:7200}''))\<rparr>"

definition choosy_push :: "string \<Rightarrow> string \<Rightarrow> string \<Rightarrow> (token_memory \<times> unit, unit) wx" where
  "choosy_push token open_id txt s = (if token = ''new'' then Inr () else Inl (ApiError 42001 ''expired''), s)"

lemmas json_fuel = json_value.simps(2) [of "pred_numeral k", folded numeral_eq_Suc]
  json_elements.simps(2) [of "pred_numeral k", folded numeral_eq_Suc]
  json_members.simps(2) [of "pred_numeral k", folded numeral_eq_Suc] for k

lemma quoted_printable: "printable t \<Longrightarrow> printable (with_quotes t)"
  by (auto simp: printable_def with_quotes_def list_all_iff)

lemma runes_printable: "runes t = map code t" if "printable t" for t
  using that by (simp add: runes_def segs_printable comp_def)

lemma demo_runes: "runes (with_quotes ''{~access_token~:~new~,~expires_in~:7200}'') =
  [123, 34, 97,99,99,101,115,115,95,116,111,107,101,110,34,58,34,110,101,119,34,44,34,101,120,112,105,114,101,115,95,105,110,34,58,55,50,48,48,125]"
proof -
  have p: "printable ''{~access_token~:~new~,~expires_in~:7200}''" by (simp add: code_def)
  have q: "map code (with_quotes t) = map (\<lambda>c. if c = CHR ''~'' then 34 else code c) t" for t
    by (induction t) (simp_all add: with_quotes_def)
  show ?thesis unfolding runes_printable [OF quoted_printable [OF p]] q by (simp add: code_def)
qed
lemma token_texts: "json_string (97 # 99 # 99 # 101 # 115 # 115 # 95 # 116 # 111 # 107 # 101 # 110 # 34 # rest) = Some (''access_token'', rest)"
  "json_string (110 # 101 # 119 # 34 # rest) = Some (''new'', rest)"
  "json_string (101 # 120 # 112 # 105 # 114 # 101 # 115 # 95 # 105 # 110 # 34 # rest) = Some (''expires_in'', rest)"
proof -
  have p: "plain_id ''access_token''" "plain_id ''new''" "plain_id ''expires_in''"
    by (simp_all add: plain_id_def chr_eq code_def)
  show "json_string (97 # 99 # 99 # 101 # 115 # 115 # 95 # 116 # 111 # 107 # 101 # 110 # 34 # rest) = Some (''access_token'', rest)"
  "json_string (110 # 101 # 119 # 34 # rest) = Some (''new'', rest)"
  "json_string (101 # 120 # 112 # 105 # 114 # 101 # 115 # 95 # 105 # 110 # 34 # rest) = Some (''expires_in'', rest)"
    using p [THEN json_string_plain, of rest] by (simp_all add: code_def del: json_string.simps)
qed

lemma same_printable: "same_name k name \<longleftrightarrow> map (fold_rune \<circ> code) k = map (fold_rune \<circ> code) name" if "printable k" "printable name"
  using that by (simp add: same_name_def runes_printable)

lemma token_names: "same_name ''access_token'' ''access_token''" "\<not> same_name ''expires_in'' ''access_token''"
  "same_name ''expires_in'' ''expires_in''" "\<not> same_name ''access_token'' ''expires_in''"
  "\<not> same_name ''access_token'' ''errcode''" "\<not> same_name ''expires_in'' ''errcode''"
  "\<not> same_name ''access_token'' ''errmsg''" "\<not> same_name ''expires_in'' ''errmsg''"
  by (simp_all add: same_printable code_def fold_rune_def)

lemma demo_issue: "read_token_resp (with_quotes ''{~access_token~:~new~,~expires_in~:7200}'') =
    Some \<lparr>tr_token = ''new'', tr_expires = 7200, tr_code = 0, tr_message = []\<rparr>"
proof -
  have l: "length (with_quotes t) = length t" for t by (simp add: with_quotes_def)
  have "json_object (with_quotes ''{~access_token~:~new~,~expires_in~:7200}'') =
      Some [(''access_token'', JText ''new''), (''expires_in'', JNumber [55, 50, 48, 48])]"
    unfolding json_object_def parse_json_def demo_runes l
    by (simp add: json_fuel skip_json_space_def token_texts json_literal_def json_null_def json_number_def json_whole_def
        digit_rune_def json_fraction_def json_exponent_def del: json_string.simps)
  then show ?thesis
    by (simp add: read_token_resp_def token_names json_text_field_def json_int_field_def number_int_def digit_rune_def)
qed

theorem expired_token_is_replaced_witness:
  "\<exists>ms'. push_text_with_token_refresh \<lparr>ts_get = token_manager_get demo_tokens, ts_refresh = token_manager_refresh demo_tokens\<rparr>
     choosy_push ''user'' ''hi'' (\<lparr>tk_token = ''old'', tk_expires = 5\<rparr>, ()) = (Inr (), ms')"
proof -
  let ?ts = "\<lparr>ts_get = token_manager_get demo_tokens, ts_refresh = token_manager_refresh demo_tokens\<rparr>"
  let ?ms = "(\<lparr>tk_token = ''old'', tk_expires = 5\<rparr>, ()) :: token_memory \<times> unit"
  obtain r ms' where run: "push_text_with_token_refresh ?ts choosy_push ''user'' ''hi'' ?ms = (r, ms')" by (metis surj_pair)
  have get: "token_manager_get demo_tokens ?ms = (Inr ''old'', ?ms)"
    by (simp add: token_manager_get_def demo_tokens_def)
  have refreshed: "fst (token_manager_refresh demo_tokens ?ms) = Inr ''new''"
    by (simp add: token_manager_refresh_def fetch_locked_def demo_tokens_def demo_issue Let_def)
  have refused: "choosy_push ''old'' ''user'' ''hi'' ?ms = (Inl (ApiError 42001 ''expired''), ?ms)"
    by (simp add: choosy_push_def)
  have "r = Inr ()"
    using expired_token_is_replaced [OF refl get refused _ run] refreshed by (auto simp: choosy_push_def)
  then show ?thesis using run by blast
qed

section \<open>Logging out\<close>

text \<open>
  C34. On a server that serves each request: after a logout that was answered with success the session's cookie opens nothing: every
  handler behind \<open>requireUser\<close> is answered with 401 in its place, and the cookie is cleared.
\<close>

theorem logged_out_session_is_refused:
  assumes "calm_auth R" "hd_session h = None" "hd_auth h = Some cfg"
    and "sessions_ok (r_view R s)" "is_string_key (r_view R s) (session_key R cfg token)"
    and "auth_logout R cfg h (Some token) s = (resp, s1)" "ws_status resp = 204"
  shows "require_user R h (Some token) handler s1 =
    (clear_session_cookie h (api_error 401 ''unauthorized'' (Said msg_session_ended)), s1)"
proof (cases "token = []")
  case True
  then show ?thesis using assms(2,3) by (simp add: require_user_def current_user_def)
next
  case False
  let ?k = "session_key R cfg token"
  have env: "calm_env R" "redis_service R"
    using assms(1) by (simp_all add: calm_auth_def calm_env_def quiet_env_def go_env_def)
  have read: "r_get R ?k s = string_of (r_view R s) ?k" by (rule redis_service.get [OF env(2) assms(5)])
  have gone: "value_at (r_view R (r_del R ?k s)) ?k = None"
    by (simp add: redis_service.del [OF env(2)] value_at_simps)
  have "value_at (r_view R (r_srem R (user_sessions_key i) ?k (r_del R ?k s))) ?k = None" for i
  proof -
    have "is_set_key (r_view R (r_del R ?k s)) (user_sessions_key i)"
      using sessions_ok_ops(2) [OF assms(4)] by (simp add: redis_service.del [OF env(2)] sessions_ok_def)
    then show ?thesis
      using gone by (simp add: redis_service.srem [OF env(2)] Let_def value_at_simps session_not_set)
  qed
  moreover define i where "i = (case string_of (r_view R s) ?k of None \<Rightarrow> [] | Some b \<Rightarrow> blob_text b)"
  moreover have "logout R cfg token s = (Inr (), if i \<noteq> [] then r_srem R (user_sessions_key i) ?k (r_del R ?k s) else r_del R ?k s)"
    using False by (simp add: logout_def Let_def calm_env.served [OF env(1)] reading_def writing_def read i_def
        split: option.split)
  ultimately have "value_at (r_view R s1) ?k = None"
    using assms(6) gone by (auto simp: auth_logout_def split: if_splits)
  then have "is_string_key (r_view R s1) ?k" "string_of (r_view R s1) ?k = None"
    by (simp_all add: is_string_key_def string_of_def)
  then show ?thesis
    using calm_auth.read_pending [OF assms(1), of s1 ?k] assms(2,3) False
    by (simp add: require_user_def current_user_def)
qed

definition auth_gateway :: "ref_auth_world handlers" where
  "auth_gateway = \<lparr>hd_wechat = False, hd_token = [],
     hd_agent = new_agent_client (direct_stub auth_ref \<lparr>av_store = demo_conv, av_chat = \<lambda>i s. (Inr None, s), av_app = None\<rparr>),
     hd_tokens = \<lparr>ts_get = Pair (Inl (WxOther ErrService)), ts_refresh = Pair (Inl (WxOther ErrService))\<rparr>,
     hd_pusher = \<lambda>token user txt. Pair (Inr ()), hd_dedupe = \<lambda>i. Pair (Inr False), hd_limiter = None,
     hd_auth = Some demo_auth, hd_quota = None, hd_session = None, hd_secure = True, hd_now = Pair 0\<rparr>"

lemma auth_gateway_simps [simp]: "hd_session auth_gateway = None" "hd_auth auth_gateway = Some demo_auth"
  by (simp_all add: auth_gateway_def)

definition signed_in_start :: ref_auth_world where
  "signed_in_start = auth_start (put (session_key auth_ref demo_auth ''t'') (RString (Raw ''u1'')) (Some 900) Map.empty) [demo_user]"

lemma signed_in_view: "ref_view signed_in_start = put (session_key auth_ref demo_auth ''t'') (RString (Raw ''u1'')) (Some 900) Map.empty"
  by (rule ext) (simp add: signed_in_start_def purge_def put_def)

theorem logged_out_session_is_refused_witness:
  "\<exists>resp s1. fst (require_user auth_ref auth_gateway (Some ''t'') (\<lambda>u s. (json_response 200 (UserBody u), s)) signed_in_start) =
       json_response 200 (UserBody demo_user) \<and>
     auth_logout auth_ref demo_auth auth_gateway (Some ''t'') signed_in_start = (resp, s1) \<and>
     ws_status (fst (require_user auth_ref auth_gateway (Some ''t'') (\<lambda>u s. (json_response 200 (UserBody u), s)) s1)) = 401"
proof -
  let ?k = "session_key auth_ref demo_auth ''t''"
  have str: "is_string_key (r_view auth_ref signed_in_start) ?k"
    "string_of (r_view auth_ref signed_in_start) ?k = Some (Raw ''u1'')"
    by (simp_all add: signed_in_view is_string_key_def string_of_def value_at_def put_def)
  have ok: "sessions_ok (r_view auth_ref signed_in_start)"
    by (auto simp: sessions_ok_def is_set_key_def value_at_def signed_in_view put_def session_not_set)
  have read: "r_get auth_ref ?k signed_in_start = Some (Raw ''u1'')" using auth_ref.get [OF str(1)] str(2) by simp
  have "ra_users signed_in_start = [demo_user]" by (simp add: signed_in_start_def)
  then have before: "fst (require_user auth_ref auth_gateway (Some ''t'') (\<lambda>u s. (json_response 200 (UserBody u), s)) signed_in_start) =
      json_response 200 (UserBody demo_user)"
    by (simp add: require_user_def current_user_def auth_ref.served reading_def read ref_find_def demo_user_def)
  obtain resp s1 where run: "auth_logout auth_ref demo_auth auth_gateway (Some ''t'') signed_in_start = (resp, s1)"
    by (metis surj_pair)
  then have "ws_status resp = 204"
    by (auto simp: auth_logout_def logout_def Let_def auth_ref.served reading_def writing_def read
        clear_session_cookie_def no_content_def json_response_def)
  note out = logged_out_session_is_refused [OF auth_ref.calm_auth_axioms auth_gateway_simps ok str(1) run this]
  show ?thesis using before run
    by (auto simp: out clear_session_cookie_def api_error_def json_response_def)
qed

end
