(* ===== verification/Json_Fuel.thy ===== *)
theory Json_Fuel
  imports Json
begin

text \<open>
  The fuel of the JSON reader is enough: the reader never gives up for want of it. Every value
  takes a rune off the input, so a value needs at most two steps of fuel for each rune.
\<close>

section \<open>What is read is taken off the input\<close>

lemma skip_shorter: "length (skip_json_space rs) \<le> length rs"
  unfolding skip_json_space_def by (rule length_dropWhile_le)

lemma drop_digits: "length (dropWhile digit_rune rs) \<le> length rs"
  by (rule length_dropWhile_le)

lemma whole_shorter: "json_whole rs = Some (w, r) \<Longrightarrow> length r < length rs"
  using drop_digits by (auto simp: json_whole_def less_Suc_eq_le split: list.splits if_splits)

lemma fraction_shorter: "json_fraction rs = Some (w, r) \<Longrightarrow> length r \<le> length rs"
  using drop_digits by (auto simp: json_fraction_def split: list.splits if_splits) (meson le_SucI)+

lemma exponent_shorter: "json_exponent rs = Some (w, r) \<Longrightarrow> length r \<le> length rs"
  using drop_digits
  by (auto simp: json_exponent_def Let_def split: list.splits if_splits) (meson le_SucI)+

lemma number_shorter:
  assumes "json_number rs = Some (w, r)"
  shows "length r < length rs"
proof -
  obtain sign rs1 where s: "(case rs of r # rest \<Rightarrow> if r = 45 then ([45 :: rune], rest) else ([], rs) | [] \<Rightarrow> ([], [])) = (sign, rs1)"
    by fastforce
  then have "length rs1 \<le> length rs" by (auto split: list.splits if_splits)
  moreover obtain w2 rs2 f rs3 e where "json_whole rs1 = Some (w2, rs2)" "json_fraction rs2 = Some (f, rs3)"
    "json_exponent rs3 = Some (e, r)"
    using assms s by (auto simp: json_number_def Let_def split: option.splits)
  ultimately show ?thesis using whole_shorter fraction_shorter exponent_shorter by (meson le_trans less_le_trans order_le_less_trans)
qed

lemma literal_shorter:
  assumes "json_literal rs = Some (v, r)"
  shows "length r < length rs"
proof -
  have nonempty: "rs \<noteq> []" if "take k rs = x # xs" for k x xs using that by auto
  show ?thesis
    using assms nonempty number_shorter
    by (auto simp: json_literal_def json_null_def split: if_splits)
qed

lemma json_shorter:
  "json_value n rs = Some (v, r) \<Longrightarrow> length r < length rs"
  "json_elements n rs = Some (vs, r) \<Longrightarrow> length r < length rs"
  "json_members n rs = Some (ms, r) \<Longrightarrow> length r < length rs"
proof (induction n rs and n rs and n rs arbitrary: v r and vs r and ms r
    rule: json_value_json_elements_json_members.induct)
  case (2 n rs)
  obtain c rest where c: "skip_json_space rs = c # rest" using "2.prems" by (auto split: list.splits)
  have rest: "length rest < length rs" using skip_shorter [of rs] c by simp
  have q: "length beyond < length rs" if "skip_json_space rest = q # beyond" for q beyond
    using skip_shorter [of rest] that rest by simp
  note step = "2.prems" [unfolded json_value.simps c list.case]
  consider "c = 34" | "c = 91" | "c = 123" | "c \<noteq> 34" "c \<noteq> 91" "c \<noteq> 123" by blast
  then show ?case
  proof cases
    case 1
    then show ?thesis using step json_string_length rest by fastforce
  next
    case 2
    then obtain d beyond where d: "skip_json_space rest = d # beyond" using step by (auto split: list.splits)
    show ?thesis
    proof (cases "d = 93")
      case True
      then show ?thesis using step 2 d q by auto
    next
      case False
      then obtain vs where "json_elements n rest = Some (vs, r)" using step 2 d by auto
      from "2.IH"(1) [OF c _ _ d False this] 2 rest show ?thesis by simp
    qed
  next
    case 3
    then obtain d beyond where d: "skip_json_space rest = d # beyond" using step by (auto split: list.splits)
    show ?thesis
    proof (cases "d = 125")
      case True
      then show ?thesis using step 3 d q by auto
    next
      case False
      then obtain ms where "json_members n rest = Some (ms, r)" using step 3 d by auto
      from "2.IH"(2) [OF c _ _ _ d False this] 3 rest show ?thesis by simp
    qed
  next
    case 4
    then show ?thesis using step literal_shorter [of "c # rest" v r] skip_shorter [of rs] c by simp
  qed
next
  case (4 n rs)
  then obtain v r1 where v: "json_value n rs = Some (v, r1)" by (auto split: option.splits)
  from "4.IH"(1) [OF v] have r1: "length r1 < length rs" .
  from "4.prems" v obtain d beyond where d: "skip_json_space r1 = d # beyond" by (auto split: list.splits)
  have beyond: "length beyond < length rs" using skip_shorter [of r1] d r1 by simp
  show ?case
  proof (cases "d = 44")
    case True
    then obtain us where "json_elements n beyond = Some (us, r)" using "4.prems" v d by auto
    from "4.IH"(2) [OF v refl d True this] beyond show ?thesis by simp
  next
    case False
    then show ?thesis using "4.prems" v d beyond by (auto split: if_splits)
  qed
next
  case (6 n rs)
  from "6.prems" obtain c rest where c: "skip_json_space rs = c # rest" "c = 34" by (auto split: list.splits if_splits)
  with "6.prems" obtain k r1 where k: "json_string rest = Some (k, r1)" by (auto split: option.splits)
  with "6.prems" c obtain e r2 where e: "skip_json_space r1 = e # r2" "e = 58" by (auto split: list.splits if_splits)
  with "6.prems" c k obtain v r3 where v: "json_value n r2 = Some (v, r3)" by (auto split: option.splits)
  have r2: "length r2 < length rs"
    using skip_shorter [of rs] skip_shorter [of r1] json_string_length [OF k] c e by simp
  have r3: "length r3 < length rs" using "6.IH"(1) [OF c(1) _ k refl e(1) _ v] c(2) e(2) r2 by simp
  from "6.prems" c k e v obtain d beyond where d: "skip_json_space r3 = d # beyond" by (auto split: list.splits)
  have beyond: "length beyond < length rs" using skip_shorter [of r3] d r3 by simp
  show ?case
  proof (cases "d = 44")
    case True
    then obtain us where "json_members n beyond = Some (us, r)" using "6.prems" c k e v d by auto
    from "6.IH"(2) [OF c(1) _ k refl e(1) _ v refl d True this] c(2) e(2) beyond show ?thesis by simp
  next
    case False
    then show ?thesis using "6.prems" c k e v d beyond by (auto split: if_splits)
  qed
qed simp_all

section \<open>Enough fuel\<close>

definition fuel_free :: "rune list \<Rightarrow> bool" where
  "fuel_free rs \<longleftrightarrow>
     (\<forall>n m. 2 * length rs < n \<longrightarrow> 2 * length rs < m \<longrightarrow> json_value n rs = json_value m rs) \<and>
     (\<forall>n m. 2 * length rs + 1 < n \<longrightarrow> 2 * length rs + 1 < m \<longrightarrow>
        json_elements n rs = json_elements m rs \<and> json_members n rs = json_members m rs)"

lemma value_free:
  assumes shorter: "\<And>r. length r < length rs \<Longrightarrow> fuel_free r" and "2 * length rs < Suc n" "2 * length rs < Suc m"
  shows "json_value (Suc n) rs = json_value (Suc m) rs"
proof (cases "skip_json_space rs")
  case (Cons c rest)
  then have rest: "length rest < length rs" using skip_shorter [of rs] by simp
  then have "2 * length rest + 1 < n" "2 * length rest + 1 < m" using assms(2,3) by simp_all
  with shorter [OF rest] have "json_elements n rest = json_elements m rest" "json_members n rest = json_members m rest"
    unfolding fuel_free_def by blast+
  then show ?thesis by (simp add: Cons split: list.split)
qed simp

lemma parts_free:
  assumes shorter: "\<And>r. length r < length rs \<Longrightarrow> fuel_free r"
    and n: "2 * length rs + 1 < Suc n" "2 * length rs + 1 < Suc m" and same: "json_value n rs = json_value m rs"
  shows "json_elements (Suc n) rs = json_elements (Suc m) rs" "json_members (Suc n) rs = json_members (Suc m) rs"
proof -
  have small: "json_value n r = json_value m r" if "length r < length rs" for r
  proof -
    have "2 * length r < n" "2 * length r < m" using that n by simp_all
    then show ?thesis using shorter [OF that] unfolding fuel_free_def by blast
  qed
  have tail: "json_elements n r = json_elements m r \<and> json_members n r = json_members m r" if "length r < length rs" for r
  proof -
    have "2 * length r + 1 < n" "2 * length r + 1 < m" using that n by simp_all
    then show ?thesis using shorter [OF that] unfolding fuel_free_def by blast
  qed
  show "json_elements (Suc n) rs = json_elements (Suc m) rs"
  proof (cases "json_value m rs")
    case (Some p)
    obtain v r1 where p: "p = (v, r1)" by fastforce
    have "json_elements n beyond = json_elements m beyond" if "skip_json_space r1 = d # beyond" for d beyond
      using tail [of beyond] json_shorter(1) [OF Some [unfolded p]] skip_shorter [of r1] that by simp
    then show ?thesis by (simp add: same Some p split: list.split)
  qed (simp add: same)
  show "json_members (Suc n) rs = json_members (Suc m) rs"
  proof (cases "skip_json_space rs")
    case (Cons q rest)
    then have rest: "length rest < length rs" using skip_shorter [of rs] by simp
    have r2: "length r2 < length rs" if "json_string rest = Some (k, r1)" "skip_json_space r1 = c # r2" for k r1 c r2
      using json_string_length [OF that(1)] skip_shorter [of r1] that(2) rest by simp
    have r3: "length beyond < length rs"
      if "json_string rest = Some (k, r1)" "skip_json_space r1 = c # r2" "json_value m r2 = Some (v, r3)"
        "skip_json_space r3 = d # beyond" for k r1 c r2 v r3 d beyond
      using r2 [OF that(1,2)] json_shorter(1) [OF that(3)] skip_shorter [of r3] that(4) by simp
    show ?thesis
    proof (cases "json_string rest")
      case string: (Some p)
      obtain k r1 where p: "p = (k, r1)" by fastforce
      show ?thesis
      proof (cases "skip_json_space r1")
        case colon: (Cons c r2)
        have same2: "json_value n r2 = json_value m r2"
          by (rule small [OF r2 [OF string [unfolded p] colon]])
        show ?thesis
        proof (cases "json_value m r2")
          case found: (Some x)
          obtain v r3 where x: "x = (v, r3)" by fastforce
          have "json_members n beyond = json_members m beyond" if "skip_json_space r3 = d # beyond" for d beyond
            using tail [OF r3 [OF string [unfolded p] colon found [unfolded x] that]] by simp
          then show ?thesis by (simp add: Cons string p colon same2 found x split: list.split)
        qed (simp add: Cons string p colon same2)
      qed (simp add: Cons string p)
    qed (simp add: Cons)
  qed simp
qed

lemma all_fuel_free: "fuel_free rs"
proof (induction rs rule: measure_induct_rule [where f = length])
  case (less rs)
  have v: "json_value n rs = json_value m rs" if n: "2 * length rs < n" "2 * length rs < m" for n m
  proof -
    obtain n' m' where nm: "n = Suc n'" "m = Suc m'" using n by (cases n; cases m) auto
    show ?thesis using value_free [where rs = rs and n = n' and m = m', OF less] n unfolding nm by blast
  qed
  have "json_elements n rs = json_elements m rs \<and> json_members n rs = json_members m rs"
    if n: "2 * length rs + 1 < n" "2 * length rs + 1 < m" for n m
  proof -
    obtain n' m' where nm: "n = Suc n'" "m = Suc m'" using n by (cases n; cases m) auto
    then have "json_value n' rs = json_value m' rs" using n by (intro v) simp_all
    then show ?thesis using parts_free [where rs = rs and n = n' and m = m', OF less] n nm by simp
  qed
  with v show ?case unfolding fuel_free_def by blast
qed

lemma length_segs_le: "length (segs t) \<le> length t"
proof (induction t rule: segs.induct)
  case (2 c cs)
  show ?case
  proof (cases "decode_rune c cs")
    case (Pair r n)
    then have "length (segs (drop (n - 1) cs)) \<le> length (drop (n - 1) cs)" by (intro "2.IH") (simp_all add: Pair)
    then show ?thesis by (simp add: Pair)
  qed
qed simp

text \<open>
  The JSON reader runs to its end on every input: its fuel, twice the length of the text
  and one, is never what stops it, since any more of it gives the same answer.
\<close>

theorem json_fuel_is_enough:
  "json_value (Suc (2 * length body + extra)) (runes body) = json_value (Suc (2 * length body)) (runes body)"
proof -
  have "length (runes body) \<le> length body" using length_segs_le by (simp add: runes_def)
  then have "2 * length (runes body) < Suc (2 * length body + extra)" "2 * length (runes body) < Suc (2 * length body)" by simp_all
  then show ?thesis using all_fuel_free [of "runes body"] unfolding fuel_free_def by blast
qed

end
