(* ===== verification/Web_Ui.thy ===== *)
theory Web_Ui
  imports Gateway
begin

text \<open>
  Package \<open>internal/webui\<close> (\<open>webui.go\<close>): the web application embedded in the gateway. The tree of
  embedded files is the one under \<open>webui/static\<close>. Of the standard library the handler uses
  \<open>path.Clean\<close> and \<open>path.Base\<close>, and the file server of \<open>net/http\<close>, translated here up to the
  conditional and ranged requests, which choose between forms of the same file. The contents
  of a file are left out: an answer names the file that is sent.
\<close>

section \<open>Paths\<close>

text \<open>\<open>path.Clean\<close> of a path that starts with a slash: the elements that remain, last first.\<close>

fun clean_elems :: "string list \<Rightarrow> string list \<Rightarrow> string list" where
  "clean_elems acc [] = acc"
| "clean_elems acc (e # es) =
     clean_elems (if e = [] \<or> e = ''.'' then acc else if e = ''..'' then tl acc else e # acc) es"

definition clean_name :: "string \<Rightarrow> string" where
  "clean_name path = join ''/'' (rev (clean_elems [] (split_all (CHR ''/'') path)))"

text \<open>\<open>path.Base\<close>: the last element, slashes at the end aside.\<close>

definition path_base :: "string \<Rightarrow> string" where
  "path_base path =
     (if path = [] then ''.''
      else (let e = rev (takeWhile (\<lambda>c. c \<noteq> CHR ''/'') (dropWhile (\<lambda>c. c = CHR ''/'') (rev path)))
            in if e = [] then ''/'' else e))"

section \<open>The embedded tree\<close>

definition embedded_files :: "string list" where
  "embedded_files =
     [''index.html'', ''styles.css'', ''app.js'', ''assets/avatars/haruhi.svg'', ''assets/avatars/kyon.svg'',
      ''assets/avatars/koizumi.svg'', ''assets/avatars/mikuru.svg'', ''assets/avatars/yuki.svg'']"

definition embedded_directories :: "string list" where
  "embedded_directories = [''.'', ''assets'', ''assets/avatars'']"

text \<open>\<open>Open\<close> and \<open>Stat\<close>: nothing, or whether it is a directory.\<close>

definition open_embedded :: "string \<Rightarrow> bool option" where
  "open_embedded name =
     (if name \<in> set embedded_directories then Some True
      else if name \<in> set embedded_files then Some False else None)"

section \<open>The file server\<close>

datatype web_answer =
    WebFile string | WebListing string | WebMoved string | WebMissing | WebBroken | WebNotAllowed

text \<open>The name \<open>http.FS\<close> opens for a cleaned path.\<close>

definition fs_name :: "string \<Rightarrow> string" where
  "fs_name name = (if name = [] then ''.'' else name)"

definition ends_in_slash :: "string \<Rightarrow> bool" where
  "ends_in_slash path \<longleftrightarrow> path \<noteq> [] \<and> last path = CHR ''/''"

definition file_server :: "string \<Rightarrow> web_answer" where
  "file_server url =
     (let url = (if has_prefix url ''/'' then url else ''/'' @ url); name = clean_name url in
      if has_prefix (rev url) (rev ''/index.html'') then WebMoved ''./''
      else case open_embedded (fs_name name) of
             None \<Rightarrow> WebMissing
           | Some directory \<Rightarrow>
               if directory
               then (if \<not> ends_in_slash url then WebMoved (path_base url @ ''/'')
                     else let index = (if name = [] then ''index.html'' else name @ ''/index.html'')
                          in case open_embedded index of
                               Some False \<Rightarrow> WebFile index
                             | Some True \<Rightarrow> WebListing index
                             | None \<Rightarrow> WebListing (fs_name name))
               else if ends_in_slash url
               then (let base = path_base url
                     in if base = ''/'' \<or> base = ''.'' then WebBroken else WebMoved (''../'' @ base))
               else WebFile name)"

definition spa_handler :: "string \<Rightarrow> string \<Rightarrow> web_answer" where
  "spa_handler method url =
     (if method \<noteq> ''GET'' \<and> method \<noteq> ''HEAD'' then WebNotAllowed
      else (let asset = clean_name (''/'' @ url)
            in if asset \<noteq> [] \<and> asset \<noteq> ''.'' \<and> open_embedded asset = Some False then file_server url
               else file_server ''/''))"

text \<open>A request that no route of the API takes.\<close>

definition web_no_route :: "string \<Rightarrow> string \<Rightarrow> web_answer" where
  "web_no_route method path = (if serves_application method path then spa_handler method path else WebMissing)"

section \<open>What is served\<close>

text \<open>A name the handler opens has no empty element, dot or step upwards: it is valid for \<open>fs.FS\<close>.\<close>

lemma clean_elems_proper:
  "set acc \<inter> {[], ''.'', ''..''} = {} \<Longrightarrow> set (clean_elems acc es) \<inter> {[], ''.'', ''..''} = {}"
proof (induction acc es rule: clean_elems.induct)
  case (2 acc e es)
  have "set (tl acc) \<subseteq> set acc" by (cases acc) auto
  with 2(2) have "set (if e = [] \<or> e = ''.'' then acc else if e = ''..'' then tl acc else e # acc) \<inter> {[], ''.'', ''..''} = {}"
    by auto
  from 2(1) [OF this] show ?case by (simp only: clean_elems.simps)
qed simp

lemma clean_elems_last: "\<not> e \<in> {[], ''.'', ''..''} \<Longrightarrow> \<exists>es'. clean_elems acc (es @ [e]) = e # es'"
  by (induction acc es rule: clean_elems.induct) auto

lemma split_all_nonempty: "split_all sep a \<noteq> []"
  by (induction a) (auto split: list.split)

lemma split_all_snoc: "sep \<notin> set b \<Longrightarrow> split_all sep (a @ sep # b) = split_all sep a @ [b]"
proof (induction a)
  case Nil
  then show ?case by (simp add: split_all_last)
next
  case (Cons c a)
  then show ?case using split_all_nonempty [of sep a] by (cases "split_all sep a") auto
qed

lemma join_snoc: "\<exists>p. join sep (xs @ [x]) = p @ x"
  by (induction sep xs rule: join.induct) (auto intro: exI [of _ "[]"])

lemma clean_index: "\<exists>p. clean_name (a @ ''/index.html'') = p @ ''index.html''"
proof -
  obtain es' where "clean_elems [] (split_all (CHR ''/'') a @ [''index.html'']) = ''index.html'' # es'"
    using clean_elems_last [of "''index.html''" "[]"] by auto
  then show ?thesis
    using split_all_snoc [of "CHR ''/''" "''index.html''" a] join_snoc [of "''/''" "rev es'" "''index.html''"]
    by (simp add: clean_name_def)
qed

lemma ends_in_index: "has_prefix (rev url) (rev ''/index.html'') \<Longrightarrow> \<exists>a. url = a @ ''/index.html''"
proof -
  assume "has_prefix (rev url) (rev ''/index.html'')"
  then have "rev url = rev ''/index.html'' @ drop (length (rev ''/index.html'')) (rev url)"
    unfolding has_prefix_def by (metis append_take_drop_id)
  then have "rev (rev url) = rev (drop (length (rev ''/index.html'')) (rev url)) @ ''/index.html''"
    by (metis rev_append rev_rev_ident)
  then show ?thesis unfolding rev_rev_ident by blast
qed

lemma index_file: "open_embedded (p @ ''index.html'') = Some False \<Longrightarrow> p = []"
proof -
  assume "open_embedded (p @ ''index.html'') = Some False"
  then have "p @ ''index.html'' \<in> set embedded_files" by (auto simp: open_embedded_def split: if_splits)
  then have "\<exists>f \<in> set embedded_files. rev f = rev ''index.html'' @ rev p" by force
  then show "p = []" by (simp add: embedded_files_def)
qed

lemma clean_name_slash: "clean_name (''/'' @ url) = clean_name url"
  by (simp add: clean_name_def)

lemma all_slashes: "set url \<subseteq> {CHR ''/''} \<Longrightarrow> clean_elems acc (split_all (CHR ''/'') url) = acc"
  by (induction url) auto

lemma rooted_path:
  assumes "url \<noteq> []" "\<not> has_prefix url ''/''"
  shows "path_base (''/'' @ url) = path_base url" "ends_in_slash (''/'' @ url) = ends_in_slash url"
proof -
  obtain c cs where url: "url = c # cs" "c \<noteq> CHR ''/''" using assms by (cases url) (auto simp: has_prefix_def)
  then have "c \<in> set (rev url)" by simp
  then show "path_base (''/'' @ url) = path_base url"
    using url(2) by (simp add: path_base_def assms(1) dropWhile_append1 takeWhile_tail)
  show "ends_in_slash (''/'' @ url) = ends_in_slash url" using assms(1) by (simp add: ends_in_slash_def)
qed

lemma path_base_root: "path_base url = ''/'' \<Longrightarrow> set url \<subseteq> {CHR ''/''}"
proof -
  let ?t = "dropWhile (\<lambda>c. c = CHR ''/'') (rev url)"
  assume base: "path_base url = ''/''"
  have "CHR ''/'' \<notin> set (rev (takeWhile (\<lambda>c. c \<noteq> CHR ''/'') ?t))" by (auto dest: set_takeWhileD)
  with base have "takeWhile (\<lambda>c. c \<noteq> CHR ''/'') ?t = []" by (auto simp: path_base_def Let_def split: if_splits)
  then have "?t = []" using hd_dropWhile [of "\<lambda>c. c = CHR ''/''" "rev url"] by (cases ?t) (auto split: if_splits)
  then show ?thesis by (auto simp: dropWhile_eq_Nil_conv)
qed

lemma no_empty_name [simp]: "open_embedded [] = None"
  by (simp add: open_embedded_def embedded_directories_def embedded_files_def)

lemma file_served:
  assumes "open_embedded (clean_name url) = Some False"
  shows "file_server url \<in> (if ends_in_slash url then {if path_base url = ''.'' then WebBroken else WebMoved (''../'' @ path_base url)}
      else {WebFile (clean_name url)} \<union> (if clean_name url = ''index.html'' then {WebMoved ''./''} else {}))"
proof -
  define u where "u = (if has_prefix url ''/'' then url else ''/'' @ url)"
  have "url \<noteq> []" using assms by (auto simp: clean_name_def)
  then have u: "clean_name u = clean_name url" "path_base u = path_base url" "ends_in_slash u = ends_in_slash url"
    using rooted_path [of url] clean_name_slash [of url] by (auto simp: u_def)
  have base: "path_base url \<noteq> ''/''"
  proof
    assume "path_base url = ''/''"
    then have "clean_name url = []" using all_slashes path_base_root by (simp add: clean_name_def)
    then show False using assms by simp
  qed
  have name: "clean_name url \<noteq> []" using assms by auto
  have index: "clean_name url = ''index.html'' \<and> \<not> ends_in_slash url" if "has_prefix (rev u) (rev ''/index.html'')"
  proof -
    obtain a where a: "u = a @ ''/index.html''" using ends_in_index [OF \<open>has_prefix (rev u) _\<close>] by blast
    obtain p where "clean_name url = p @ ''index.html''" using clean_index [of a] a u(1) by metis
    moreover have "\<not> ends_in_slash u" using a by (simp add: ends_in_slash_def)
    ultimately show ?thesis using index_file [of p] assms u(3) by simp
  qed
  show ?thesis
    unfolding file_server_def u_def [symmetric] Let_def u fs_name_def using assms base name index by auto
qed

lemma index_served [simp]: "file_server ''/'' = WebFile ''index.html''"
  by (simp add: file_server_def has_prefix_def clean_name_def open_embedded_def fs_name_def ends_in_slash_def
      embedded_directories_def embedded_files_def)

text \<open>
  The web application answers every page it is asked for: outside the paths of the API a
  \<open>GET\<close> or \<open>HEAD\<close> gets the embedded file its cleaned path names or else the index page, which
  lets the application show its own pages; when a slash follows the name of a file, or the
  path is that of the index page, it is sent elsewhere (or, if a dot stands in between,
  refused). It never gets a listing of a directory, nor 404. No step upwards is left in the cleaned
  path. Each embedded file is reached by its name. Any other method gets 404 and no file.
\<close>

theorem web_application_answers:
  "(case web_no_route method url of
      WebFile f \<Rightarrow> serves_application method url \<and> open_embedded f = Some False \<and>
        f = (if open_embedded (clean_name url) = Some False then clean_name url else ''index.html'')
    | WebMoved to \<Rightarrow> serves_application method url \<and> open_embedded (clean_name url) = Some False \<and>
        (ends_in_slash url \<and> to = ''../'' @ path_base url \<or> clean_name url = ''index.html'' \<and> to = ''./'')
    | WebBroken \<Rightarrow> serves_application method url \<and> open_embedded (clean_name url) = Some False \<and>
        ends_in_slash url \<and> path_base url = ''.''
    | WebMissing \<Rightarrow> \<not> serves_application method url
    | WebListing d \<Rightarrow> False
    | WebNotAllowed \<Rightarrow> False) \<and>
   set (clean_elems [] (split_all (CHR ''/'') url)) \<inter> {[], ''.'', ''..''} = {} \<and>
   map (\<lambda>f. spa_handler ''GET'' (''/'' @ f)) (tl embedded_files) = map WebFile (tl embedded_files)"
proof (intro conjI)
  show "case web_no_route method url of
      WebFile f \<Rightarrow> serves_application method url \<and> open_embedded f = Some False \<and>
        f = (if open_embedded (clean_name url) = Some False then clean_name url else ''index.html'')
    | WebMoved to \<Rightarrow> serves_application method url \<and> open_embedded (clean_name url) = Some False \<and>
        (ends_in_slash url \<and> to = ''../'' @ path_base url \<or> clean_name url = ''index.html'' \<and> to = ''./'')
    | WebBroken \<Rightarrow> serves_application method url \<and> open_embedded (clean_name url) = Some False \<and>
        ends_in_slash url \<and> path_base url = ''.''
    | WebMissing \<Rightarrow> \<not> serves_application method url
    | WebListing d \<Rightarrow> False
    | WebNotAllowed \<Rightarrow> False"
  proof (cases "serves_application method url \<and> open_embedded (clean_name url) = Some False")
    case True
    moreover have "open_embedded ''.'' = Some True" by (simp add: open_embedded_def embedded_directories_def)
    ultimately have "clean_name url \<noteq> []" "clean_name url \<noteq> ''.''" by auto
    then have "web_no_route method url = file_server url"
      using True by (auto simp: web_no_route_def spa_handler_def serves_application_def clean_name_slash [simplified] Let_def)
    then show ?thesis using True file_served [of url] by (auto split: if_splits)
  next
    case False
    have "open_embedded ''index.html'' = Some False"
      by (simp add: open_embedded_def embedded_directories_def embedded_files_def)
    then show ?thesis
      using False by (auto simp: web_no_route_def spa_handler_def serves_application_def clean_name_slash [simplified] Let_def)
  qed
  show "set (clean_elems [] (split_all (CHR ''/'') url)) \<inter> {[], ''.'', ''..''} = {}"
    using clean_elems_proper [of "[]"] by simp
  show "map (\<lambda>f. spa_handler ''GET'' (''/'' @ f)) (tl embedded_files) = map WebFile (tl embedded_files)"
    by (simp add: embedded_files_def embedded_directories_def spa_handler_def file_server_def has_prefix_def clean_name_def open_embedded_def fs_name_def
      ends_in_slash_def)
qed

end
