(* ===== verification/Config.thy ===== *)
theory Config
  imports Go_Strings
begin

text \<open>
  Package \<open>internal/config\<close> (\<open>config.go\<close>): the configuration of the two services, read from the
  environment of the process. The environment variables and \<open>mail.ParseAddress\<close> are the fields
  of a record: \<open>os.Getenv\<close> gives the empty string for a variable that is not set. The equality
  of addresses up to case takes the folding of the runes outside ASCII from there too.

  A configuration that loads is exactly one that is well formed (\<open>gateway_ok\<close>, \<open>agent_ok\<close>): the
  loaders are compared with the conditions, and every refusal names the variable at fault.
\<close>

section \<open>The process\<close>

text \<open>A parsed address: its text as \<open>Address.String\<close> writes it, and the bare address.\<close>

record mail_address =
  ma_text :: string
  ma_address :: string

record process =
  pr_getenv :: "string \<Rightarrow> string"
  pr_address :: "string \<Rightarrow> mail_address option"
  pr_fold :: "rune \<Rightarrow> rune"

definition env_or :: "process \<Rightarrow> string \<Rightarrow> string \<Rightarrow> string" where
  "env_or P key def = (let v = pr_getenv P key in if v \<noteq> [] then v else def)"

section \<open>Readers of the standard library\<close>

text \<open>\<open>strconv.Atoi\<close>: an optional sign and digits, in the range of an \<open>int\<close> of 64 bits.\<close>

definition atoi :: "string \<Rightarrow> int option" where
  "atoi t =
     (let (neg, ds) = (case t of [] \<Rightarrow> (False, [])
        | c # r \<Rightarrow> if c = CHR ''-'' then (True, r) else if c = CHR ''+'' then (False, r) else (False, t));
          n = (if neg then - int (parse_nat ds) else int (parse_nat ds))
      in if ds \<noteq> [] \<and> list_all is_digit ds \<and> - (2 ^ 63) \<le> n \<and> n < 2 ^ 63 then Some n else None)"

definition parse_bool :: "string \<Rightarrow> bool option" where
  "parse_bool t =
     (if t \<in> set [''1'', ''t'', ''T'', ''true'', ''TRUE'', ''True''] then Some True
      else if t \<in> set [''0'', ''f'', ''F'', ''false'', ''FALSE'', ''False''] then Some False
      else None)"

definition env_bool :: "process \<Rightarrow> string \<Rightarrow> bool \<Rightarrow> bool" where
  "env_bool P key def =
     (let v = pr_getenv P key
      in if v = [] then def else case parse_bool v of None \<Rightarrow> def | Some b \<Rightarrow> b)"

text \<open>\<open>strings.EqualFold\<close>; a rune outside ASCII is replaced by the least of its case variants.\<close>

definition simple_fold :: "process \<Rightarrow> rune \<Rightarrow> rune" where
  "simple_fold P r = (if 65 \<le> r \<and> r \<le> 90 then r + 32 else if r < 128 then r else pr_fold P r)"

definition equal_fold :: "process \<Rightarrow> string \<Rightarrow> string \<Rightarrow> bool" where
  "equal_fold P a b \<longleftrightarrow> map (simple_fold P) (runes a) = map (simple_fold P) (runes b)"

lemma equal_fold_equiv: "equivp (equal_fold P)"
  by (rule equivpI) (auto simp: reflp_def symp_def transp_def equal_fold_def)

lemma atoi_show_nat [simp]: "n < 2 ^ 63 \<Longrightarrow> atoi (show_nat n) = Some (int n)"
proof -
  assume n: "n < 2 ^ 63"
  obtain c r where cr: "show_nat n = c # r" by (cases "show_nat n") (auto simp: show_nat.simps [of n] split: if_splits)
  then have "is_digit c" using show_nat_digits [of c n] by simp
  then have "c \<noteq> CHR ''-''" "c \<noteq> CHR ''+''" by (auto simp: is_digit_def code_def)
  moreover have "list_all is_digit (show_nat n)" using show_nat_digits by (simp add: list_all_iff)
  moreover have "int n < 2 ^ 63" using n by (metis of_nat_less_iff of_nat_numeral of_nat_power)
  moreover have "int (parse_nat (c # r)) = int n" by (simp flip: cr)
  moreover have "- (2 ^ 63) \<le> int n" by (rule order_trans [of _ 0]) simp_all
  ultimately show ?thesis by (simp add: atoi_def cr)
qed

lemma atoi_range: "atoi t = Some n \<Longrightarrow> - (2 ^ 63) \<le> n \<and> n < 2 ^ 63"
  by (auto simp: atoi_def Let_def split: prod.splits if_splits)

section \<open>The gateway\<close>

record gateway_config =
  gc_wechat_enabled :: bool
  gc_wechat_token :: string
  gc_wechat_app_id :: string
  gc_wechat_app_secret :: string
  gc_agent_addr :: string
  gc_http_addr :: string
  gc_redis_addr :: string
  gc_pg_dsn :: string
  gc_auth_pepper :: string
  gc_smtp_host :: string
  gc_smtp_port :: string
  gc_smtp_username :: string
  gc_smtp_password :: string
  gc_smtp_from :: string
  gc_smtp_tls :: bool
  gc_cookie_secure :: bool
  gc_quota_limit :: int
  gc_quota_zone :: string
  gc_release :: string
  gc_backend :: string
  gc_frontend :: string

definition shanghai :: string where
  "shanghai = ''Asia/Shanghai''"

definition read_gateway :: "process \<Rightarrow> int \<Rightarrow> string \<Rightarrow> gateway_config" where
  "read_gateway P limit zone =
     \<lparr>gc_wechat_enabled = env_bool P ''WECHAT_ENABLED'' False,
      gc_wechat_token = pr_getenv P ''WECHAT_TOKEN'',
      gc_wechat_app_id = pr_getenv P ''WECHAT_APPID'',
      gc_wechat_app_secret = pr_getenv P ''WECHAT_APPSECRET'',
      gc_agent_addr = env_or P ''AGENT_GRPC_ADDR'' ''127.0.0.1:9090'',
      gc_http_addr = env_or P ''GATEWAY_HTTP_ADDR'' '':80'',
      gc_redis_addr = env_or P ''REDIS_ADDR'' ''127.0.0.1:6379'',
      gc_pg_dsn = pr_getenv P ''PG_DSN'',
      gc_auth_pepper = pr_getenv P ''AUTH_PEPPER'',
      gc_smtp_host = env_or P ''SMTP_HOST'' ''127.0.0.1'',
      gc_smtp_port = env_or P ''SMTP_PORT'' ''1025'',
      gc_smtp_username = pr_getenv P ''SMTP_USERNAME'',
      gc_smtp_password = pr_getenv P ''SMTP_PASSWORD'',
      gc_smtp_from = env_or P ''SMTP_FROM'' ''SOS Brigade <noreply@sos.local>'',
      gc_smtp_tls = env_bool P ''SMTP_IMPLICIT_TLS'' False,
      gc_cookie_secure = env_bool P ''COOKIE_SECURE'' False,
      gc_quota_limit = limit,
      gc_quota_zone = zone,
      gc_release = pr_getenv P ''RELEASE_ID'',
      gc_backend = pr_getenv P ''BACKEND_COMMIT'',
      gc_frontend = pr_getenv P ''FRONTEND_COMMIT''\<rparr>"

definition refuse :: "string \<Rightarrow> go_error + 'a" where
  "refuse t = Inl (ErrText t)"

text \<open>
  The checks of \<open>LoadGateway\<close> after the structure is filled, in their order. The message of an
  invalid address goes without the parser's own, which follows it in the code.
\<close>

definition check_gateway :: "process \<Rightarrow> gateway_config \<Rightarrow> go_error + gateway_config" where
  "check_gateway P cfg =
     (if gc_wechat_enabled cfg \<and> gc_wechat_token cfg = [] then
        refuse ''WECHAT_TOKEN is required when WECHAT_ENABLED=true''
      else if gc_wechat_enabled cfg \<and> gc_wechat_app_id cfg = [] then
        refuse ''WECHAT_APPID is required when WECHAT_ENABLED=true''
      else if gc_wechat_enabled cfg \<and> gc_wechat_app_secret cfg = [] then
        refuse ''WECHAT_APPSECRET is required when WECHAT_ENABLED=true''
      else if gc_pg_dsn cfg = [] then refuse ''PG_DSN is required''
      else if gc_auth_pepper cfg = [] then refuse ''AUTH_PEPPER is required''
      else if \<not> gc_smtp_tls cfg then Inr cfg
      else if gc_smtp_username cfg = [] then
        refuse ''SMTP_USERNAME is required when SMTP_IMPLICIT_TLS=true''
      else if gc_smtp_password cfg = [] then
        refuse ''SMTP_PASSWORD is required when SMTP_IMPLICIT_TLS=true''
      else case pr_address P (gc_smtp_from cfg) of
        None \<Rightarrow> refuse ''SMTP_FROM must be a valid email address''
      | Some sender \<Rightarrow>
          if \<not> equal_fold P (trim_space (gc_smtp_username cfg)) (ma_address sender) then
            refuse ''SMTP_USERNAME must match the SMTP_FROM address when SMTP_IMPLICIT_TLS=true''
          else Inr cfg)"

definition load_gateway :: "process \<Rightarrow> go_error + gateway_config" where
  "load_gateway P =
     (case atoi (env_or P ''DAILY_QUOTA_LIMIT'' ''20'') of
        None \<Rightarrow> refuse ''DAILY_QUOTA_LIMIT must be a positive integer''
      | Some limit \<Rightarrow>
          if limit \<le> 0 then refuse ''DAILY_QUOTA_LIMIT must be a positive integer''
          else let zone = env_or P ''QUOTA_TIME_ZONE'' shanghai
            in if zone \<noteq> shanghai then refuse ''QUOTA_TIME_ZONE must be Asia/Shanghai''
               else check_gateway P (read_gateway P limit zone))"

section \<open>The agent\<close>

record agent_config =
  ac_deepseek_key :: string
  ac_deepseek_model :: string
  ac_pg_dsn :: string
  ac_agent_addr :: string
  ac_redis_addr :: string
  ac_release :: string
  ac_backend :: string

definition load_agent :: "process \<Rightarrow> go_error + agent_config" where
  "load_agent P =
     (let cfg = \<lparr>ac_deepseek_key = pr_getenv P ''DEEPSEEK_API_KEY'',
            ac_deepseek_model = env_or P ''DEEPSEEK_MODEL'' ''deepseek-v4-flash'',
            ac_pg_dsn = pr_getenv P ''PG_DSN'',
            ac_agent_addr = env_or P ''AGENT_GRPC_ADDR'' ''127.0.0.1:9090'',
            ac_redis_addr = env_or P ''REDIS_ADDR'' ''127.0.0.1:6379'',
            ac_release = pr_getenv P ''RELEASE_ID'',
            ac_backend = pr_getenv P ''BACKEND_COMMIT''\<rparr>
      in if ac_deepseek_key cfg = [] then refuse ''DEEPSEEK_API_KEY is required''
         else if ac_pg_dsn cfg = [] then refuse ''PG_DSN is required''
         else Inr cfg)"

section \<open>Well-formed configurations\<close>

text \<open>The type of a configuration the services may start with.\<close>

definition gateway_ok :: "process \<Rightarrow> gateway_config \<Rightarrow> bool" where
  "gateway_ok P cfg \<longleftrightarrow>
     0 < gc_quota_limit cfg \<and> gc_quota_limit cfg < 2 ^ 63 \<and> gc_quota_zone cfg = shanghai \<and>
     (gc_wechat_enabled cfg \<longrightarrow>
        gc_wechat_token cfg \<noteq> [] \<and> gc_wechat_app_id cfg \<noteq> [] \<and> gc_wechat_app_secret cfg \<noteq> []) \<and>
     gc_pg_dsn cfg \<noteq> [] \<and> gc_auth_pepper cfg \<noteq> [] \<and>
     gc_agent_addr cfg \<noteq> [] \<and> gc_http_addr cfg \<noteq> [] \<and> gc_redis_addr cfg \<noteq> [] \<and>
     (gc_smtp_tls cfg \<longrightarrow> gc_smtp_username cfg \<noteq> [] \<and> gc_smtp_password cfg \<noteq> [] \<and>
        (\<exists>sender. pr_address P (gc_smtp_from cfg) = Some sender \<and>
           equal_fold P (trim_space (gc_smtp_username cfg)) (ma_address sender)))"

lemma env_or_nonempty: "def \<noteq> [] \<Longrightarrow> env_or P key def \<noteq> []"
  by (simp add: env_or_def Let_def)

lemma check_gateway_same: "check_gateway P cfg = Inr cfg' \<Longrightarrow> cfg' = cfg"
  by (auto simp: check_gateway_def refuse_def split: if_splits option.splits)

lemma check_gateway_ok:
  assumes "0 < limit" "limit < 2 ^ 63"
  shows "check_gateway P (read_gateway P limit shanghai) = Inr cfg \<longleftrightarrow>
    cfg = read_gateway P limit shanghai \<and> gateway_ok P cfg"
proof -
  let ?c = "read_gateway P limit shanghai"
  have "gc_agent_addr ?c \<noteq> [] \<and> gc_http_addr ?c \<noteq> [] \<and> gc_redis_addr ?c \<noteq> []"
    by (simp add: read_gateway_def env_or_nonempty)
  moreover have "gc_quota_limit ?c = limit" "gc_quota_zone ?c = shanghai" by (simp_all add: read_gateway_def)
  moreover have "check_gateway P ?c = Inr ?c \<longleftrightarrow>
      (gc_wechat_enabled ?c \<longrightarrow>
        gc_wechat_token ?c \<noteq> [] \<and> gc_wechat_app_id ?c \<noteq> [] \<and> gc_wechat_app_secret ?c \<noteq> []) \<and>
      gc_pg_dsn ?c \<noteq> [] \<and> gc_auth_pepper ?c \<noteq> [] \<and>
      (gc_smtp_tls ?c \<longrightarrow> gc_smtp_username ?c \<noteq> [] \<and> gc_smtp_password ?c \<noteq> [] \<and>
        (\<exists>sender. pr_address P (gc_smtp_from ?c) = Some sender \<and>
           equal_fold P (trim_space (gc_smtp_username ?c)) (ma_address sender)))"
    unfolding check_gateway_def refuse_def by (simp split: option.split)
  ultimately have "check_gateway P ?c = Inr ?c \<longleftrightarrow> gateway_ok P ?c"
    using assms by (simp add: gateway_ok_def)
  then show ?thesis using check_gateway_same [of P ?c] by blast
qed

text \<open>The limit a process asks for; the default applies when the variable is not set.\<close>

definition wanted_limit :: "process \<Rightarrow> int option" where
  "wanted_limit P = atoi (env_or P ''DAILY_QUOTA_LIMIT'' ''20'')"

lemma load_gateway_iff: "load_gateway P = Inr cfg \<longleftrightarrow>
    (\<exists>limit. wanted_limit P = Some limit \<and> env_or P ''QUOTA_TIME_ZONE'' shanghai = shanghai \<and>
       cfg = read_gateway P limit shanghai \<and> gateway_ok P cfg)"
proof (cases "wanted_limit P")
  case None
  then show ?thesis by (simp add: load_gateway_def wanted_limit_def refuse_def)
next
  case (Some limit)
  then have range: "limit < 2 ^ 63" using atoi_range by (simp add: wanted_limit_def)
  have ok: "gateway_ok P (read_gateway P limit shanghai) \<Longrightarrow> 0 < limit"
    by (simp add: gateway_ok_def read_gateway_def)
  show ?thesis
    using Some range ok check_gateway_ok [of limit P cfg]
    by (auto simp: load_gateway_def wanted_limit_def refuse_def Let_def)
qed

lemma load_agent_iff: "load_agent P = Inr cfg \<Longrightarrow>
    ac_deepseek_key cfg \<noteq> [] \<and> ac_pg_dsn cfg \<noteq> [] \<and> ac_deepseek_model cfg \<noteq> [] \<and>
    ac_agent_addr cfg \<noteq> [] \<and> ac_redis_addr cfg \<noteq> []"
  by (auto simp: load_agent_def refuse_def Let_def env_or_nonempty split: if_splits)

end
