(* ===== verification/Mailer.thy ===== *)
theory Mailer
  imports Auth Config
begin

text \<open>
  Package \<open>internal/auth\<close>, \<open>mailer.go\<close>: the mail with a verification code, composed as a
  multipart message, and its delivery. The connection to the mail server (dialling, the TLS
  handshake, the SMTP commands of \<open>net/smtp\<close>) is a record of operations; addresses are parsed
  by the function of \<open>process\<close>, and the offset of the local time zone is a parameter too. The
  transport settings for tests (\<open>tlsConfig\<close>) are never set by the services and left out, like
  the goroutine that cuts a cancelled connection short.
\<close>

section \<open>The templates\<close>

definition crlf :: string where
  "crlf = [chr 13, chr 10]"

definition public_site_url :: string where
  "public_site_url = ''https://animecompanion.icu''"

record verification_email =
  ve_subject :: string
  ve_title :: string
  ve_intro :: string

definition reset_subject :: string where
  "reset_subject = ''SOS '' @ utf8 [22242, 23494, 30721, 37325, 32622, 39564, 35777, 30721]"

definition reset_title :: string where
  "reset_title = utf8 [37325, 32622, 20320, 30340, 36134, 21495, 23494, 30721]"

definition reset_intro :: string where
  "reset_intro = utf8 [25105, 20204, 25910, 21040, 20102, 20320, 30340, 23494, 30721, 37325,
       32622, 35831, 27714, 12290, 35831, 20351, 29992, 19979, 38754, 30340, 39564, 35777,
       30721, 32487, 32493, 25805, 20316, 12290]"

definition register_subject :: string where
  "register_subject = ''SOS '' @ utf8 [22242, 27880, 20876, 39564, 35777, 30721]"

definition register_title :: string where
  "register_title = utf8 [30830, 35748, 20320, 30340] @ '' SOS '' @ utf8 [22242, 36134, 21495]"

definition register_intro :: string where
  "register_intro = utf8 [27426, 36814, 21152, 20837] @ '' SOS '' @
     utf8 [22242, 12290, 35831, 20351, 29992, 19979, 38754, 30340, 39564, 35777, 30721, 23436,
       25104, 37038, 31665, 39564, 35777, 12290]"

definition email_for_purpose :: "string \<Rightarrow> verification_email" where
  "email_for_purpose purpose =
     (if purpose = ''reset'' then
        \<lparr>ve_subject = reset_subject, ve_title = reset_title, ve_intro = reset_intro\<rparr>
      else \<lparr>ve_subject = register_subject, ve_title = register_title, ve_intro = register_intro\<rparr>)"

definition plain_text :: "verification_email \<Rightarrow> string \<Rightarrow> string" where
  "plain_text v verification =
     ''SOS '' @ utf8 [22242] @ crlf @ crlf @ ve_title v @ crlf @ crlf @ ve_intro v @ crlf @
     crlf @ utf8 [39564, 35777, 30721, 65306] @ verification @ crlf @
     utf8 [26377, 25928, 26399, 65306] @ ''10 '' @ utf8 [20998, 38047] @ crlf @ crlf @
     utf8 [35775, 38382, 65306] @ public_site_url @ crlf @ crlf @
     utf8 [33509, 38750, 26412, 20154, 25805, 20316, 65292, 35831, 24573, 30053, 27492, 37038,
       20214, 65292, 20320, 30340, 36134, 21495, 19981, 20250, 21463, 21040, 24433, 21709,
       12290] @
     crlf"

definition html_text :: "verification_email \<Rightarrow> string \<Rightarrow> string" where
  "html_text v verification = join [chr 10]
     [''<!doctype html>'',
      with_quotes ''<html lang=~zh-CN~>'',
      with_quotes ''<body style=~margin:0;background:#f5f1e8;color:#302b2a;font-family:-apple-system,BlinkMacSystemFont,'Segoe UI','Microsoft YaHei',sans-serif~>'',
      with_quotes ''  <div style=~max-width:560px;margin:0 auto;padding:32px 16px~>'',
      with_quotes ''    <div style=~background:#ffffff;border:1px solid #e4ddd2;border-radius:16px;overflow:hidden~>'',
      with_quotes ''      <div style=~background:#b5262d;color:#ffffff;padding:20px 28px;font-size:20px;font-weight:700;letter-spacing:1px~>SOS '' @
        utf8 [22242] @ ''</div>'',
      with_quotes ''      <div style=~padding:28px~>'',
      with_quotes ''        <h1 style=~margin:0 0 14px;font-size:24px;line-height:1.35~>'' @
        html_escape (ve_title v) @ ''</h1>'',
      with_quotes ''        <p style=~margin:0 0 22px;line-height:1.7;color:#5f5752~>'' @
        html_escape (ve_intro v) @ ''</p>'',
      with_quotes ''        <div style=~margin:0 0 12px;padding:18px;text-align:center;background:#fff7e8;border:1px solid #edcf9b;border-radius:12px;font-size:32px;font-weight:800;letter-spacing:8px;color:#9e2027~>'' @
        html_escape verification @ ''</div>'',
      with_quotes ''        <p style=~margin:0 0 24px;text-align:center;color:#6d625d~>'' @
        utf8 [39564, 35777, 30721, 23558, 22312] @ '' <strong>10 '' @ utf8 [20998, 38047] @
        ''</strong>'' @ utf8 [21518, 22833, 25928] @ ''</p>'',
      with_quotes ''        <p style=~margin:0 0 10px;line-height:1.6~><a href=~'' @
        public_site_url @ with_quotes ''~ style=~color:#9e2027~>'' @ utf8 [35775, 38382] @
        '' Anime Companion AI</a></p>'',
      with_quotes ''        <p style=~margin:0;font-size:13px;line-height:1.6;color:#81756e~>'' @
        utf8 [33509, 38750, 26412, 20154, 25805, 20316, 65292, 35831, 24573, 30053, 27492,
       37038, 20214, 65292, 20320, 30340, 36134, 21495, 19981, 20250, 21463, 21040, 24433,
       21709, 12290] @
        ''</p>'',
      ''      </div>'',
      ''    </div>'',
      ''  </div>'',
      ''</body>'',
      ''</html>'']"

section \<open>Header fields\<close>

text \<open>\<open>mime.QEncoding.Encode("UTF-8", s)\<close>: words of at most 75 characters, cut between runes.\<close>

definition needs_encoding :: "string \<Rightarrow> bool" where
  "needs_encoding t \<longleftrightarrow> (\<exists>r \<in> set (runes t). (r < 32 \<or> 126 < r) \<and> r \<noteq> 9)"

definition q_plain :: "char \<Rightarrow> bool" where
  "q_plain c \<longleftrightarrow> 32 \<le> code c \<and> code c \<le> 126 \<and> c \<notin> {CHR ''='', CHR ''?'', CHR ''_''}"

definition upper_hex :: "nat \<Rightarrow> char" where
  "upper_hex d = (if d < 10 then digit d else chr (55 + d))"

definition q_byte :: "char \<Rightarrow> string" where
  "q_byte c = (if c = CHR '' '' then ''_'' else if q_plain c then [c]
     else [CHR ''='', upper_hex (code c div 16), upper_hex (code c mod 16)])"

definition q_cost :: "string \<Rightarrow> nat" where
  "q_cost bytes = (case bytes of [c] \<Rightarrow> if q_plain c then 1 else 3 | _ \<Rightarrow> 3 * length bytes)"

definition word_open :: string where "word_open = ''=?UTF-8?q?''"
definition word_close :: string where "word_close = ''?=''"

fun q_runes :: "nat \<Rightarrow> (rune \<times> string) list \<Rightarrow> string" where
  "q_runes used [] = []"
| "q_runes used ((r, bytes) # rest) =
     (let n = q_cost bytes in
      if 63 < used + n
      then word_close @ '' '' @ word_open @ concat (map q_byte bytes) @ q_runes n rest
      else concat (map q_byte bytes) @ q_runes (used + n) rest)"

definition q_encode :: "string \<Rightarrow> string" where
  "q_encode t = (if needs_encoding t then word_open @ q_runes 0 (segs t) @ word_close else t)"

text \<open>\<open>Format(time.RFC1123Z)\<close> at an offset in seconds; day 0 of the epoch was a Thursday.\<close>

definition weekday_names :: "string list" where
  "weekday_names = [''Thu'', ''Fri'', ''Sat'', ''Sun'', ''Mon'', ''Tue'', ''Wed'']"

definition month_names :: "string list" where
  "month_names = [''Jan'', ''Feb'', ''Mar'', ''Apr'', ''May'', ''Jun'', ''Jul'', ''Aug'', ''Sep'',
     ''Oct'', ''Nov'', ''Dec'']"

definition fmt_rfc1123z :: "int \<Rightarrow> time \<Rightarrow> string" where
  "fmt_rfc1123z offset t =
     (let secs = t div second + offset; day = secs div 86400; sod = secs mod 86400;
          c = civil_of_day day; zone = (abs offset) div 60
      in weekday_names ! nat (day mod 7) @ '', '' @ pad_nat 2 (nat (cday c)) @ '' '' @
         month_names ! nat (cmonth c - 1) @ '' '' @
         (if cyear c < 0 then ''-'' @ pad_nat 4 (nat (- cyear c)) else pad_nat 4 (nat (cyear c))) @ '' '' @
         pad_nat 2 (nat (sod div 3600)) @ '':'' @ pad_nat 2 (nat (sod div 60 mod 60)) @ '':'' @
         pad_nat 2 (nat (sod mod 60)) @ '' '' @ (if offset < 0 then ''-'' else ''+'') @
         pad_nat 2 (nat (zone div 60)) @ pad_nat 2 (nat (zone mod 60)))"

section \<open>The message\<close>

text \<open>
  \<open>multipart.Writer\<close>: a random boundary of thirty bytes in hexadecimal (without randomness it
  panics), a part with its sorted headers, and the closing line. Writing to a buffer never fails.
\<close>

definition mime_part :: "string \<Rightarrow> bool \<Rightarrow> (string \<times> string) list \<Rightarrow> string \<Rightarrow> string" where
  "mime_part boundary first headers content =
     (if first then [] else crlf) @ ''--'' @ boundary @ crlf @
     concat (map (\<lambda>(k, v). k @ '': '' @ v @ crlf) headers) @ crlf @ content"

definition part_headers :: "string \<Rightarrow> (string \<times> string) list" where
  "part_headers kind = [(''Content-Transfer-Encoding'', ''8bit''), (''Content-Type'', kind @ ''; charset=UTF-8'')]"

definition mime_body :: "string \<Rightarrow> string \<Rightarrow> string \<Rightarrow> string" where
  "mime_body boundary plain html =
     mime_part boundary True (part_headers ''text/plain'') plain @
     mime_part boundary False (part_headers ''text/html'') html @
     crlf @ ''--'' @ boundary @ ''--'' @ crlf"

definition mime_headers :: "string \<Rightarrow> string \<Rightarrow> string \<Rightarrow> string \<Rightarrow> string \<Rightarrow> string" where
  "mime_headers sender recipient subject date boundary =
     ''From: '' @ sender @ crlf @
     ''To: '' @ recipient @ crlf @
     ''Subject: '' @ q_encode subject @ crlf @
     ''Date: '' @ date @ crlf @
     ''MIME-Version: 1.0'' @ crlf @
     ''Content-Type: multipart/alternative; boundary='' @ with_quotes ''~'' @ boundary @ with_quotes ''~'' @
     crlf @ crlf"

definition compose_verification_message ::
  "('s, 'z) env_scheme \<Rightarrow> process \<Rightarrow> (time \<Rightarrow> int) \<Rightarrow> string \<Rightarrow> string \<Rightarrow> string \<Rightarrow> string \<Rightarrow>
   ('s, string \<times> string \<times> string) io" where
  "compose_verification_message R P zone from to verification purpose s =
     (case pr_address P from of
        None \<Rightarrow> (Inl (ErrText ''parse sender address''), s)
      | Some sender \<Rightarrow>
          (case pr_address P to of
             None \<Rightarrow> (Inl (ErrText ''parse recipient address''), s)
           | Some recipient \<Rightarrow>
               (let v = email_for_purpose purpose
                in case env_random R 30 s of
                     (None, s1) \<Rightarrow> (Inl (ErrPanic), s1)
                   | (Some raw, s1) \<Rightarrow>
                       (let boundary = hex_encode raw;
                            body = mime_body boundary (plain_text v verification) (html_text v verification);
                            (now, s2) = env_now R s1
                        in (Inr (mime_headers (ma_text sender) (ma_text recipient) (ve_subject v)
                                   (fmt_rfc1123z (zone now) now) boundary @ body,
                                 ma_address sender, ma_address recipient), s2)))))"

section \<open>Delivery\<close>

record smtp_login =
  sl_username :: string
  sl_password :: string
  sl_host :: string

text \<open>The operations of the network and of \<open>net/smtp\<close>.\<close>

record 's mail_link =
  ml_cancelled :: "'s \<Rightarrow> go_error option"
  ml_dial :: "string \<Rightarrow> ('s, unit) io"
  ml_handshake :: "string \<Rightarrow> ('s, unit) io"
  ml_greet :: "string \<Rightarrow> ('s, unit) io"
  ml_auth :: "smtp_login \<Rightarrow> ('s, unit) io"
  ml_mail :: "string \<Rightarrow> ('s, unit) io"
  ml_rcpt :: "string \<Rightarrow> ('s, unit) io"
  ml_data :: "('s, unit) io"
  ml_write :: "string \<Rightarrow> ('s, unit) io"
  ml_finish :: "('s, unit) io"
  ml_quit :: "('s, unit) io"
  ml_close_client :: "'s \<Rightarrow> 's"
  ml_close :: "'s \<Rightarrow> 's"
  ml_send_mail :: "string \<Rightarrow> smtp_login option \<Rightarrow> string \<Rightarrow> string \<Rightarrow> string \<Rightarrow> ('s, unit) io"

record smtp_mailer =
  sm_addr :: string
  sm_host :: string
  sm_username :: string
  sm_password :: string
  sm_from :: string
  sm_tls :: bool

text \<open>\<open>defer\<close>: the clean-up runs whether the rest succeeds or not.\<close>

definition deferring :: "('s \<Rightarrow> 's) \<Rightarrow> ('s, 'a) io \<Rightarrow> ('s, 'a) io" where
  "deferring f m s = (let (r, s1) = m s in (r, f s1))"

definition optional_auth :: "'s mail_link \<Rightarrow> smtp_login option \<Rightarrow> ('s, unit) io" where
  "optional_auth X credentials s = (case credentials of None \<Rightarrow> (Inr (), s) | Some l \<Rightarrow> ml_auth X l s)"

text \<open>A failed write still closes the data, and reports the failure of the write.\<close>

definition write_message :: "'s mail_link \<Rightarrow> string \<Rightarrow> ('s, unit) io" where
  "write_message X message s =
     (case ml_write X message s of
        (Inl e, s1) \<Rightarrow> (Inl e, snd (ml_finish X s1))
      | (Inr _, s1) \<Rightarrow> ml_finish X s1)"

definition smtp_session :: "'s mail_link \<Rightarrow> smtp_login option \<Rightarrow> string \<Rightarrow> string \<Rightarrow> string \<Rightarrow> ('s, unit) io" where
  "smtp_session X credentials from to message =
     ebind (optional_auth X credentials) (\<lambda>_.
     ebind (ml_mail X from) (\<lambda>_.
     ebind (ml_rcpt X to) (\<lambda>_.
     ebind (ml_data X) (\<lambda>_.
     ebind (write_message X message) (\<lambda>_. ml_quit X)))))"

definition send_mail_implicit_tls ::
  "'s mail_link \<Rightarrow> smtp_mailer \<Rightarrow> smtp_login option \<Rightarrow> string \<Rightarrow> string \<Rightarrow> string \<Rightarrow> ('s, unit) io" where
  "send_mail_implicit_tls X m credentials from to message =
     ebind (ml_dial X (sm_addr m)) (\<lambda>_.
     deferring (ml_close X)
       (ebind (ml_handshake X (sm_host m)) (\<lambda>_.
        ebind (ml_greet X (sm_host m)) (\<lambda>_.
        deferring (ml_close_client X) (smtp_session X credentials from to message)))))"

definition send_verification ::
  "('s, 'z) env_scheme \<Rightarrow> process \<Rightarrow> (time \<Rightarrow> int) \<Rightarrow> 's mail_link \<Rightarrow> smtp_mailer \<Rightarrow>
   string \<Rightarrow> string \<Rightarrow> string \<Rightarrow> ('s, unit) io" where
  "send_verification R P zone X m to verification purpose s =
     (case ml_cancelled X s of
        Some e \<Rightarrow> (Inl e, s)
      | None \<Rightarrow>
          (case compose_verification_message R P zone (sm_from m) to verification purpose s of
             (Inl e, s1) \<Rightarrow> (Inl e, s1)
           | (Inr (message, envelope_from, envelope_to), s1) \<Rightarrow>
               (let credentials = (if sm_username m = [] then None
                      else Some \<lparr>sl_username = sm_username m, sl_password = sm_password m, sl_host = sm_host m\<rparr>)
                in if sm_tls m then send_mail_implicit_tls X m credentials envelope_from envelope_to message s1
                   else ml_send_mail X (sm_addr m) credentials envelope_from envelope_to message s1)))"

end
