(* ===== verification/Startup.thy ===== *)
theory Startup
  imports Mailer Gateway
begin

text \<open>
  What the programs under \<open>cmd\<close> are made of: how the gateway (\<open>gateway/main.go\<close>) and the agent
  (\<open>agent/main.go\<close>) are put together from their configuration, and the health the agent reports
  (\<open>agent/health.go\<close>). The theory \<open>Lifecycle\<close> has the programs themselves.
\<close>

section \<open>The gateway\<close>

definition gateway_mailer :: "gateway_config \<Rightarrow> smtp_mailer" where
  "gateway_mailer cfg = \<lparr>sm_addr = gc_smtp_host cfg @ '':'' @ gc_smtp_port cfg, sm_host = gc_smtp_host cfg,
     sm_username = gc_smtp_username cfg, sm_password = gc_smtp_password cfg, sm_from = gc_smtp_from cfg,
     sm_tls = gc_smtp_tls cfg\<rparr>"

definition gateway_auth :: "gateway_config \<Rightarrow> go_error + auth_config" where
  "gateway_auth cfg = new_service \<lparr>ag_pepper = gc_auth_pepper cfg, ag_session_ttl = 0, ag_captcha_ttl = 0,
     ag_code_ttl = 0, ag_resend = 0\<rparr>"

definition gateway_limiter :: fixed_window_limiter where
  "gateway_limiter = \<lparr>fl_prefix = ''gateway:open_id:'', fl_limit = 30, fl_window = minutes 1\<rparr>"

definition gateway_deduper :: message_deduper where
  "gateway_deduper = \<lparr>md_prefix = ''gateway:wechat:msg:'', md_ttl = 72 * 60 * 60 * second\<rparr>"

definition gateway_token_cache :: token_cache where
  "gateway_token_cache = \<lparr>tc_key = ''gateway:wechat:access_token''\<rparr>"

definition quota_prefix :: string where
  "quota_prefix = ''gateway:daily-quota:''"

text \<open>
  The token manager and the pusher of WeChat keep their own state; they are given as functions
  of what the code builds them from. Without WeChat the handlers have neither, and messages
  are deduplicated in memory (\<open>plain\<close>).
\<close>

definition gateway_handlers ::
  "('s, 'z) env_scheme \<Rightarrow> gateway_config \<Rightarrow> auth_config \<Rightarrow> quota \<Rightarrow> 's agent_caller \<Rightarrow>
   (string \<Rightarrow> string \<Rightarrow> token_cache \<Rightarrow> 's token_source) \<Rightarrow> 's token_source \<Rightarrow> 's pusher \<Rightarrow> 's pusher \<Rightarrow>
   (string \<Rightarrow> ('s, bool) io) \<Rightarrow> 's handlers" where
  "gateway_handlers R cfg auth q agent tokens no_tokens push no_push plain =
     (let h = \<lparr>hd_wechat = gc_wechat_enabled cfg, hd_token = [], hd_agent = agent, hd_tokens = no_tokens,
            hd_pusher = no_push, hd_dedupe = plain, hd_limiter = Some (limiter_allow R gateway_limiter),
            hd_auth = Some auth, hd_quota = Some (redis_quota R q), hd_session = None,
            hd_secure = gc_cookie_secure cfg, hd_now = env_now R\<rparr>
      in if gc_wechat_enabled cfg
         then h\<lparr>hd_token := gc_wechat_token cfg,
                hd_tokens := tokens (gc_wechat_app_id cfg) (gc_wechat_app_secret cfg) gateway_token_cache,
                hd_pusher := push, hd_dedupe := redis_seen_or_add R gateway_deduper\<rparr>
         else h)"

definition new_gateway ::
  "('s, 'z) env_scheme \<Rightarrow> gateway_config \<Rightarrow> 's agent_caller \<Rightarrow>
   (string \<Rightarrow> string \<Rightarrow> token_cache \<Rightarrow> 's token_source) \<Rightarrow> 's token_source \<Rightarrow> 's pusher \<Rightarrow> 's pusher \<Rightarrow>
   (string \<Rightarrow> ('s, bool) io) \<Rightarrow> go_error + 's handlers" where
  "new_gateway R cfg agent tokens no_tokens push no_push plain =
     (case gateway_auth cfg of
        Inl e \<Rightarrow> Inl e
      | Inr auth \<Rightarrow>
          (case new_quota quota_prefix (gc_quota_limit cfg) of
             Inl e \<Rightarrow> Inl e
           | Inr q \<Rightarrow> Inr (gateway_handlers R cfg auth q agent tokens no_tokens push no_push plain)))"

definition gateway_readiness ::
  "'s agent_caller \<Rightarrow> ('s, unit) io \<Rightarrow> ('s, unit) io \<Rightarrow> (string \<times> ('s, unit) io option) list" where
  "gateway_readiness agent postgres redis =
     [(''agent'', Some (\<lambda>s. case ac_check agent s of (Inl e, s1) \<Rightarrow> (Inl ErrService, s1) | (Inr u, s1) \<Rightarrow> (Inr u, s1))),
      (''postgres'', Some postgres), (''redis'', Some redis)]"

section \<open>The agent\<close>

definition agent_store :: conv_store where
  "agent_store = new_redis_store [] (72 * 60 * 60 * second)"

definition new_agent :: "'s chat \<Rightarrow> 's reply_model \<Rightarrow> 's agent_server" where
  "new_agent model adapter = \<lparr>av_store = agent_store, av_chat = model, av_app = Some (adapter, True)\<rparr>"

text \<open>The health server, a part of gRPC, is the operation that sets the status of a service.\<close>

definition agent_liveness_service :: string where
  "agent_liveness_service = ''liveness''"

definition initialize_agent_health :: "(string \<Rightarrow> bool \<Rightarrow> 's \<Rightarrow> 's) \<Rightarrow> 's \<Rightarrow> 's" where
  "initialize_agent_health set_status = set_status agent_liveness_service True"

fun update_agent_serving_status ::
  "(string \<Rightarrow> bool \<Rightarrow> 's \<Rightarrow> 's) \<Rightarrow> ('s, unit) io list \<Rightarrow> 's \<Rightarrow> bool \<times> 's" where
  "update_agent_serving_status set_status [] s = (True, set_status [] True s)"
| "update_agent_serving_status set_status (check # checks) s =
     (case check s of
        (Inl _, s1) \<Rightarrow> (False, set_status [] False s1)
      | (Inr _, s1) \<Rightarrow> update_agent_serving_status set_status checks s1)"

section \<open>The administrator\<close>

definition required_env :: "process \<Rightarrow> string \<Rightarrow> go_error + string" where
  "required_env P name =
     (let value = pr_getenv P name in if value = [] then Inl (ErrText (name @ '' is required'')) else Inr value)"

end
