(* ===== verification/Startup_Correct.thy ===== *)
theory Startup_Correct
  imports Startup Auth_Secure
begin

text \<open>
  What holds from the start: a gateway starts only from a well-formed configuration and carries
  its limits.
\<close>

section \<open>Configuration\<close>

definition handlers_ok :: "('s, 'z) env_scheme \<Rightarrow> gateway_config \<Rightarrow> 's handlers \<Rightarrow> bool" where
  "handlers_ok R cfg h \<longleftrightarrow>
     hd_quota h = Some (redis_quota R \<lparr>q_prefix = quota_prefix, q_limit = gc_quota_limit cfg\<rparr>) \<and>
     hd_auth h = Some \<lparr>ag_pepper = gc_auth_pepper cfg, ag_session_ttl = 7 * day_length, ag_captcha_ttl = minutes 5,
       ag_code_ttl = minutes 10, ag_resend = minutes 1\<rparr> \<and>
     hd_limiter h \<noteq> None \<and> hd_session h = None \<and> hd_wechat h = gc_wechat_enabled cfg \<and>
     hd_secure h = gc_cookie_secure cfg \<and> (hd_wechat h \<longrightarrow> hd_token h \<noteq> [])"

text \<open>
  C37. A configuration that loads is well formed, and the gateway starts from it with its quota
  and durations unless the pepper is nothing but white space, which \<open>LoadGateway\<close> lets through
  and \<open>NewService\<close> refuses.
\<close>

theorem loaded_gateway_starts:
  assumes "load_gateway P = Inr cfg"
  shows "gateway_ok P cfg \<and>
    (if trim_space (gc_auth_pepper cfg) = []
     then new_gateway R cfg agent tokens no_tokens push no_push plain = Inl (ErrText ''auth pepper is required'')
     else \<exists>h. new_gateway R cfg agent tokens no_tokens push no_push plain = Inr h \<and> handlers_ok R cfg h)"
proof -
  have ok: "gateway_ok P cfg" using assms load_gateway_iff by blast
  have "trim_space quota_prefix \<noteq> []"
    using trim_printable [of quota_prefix] by (simp add: quota_prefix_def code_def)
  then have "new_quota quota_prefix (gc_quota_limit cfg) = Inr \<lparr>q_prefix = quota_prefix, q_limit = gc_quota_limit cfg\<rparr>"
    using ok by (simp add: new_quota_def gateway_ok_def)
  then show ?thesis
    using ok by (auto simp: new_gateway_def gateway_handlers_def gateway_auth_def new_service_def or_default_def handlers_ok_def gateway_ok_def
        Let_def)
qed

definition default_process :: process where
  "default_process = \<lparr>pr_getenv = (\<lambda>k. if k = ''PG_DSN'' \<or> k = ''AUTH_PEPPER'' then ''x'' else []),
     pr_address = \<lambda>t. None, pr_fold = id\<rparr>"

lemma atoi_20: "atoi ''20'' = Some 20"
proof -
  have "digit 2 = CHR ''2''" "digit 0 = CHR ''0''"
    unfolding digit_def by (simp_all flip: code_inject) (simp_all add: code_def)
  then have "show_nat 20 = ''20''" by (simp add: show_nat.simps)
  then show ?thesis using atoi_show_nat [of 20] by simp
qed

theorem loaded_gateway_starts_witness:
  "\<exists>cfg h. load_gateway default_process = Inr cfg \<and> gc_quota_limit cfg = 20 \<and>
     new_gateway auth_ref cfg (new_agent_client (direct_stub auth_ref (new_agent (\<lambda>_. Pair (Inr None))
         \<lparr>rm_plan = \<lambda>_. Pair (Inr []), rm_generate = \<lambda>_. Pair (Inr []), rm_summarize = \<lambda>_. Pair (Inr [])\<rparr>)))
       (\<lambda>_ _ _. \<lparr>ts_get = Pair (Inr ''t''), ts_refresh = Pair (Inr ''t'')\<rparr>)
       \<lparr>ts_get = Pair (Inr []), ts_refresh = Pair (Inr [])\<rparr> (\<lambda>_ _ _. Pair (Inr ())) (\<lambda>_ _ _. Pair (Inr ()))
       (\<lambda>_. Pair (Inr False)) = Inr h \<and> handlers_ok auth_ref cfg h"
  (is "\<exists>cfg h. _ \<and> _ \<and> new_gateway _ cfg ?agent ?tokens ?no_tokens ?push ?no_push ?plain = _ \<and> _")
proof -
  let ?c = "read_gateway default_process 20 shanghai"
  have load: "load_gateway default_process = Inr ?c"
    by (simp add: load_gateway_def check_gateway_def read_gateway_def env_or_def env_bool_def default_process_def atoi_20)
  have "trim_space ''x'' = ''x''" using trim_printable [of "''x''"] by (simp add: code_def)
  then have "trim_space (gc_auth_pepper ?c) \<noteq> []" by (simp add: read_gateway_def default_process_def)
  then show ?thesis
    using loaded_gateway_starts [OF load, of auth_ref ?agent ?tokens ?no_tokens ?push ?no_push ?plain] load by (auto simp: read_gateway_def)
qed

end
