(* ===== verification/Footprint.thy ===== *)
theory Footprint
  imports Orchestration_Live
begin

text \<open>
  What a turn touches. Every key of a conversation store begins with its prefix and
  \<open>conversation:\<close>; in a calm environment \<open>Send\<close> writes no other key and takes no time on the
  server's clock, whatever the keys hold. So the keys of other components (the quota, the
  limiter, the sessions) are as they were.
\<close>

section \<open>Footprints\<close>

definition within :: "('s, 'z) redis_scheme \<Rightarrow> string set \<Rightarrow> 's \<Rightarrow> 's \<Rightarrow> bool" where
  "within R A s s' \<longleftrightarrow> r_clock R s' = r_clock R s \<and> same_but A (r_view R s) (r_view R s')"

lemma within_refl [simp]: "within R A s s"
  by (simp add: within_def)

lemma within_trans [trans]: "within R A s s1 \<Longrightarrow> within R A s1 s2 \<Longrightarrow> within R A s s2"
  by (auto simp: within_def same_but_def)

lemma within_mono: "within R A s s' \<Longrightarrow> A \<subseteq> B \<Longrightarrow> within R B s s'"
  by (auto simp: within_def same_but_def)

lemma within_key: "within R {k} s s' \<Longrightarrow> k \<in> A \<Longrightarrow> within R A s0 s \<Longrightarrow> within R A s0 s'"
  by (auto simp: within_def same_but_def)

text \<open>A step that leaves the server as it is.\<close>

lemma within_still: "r_view R s' = r_view R s \<Longrightarrow> r_clock R s' = r_clock R s \<Longrightarrow> within R A s0 s \<Longrightarrow> within R A s0 s'"
  by (simp add: within_def)

context redis_service
begin

lemma command_within:
  "within R {k} s (r_set R k v px s)" "within R {k} s (snd (r_setnx R k v px s))" "within R {k} s (r_del R k s)"
  "within R {k} s (snd (r_incr R k s))" "within R {k} s (r_pexpire R k t s)" "within R {k} s (r_expireat R k t s)"
  "within R {k} s (r_hset R k f v s)" "within R {k} s (r_hdel R k f s)" "within R {k} s (snd (r_hincrby R k f d s))"
  "within R {k} s (r_rpush R k v s)" "within R {k} s (r_sadd R k m s)" "within R {k} s (r_srem R k m s)"
  by (simp_all add: within_def apart clocks)

lemmas within_command = command_within [THEN within_key]

lemma within_fold: "k \<in> A \<Longrightarrow> within R A s0 s \<Longrightarrow> within R A s0 (fold (r_rpush R k) vs s)"
  by (induction vs arbitrary: s) (auto intro: within_command)

end

section \<open>The keys of a store\<close>

definition conv_area :: "conv_store \<Rightarrow> string set" where
  "conv_area c = range (\<lambda>x. cs_prefix c @ ''conversation:'' @ x)"

lemma conv_area_keys [simp]:
  "turns_key c i d \<in> conv_area c" "active_key c d \<in> conv_area c" "messages_key c sc d \<in> conv_area c"
  "sequence_key c sc d \<in> conv_area c" "batch_key c sc b \<in> conv_area c" "requests_key c sc d \<in> conv_area c"
  "lease_key c sc \<in> conv_area c" "active_scopes_key c d \<in> conv_area c"
  by (auto simp: conv_area_def turns_key_def active_key_def scoped_key_defs scope_key_def active_scopes_key_def image_iff)

lemma kind_area: "has_kind c k kd \<Longrightarrow> k \<in> conv_area c"
  by (erule has_kind.cases) simp_all

section \<open>The scripts\<close>

context redis_service
begin

lemma begin_within:
  assumes "{bk_messages ks, bk_sequence ks, bk_requests ks, bk_previous ks, bk_lease ks, bk_batch ks, bk_active ks} \<subseteq> A"
  shows "within R A s (snd (begin_batch_script R ks request doc token ttl lease_ttl member s))"
  using assms unfolding begin_batch_script_def find_request_def Let_def split_beta
  by (auto intro!: within_command split: option.split blob.split)

lemma append_within:
  assumes "{ak_lease ks, ak_sequence ks, ak_messages ks, ak_batch ks, ak_requests ks} \<subseteq> A"
  shows "within R A s (snd (append_character_script R ks token message doc request ttl lease_ttl s))"
  using assms unfolding append_character_script_def Let_def split_beta
  by (auto intro!: within_command split: option.split)

lemma save_within:
  assumes "{lease, batch_k, requests} \<subseteq> A"
  shows "within R A s (snd (save_batch_script R lease batch_k requests token doc request ttl release lease_ttl s))"
  using assms unfolding save_batch_script_def Let_def
  by (auto intro!: within_command)

lemma interrupt_within:
  assumes "{lease, batch_k, requests} \<subseteq> A"
  shows "within R A s (snd (interrupt_batch_script R lease batch_k requests token request ttl now s))"
  using assms unfolding interrupt_batch_script_def Let_def
  by (auto intro!: within_command split: option.split blob.split)

lemma migrate_within:
  assumes "{lk, mk, sk} \<subseteq> A"
  shows "within R A s (snd (migrate_legacy_script R lk mk sk ttl s))"
  using assms unfolding migrate_legacy_script_def Let_def
  by (auto intro!: within_command within_fold)

end

section \<open>The store\<close>

context calm_env
begin

lemma trip_state: "snd (round_trip R script s) = snd (script s)"
  by (simp add: served split: prod.split option.split)

lemma trip_within: "within R A s (snd (script s)) \<Longrightarrow> within R A s0 s \<Longrightarrow> within R A s0 (snd (round_trip R script s))"
  unfolding trip_state by (rule within_trans)

lemma still_within:
  "within R A s0 s \<Longrightarrow> within R A s0 (snd (env_now R s))"
  "within R A s0 s \<Longrightarrow> within R A s0 (snd (new_turn_id R s))"
  "within R A s0 s \<Longrightarrow> within R A s0 (snd (env_uuid_new R s))"
  by (erule within_still [rotated 2]; simp add: now_view now_clock uuid_view uuid_clock)+

lemma migrate_scope_within:
  assumes "within R (conv_area c) s0 s"
  shows "within R (conv_area c) s0 (snd (migrate_legacy_scope R c sc d s))"
proof -
  let ?sc = "migrate_legacy_script R (turns_key c (sc_identity sc) d) (messages_key c sc d)
      (sequence_key c sc d) (milliseconds (cs_ttl c))"
  have "snd (migrate_legacy_scope R c sc d s) = (if sc_conversation sc \<noteq> default_conversation then s
      else snd (round_trip R ?sc s))"
    by (auto simp: migrate_legacy_scope_def split: prod.splits sum.splits)
  moreover have "within R (conv_area c) s0 (snd (round_trip R ?sc s))"
    by (intro trip_within migrate_within assms) simp
  ultimately show ?thesis using assms by simp
qed

lemma begin_batch_within:
  assumes "within R (conv_area c) s0 s"
  shows "within R (conv_area c) s0 (snd (begin_batch R c sc request content s))"
proof -
  let ?m = "migrate_legacy_scope R c sc (beijing_day (fst (env_now R s))) (snd (env_now R s))"
  have m: "within R (conv_area c) s0 (snd ?m)" using assms by (intro migrate_scope_within still_within)
  have b: "within R (conv_area c) s0 (snd (round_trip R (begin_batch_script R (begin_keys_of c sc d bid) request doc token ttl
      lease_ttl member) s1))" if "within R (conv_area c) s0 s1" for d bid doc token ttl lease_ttl member s1
    using that by (intro trip_within begin_within) (simp_all add: begin_keys_of_def)
  show ?thesis
  proof (cases "fst ?m")
    case (Inl e)
    then show ?thesis using m by (simp add: begin_batch_def split_beta Let_def)
  next
    case (Inr u)
    then show ?thesis
      unfolding begin_batch_def Let_def split_beta Inr sum.case
      by (simp split: sum.split) (intro conjI impI allI b still_within m)
  qed
qed

lemma append_character_within:
  assumes "within R (conv_area c) s0 s"
  shows "within R (conv_area c) s0 (snd (append_character R c sc b token speaker display avatar content s))"
proof -
  have a: "within R (conv_area c) s0 (snd (round_trip R (append_character_script R (append_keys_of c sc b) token m doc request
      ttl lease_ttl) s1))" if "within R (conv_area c) s0 s1" for m doc request ttl lease_ttl s1
    using that by (intro trip_within append_within) (simp_all add: append_keys_of_def Let_def)
  show ?thesis
    unfolding append_character_def Let_def split_beta
    by (simp split: sum.split append_reply.split) (intro conjI impI allI a still_within assms)
qed

lemma save_batch_within:
  assumes "within R (conv_area c) s0 s"
  shows "within R (conv_area c) s0 (snd (save_batch R c sc b token release s))"
proof -
  have a: "within R (conv_area c) s0 (snd (round_trip R (save_batch_script R (lease_key c sc) (batch_key c sc i)
      (requests_key c sc d) token doc request ttl release lease_ttl) s1))" if "within R (conv_area c) s0 s1"
    for i d doc request ttl lease_ttl s1
    using that by (intro trip_within save_within) simp_all
  show ?thesis
    unfolding save_batch_def Let_def split_beta
    by (simp split: sum.split) (intro conjI impI allI a still_within assms)
qed

lemma interrupt_batch_within:
  assumes "within R (conv_area c) s0 s"
  shows "within R (conv_area c) s0 (snd (interrupt_batch R c sc i request token created s))"
proof -
  have a: "within R (conv_area c) s0 (snd (round_trip R (interrupt_batch_script R (lease_key c sc) (batch_key c sc i)
      (requests_key c sc d) token request ttl now) s1))" if "within R (conv_area c) s0 s1" for d ttl now s1
    using that by (intro trip_within interrupt_within) simp_all
  show ?thesis
    unfolding interrupt_batch_def Let_def split_beta
    by (simp split: sum.split interrupt_reply.split blob.split option.split)
      (intro conjI impI allI a still_within assms)
qed

lemma messages_within:
  assumes "within R (conv_area c) s0 s"
  shows "within R (conv_area c) s0 (snd (messages R c sc s))"
proof -
  have r: "within R (conv_area c) s0 (snd (round_trip R (reading f) s1))" if "within R (conv_area c) s0 s1" for f s1
    using that by (simp add: trip_state reading_def)
  show ?thesis
    unfolding messages_def messages_for_date_scope_def Let_def split_beta
    by (simp split: sum.split) (intro conjI impI allI r migrate_scope_within still_within assms)
qed

end

section \<open>The application\<close>

text \<open>A language model that keeps its hands off Redis and whose time does not show there.\<close>

definition still_model :: "('s, 'z) env_scheme \<Rightarrow> 's reply_model \<Rightarrow> bool" where
  "still_model R M \<longleftrightarrow> silent_model R M \<and> (\<forall>i s. r_clock R (snd (rm_plan M i s)) = r_clock R s) \<and>
     (\<forall>i s. r_clock R (snd (rm_generate M i s)) = r_clock R s)"

context calm_app
begin

lemma model_within:
  assumes "still_model R M" "within R A s0 s"
  shows "within R A s0 (snd (rm_generate M i s))" "within R A s0 (snd (plan_turn M sc sp h content s))"
proof -
  show "within R A s0 (snd (rm_generate M i s))"
    using assms by (intro within_still [OF _ _ assms(2)]) (simp_all add: still_model_def silent_model_def)
  show "within R A s0 (snd (plan_turn M sc sp h content s))"
    using assms plan_view [of M sc sp h content s]
    by (intro within_still [OF _ _ assms(2)])
      (simp_all add: still_model_def plan_turn_def plan_speakers_def Let_def split_beta)
qed

lemma load_within: "within R A s0 s \<Longrightarrow> within R A s0 (snd (load_summaries R repo sc s))"
  by (erule within_still [rotated 2])
    (simp_all add: load_summaries_def recent_summaries_for_scope_def split_beta Let_def db_view db_clock now_view now_clock
      split: sum.split)

lemma finish_within:
  assumes "within R (conv_area c) s0 s"
  shows "within R (conv_area c) s0 (snd (finish_batch R c sc token b s))"
  using save_batch_within [OF assms, of sc b token True]
  by (auto simp: finish_batch_def split: prod.split option.split)

lemma speak_all_within:
  assumes M: "still_model R M" and "within R (conv_area c) s0 s"
  shows "within R (conv_area c) s0 (snd (speak_all R c M sc content h sums token ids b s))"
  using assms(2)
proof (induction ids arbitrary: b s)
  case (Cons i ids)
  let ?ch = "case find_character i of Some x \<Rightarrow> x | None \<Rightarrow> nobody"
  let ?in = "\<lparr>ci_scope = sc, ci_character = ?ch, ci_summaries = sums,
      ci_history = select_history_batches h (ch_prompt ?ch) content (elems (bt_messages b)) sums,
      ci_user = bt_user b, ci_prefix = elems (bt_messages b)\<rparr>"
  obtain answer s1 where g: "rm_generate M ?in s = (answer, s1)" by fastforce
  then have s1: "within R (conv_area c) s0 s1" using model_within(1) [OF M Cons.prems, of ?in] by simp
  obtain r b2 s2 where a: "append_character R c (storage_scope sc) b token (ch_id ?ch) (ch_display ?ch) (ch_avatar ?ch)
      (generated_text answer) s1 = ((r, b2), s2)" by (metis surj_pair)
  have s2: "within R (conv_area c) s0 s2"
    using append_character_within [OF s1, of "storage_scope sc" b token "ch_id ?ch" "ch_display ?ch" "ch_avatar ?ch"
      "generated_text answer"] a by simp
  show ?case
    using g a finish_within [OF s1] Cons.IH [OF s2] s2 by (cases r) (auto simp: Let_def)
qed (simp add: finish_within)

lemma run_batch_within:
  assumes "still_model R M" "within R (conv_area c) s0 s"
  shows "within R (conv_area c) s0 (snd (run_batch R c M sc sp content h sums token b s))"
proof -
  obtain plan s1 where p: "plan_turn M sc sp h content s = (plan, s1)" by fastforce
  then have s1: "within R (conv_area c) s0 s1" using model_within(2) [OF assms, of sc sp h content] by simp
  obtain e b2 s2 where v: "save_batch R c (storage_scope sc) (b\<lparr>bt_planned := Some plan\<rparr>) token False s1 = ((e, b2), s2)"
    by (metis surj_pair)
  have s2: "within R (conv_area c) s0 s2"
    using save_batch_within [OF s1, of "storage_scope sc" "b\<lparr>bt_planned := Some plan\<rparr>" token False] v by simp
  show ?thesis
    using p v s2 speak_all_within [OF assms(1) s2] by (cases e) (auto simp: run_batch_def)
qed

lemma begin_and_run_within:
  assumes "still_model R M" "within R (conv_area c) s0 s"
  shows "within R (conv_area c) s0 (snd (begin_and_run R c M cmd sp content h sums s))"
proof -
  let ?sc = "storage_scope (sd_scope cmd)"
  obtain r s1 where b: "begin_batch R c ?sc (sd_request cmd) content s = (r, s1)" by fastforce
  have s1: "within R (conv_area c) s0 s1"
    using begin_batch_within [OF assms(2), of ?sc "sd_request cmd" content] b by simp
  show ?thesis
  proof (cases r)
    case (Inl e)
    then show ?thesis using b s1 by (simp add: begin_and_run_def)
  next
    case (Inr x)
    obtain bt st token where x: "x = (bt, st, token)" by (metis surj_pair)
    obtain y settled s2 where rn: "run_batch R c M (sd_scope cmd) sp content h sums token bt s1 = ((y, settled), s2)"
      by (metis surj_pair)
    have s2: "within R (conv_area c) s0 s2"
      using run_batch_within [OF assms(1) s1, of "sd_scope cmd" sp content h sums token bt] rn by simp
    then have "within R (conv_area c) s0 (clean_up R c ?sc bt token settled s2)"
      by (simp add: clean_up_def interrupt_batch_within)
    then show ?thesis using b Inr x rn s1 by (cases st) (simp_all add: begin_and_run_def)
  qed
qed

lemma send_within:
  assumes "still_model R M"
  shows "within R (conv_area c) s (snd (send R c M repo cmd s))"
proof -
  obtain r s1 where m: "messages R c (storage_scope (sd_scope cmd)) s = (r, s1)" by fastforce
  have s1: "within R (conv_area c) s s1"
    using messages_within [OF within_refl, of c s "storage_scope (sd_scope cmd)"] m by simp
  obtain q s2 where l: "load_summaries R repo (sd_scope cmd) s1 = (q, s2)" by fastforce
  have s2: "within R (conv_area c) s s2" using load_within [OF s1, of repo "sd_scope cmd"] l by simp
  show ?thesis
    using m l s1 s2 begin_and_run_within [OF assms s2]
    by (cases r; cases q) (simp_all add: send_def Let_def split: option.split)
qed

end

end
