(* ===== verification/Deployment.thy ===== *)
theory Deployment
  imports Startup_Correct Footprint Gateway_Correct
begin

text \<open>
  The services put together: the gateway as \<open>gateway/main.go\<close> builds it from a configuration that
  loads, its client connected to the agent as \<open>agent/main.go\<close> builds it, and both on one Redis.
  The keys of the quota, the limiter and the conversations lie apart, so each component keeps
  the others' data, and a user's message is charged by the replies it got.
\<close>

section \<open>Keys apart\<close>

definition quota_area :: "quota \<Rightarrow> string set" where
  "quota_area q = range (\<lambda>x. q_prefix q @ x)"

lemma quota_area_key [simp]: "quota_key q user d \<in> quota_area q"
  by (auto simp: quota_area_def quota_key_def)

lemma areas_apart:
  "q_prefix q = quota_prefix \<Longrightarrow> quota_area q \<inter> conv_area agent_store = {}"
  "fl_prefix gateway_limiter @ i \<notin> conv_area agent_store"
  "q_prefix q = quota_prefix \<Longrightarrow> fl_prefix gateway_limiter @ i \<notin> quota_area q"
  by (auto simp: quota_area_def conv_area_def agent_store_def new_redis_store_def quota_prefix_def gateway_limiter_def)

text \<open>What happens elsewhere leaves the ledgers alone.\<close>

lemma within_book:
  assumes "within R A s s'" "\<And>user d. quota_key q user d \<notin> A"
  shows "today_book R q now user s' = today_book R q now user s"
    "quota_ready R q now user request n s \<Longrightarrow> quota_ready R q now user request n s'"
proof -
  have v: "r_view R s' (quota_key q user d) = r_view R s (quota_key q user d)" for user d
    using assms by (simp add: within_def same_but_def)
  then have h: "hash_of (r_view R s') (quota_key q user d) = hash_of (r_view R s) (quota_key q user d)"
    "value_at (r_view R s') (quota_key q user d) = value_at (r_view R s) (quota_key q user d)" for user d
    by (simp_all add: hash_of_def value_at_def)
  show "today_book R q now user s' = today_book R q now user s" by (simp add: today_book_def h)
  show "quota_ready R q now user request n s \<Longrightarrow> quota_ready R q now user request n s'"
    using assms(1) ledger_ok_value [OF h(2)] by (simp add: quota_ready_def ledgers_ok_def h within_def)
qed

lemma within_keeps_book:
  assumes "\<And>s. within R A s (f s)" "\<And>user d. quota_key q user d \<notin> A"
  shows "keeps_book (today_book R q now) (quota_ready R q now) user request f"
  using within_book [OF assms] by (simp add: keeps_book_def)

text \<open>And a conversation at rest stays at rest while only keys of others change.\<close>

lemma within_rest:
  assumes "within R A s s'" "A \<inter> conv_area c = {}" "plain_scope sc" "at_rest c sc request (r_view R s)"
  shows "at_rest c sc request (r_view R s')"
proof -
  have v: "r_view R s' k = r_view R s k" if "k \<in> conv_area c" for k
    using assms(1,2) that by (auto simp: within_def same_but_def)
  then have h: "value_at (r_view R s') k = value_at (r_view R s) k" "hash_of (r_view R s') k = hash_of (r_view R s) k"
    "string_of (r_view R s') k = string_of (r_view R s) k" if "k \<in> conv_area c" for k
    using that by (simp_all add: value_at_def hash_of_def string_of_def)
  have "conv_ok c (r_view R s')"
    using assms(4) h(1) [OF kind_area] by (auto simp: at_rest_def conv_ok_def)
  then show ?thesis using assms(4) h by (simp add: at_rest_def sequence_at_def)
qed

context calm_env
begin

lemma limiter_within: "within R {fl_prefix l @ i} s (snd (limiter_allow R l i s))"
proof -
  have "within R {fl_prefix l @ i} s (snd (fixed_window_allow_script R (fl_prefix l @ i) w s))" for w
    unfolding fixed_window_allow_script_def Let_def split_beta by (auto intro!: within_command)
  then have "within R {fl_prefix l @ i} s (snd (round_trip R (fixed_window_allow_script R (fl_prefix l @ i) w) s))" for w
    by (simp add: trip_state)
  note w = this [of "fl_window l div 1000000"]
  obtain r s' where "round_trip R (fixed_window_allow_script R (fl_prefix l @ i) (fl_window l div 1000000)) s = (r, s')"
    by fastforce
  with w show ?thesis by (cases r) (simp_all add: limiter_allow_def)
qed

lemma reserve_within: "within R (quota_area q) s (snd (reserve R q subject request now s))"
proof -
  have sc: "within R (quota_area q) s (snd (reserve_script R (quota_key q u d) (quota_key q u' d') f l e e' s))" for u d u' d' f l e e'
    unfolding reserve_script_def Let_def split_beta
    by (auto intro!: within_command split: option.split)
  show ?thesis
  proof (cases "countable_subject subject \<and> trim_space request \<noteq> []")
    case True
    obtain x s' where run: "reserve_script R (quota_key q (sj_user subject) (beijing_day now))
        (quota_key q (sj_user subject) (beijing_day now - 1)) (request_field R request) (q_limit q)
        (unix (day_start (beijing_day now + 2))) (unix (day_start (beijing_day now + 1))) s = (x, s')" by fastforce
    then have "within R (quota_area q) s s'" using sc by (metis snd_conv)
    then show ?thesis
      unfolding reserve_unfold [OF conjunct1 [OF True] conjunct2 [OF True]] Let_def served run by (cases x) simp_all
  qed (auto simp: reserve_def countable_subject_def)
qed

end

context calm_app
begin

lemma agent_send_within:
  assumes "still_model R (fst app)" "av_app v = Some app"
  shows "within R (conv_area (av_store v)) s
    (snd (ac_send (new_agent_client (direct_stub R v)) channel user conversation content request s))"
proof -
  let ?i = "\<lparr>id_channel = channel, id_external = user\<rparr>"
  let ?cmd = "\<lparr>sd_scope = scope_of_identity ?i conversation, sd_content = content, sd_request = request\<rparr>"
  obtain r s' where run: "send R (av_store v) (fst app) (snd app) ?cmd s = (r, s')" by fastforce
  then have "within R (conv_area (av_store v)) s s'"
    using send_within [OF assms(1), of "av_store v" s "snd app" ?cmd] by simp
  then show ?thesis using run assms(2)
    by (cases r) (simp_all add: new_agent_client_def client_send_def direct_stub_def rpc_map_def agent_send_def Let_def
        split: option.split)
qed

text \<open>A request that is new is not answered from an earlier turn.\<close>

lemma not_replayed:
  assumes rest: "at_rest c (storage_scope (sd_scope cmd)) (sd_request cmd) (r_view R s)"
    and sc: "plain_scope (storage_scope (sd_scope cmd))" and store: "good_store c"
  shows "\<not> replays R c repo cmd s b s'"
proof
  let ?sc = "storage_scope (sd_scope cmd)"
  assume "replays R c repo cmd s b s'"
  then obtain history s1 summaries s2 token where r: "messages R c ?sc s = (Inr history, s1)"
    "load_summaries R repo (sd_scope cmd) s1 = (Inr summaries, s2)"
    "begin_batch R c ?sc (sd_request cmd) (trim_space (sd_content cmd)) s2 = (Inr (b, BeginExisting, token), s')"
    by (auto simp: replays_def)
  have "r_view R s1 = r_view R s" using messages_calm [OF rest sc store] r(1) by auto
  then have "r_view R s2 = r_view R s" using load_calm [of repo "sd_scope cmd" s1] r(2) by auto
  then show False using begin_calm [of c ?sc "sd_request cmd" s2 "trim_space (sd_content cmd)"] rest sc store r(3) by auto
qed

end

section \<open>The answer of the agent\<close>

definition api_scope :: "string \<Rightarrow> string \<Rightarrow> scope" where
  "api_scope user conversation =
     storage_scope (scope_of_identity \<lparr>id_channel = ''api'', id_external = user\<rparr> conversation)"

lemma api_scope_plain:
  assumes "find_space conversation = Some sp" "CHR ''|'' \<notin> set user"
  shows "plain_scope (api_scope user conversation)"
proof -
  have "CHR ''}'' \<notin> set conversation"
    using find_space_cases [OF assms(1)]
    by (auto simp: group_space_def direct_space_def registry_def haruhi_character_def kyon_character_def
        yuki_character_def mikuru_character_def koizumi_character_def haruhi_def kyon_def yuki_def mikuru_def koizumi_def)
  then show ?thesis
    using assms(2) by (simp add: api_scope_def storage_scope_def scope_of_identity_def plain_scope_def plain_identity_def
        is_supported_channel_def)
qed

lemma agent_store_good: "good_store agent_store"
  by (simp add: agent_store_def new_redis_store_def good_store_def second_def)

text \<open>What the gateway sees of a turn.\<close>

lemma dto_messages: "wb_messages (response_batch_dto (Some (response_batch_proto b))) =
    map2 (\<lambda>m i. conversation_message_dto (conversation_message_proto m i)) (elems (bt_messages b)) [1..<1 + length (elems (bt_messages b))]"
  by (simp add: response_batch_dto_def response_batch_proto_def conversation_messages_dto_def message_protos_def split_beta' comp_def)

lemma dto_speakers: "map wm_speaker (wb_messages (response_batch_dto (Some (response_batch_proto b)))) =
    map tn_speaker (elems (bt_messages b))"
proof -
  have "map wm_speaker (map2 (\<lambda>m i. conversation_message_dto (conversation_message_proto m i)) ms is) = map tn_speaker ms"
    if "length ms = length is" for ms "is"
    using that by (induction ms "is" rule: list_induct2)
      (simp_all add: conversation_message_dto_def conversation_message_proto_def)
  moreover have "length (elems (bt_messages b)) = length [1..<1 + length (elems (bt_messages b))]"
    by (simp only: length_upt)
  ultimately show ?thesis unfolding dto_messages by blast
qed

definition spoken_turn :: "space \<Rightarrow> string \<Rightarrow> web_batch \<Rightarrow> bool" where
  "spoken_turn sp request b \<longleftrightarrow> wb_request b = request \<and> wb_planned b \<noteq> [] \<and> distinct (wb_planned b) \<and>
     set (wb_planned b) \<subseteq> set (map ch_id (sp_participants sp)) \<and>
     (\<exists>k. map wm_speaker (wb_messages b) = take k (wb_planned b))"

context calm_app
begin

lemma agent_answers:
  assumes space: "find_space conversation = Some sp"
    and user: "validate_identity \<lparr>id_channel = ''api'', id_external = user\<rparr> = None" "CHR ''|'' \<notin> set user"
    and valid: "trim_space content \<noteq> []" "rune_count (trim_space content) \<le> 4000" "env_uuid_ok R request"
    and rest: "at_rest agent_store (api_scope user conversation) request (r_view R s)" and M: "silent_model R M"
    and sent: "ac_send (new_agent_client (direct_stub R (new_agent chat M))) ''api'' user conversation content request s = (r, s')"
  shows "\<exists>b. r = Inr b \<and> spoken_turn sp request b \<and>
    quota_outcome b = (if wb_messages b \<noteq> [] then outcome_delivered else outcome_failed)"
proof -
  let ?i = "\<lparr>id_channel = ''api'', id_external = user\<rparr>"
  let ?cmd = "\<lparr>sd_scope = scope_of_identity ?i conversation, sd_content = content, sd_request = request\<rparr>"
  have rest': "at_rest agent_store (storage_scope (sd_scope ?cmd)) (sd_request ?cmd) (r_view R s)"
    and sc: "plain_scope (storage_scope (sd_scope ?cmd))"
    using rest api_scope_plain [OF space user(2)] by (simp_all add: api_scope_def)
  have sp: "find_space (cp_conversation (sd_scope ?cmd)) = Some sp" using space by (simp add: scope_of_identity_def)
  have "\<exists>b s1. send R agent_store M True ?cmd s = (Inr b, s1)"
    by (rule send_calm [OF rest' sc agent_store_good M sp]) (simp_all add: valid)
  then obtain bt s1 where run: "send R agent_store M True ?cmd s = (Inr bt, s1)" by blast
  let ?b = "response_batch_dto (Some (response_batch_proto bt))"
  have r: "r = Inr ?b"
    using sent run user(1)
    by (auto simp: new_agent_client_def client_send_def direct_stub_def rpc_map_def agent_send_def new_agent_def Let_def)
  have "spoken_turn sp request ?b \<and> quota_outcome ?b = (if wb_messages ?b \<noteq> [] then outcome_delivered else outcome_failed)"
  proof (rule send_cases [OF run])
    assume "replays R agent_store True ?cmd s bt s1"
    then show ?thesis using not_replayed [OF rest' sc agent_store_good] by blast
  next
    fix plan sp' token s0 b0
    assume plan: "find_space (cp_conversation (sd_scope ?cmd)) = Some sp'" "plan \<noteq> []" "distinct plan"
      "set plan \<subseteq> set (map ch_id (sp_participants sp'))" and turn: "faithful_turn plan bt" "bt_request bt = sd_request ?cmd"
    have f: "wb_planned ?b = elems (bt_planned bt)" "wb_status ?b = bt_status bt" "wb_request ?b = bt_request bt"
      by (simp_all add: response_batch_dto_def response_batch_proto_def)
    have sp': "sp' = sp" using plan(1) sp by simp
    obtain k where k: "map tn_speaker (elems (bt_messages bt)) = take k plan" "bt_planned bt = Some plan"
      "bt_status bt \<in> {batch_complete, batch_failed, batch_partial}"
      using turn(1) unfolding faithful_turn_def by (metis insertCI)
    have "spoken_turn sp request ?b"
      using plan(2-4) k(1,2) turn(2) unfolding sp' spoken_turn_def dto_speakers by (auto simp: f)
    moreover have "quota_outcome ?b = (if wb_messages ?b \<noteq> [] then outcome_delivered else outcome_failed)"
      using k(3) by (auto simp: quota_outcome_def f batch_complete_def batch_failed_def batch_partial_def)
    ultimately show ?thesis by blast
  qed
  then show ?thesis using r by blast
qed

end

section \<open>The gateway as it is deployed\<close>

definition deployed_quota :: "gateway_config \<Rightarrow> quota" where
  "deployed_quota cfg = \<lparr>q_prefix = quota_prefix, q_limit = gc_quota_limit cfg\<rparr>"

lemma new_gateway_fields:
  assumes "new_gateway R cfg agent tokens no_tokens push no_push plain = Inr h"
  shows "hd_quota h = Some (redis_quota R (deployed_quota cfg))" "hd_now h = env_now R" "hd_agent h = agent"
    "hd_limiter h = Some (limiter_allow R gateway_limiter)"
  using assms
  by (auto simp: new_gateway_def gateway_handlers_def new_quota_def deployed_quota_def Let_def split: sum.splits if_splits)

context calm_app
begin

lemma deployed_keeps_books:
  assumes "new_gateway R cfg agent tokens no_tokens push no_push plain = Inr h"
    and agent: "agent = new_agent_client (direct_stub R (new_agent chat M))" "still_model R M"
  shows "keeps_book (today_book R (deployed_quota cfg) now) (quota_ready R (deployed_quota cfg) now) user rid
      (\<lambda>s. snd (allow_open_id h who s))"
    "keeps_book (today_book R (deployed_quota cfg) now) (quota_ready R (deployed_quota cfg) now) user rid (\<lambda>s. snd (hd_now h s))"
    "keeps_book (today_book R (deployed_quota cfg) now) (quota_ready R (deployed_quota cfg) now) user rid
      (\<lambda>s. snd (ac_send (hd_agent h) channel who conversation content request s))"
    "within R {fl_prefix gateway_limiter @ who} s (snd (allow_open_id h who s))"
proof -
  note f = new_gateway_fields [OF assms(1)]
  show al: "within R {fl_prefix gateway_limiter @ who} s (snd (allow_open_id h who s))" for s
    using limiter_within [of gateway_limiter who s] by (auto simp: allow_open_id_def f(4) split: prod.split sum.split)
  have k: "quota_key (deployed_quota cfg) u d \<notin> conv_area agent_store"
    "quota_key (deployed_quota cfg) u d \<noteq> fl_prefix gateway_limiter @ who" for u d
    by (simp_all add: quota_key_def deployed_quota_def conv_area_def agent_store_def new_redis_store_def quota_prefix_def
        gateway_limiter_def image_iff)
  show "keeps_book (today_book R (deployed_quota cfg) now) (quota_ready R (deployed_quota cfg) now) user rid
      (\<lambda>s. snd (allow_open_id h who s))"
    by (rule within_keeps_book [OF al]) (simp add: k(2))
  show "keeps_book (today_book R (deployed_quota cfg) now) (quota_ready R (deployed_quota cfg) now) user rid
      (\<lambda>s. snd (hd_now h s))"
    by (rule within_keeps_book [where A = "{}"]) (simp_all add: f(2) still_within(1))
  show "keeps_book (today_book R (deployed_quota cfg) now) (quota_ready R (deployed_quota cfg) now) user rid
      (\<lambda>s. snd (ac_send (hd_agent h) channel who conversation content request s))"
    unfolding f(3) agent(1)
    by (rule within_keeps_book [OF agent_send_within [where app = "(M, True)"]])
      (use agent(2) k(1) in \<open>simp_all add: new_agent_def\<close>)
qed

lemma deployed_turn:
  assumes gateway: "new_gateway R cfg (new_agent_client (direct_stub R (new_agent chat M))) tokens no_tokens push no_push
        plain = Inr h" and M: "still_model R M" and exact: "lua_exact (gc_quota_limit cfg)"
    and user: "\<not> us_admin u" "validate_identity \<lparr>id_channel = ''api'', id_external = us_id u\<rparr> = None"
      "CHR ''|'' \<notin> set (us_id u)"
    and message: "find_space conversation = Some sp" "sendable R m" "request = trim_space (mq_request m)"
      "rid = scoped_quota_request_id conversation request"
    and rest: "at_rest agent_store (api_scope (us_id u) conversation) request (r_view R s)"
    and now: "fst (env_now R (snd (allow_open_id h (us_id u) s))) = now" "fst (allow_open_id h (us_id u) s)"
    and ready: "quota_ready R (deployed_quota cfg) now (us_id u) rid 2 s"
    and new: "today_book R (deployed_quota cfg) now (us_id u) s (request_field R rid) = None"
    and run: "web_send_conversation_message R h u conversation (Some m) s = (resp, s')"
  shows "if int (ledger_used (today_book R (deployed_quota cfg) now (us_id u) s)) < gc_quota_limit cfg
    then \<exists>b snap. resp = json_response 200 (BatchBody b snap) \<and> spoken_turn sp request b \<and>
      today_book R (deployed_quota cfg) now (us_id u) s' =
        (if wb_messages b \<noteq> [] then (today_book R (deployed_quota cfg) now (us_id u) s)(request_field R rid \<mapsto> Charged)
         else today_book R (deployed_quota cfg) now (us_id u) s)
    else ws_status resp = 429 \<and>
      today_book R (deployed_quota cfg) now (us_id u) s' = today_book R (deployed_quota cfg) now (us_id u) s"
proof -
  let ?q = "deployed_quota cfg" and ?f = "request_field R rid"
  let ?book = "today_book R ?q now (us_id u)"
  note f = new_gateway_fields [OF gateway]
  note keeps = deployed_keeps_books [OF gateway refl M]
  have lim: "q_limit ?q = gc_quota_limit cfg" "q_prefix ?q = quota_prefix" by (simp_all add: deployed_quota_def)
  have "calm_quota R ?q" using exact by (intro calm_quota.intro calm_quota_axioms.intro calm_env_axioms) (simp add: lim)
  note books = calm_quota.redis_books [OF this, of now]
  obtain ok b where step: "ledger_reserve (q_limit ?q) ?f (?book s) = (ok, b)" by fastforce
  have b: "ok = (int (ledger_used (?book s)) < gc_quota_limit cfg)" "b = (if ok then (?book s)(?f \<mapsto> Reserved) else ?book s)"
    using step new by (auto simp: ledger_reserve_def lim split: if_splits)
  have turn: "charged_turn h u conversation (mq_content m) request (\<lambda>batch snap. json_response 200 (BatchBody batch snap)) s =
      (resp, s')"
    using run by (simp add: sendable_turn [OF message(2)] message(3))
  have ready2: "quota_ready R ?q now (us_id u) rid (Suc (Suc 0)) s" using ready by (simp add: numeral_2_eq_2)
  have t: "fst (hd_now h (snd (allow_open_id h (us_id u) s))) = now" using now(1) by (simp add: f(2))
  note tb = turn_quota.turn_books [OF books f(1) t user(1) message(4) ready2 now(2) keeps(1-3) turn step]
  show ?thesis
  proof (cases ok)
    case False
    then show ?thesis using tb b(1) by simp
  next
    case True
    with tb obtain s2 r s3 snap where sent: "ac_send (hd_agent h) ''api'' (us_id u) conversation (mq_content m) request s2 = (r, s3)"
      and s2: "s2 = snd (reserve_quota h u rid (snd (allow_open_id h (us_id u) s)))"
      and book: "?book s' = ledger_settle ?f (turn_outcome r) b"
      and resp: "resp = (case r of Inl e \<Rightarrow> api_agent_error e | Inr batch \<Rightarrow> json_response 200 (BatchBody batch snap))"
      by auto
    define A where "A = insert (fl_prefix gateway_limiter @ us_id u) (quota_area ?q)"
    have apart: "A \<inter> conv_area agent_store = {}" using areas_apart(1,2) lim(2) unfolding A_def by blast
    have "within R A s s2"
    proof -
      let ?s1 = "snd (allow_open_id h (us_id u) s)" and ?t1 = "snd (env_now R (snd (allow_open_id h (us_id u) s)))"
      have "within R A s ?s1" using keeps(4) by (rule within_mono) (simp add: A_def)
      also have "within R A ?s1 ?t1" by (rule still_within(1)) simp
      also have "within R A ?t1 (snd (reserve R ?q (quota_subject u) rid now ?t1))"
        by (rule within_mono [OF reserve_within]) (auto simp: A_def)
      also have "snd (reserve R ?q (quota_subject u) rid now ?t1) = s2"
        using s2 now(1) by (auto simp: reserve_quota_def f(1,2) redis_quota_def split: prod.split option.split)
      finally show ?thesis .
    qed
    then have rest2: "at_rest agent_store (api_scope (us_id u) conversation) request (r_view R s2)"
      by (rule within_rest [OF _ apart api_scope_plain [OF message(1) user(3)] rest])
    have valid: "trim_space (mq_content m) \<noteq> []" "rune_count (trim_space (mq_content m)) \<le> 4000" "env_uuid_ok R request"
      using message(2,3) by (simp_all add: sendable_def)
    have "silent_model R M" using M by (simp add: still_model_def)
    from agent_answers [OF message(1) user(2,3) valid rest2 this sent [unfolded f(3)]] obtain batch where
      batch: "r = Inr batch" "spoken_turn sp request batch"
      "quota_outcome batch = (if wb_messages batch \<noteq> [] then outcome_delivered else outcome_failed)" by blast
    have none: "(?book s)(?f := None) = ?book s" using new by (simp add: fun_upd_idem)
    have "?book s' = (if wb_messages batch \<noteq> [] then (?book s)(?f \<mapsto> Charged) else ?book s)"
      using book b(2) batch(1,3) True none by (auto simp: turn_outcome_def ledger_settle_def outcome_defs)
    moreover have "resp = json_response 200 (BatchBody batch snap)" using resp batch(1) by simp
    ultimately show ?thesis using True b(1) batch(2) by auto
  qed
qed

end

text \<open>
  C1. The deployed services end to end: a new message of a signed-in user to an existing
  conversation at rest is answered with 200 and a turn of its characters, the first of the
  planned ones having spoken, and it is charged to the user's day exactly if at least one of
  them has; when the day is used up it is refused with 429. Either way nothing else of the
  day's ledger changes. The language model may answer anything, or fail.
\<close>

theorem deployed_turn_is_charged_by_its_replies:
  assumes "calm_app R" "still_model R M" "lua_exact (gc_quota_limit cfg)"
    and "new_gateway R cfg (new_agent_client (direct_stub R (new_agent chat M))) tokens no_tokens push no_push plain = Inr h"
    and "\<not> us_admin u" "validate_identity \<lparr>id_channel = ''api'', id_external = us_id u\<rparr> = None" "CHR ''|'' \<notin> set (us_id u)"
    and "find_space conversation = Some sp" "sendable R m" "request = trim_space (mq_request m)"
    and "rid = scoped_quota_request_id conversation request"
    and "at_rest agent_store (api_scope (us_id u) conversation) request (r_view R s)"
    and "fst (env_now R (snd (allow_open_id h (us_id u) s))) = now" "fst (allow_open_id h (us_id u) s)"
    and "quota_ready R (deployed_quota cfg) now (us_id u) rid 2 s"
    and "today_book R (deployed_quota cfg) now (us_id u) s (request_field R rid) = None"
    and "web_send_conversation_message R h u conversation (Some m) s = (resp, s')"
  shows "if int (ledger_used (today_book R (deployed_quota cfg) now (us_id u) s)) < gc_quota_limit cfg
    then \<exists>b snap. resp = json_response 200 (BatchBody b snap) \<and> spoken_turn sp request b \<and>
      today_book R (deployed_quota cfg) now (us_id u) s' =
        (if wb_messages b \<noteq> [] then (today_book R (deployed_quota cfg) now (us_id u) s)(request_field R rid \<mapsto> Charged)
         else today_book R (deployed_quota cfg) now (us_id u) s)
    else ws_status resp = 429 \<and>
      today_book R (deployed_quota cfg) now (us_id u) s' = today_book R (deployed_quota cfg) now (us_id u) s"
  by (rule calm_app.deployed_turn [OF assms(1,4,2,3) assms(5-17)])

definition demo_config :: gateway_config where
  "demo_config = read_gateway default_process 20 shanghai"

lemma demo_limit [simp]: "gc_quota_limit demo_config = 20" "gc_auth_pepper demo_config = ''x''"
  by (simp_all add: demo_config_def read_gateway_def default_process_def)

text \<open>A model that answers nothing, and the gateway's parts that WeChat would use.\<close>

definition silent_chat :: "'s chat" where
  "silent_chat prompt = Pair (Inr None)"

definition no_push :: "'s pusher" where
  "no_push token user txt = Pair (Inr ())"

definition nothing_seen :: "string \<Rightarrow> ('s, bool) io" where
  "nothing_seen message = Pair (Inr False)"

definition no_wechat :: "'s token_source" where
  "no_wechat = \<lparr>ts_get = Pair (Inl (WxOther ErrService)), ts_refresh = Pair (Inl (WxOther ErrService))\<rparr>"

lemma trim_x: "trim_space ''x'' = ''x''"
  using trim_printable [of "''x''"] by (simp add: code_def)

lemma demo_gateway: "\<exists>h. new_gateway calm_ref demo_config agent (\<lambda>a b c. no_wechat) no_wechat push push plain = Inr h"
proof -
  have "trim_space quota_prefix = quota_prefix"
    by (rule trim_printable) (simp add: quota_prefix_def code_def)
  then have "new_quota quota_prefix 20 = Inr \<lparr>q_prefix = quota_prefix, q_limit = 20\<rparr>"
    by (simp add: new_quota_def quota_prefix_def)
  then show ?thesis by (simp add: new_gateway_def gateway_auth_def new_service_def trim_x Let_def)
qed

lemma demo_allowed:
  "\<exists>s1. limiter_allow calm_ref gateway_limiter ''alice'' (db_start demo_now) = (Inr True, s1) \<and> rw_now s1 = demo_now"
proof -
  have i: "r_incr calm_ref = ref_incr" "r_pexpire calm_ref k t s = ref_apply (expire_key (rf_clock s) k (rf_clock s + t)) s" for k t s
    by (simp_all add: calm_ref_def ref_db_def db_env.defs ref_env_def env.defs ref_redis_def)
  have now: "rw_now (ref_apply f s) = rw_now s" for f and s :: ref_db_world by (simp add: ref_apply_def)
  define s where "s = db_start demo_now"
  let ?k = "fl_prefix gateway_limiter @ ''alice''"
  have s: "ref_view s = Map.empty" "rw_now s = demo_now"
    by (simp_all add: s_def demo_view) (simp add: db_start_def ref_start_def ref_world.defs ref_db_world.defs)
  define t where "t = ref_guard (is_string_key (ref_view s) ?k) (store ?k (RString (Num 1))) s"
  have t: "ref_incr ?k s = (1, t)" "rw_now t = demo_now"
    using s by (simp_all add: ref_incr_def string_of_def value_at_def num_of_def t_def ref_guard_def now)
  have "fixed_window_allow_script calm_ref ?k w s = (Some 1, ref_apply (expire_key (rf_clock t) ?k (rf_clock t + w)) t)" for w
    by (simp add: fixed_window_allow_script_def i t)
  then show ?thesis unfolding s_def [symmetric]
    by (simp add: limiter_allow_def calm_ref.served now t) (simp add: gateway_limiter_def)
qed

theorem deployed_turn_is_charged_by_its_replies_witness:
  "\<exists>h resp s' b snap. new_gateway calm_ref demo_config (new_agent_client (direct_stub calm_ref (new_agent silent_chat quiet_reply)))
       (\<lambda>a b c. no_wechat) no_wechat no_push no_push nothing_seen = Inr h \<and>
     web_send_conversation_message calm_ref h alice ''direct-kyon'' (Some hello) (db_start demo_now) = (resp, s') \<and>
     resp = json_response 200 (BatchBody b snap) \<and> spoken_turn (direct_space kyon_character) (trim_space (mq_request hello)) b"
proof -
  let ?agent = "new_agent_client (direct_stub calm_ref (new_agent silent_chat quiet_reply))"
  let ?s = "db_start demo_now" and ?rid = "scoped_quota_request_id ''direct-kyon'' (trim_space (mq_request hello))"
  let ?q = "deployed_quota demo_config"
  obtain h where h: "new_gateway calm_ref demo_config ?agent (\<lambda>a b c. no_wechat) no_wechat no_push no_push nothing_seen = Inr h"
    using demo_gateway by blast
  obtain resp s' where run: "web_send_conversation_message calm_ref h alice ''direct-kyon'' (Some hello) ?s = (resp, s')"
    by fastforce
  have model: "still_model calm_ref quiet_reply" by (simp add: still_model_def silent_model_def quiet_reply_def)
  have clock: "env_now calm_ref = ref_now" by (simp add: calm_ref_def)
  have book: "today_book calm_ref q now user ?s = Map.empty" for q now user
    by (simp add: today_book_def demo_view hash_of_def)
  have limit: "hd_limiter h = Some (limiter_allow calm_ref gateway_limiter)" by (rule new_gateway_fields [OF h])
  have al: "fst (allow_open_id h ''alice'' ?s)" "rw_now (snd (allow_open_id h ''alice'' ?s)) = demo_now"
    using demo_allowed by (auto simp: allow_open_id_def limit)
  have rest: "at_rest agent_store (api_scope (us_id alice) ''direct-kyon'') (trim_space (mq_request hello)) (r_view calm_ref ?s)"
    by (simp add: at_rest_def demo_view conv_ok_empty hash_of_def value_at_def sequence_at_def string_of_def num_of_def)
  have "if int (ledger_used (today_book calm_ref ?q demo_now (us_id alice) ?s)) < gc_quota_limit demo_config
    then \<exists>b snap. resp = json_response 200 (BatchBody b snap) \<and>
        spoken_turn (direct_space kyon_character) (trim_space (mq_request hello)) b \<and>
        today_book calm_ref ?q demo_now (us_id alice) s' =
          (if wb_messages b \<noteq> [] then (today_book calm_ref ?q demo_now (us_id alice) ?s)(request_field calm_ref ?rid \<mapsto> Charged)
           else today_book calm_ref ?q demo_now (us_id alice) ?s)
    else ws_status resp = 429 \<and>
      today_book calm_ref ?q demo_now (us_id alice) s' = today_book calm_ref ?q demo_now (us_id alice) ?s"
    by (rule deployed_turn_is_charged_by_its_replies [OF calm_ref.calm_app_axioms model _ h _ _ _ demo_space hello_sendable
          refl refl rest _ _ _ _ run])
      (use al hello_ready [of ?q "''direct-kyon''" "CHR ''d''" "''irect-kyon''"] in \<open>simp_all add: book lua_exact_def
        validate_identity_def is_supported_channel_def max_external_id_def code_def deployed_quota_def clock ref_now_def\<close>)
  then show ?thesis using h run by (auto simp: book ledger_used_def)
qed

end
