(* ===== verification/Conversation_Turns.thy ===== *)
theory Conversation_Turns
  imports Conversation_Correct
begin

text \<open>
  What many clients of the conversation store do at once. Redis runs a script, a transaction or
  a single command as a whole; the methods of the store are sequences of these with the clock
  and the network in between. Here the commands are the steps, so that the calls of different
  clients interleave at every point where they can. A lease keeps a turn together: as long as
  it is held, nobody else's message gets into the list behind the message that was asked.
\<close>

section \<open>Commands\<close>

text \<open>Whatever a client may have Redis run, with the arguments that come from the client.\<close>

datatype conv_command =
    OpBegin scope day string string batch_doc string
  | OpAppend scope batch string turn batch_doc string
  | OpSave scope string day string batch_doc string bool
  | OpInterrupt scope string day string string time
  | OpMigrate scope day
  | OpClear scope day
  | OpAddTurn identity day turn
  | OpClearTurns identity day

text \<open>A command answers the message it appended, if it is one that appends.\<close>

fun run_command :: "('s, 'z) redis_scheme \<Rightarrow> conv_store \<Rightarrow> conv_command \<Rightarrow> 's \<Rightarrow> turn option \<times> 's" where
  "run_command R c (OpBegin sc d bid request data token) s =
     (None, snd (begin_batch_script R (begin_keys_of c sc d bid) request data token (milliseconds (cs_ttl c))
        (milliseconds (cs_lease_ttl c)) (active_scope_member sc) s))"
| "run_command R c (OpAppend sc b token m data request) s =
     (case append_character_script R (append_keys_of c sc b) token m data request (milliseconds (cs_ttl c))
             (milliseconds (cs_lease_ttl c)) s of
        (Some (ReplyAppended m' _), s') \<Rightarrow> (Some m', s')
      | (_, s') \<Rightarrow> (None, s'))"
| "run_command R c (OpSave sc bid d token data request release) s =
     (None, snd (save_batch_script R (lease_key c sc) (batch_key c sc bid) (requests_key c sc d) token data request
        (milliseconds (cs_ttl c)) release (milliseconds (cs_lease_ttl c)) s))"
| "run_command R c (OpInterrupt sc bid d token request now) s =
     (None, snd (interrupt_batch_script R (lease_key c sc) (batch_key c sc bid) (requests_key c sc d) token request
        (milliseconds (cs_ttl c)) now s))"
| "run_command R c (OpMigrate sc d) s =
     (None, snd (migrate_legacy_script R (turns_key c (sc_identity sc) d) (messages_key c sc d) (sequence_key c sc d)
        (milliseconds (cs_ttl c)) s))"
| "run_command R c (OpClear sc d) s = (None, clear_scope_pipe R c sc d s)"
| "run_command R c (OpAddTurn i d t) s = (None, add_turn_pipe R c i d t s)"
| "run_command R c (OpClearTurns i d) s = (None, clear_turns_pipe R c i d s)"

text \<open>
  The arguments as the methods make them: documents with their collections, a batch that was
  planned before it grows, and a number that is still exact in Lua.
\<close>

fun command_ok :: "conv_store \<Rightarrow> keyspace \<Rightarrow> conv_command \<Rightarrow> bool" where
  "command_ok c ks (OpBegin sc d bid request data token) \<longleftrightarrow>
     plain_scope sc \<and> doc_ok data \<and> sequence_at ks (sequence_key c sc d) \<le> 2 ^ 52"
| "command_ok c ks (OpAppend sc b token m data request) \<longleftrightarrow>
     plain_scope sc \<and> bd_planned data = JArray (field_elems (bd_planned data)) \<and> field_elems (bd_planned data) \<noteq> [] \<and>
     bd_messages data = JArray (field_elems (bd_messages data)) \<and> field_elems (bd_messages data) \<noteq> [] \<and>
     sequence_at ks (sequence_key c sc (beijing_day (bt_created b))) \<le> 2 ^ 52"
| "command_ok c ks (OpSave sc bid d token data request release) \<longleftrightarrow> plain_scope sc \<and> doc_ok data"
| "command_ok c ks (OpInterrupt sc bid d token request now) \<longleftrightarrow> plain_scope sc"
| "command_ok c ks (OpMigrate sc d) \<longleftrightarrow> plain_scope sc"
| "command_ok c ks (OpClear sc d) \<longleftrightarrow> plain_scope sc"
| "command_ok c ks (OpAddTurn i d t) \<longleftrightarrow> plain_identity i"
| "command_ok c ks (OpClearTurns i d) \<longleftrightarrow> plain_identity i"

text \<open>
  A run is any sequence of commands and pauses; its path records each of them with its answer
  and the state it led to.
\<close>

type_synonym 's step = "conv_command option \<times> turn option \<times> 's"

inductive command_run :: "('s, 'z) env_scheme \<Rightarrow> conv_store \<Rightarrow> 's \<Rightarrow> 's step list \<Rightarrow> 's \<Rightarrow> bool"
  for R :: "('s, 'z) env_scheme" and c :: conv_store and s0 :: 's
where
  run_start: "command_run R c s0 [] s0"
| run_command: "command_run R c s0 path s \<Longrightarrow> command_ok c (r_view R s) cmd \<Longrightarrow> run_command R c cmd s = (reply, s') \<Longrightarrow>
    command_run R c s0 (path @ [(Some cmd, reply, s')]) s'"
| run_pause: "command_run R c s0 path s \<Longrightarrow> s' \<in> {snd (r_arrive R s), snd (env_now R s), snd (env_random R n s)} \<Longrightarrow>
    command_run R c s0 (path @ [(None, None, s')]) s'"

text \<open>The replies of one turn: what was appended under its token to the day's list.\<close>

fun own_reply :: "conv_store \<Rightarrow> scope \<Rightarrow> day \<Rightarrow> string \<Rightarrow> 's step \<Rightarrow> blob list" where
  "own_reply c sc d token (Some (OpAppend sc' b token' m data request), Some m', s) =
     (if sc' = sc \<and> token' = token \<and> messages_key c sc (beijing_day (bt_created b)) = messages_key c sc d
      then [TurnDoc m'] else [])"
| "own_reply c sc d token _ = []"

definition own_replies :: "conv_store \<Rightarrow> scope \<Rightarrow> day \<Rightarrow> string \<Rightarrow> 's step list \<Rightarrow> blob list" where
  "own_replies c sc d token path = concat (map (own_reply c sc d token) path)"

text \<open>
  What else may happen to the day's list: the migration moves what the old list of the identity
  holds to its front; clearing the day, and time passing while nothing is asked, may empty it.
\<close>

fun moved_by :: "('s, 'z) redis_scheme \<Rightarrow> conv_store \<Rightarrow> scope \<Rightarrow> day \<Rightarrow> 's \<Rightarrow> conv_command option \<Rightarrow> blob list" where
  "moved_by R c sc d s (Some (OpMigrate sc' d')) =
     (if messages_key c sc' d' = messages_key c sc d then list_of (r_view R s) (turns_key c (sc_identity sc') d') else [])"
| "moved_by R c sc d s _ = []"

fun moved_on_path :: "('s, 'z) redis_scheme \<Rightarrow> conv_store \<Rightarrow> scope \<Rightarrow> day \<Rightarrow> 's \<Rightarrow> 's step list \<Rightarrow> blob list" where
  "moved_on_path R c sc d s [] = []"
| "moved_on_path R c sc d s ((cmd, reply, s') # path) = moved_on_path R c sc d s' path @ moved_by R c sc d s cmd"

fun may_empty :: "conv_store \<Rightarrow> scope \<Rightarrow> day \<Rightarrow> conv_command option \<Rightarrow> bool" where
  "may_empty c sc d None \<longleftrightarrow> True"
| "may_empty c sc d (Some (OpClear sc' d')) \<longleftrightarrow> messages_key c sc' d' = messages_key c sc d"
| "may_empty c sc d (Some _) \<longleftrightarrow> False"

text \<open>The state a path leads to, and whether the list was never found empty on it.\<close>

definition path_end :: "'s \<Rightarrow> 's step list \<Rightarrow> 's" where
  "path_end s path = (if path = [] then s else snd (snd (last path)))"

definition never_empty :: "('s, 'z) redis_scheme \<Rightarrow> conv_store \<Rightarrow> scope \<Rightarrow> day \<Rightarrow> 's step list \<Rightarrow> bool" where
  "never_empty R c sc d path \<longleftrightarrow> (\<forall>(cmd, reply, s) \<in> set path. list_of (r_view R s) (messages_key c sc d) \<noteq> [])"

fun takes_token :: "string \<Rightarrow> conv_command \<Rightarrow> bool" where
  "takes_token token (OpBegin sc d bid request data token') \<longleftrightarrow> token' = token"
| "takes_token token _ \<longleftrightarrow> False"

text \<open>Tokens are random and drawn for one beginning only.\<close>

definition token_is_fresh :: "string \<Rightarrow> 's step list \<Rightarrow> bool" where
  "token_is_fresh token path \<longleftrightarrow> (\<forall>(cmd, reply, s) \<in> set path. \<forall>x. cmd = Some x \<longrightarrow> \<not> takes_token token x)"

section \<open>Every command keeps the store well typed\<close>

context quiet_env
begin

lemma command_keeps:
  assumes "conv_ok c (r_view R s)" "command_ok c (r_view R s) cmd" "good_store c"
  shows "conv_ok c (r_view R (snd (run_command R c cmd s)))"
proof -
  note ttl = good_store_ms [OF assms(3)]
  show ?thesis
  proof (cases cmd)
    case (OpBegin sc d bid request data token)
    then show ?thesis using begin_script_ok [OF assms(1)] assms(2) ttl by simp
  next
    case (OpAppend sc b token m data request)
    have "snd (run_command R c cmd s) = snd (append_character_script R (append_keys_of c sc b) token m data request
        (milliseconds (cs_ttl c)) (milliseconds (cs_lease_ttl c)) s)"
      by (simp add: OpAppend split: prod.split option.split append_reply.split)
    then show ?thesis using append_script_ok [OF assms(1)] assms(2) ttl OpAppend by auto
  next
    case (OpSave sc bid d token data request release)
    then show ?thesis using save_script_ok [OF assms(1)] assms(2) ttl by simp
  next
    case (OpInterrupt sc bid d token request now)
    then show ?thesis using interrupt_script_ok [OF assms(1)] assms(2) ttl by simp
  next
    case (OpMigrate sc d)
    then show ?thesis using migrate_script_ok(1) [OF assms(1)] assms(2) ttl by simp
  next
    case (OpClear sc d)
    then show ?thesis using assms(1)
      by (auto simp: clear_scope_pipe_def Let_def intro!: srem_ok [OF _ kind_active] srem_ok [OF _ kind_scopes] del_ok)
  next
    case (OpAddTurn i d t)
    then have i: "plain_identity i" using assms(2) by simp
    note tq = conv_messages [OF assms(1) kind_turns [OF i]]
    have push: "r_view R (r_rpush R (turns_key c i d) (TurnDoc t) s) =
        store (turns_key c i d) (RList (list_of (r_view R s) (turns_key c i d) @ [TurnDoc t])) (r_view R s)"
      using tq(1) by (intro rpush) blast
    have ok: "conv_ok c (r_view R (r_rpush R (turns_key c i d) (TurnDoc t) s))"
      unfolding push by (rule conv_ok_store [OF assms(1) kind_turns [OF i]]) (use tq(2) in auto)
    have "conv_ok c (r_view R (r_sadd R (active_key c d) (active_member i) (r_rpush R (turns_key c i d) (TurnDoc t) s)))"
      unfolding sadd [OF conv_set [OF ok kind_active disjI1 [OF refl]]] by (rule conv_ok_store [OF ok kind_active]) simp
    then show ?thesis by (simp add: OpAddTurn add_turn_pipe_def Let_def pexpire conv_ok_expire)
  next
    case (OpClearTurns i d)
    then show ?thesis using assms(1)
      by (auto simp: clear_turns_pipe_def intro!: srem_ok [OF _ kind_active] del_ok)
  qed
qed

lemma pause_view: "s' \<in> {snd (r_arrive R s), snd (env_now R s), snd (env_random R n s)} \<Longrightarrow> aged (r_view R s) (r_view R s')"
  by (auto simp: arrive now_view random_view)

lemma command_run_ok:
  assumes "command_run R c s0 path s" "conv_ok c (r_view R s0)" "good_store c"
  shows "conv_ok c (r_view R s)"
  using assms
proof induction
  case (run_command path s cmd reply s')
  then show ?case using command_keeps [of c s cmd] by simp
next
  case (run_pause path s s' n)
  then show ?case using pause_view aged_ok by blast
qed

end

section \<open>Nobody speaks into a turn\<close>

text \<open>
  One step, seen from a turn that holds the lease at its end: it held the lease before, and its
  list was extended by its own reply behind and by moved messages in front, or emptied.
\<close>

definition turn_change ::
  "conv_store \<Rightarrow> scope \<Rightarrow> day \<Rightarrow> string \<Rightarrow> keyspace \<Rightarrow> blob list \<Rightarrow> blob list \<Rightarrow> bool \<Rightarrow> keyspace \<Rightarrow> bool" where
  "turn_change c sc d token ks moved own may ks' \<longleftrightarrow>
     (string_of ks' (lease_key c sc) = Some (Raw token) \<longrightarrow>
        string_of ks (lease_key c sc) = Some (Raw token) \<and>
        (list_of ks' (messages_key c sc d) = moved @ list_of ks (messages_key c sc d) @ own \<or>
         may \<and> moved = [] \<and> own = [] \<and> list_of ks' (messages_key c sc d) = []))"

definition turn_step :: "conv_store \<Rightarrow> scope \<Rightarrow> day \<Rightarrow> string \<Rightarrow> keyspace \<Rightarrow> blob list \<Rightarrow> keyspace \<Rightarrow> bool" where
  "turn_step c sc d token ks own ks' \<longleftrightarrow> turn_change c sc d token ks [] own False ks'"

lemma turn_step_same:
  assumes "same_but A ks ks'" "lease_key c sc \<notin> A" "messages_key c sc d \<notin> A"
  shows "turn_step c sc d token ks [] ks'"
  using same_but_typed(4) [OF assms(1,2)] same_but_typed(6) [OF assms(1,3)] by (simp add: turn_step_def turn_change_def)

lemma turn_step_refl [simp]: "turn_step c sc d token ks [] ks"
  by (simp add: turn_step_def turn_change_def)

text \<open>A command that works under a lease leaves the lists alone, and gives the lease to no one.\<close>

lemma turn_step_lease:
  assumes "same_but A ks ks'" "messages_key c sc d \<notin> A"
    and "string_of ks' (lease_key c sc) = Some (Raw token) \<Longrightarrow> string_of ks (lease_key c sc) = Some (Raw token)"
  shows "turn_step c sc d token ks [] ks'"
  using same_but_typed(6) [OF assms(1,2)] assms(3) by (simp add: turn_step_def turn_change_def)

lemma scope_keys_eq:
  assumes "plain_scope sc" "plain_scope sc'"
  shows "lease_key c sc = lease_key c sc' \<longleftrightarrow> sc = sc'"
    and "messages_key c sc d = messages_key c sc' d' \<Longrightarrow> sc = sc'"
    and "turns_key c (sc_identity sc') d' \<noteq> messages_key c sc d" "turns_key c (sc_identity sc') d' \<noteq> lease_key c sc"
    and "messages_key c sc d \<noteq> turns_key c (sc_identity sc') d'" "lease_key c sc \<noteq> turns_key c (sc_identity sc') d'"
proof -
  show "lease_key c sc = lease_key c sc' \<longleftrightarrow> sc = sc'" "messages_key c sc d = messages_key c sc' d' \<Longrightarrow> sc = sc'"
    using assms by (auto simp: scoped_key_defs scope_key_inject)
  have "plain_identity (sc_identity sc')" using assms(2) by (simp add: plain_scope_def)
  note k = turns_keys_differ [OF this]
  show "turns_key c (sc_identity sc') d' \<noteq> messages_key c sc d" "turns_key c (sc_identity sc') d' \<noteq> lease_key c sc"
    "messages_key c sc d \<noteq> turns_key c (sc_identity sc') d'" "lease_key c sc \<noteq> turns_key c (sc_identity sc') d'"
    by (simp_all add: scoped_key_defs k)
qed

lemma global_not_scoped [simp]:
  "active_key c d' \<noteq> messages_key c sc d" "active_key c d' \<noteq> lease_key c sc"
  "active_scopes_key c d' \<noteq> messages_key c sc d" "active_scopes_key c d' \<noteq> lease_key c sc"
  "messages_key c sc d \<noteq> active_key c d'" "lease_key c sc \<noteq> active_key c d'"
  "messages_key c sc d \<noteq> active_scopes_key c d'" "lease_key c sc \<noteq> active_scopes_key c d'"
  "sequence_key c sc d \<noteq> active_key c d'" "sequence_key c sc d \<noteq> active_scopes_key c d'"
  by (simp_all add: scoped_key_defs)

context redis_service
begin

lemma begin_turn_step:
  assumes ok: "conv_ok c (r_view R s)" and sc: "plain_scope sc" "plain_scope sc'" and data: "doc_ok data"
    and small: "in_int64 (sequence_at (r_view R s) (sequence_key c sc' d') + 1)" and ttl: "0 < ttl" "0 < lease_ttl"
    and fresh: "token' \<noteq> token"
  shows "turn_step c sc d token (r_view R s) []
    (r_view R (snd (begin_batch_script R (begin_keys_of c sc' d' bid) request data token' ttl lease_ttl member s)))"
proof (cases "known_request (begin_keys_of c sc' d' bid) request (r_view R s)")
  case (Some bl)
  obtain b ledger where known: "known_request (begin_keys_of c sc' d' bid) request (r_view R s) = Some (b, ledger)"
    using Some by (cases bl) auto
  then have l: "ledger = requests_key c sc' d' \<or> ledger = requests_key c sc' (d' - 1)"
    by (auto simp: known_request_def split: option.splits)
  obtain doc s' where "begin_batch_script R (begin_keys_of c sc' d' bid) request data token' ttl lease_ttl member s =
      (Some (ReplyExisting (settle_doc (value_at (r_view R s) (lease_key c sc') \<noteq> None) doc)), s')"
    "r_view R s' = store ledger (RHash ((hash_of (r_view R s) ledger)
        (request \<mapsto> BatchDoc (settle_doc (value_at (r_view R s) (lease_key c sc') \<noteq> None) doc)))) (r_view R s)"
    by (rule begin_known [OF ok sc(2) known])
  moreover have "same_but {ledger} (r_view R s) (r_view R s')" unfolding calculation(2) by (simp add: redis_simps)
  ultimately show ?thesis using l sc by (auto intro: turn_step_same)
next
  case None
  show ?thesis
  proof (cases "value_at (r_view R s) (lease_key c sc') = None")
    case False
    then show ?thesis using begin_busy [OF ok sc(2) None] by auto
  next
    case True
    obtain s' where run: "begin_batch_script R (begin_keys_of c sc' d' bid) request data token' ttl lease_ttl member s =
      (Some (ReplyStarted (started_doc data (nat (sequence_at (r_view R s) (sequence_key c sc' d') + 1))) token'), s')"
      "string_of (r_view R s') (lease_key c sc') = Some (Raw token')"
      "same_but {messages_key c sc' d', sequence_key c sc' d', requests_key c sc' d', lease_key c sc',
       batch_key c sc' bid, active_scopes_key c d'} (r_view R s) (r_view R s')"
      by (rule begin_started [OF ok sc(2) None True refl small data ttl])
    show ?thesis
    proof (cases "sc = sc'")
      case True
      then show ?thesis using run(1,2) fresh by (simp add: turn_step_def turn_change_def)
    next
      case False
      then have "messages_key c sc d \<noteq> messages_key c sc' d'" using scope_keys_eq(2) [OF sc] by blast
      then have "turn_step c sc d token (r_view R s) [] (r_view R s')"
        using run(3) sc False by (intro turn_step_same) (auto simp: scope_keys_eq(1))
      then show ?thesis using run(1) by simp
    qed
  qed
qed

lemma append_turn_step:
  assumes ok: "conv_ok c (r_view R s)" and sc: "plain_scope sc" "plain_scope sc'"
    and data: "bd_planned data = JArray ps" "ps \<noteq> []" "bd_messages data = JArray ms" "ms \<noteq> []"
    and small: "in_int64 (sequence_at (r_view R s) (sequence_key c sc' (beijing_day (bt_created b))) + 1)"
    and ttl: "0 < ttl" "0 < lease_ttl"
    and run: "append_character_script R (append_keys_of c sc' b) token' m data request ttl lease_ttl s = (r, s')"
  shows "turn_step c sc d token (r_view R s)
    (case r of Some (ReplyAppended m' _) \<Rightarrow>
       if sc' = sc \<and> token' = token \<and> messages_key c sc (beijing_day (bt_created b)) = messages_key c sc d
       then [TurnDoc m'] else [] | _ \<Rightarrow> []) (r_view R s')"
proof (cases "string_of (r_view R s) (lease_key c sc') = Some (Raw token')")
  case False
  then show ?thesis using append_fenced [OF ok sc(2) False] run by auto
next
  case True
  let ?d = "beijing_day (bt_created b)" and ?n = "sequence_at (r_view R s) (sequence_key c sc' (beijing_day (bt_created b)))"
  obtain s'' where a: "append_character_script R (append_keys_of c sc' b) token' m data request ttl lease_ttl s =
      (Some (ReplyAppended (m\<lparr>tn_sequence := nat (?n + 1)\<rparr>) (appended_doc data (nat (?n + 1)))), s'')"
    "list_of (r_view R s'') (messages_key c sc' ?d) =
      list_of (r_view R s) (messages_key c sc' ?d) @ [TurnDoc (m\<lparr>tn_sequence := nat (?n + 1)\<rparr>)]"
    "string_of (r_view R s'') (lease_key c sc') = Some (Raw token')"
    "same_but {messages_key c sc' ?d, sequence_key c sc' ?d, requests_key c sc' ?d, lease_key c sc', batch_key c sc' (bt_id b)}
       (r_view R s) (r_view R s'')"
    by (rule append_done [OF ok sc(2) True refl small data ttl])
  note res = run [unfolded a(1)]
  show ?thesis
  proof (cases "sc' = sc")
    case False
    then have "messages_key c sc d \<noteq> messages_key c sc' ?d" using scope_keys_eq(2) [OF sc] by blast
    then have "turn_step c sc d token (r_view R s) [] (r_view R s'')"
      using a(4) sc False by (intro turn_step_same) (auto simp: scope_keys_eq(1))
    then show ?thesis using res False by auto
  next
    case same: True
    show ?thesis
    proof (cases "messages_key c sc ?d = messages_key c sc d")
      case True
      then show ?thesis using res a(2,3) same \<open>string_of (r_view R s) _ = _\<close> by (auto simp: turn_step_def turn_change_def)
    next
      case False
      then have "turn_step c sc d token (r_view R s) [] (r_view R s'')"
        using a(3,4) sc same True by (intro turn_step_lease [OF a(4)]) auto
      then show ?thesis using res False by auto
    qed
  qed
qed

lemma save_turn_step:
  assumes ok: "conv_ok c (r_view R s)" and sc: "plain_scope sc" "plain_scope sc'" and data: "doc_ok data"
    and ttl: "0 < ttl" "0 < lease_ttl"
  shows "turn_step c sc d token (r_view R s) [] (r_view R (snd (save_batch_script R (lease_key c sc') (batch_key c sc' bid)
    (requests_key c sc' d') token' data request ttl release lease_ttl s)))"
proof (cases "string_of (r_view R s) (lease_key c sc') = Some (Raw token')")
  case False
  then show ?thesis using save_fenced [OF ok sc(2) False] by auto
next
  case True
  obtain s' where r: "save_batch_script R (lease_key c sc') (batch_key c sc' bid) (requests_key c sc' d') token' data request ttl
       release lease_ttl s = (Some 1, s')"
    "string_of (r_view R s') (lease_key c sc') = (if release then None else Some (Raw token'))"
    "same_but {requests_key c sc' d', lease_key c sc', batch_key c sc' bid} (r_view R s) (r_view R s')"
    by (rule save_done [OF ok sc(2) True data ttl])
  have "turn_step c sc d token (r_view R s) [] (r_view R s')"
  proof (rule turn_step_lease [OF r(3)])
    show "string_of (r_view R s) (lease_key c sc) = Some (Raw token)" if "string_of (r_view R s') (lease_key c sc) = Some (Raw token)"
      using that r(2) True same_but_typed(4) [OF r(3), of "lease_key c sc"] sc
      by (cases "sc = sc'") (auto simp: scope_keys_eq(1) split: if_splits)
  qed (use sc in auto)
  then show ?thesis using r(1) by simp
qed

lemma interrupt_turn_step:
  assumes ok: "conv_ok c (r_view R s)" and sc: "plain_scope sc" "plain_scope sc'" and ttl: "0 < ttl"
  shows "turn_step c sc d token (r_view R s) [] (r_view R (snd (interrupt_batch_script R (lease_key c sc') (batch_key c sc' bid)
    (requests_key c sc' d') token' request ttl now s)))"
proof (cases "string_of (r_view R s) (lease_key c sc') = Some (Raw token')")
  case False
  then show ?thesis using interrupt_fenced [OF ok sc(2) False] by auto
next
  case True
  show ?thesis
  proof (cases "stored_batch (r_view R s) (batch_key c sc' bid) (requests_key c sc' d') request")
    case None
    then show ?thesis using interrupt_missing [OF ok sc(2) True None] by auto
  next
    case (Some b)
    obtain doc s' where r: "interrupt_batch_script R (lease_key c sc') (batch_key c sc' bid) (requests_key c sc' d') token' request
        ttl now s = (Some (InterruptOk (BatchDoc (interrupted_doc now doc))), s')"
      "string_of (r_view R s') (lease_key c sc') = None"
      "same_but {requests_key c sc' d', lease_key c sc', batch_key c sc' bid} (r_view R s) (r_view R s')"
      by (rule interrupt_done [OF ok sc(2) True Some ttl])
    have "turn_step c sc d token (r_view R s) [] (r_view R s')"
    proof (rule turn_step_lease [OF r(3)])
      show "string_of (r_view R s) (lease_key c sc) = Some (Raw token)" if "string_of (r_view R s') (lease_key c sc) = Some (Raw token)"
        using that r(2) same_but_typed(4) [OF r(3), of "lease_key c sc"] sc
        by (cases "sc = sc'") (auto simp: scope_keys_eq(1))
    qed (use sc in auto)
    then show ?thesis using r(1) by simp
  qed
qed

lemma migrate_turn_step:
  assumes ok: "conv_ok c (r_view R s)" and sc: "plain_scope sc" "plain_scope sc'" and ttl: "0 < ttl"
  shows "turn_change c sc d token (r_view R s) (moved_by R c sc d s (Some (OpMigrate sc' d'))) [] False
    (r_view R (snd (migrate_legacy_script R (turns_key c (sc_identity sc') d')
      (messages_key c sc' d') (sequence_key c sc' d') ttl s)))"
proof (cases "value_at (r_view R s) (turns_key c (sc_identity sc') d') = None")
  case True
  then have "list_of (r_view R s) (turns_key c (sc_identity sc') d') = []" by (simp add: list_of_def)
  then show ?thesis
    using migrate_nothing [OF True conv_messages(1) [OF ok kind_messages [OF sc(2)]]] by (auto simp: turn_change_def)
next
  case False
  obtain s' where r: "snd (migrate_legacy_script R (turns_key c (sc_identity sc') d') (messages_key c sc' d') (sequence_key c sc' d') ttl s) = s'"
    "list_of (r_view R s') (messages_key c sc' d') =
      list_of (r_view R s) (turns_key c (sc_identity sc') d') @ list_of (r_view R s) (messages_key c sc' d')"
    "same_but {turns_key c (sc_identity sc') d', messages_key c sc' d', sequence_key c sc' d'} (r_view R s) (r_view R s')"
    using migrate_done [OF ok sc(2) ttl False] by (metis snd_conv)
  have lease: "string_of (r_view R s') (lease_key c sc) = string_of (r_view R s) (lease_key c sc)"
    by (rule same_but_typed(4) [OF r(3)]) (use sc scope_keys_eq [OF sc] in auto)
  show ?thesis
  proof (cases "messages_key c sc d = messages_key c sc' d'")
    case True
    then show ?thesis using r(1,2) lease by (simp add: turn_change_def)
  next
    case False
    then have "turn_step c sc d token (r_view R s) [] (r_view R s')"
      using lease by (intro turn_step_lease [OF r(3)]) (use sc scope_keys_eq [OF sc] in auto)
    then show ?thesis using r(1) False by (auto simp: turn_step_def)
  qed
qed

end

context redis_service
begin

lemma del_view: "same_but {k} (r_view R s) (r_view R (r_del R k s))"
  by (simp add: redis_simps)

lemma apart_one: "same_but A ks (r_view R s) \<Longrightarrow> same_but {k} (r_view R s) ks' \<Longrightarrow> k \<in> A \<Longrightarrow> same_but A ks ks'"
  by (auto simp: same_but_def)

end

context quiet_env
begin

lemma sequence_room:
  assumes "conv_ok c ks" "plain_scope sc" "sequence_at ks (sequence_key c sc d) \<le> 2 ^ 52"
  shows "in_int64 (sequence_at ks (sequence_key c sc d) + 1)"
proof -
  obtain i where "num_of (string_of ks (sequence_key c sc d)) = Some i" "0 \<le> i"
    using conv_sequence(2) [OF assms(1) kind_sequence [OF assms(2)]] by blast
  then show ?thesis using assms(3) by (simp add: sequence_at_def in_int64_def)
qed

lemma clear_turn_step:
  assumes sc: "plain_scope sc" "plain_scope sc'"
  shows "turn_change c sc d token (r_view R s) [] [] (may_empty c sc d (Some (OpClear sc' d'))) (r_view R (clear_scope_pipe R c sc' d' s))"
proof -
  let ?s1 = "r_del R (messages_key c sc' d') s" and ?A = "{sequence_key c sc' d', active_scopes_key c d', active_key c d'}"
  have rest: "same_but ?A (r_view R ?s1) (r_view R (clear_scope_pipe R c sc' d' s))"
    unfolding clear_scope_pipe_def Let_def
    by (auto intro!: apart_one [OF apart_one [OF apart_one [OF same_but_refl apart(3)] apart(12)] apart(12)]
        apart_one [OF apart_one [OF same_but_refl apart(3)] apart(12)])
  have list: "list_of (r_view R (clear_scope_pipe R c sc' d' s)) (messages_key c sc d) = list_of (r_view R ?s1) (messages_key c sc d)"
    by (rule same_but_typed(6) [OF rest]) (use sc in auto)
  have "string_of (r_view R (clear_scope_pipe R c sc' d' s)) (lease_key c sc) = string_of (r_view R ?s1) (lease_key c sc)"
    by (rule same_but_typed(4) [OF rest]) (use sc in auto)
  moreover have "string_of (r_view R ?s1) (lease_key c sc) = string_of (r_view R s) (lease_key c sc)"
    by (rule same_but_typed(4) [OF del_view]) (use sc in auto)
  moreover have "list_of (r_view R ?s1) (messages_key c sc d) = list_of (r_view R s) (messages_key c sc d) \<or>
      messages_key c sc' d' = messages_key c sc d \<and> list_of (r_view R ?s1) (messages_key c sc d) = []"
    by (cases "messages_key c sc d = messages_key c sc' d'") (auto simp: del redis_simps)
  ultimately show ?thesis using list by (auto simp: turn_change_def)
qed

lemma add_turn_step:
  assumes "plain_scope sc" "plain_identity i"
  shows "turn_step c sc d token (r_view R s) [] (r_view R (add_turn_pipe R c i d' t s))"
proof -
  let ?A = "{turns_key c i d', active_key c d'}"
  have "same_but ?A (r_view R s) (r_view R (add_turn_pipe R c i d' t s))"
    unfolding add_turn_pipe_def Let_def
    by (rule apart_one [OF apart_one [OF apart_one [OF apart_one [OF same_but_refl apart(10)] apart(11)] apart(5)] apart(5)]) auto
  then show ?thesis
    by (rule turn_step_same) (use assms turns_keys_differ [OF assms(2)] in \<open>auto simp: scoped_key_defs\<close>)
qed

lemma clear_turns_step:
  assumes "plain_scope sc" "plain_identity i"
  shows "turn_step c sc d token (r_view R s) [] (r_view R (clear_turns_pipe R c i d' s))"
proof -
  let ?A = "{turns_key c i d', active_key c d'}"
  have "same_but ?A (r_view R s) (r_view R (clear_turns_pipe R c i d' s))"
    unfolding clear_turns_pipe_def by (rule apart_one [OF apart_one [OF same_but_refl apart(3)] apart(12)]) auto
  then show ?thesis
    by (rule turn_step_same) (use assms turns_keys_differ [OF assms(2)] in \<open>auto simp: scoped_key_defs\<close>)
qed

lemma command_turn_step:
  assumes ok: "conv_ok c (r_view R s)" "command_ok c (r_view R s) cmd" and sc: "plain_scope sc" and store: "good_store c"
    and fresh: "\<not> takes_token token cmd" and run: "run_command R c cmd s = (reply, s')"
  shows "turn_change c sc d token (r_view R s) (moved_by R c sc d s (Some cmd)) (own_reply c sc d token (Some cmd, reply, s'))
    (may_empty c sc d (Some cmd)) (r_view R s')"
proof -
  note ttl = good_store_ms [OF store]
  show ?thesis
  proof (cases cmd)
    case (OpBegin sc' d' bid request data token')
    then have o: "plain_scope sc'" "doc_ok data" "sequence_at (r_view R s) (sequence_key c sc' d') \<le> 2 ^ 52" "token' \<noteq> token"
      using ok(2) fresh by simp_all
    show ?thesis
      using begin_turn_step [OF ok(1) sc o(1,2) sequence_room [OF ok(1) o(1,3)] _ _ o(4)] ttl run OpBegin by (auto simp: turn_step_def)
  next
    case (OpAppend sc' b token' m data request)
    then have o: "plain_scope sc'" "sequence_at (r_view R s) (sequence_key c sc' (beijing_day (bt_created b))) \<le> 2 ^ 52"
      and data: "bd_planned data = JArray (field_elems (bd_planned data))" "field_elems (bd_planned data) \<noteq> []"
        "bd_messages data = JArray (field_elems (bd_messages data))" "field_elems (bd_messages data) \<noteq> []"
      using ok(2) by simp_all
    obtain r s'' where r: "append_character_script R (append_keys_of c sc' b) token' m data request (milliseconds (cs_ttl c))
        (milliseconds (cs_lease_ttl c)) s = (r, s'')" by fastforce
    have "turn_step c sc d token (r_view R s)
        (case r of Some (ReplyAppended m' _) \<Rightarrow>
           if sc' = sc \<and> token' = token \<and> messages_key c sc (beijing_day (bt_created b)) = messages_key c sc d
           then [TurnDoc m'] else [] | _ \<Rightarrow> []) (r_view R s'')"
      by (rule append_turn_step [OF ok(1) sc o(1) data sequence_room [OF ok(1) o] _ _ r]) (use ttl in simp_all)
    then show ?thesis using run r OpAppend by (auto simp: turn_step_def split: option.splits append_reply.splits)
  next
    case (OpSave sc' bid d' token' data request release)
    then show ?thesis using save_turn_step [OF ok(1) sc] ok(2) ttl run by (auto simp: turn_step_def)
  next
    case (OpInterrupt sc' bid d' token' request now)
    then show ?thesis using interrupt_turn_step [OF ok(1) sc] ok(2) ttl run by (auto simp: turn_step_def)
  next
    case (OpMigrate sc' d')
    then have "plain_scope sc'" and s': "s' = snd (migrate_legacy_script R (turns_key c (sc_identity sc') d')
        (messages_key c sc' d') (sequence_key c sc' d') (milliseconds (cs_ttl c)) s)"
      using ok(2) run by (simp_all add: split_beta)
    from migrate_turn_step [OF ok(1) sc this(1) conjunct1 [OF ttl], where d' = d'] show ?thesis
      unfolding OpMigrate s' by (simp del: moved_by.simps)
  next
    case (OpClear sc' d')
    then show ?thesis using clear_turn_step [OF sc] ok(2) run by auto
  next
    case (OpAddTurn i d' t)
    then show ?thesis using add_turn_step [OF sc] ok(2) run by (auto simp: turn_step_def)
  next
    case (OpClearTurns i d')
    then show ?thesis using clear_turns_step [OF sc] ok(2) run by (auto simp: turn_step_def)
  qed
qed

lemma pause_turn_step: "aged (r_view R s) (r_view R s') \<Longrightarrow> turn_change c sc d token (r_view R s) [] [] True (r_view R s')"
proof -
  assume a: "aged (r_view R s) (r_view R s')"
  have "string_of (r_view R s') k = string_of (r_view R s) k \<or> string_of (r_view R s') k = None" for k
    using a by (auto simp: aged_def string_of_def value_at_def dest: spec [of _ k])
  from this [of "lease_key c sc"] show ?thesis
    using aged_list [OF a, of "messages_key c sc d"] by (auto simp: turn_change_def)
qed

end

text \<open>Paths that grow at their end.\<close>

lemma path_end_snoc [simp]: "path_end s (path @ [(cmd, reply, t)]) = t"
  by (simp add: path_end_def)

lemma path_end_nil [simp]: "path_end s [] = s"
  by (simp add: path_end_def)

lemma path_end_part: "path_end s (p1 @ (cmd, reply, t) # p2) = path_end t p2"
  by (simp add: path_end_def)

lemma moved_snoc: "moved_on_path R c sc d s (path @ [(cmd, reply, t)]) =
    moved_by R c sc d (path_end s path) cmd @ moved_on_path R c sc d s path"
proof (induction path arbitrary: s)
  case (Cons x path)
  obtain a b u where "x = (a, b, u)" by (metis surj_pair)
  then show ?case using Cons [of u] path_end_part [of s "[]" a b u path] by simp
qed simp

lemma own_snoc: "own_replies c sc d token (path @ [x]) = own_replies c sc d token path @ own_reply c sc d token x"
  by (simp add: own_replies_def)

lemma never_empty_snoc: "never_empty R c sc d (path @ [(cmd, reply, t)]) \<longleftrightarrow>
    never_empty R c sc d path \<and> list_of (r_view R t) (messages_key c sc d) \<noteq> []"
  by (auto simp: never_empty_def)

lemma run_path_end: "command_run R c s0 path s \<Longrightarrow> path_end s0 path = s"
  by (induction rule: command_run.induct) simp_all

text \<open>
  What the list of a turn is at the end of a path on which the lease was kept: everything there
  was and the turn, if it was never found empty; what came since it was last found empty, if it
  was; and what made it empty.
\<close>

definition turn_kept ::
  "('s, 'z) redis_scheme \<Rightarrow> conv_store \<Rightarrow> scope \<Rightarrow> day \<Rightarrow> string \<Rightarrow> 's \<Rightarrow> 's step list \<Rightarrow> bool" where
  "turn_kept R c sc d token s0 path \<longleftrightarrow>
     (let list = (\<lambda>s. list_of (r_view R s) (messages_key c sc d)) in
      (never_empty R c sc d path \<longrightarrow>
         list (path_end s0 path) = moved_on_path R c sc d s0 path @ list s0 @ own_replies c sc d token path) \<and>
      (\<forall>p1 cmd reply t p2. path = p1 @ (cmd, reply, t) # p2 \<longrightarrow> list t = [] \<longrightarrow> never_empty R c sc d p2 \<longrightarrow>
         list (path_end s0 path) = moved_on_path R c sc d t p2 @ own_replies c sc d token p2) \<and>
      (\<forall>p1 cmd reply t p2. path = p1 @ (cmd, reply, t) # p2 \<longrightarrow> list (path_end s0 p1) \<noteq> [] \<longrightarrow> list t = [] \<longrightarrow>
         may_empty c sc d cmd))"

lemma turn_kept_step:
  assumes kept: "turn_kept R c sc d token s0 path" and s: "path_end s0 path = s"
    and step: "turn_change c sc d token (r_view R s) (moved_by R c sc d s cmd) (own_reply c sc d token (cmd, reply, s'))
      (may_empty c sc d cmd) (r_view R s')"
    and lease: "string_of (r_view R s') (lease_key c sc) = Some (Raw token)"
  shows "turn_kept R c sc d token s0 (path @ [(cmd, reply, s')])"
proof -
  let ?list = "\<lambda>s. list_of (r_view R s) (messages_key c sc d)" and ?x = "(cmd, reply, s')"
  let ?moved = "moved_by R c sc d s cmd" and ?own = "own_reply c sc d token ?x"
  have change: "?list s' = ?moved @ ?list s @ ?own \<or> may_empty c sc d cmd \<and> ?list s' = []"
    using step lease by (auto simp: turn_change_def)
  then have grown: "?list s' = ?moved @ ?list s @ ?own" if "?list s' \<noteq> []" using that by blast
  have whole: "never_empty R c sc d path \<Longrightarrow> ?list s = moved_on_path R c sc d s0 path @ ?list s0 @ own_replies c sc d token path"
    and part: "\<And>p1 cmd reply t p2. path = p1 @ (cmd, reply, t) # p2 \<Longrightarrow> ?list t = [] \<Longrightarrow> never_empty R c sc d p2 \<Longrightarrow>
        ?list s = moved_on_path R c sc d t p2 @ own_replies c sc d token p2"
    and emptied: "\<And>p1 cmd reply t p2. path = p1 @ (cmd, reply, t) # p2 \<Longrightarrow> ?list (path_end s0 p1) \<noteq> [] \<Longrightarrow> ?list t = [] \<Longrightarrow>
        may_empty c sc d cmd"
    using kept s unfolding turn_kept_def Let_def by blast+
  show ?thesis
    unfolding turn_kept_def Let_def
  proof (intro conjI allI impI)
    assume "never_empty R c sc d (path @ [?x])"
    then show "?list (path_end s0 (path @ [?x])) = moved_on_path R c sc d s0 (path @ [?x]) @ ?list s0 @
        own_replies c sc d token (path @ [?x])"
      using whole grown by (simp add: never_empty_snoc moved_snoc own_snoc s)
  next
    fix p1 cmd1 reply1 t p2
    assume p: "path @ [?x] = p1 @ (cmd1, reply1, t) # p2" and t: "?list t = []" and n: "never_empty R c sc d p2"
    show "?list (path_end s0 (path @ [?x])) = moved_on_path R c sc d t p2 @ own_replies c sc d token p2"
    proof (cases p2 rule: rev_cases)
      case Nil
      then show ?thesis using p t by (simp add: own_replies_def)
    next
      case (snoc p3 y)
      then have y: "y = ?x" "path = p1 @ (cmd1, reply1, t) # p3" using p by (auto simp: append_eq_append_conv2 Cons_eq_append_conv)
      have "path_end t p3 = s" using y(2) s path_end_part [of s0 p1 cmd1 reply1 t p3] by simp
      moreover have "never_empty R c sc d p3" "?list s' \<noteq> []" using n snoc y(1) by (simp_all add: never_empty_snoc)
      ultimately show ?thesis using part [OF y(2) t] grown snoc y(1) by (simp add: moved_snoc own_snoc)
    qed
  next
    fix p1 cmd1 reply1 t p2
    assume p: "path @ [?x] = p1 @ (cmd1, reply1, t) # p2" and before: "?list (path_end s0 p1) \<noteq> []" and t: "?list t = []"
    show "may_empty c sc d cmd1"
    proof (cases p2 rule: rev_cases)
      case Nil
      then have "path = p1" "cmd1 = cmd" "t = s'" using p by auto
      then show ?thesis using change before t s by auto
    next
      case (snoc p3 y)
      then have "path = p1 @ (cmd1, reply1, t) # p3" using p by (auto simp: append_eq_append_conv2 Cons_eq_append_conv)
      then show ?thesis using emptied before t by blast
    qed
  qed
qed

context quiet_env
begin

lemma turn_kept_together:
  assumes run: "command_run R c s0 path s" and ok: "conv_ok c (r_view R s0)" and sc: "plain_scope sc" and store: "good_store c"
    and fresh: "token_is_fresh token path" and lease: "string_of (r_view R s) (lease_key c sc) = Some (Raw token)"
  shows "turn_kept R c sc d token s0 path"
  using run fresh lease
proof induction
  case run_start
  then show ?case by (simp add: turn_kept_def own_replies_def)
next
  case (run_command path s cmd reply s')
  have fr: "token_is_fresh token path" "\<not> takes_token token cmd"
    using run_command.prems(1) by (auto simp: token_is_fresh_def)
  have step: "turn_change c sc d token (r_view R s) (moved_by R c sc d s (Some cmd)) (own_reply c sc d token (Some cmd, reply, s'))
      (may_empty c sc d (Some cmd)) (r_view R s')"
    by (rule command_turn_step [OF command_run_ok [OF run_command.hyps(1) ok store] run_command.hyps(2) sc store fr(2) run_command.hyps(3)])
  then have "string_of (r_view R s) (lease_key c sc) = Some (Raw token)"
    using run_command.prems(2) by (simp add: turn_change_def)
  from turn_kept_step [OF run_command.IH [OF fr(1) this] run_path_end [OF run_command.hyps(1)] step run_command.prems(2)]
  show ?case .
next
  case (run_pause path s s' n)
  have fr: "token_is_fresh token path" using run_pause.prems(1) by (auto simp: token_is_fresh_def)
  have step: "turn_change c sc d token (r_view R s) (moved_by R c sc d s None) (own_reply c sc d token (None, None, s'))
      (may_empty c sc d None) (r_view R s')"
    using pause_turn_step [OF pause_view [OF run_pause.hyps(2)]] by simp
  then have "string_of (r_view R s) (lease_key c sc) = Some (Raw token)"
    using run_pause.prems(2) by (simp add: turn_change_def)
  from turn_kept_step [OF run_pause.IH [OF fr this] run_path_end [OF run_pause.hyps(1)] step run_pause.prems(2)]
  show ?case .
qed

end

section \<open>Methods are sequences of commands\<close>

text \<open>
  What a client does when it calls a method is a run of commands, pauses and readings of the
  clock: the runs of this theory contain the calls of \<open>Conversation_Runs\<close>, and every interleaving
  of them.
\<close>

context quiet_env
begin

lemma run_now: "\<exists>p. command_run R c s0 p s \<Longrightarrow> \<exists>p. command_run R c s0 p (snd (env_now R s))"
  using run_pause by fastforce

lemma run_draw: "\<exists>p. command_run R c s0 p s \<Longrightarrow> \<exists>p. command_run R c s0 p (snd (new_turn_id R s))"
proof -
  assume p: "\<exists>p. command_run R c s0 p s"
  then have d: "\<exists>p. command_run R c s0 p (snd (env_random R 16 s))" using run_pause by fastforce
  obtain b s1 where r: "env_random R 16 s = (b, s1)" by fastforce
  show ?thesis using d run_now [OF d] by (cases b) (auto simp: new_turn_id_def r split: prod.split)
qed

lemma run_arrive: "\<exists>p. command_run R c s0 p s \<Longrightarrow> \<exists>p. command_run R c s0 p (snd (r_arrive R s))"
  using run_pause by fastforce

lemma run_round_trip:
  assumes "\<exists>p. command_run R c s0 p s" "\<And>s1. aged (r_view R s) (r_view R s1) \<Longrightarrow> command_ok c (r_view R s1) cmd"
    and "\<And>s1. snd (script s1) = snd (run_command R c cmd s1)"
  shows "\<exists>p. command_run R c s0 p (snd (round_trip R script s))"
proof -
  let ?s1 = "snd (r_arrive R s)"
  obtain p where p: "command_run R c s0 p ?s1" using run_arrive [OF assms(1)] by blast
  have "aged (r_view R s) (r_view R ?s1)" by (simp add: arrive)
  from command_run.run_command [OF p assms(2) [OF this] prod.collapse [symmetric]]
  have "\<exists>p. command_run R c s0 p (snd (script ?s1))" unfolding assms(3) by blast
  then show ?thesis using p round_trip_state [of R script s] by fastforce
qed

lemma run_reading:
  assumes "\<exists>p. command_run R c s0 p s" "\<And>s1. snd (script s1) = s1"
  shows "\<exists>p. command_run R c s0 p (snd (round_trip R script s))"
  using run_arrive [OF assms(1)] round_trip_state [of R script s] assms(2) by fastforce

end

text \<open>Each method of the store, with whatever is lost on the way.\<close>

context quiet_env
begin

lemma run_migrate:
  assumes "\<exists>p. command_run R c s0 p s" "plain_scope sc"
  shows "\<exists>p. command_run R c s0 p (snd (migrate_legacy_scope R c sc d s))"
proof -
  let ?script = "migrate_legacy_script R (turns_key c (sc_identity sc) d) (messages_key c sc d) (sequence_key c sc d)
      (milliseconds (cs_ttl c))"
  have "\<exists>p. command_run R c s0 p (snd (round_trip R ?script s))"
    by (rule run_round_trip [OF assms(1), where cmd = "OpMigrate sc d"]) (use assms(2) in simp_all)
  then show ?thesis using assms(1) by (simp add: migrate_legacy_scope_def split_beta split: sum.split)
qed

lemma run_clear_scope:
  assumes "\<exists>p. command_run R c s0 p s" "plain_scope sc"
  shows "\<exists>p. command_run R c s0 p (snd (clear_scope_date R c sc t s))"
proof -
  let ?m = "migrate_legacy_scope R c sc (beijing_day t) s"
  have m: "\<exists>p. command_run R c s0 p (snd ?m)" by (rule run_migrate [OF assms])
  have "\<exists>p. command_run R c s0 p (snd (round_trip R (writing (clear_scope_pipe R c sc (beijing_day t))) (snd ?m)))"
    by (rule run_round_trip [OF m, where cmd = "OpClear sc (beijing_day t)"]) (use assms(2) in \<open>simp_all add: writing_def\<close>)
  then show ?thesis using m
    by (simp add: clear_scope_date_def split_beta Let_def split: sum.split)
qed

lemma run_begin:
  assumes "\<exists>p. command_run R c s0 p s" "plain_scope sc" "conv_ok c (r_view R s)" "roomy c (r_view R s)" "good_store c"
  shows "\<exists>p. command_run R c s0 p (snd (begin_batch R c sc request content s))"
proof -
  let ?t0 = "fst (env_now R s)" and ?s0 = "snd (env_now R s)"
  let ?m = "migrate_legacy_scope R c sc (beijing_day ?t0) ?s0"
  have m: "\<exists>p. command_run R c s0 p (snd ?m)" by (rule run_migrate [OF run_now [OF assms(1)] assms(2)])
  note mig = migrate_scope_ok [of c ?s0 sc "beijing_day ?t0", unfolded now_view, OF assms(3,2,5)]
  show ?thesis
  proof (cases "fst ?m")
    case (Inl e)
    then show ?thesis using m by (simp add: begin_batch_def split_beta Let_def)
  next
    case (Inr u)
    let ?s1 = "snd ?m"
    let ?now = "fst (env_now R ?s1)" and ?s2 = "snd (env_now R ?s1)"
    let ?bid = "''batch-'' @ fst (new_turn_id R ?s2)" and ?s3 = "snd (new_turn_id R ?s2)"
    let ?uid = "''turn-'' @ fst (new_turn_id R ?s3)" and ?s4 = "snd (new_turn_id R ?s3)"
    let ?token = "fst (new_turn_id R ?s4)" and ?s5 = "snd (new_turn_id R ?s4)"
    let ?b = "fresh_batch sc ?bid ?uid request content ?now"
    let ?script = "begin_batch_script R (begin_keys_of c sc (beijing_day ?now) ?bid) request (marshal_batch ?b) ?token
      (milliseconds (cs_ttl c)) (milliseconds (cs_lease_ttl c)) (active_scope_member sc)"
    have s5: "\<exists>p. command_run R c s0 p ?s5" by (intro run_draw run_now m)
    have v: "r_view R ?s5 = r_view R ?s1" by (simp add: now_view)
    have doc: "doc_ok (marshal_batch ?b)" by (rule marshal_doc_ok) (simp_all add: fresh_batch_def)
    have "\<exists>p. command_run R c s0 p (snd (round_trip R ?script ?s5))"
    proof (rule run_round_trip [OF s5, where cmd = "OpBegin sc (beijing_day ?now) ?bid request (marshal_batch ?b) ?token"], unfold v)
      fix s1 assume a: "aged (r_view R ?s1) (r_view R s1)"
      have "sequence_at (r_view R s1) (sequence_key c sc (beijing_day ?now)) \<le> 2 ^ 52"
        using aged_sequence [OF a, of "sequence_key c sc (beijing_day ?now)"] mig(2) [OF assms(4), of "beijing_day ?now"] by auto
      then show "command_ok c (r_view R s1) (OpBegin sc (beijing_day ?now) ?bid request (marshal_batch ?b) ?token)"
        using assms(2) doc by simp
    qed simp
    then show ?thesis using Inr by (simp add: begin_batch_def split_beta Let_def split: sum.split)
  qed
qed

lemma run_append:
  assumes "\<exists>p. command_run R c s0 p s" "plain_scope sc" "elems (bt_planned b) \<noteq> []" "roomy c (r_view R s)"
  shows "\<exists>p. command_run R c s0 p (snd (append_character R c sc b token speaker display avatar content s))"
proof -
  let ?now = "fst (env_now R s)" and ?s1 = "snd (env_now R s)"
  let ?tid = "fst (new_turn_id R ?s1)" and ?s2 = "snd (new_turn_id R ?s1)"
  let ?m = "\<lparr>tn_id = ''turn-'' @ ?tid, tn_role = role_assistant, tn_content = content,
            tn_created = ?now, tn_conversation = sc_conversation sc, tn_speaker_kind = speaker_character,
            tn_speaker = speaker, tn_batch = bt_id b, tn_sequence = 0, tn_display = display,
            tn_avatar = avatar\<rparr>"
  let ?b1 = "b\<lparr>bt_messages := append1 (bt_messages b) ?m, bt_updated := ?now\<rparr>"
  let ?script = "append_character_script R (append_keys_of c sc b) token ?m (marshal_batch ?b1)
      (bt_request b) (milliseconds (cs_ttl c)) (milliseconds (cs_lease_ttl c))"
  have s2: "\<exists>p. command_run R c s0 p ?s2" by (intro run_draw run_now assms(1))
  have v: "r_view R ?s2 = r_view R s" by (simp add: now_view)
  have data: "bd_planned (marshal_batch ?b1) = JArray (elems (bt_planned b))"
    "bd_messages (marshal_batch ?b1) = JArray (elems (bt_messages b) @ [?m])"
    using assms(3) by (cases "bt_planned b"; simp add: marshal_batch_def marshal_slice_def append1_def)+
  have "\<exists>p. command_run R c s0 p (snd (round_trip R ?script ?s2))"
  proof (rule run_round_trip [OF s2, where cmd = "OpAppend sc b token ?m (marshal_batch ?b1) (bt_request b)"], unfold v)
    fix s1 assume a: "aged (r_view R s) (r_view R s1)"
    have "sequence_at (r_view R s1) (sequence_key c sc (beijing_day (bt_created b))) \<le> 2 ^ 52"
      using aged_roomy [OF a assms(4)] by (auto simp: roomy_def intro: less_imp_le)
    then show "command_ok c (r_view R s1) (OpAppend sc b token ?m (marshal_batch ?b1) (bt_request b))"
      using assms(2,3) data by simp
  qed (simp split: prod.split option.split append_reply.split)
  then show ?thesis by (simp add: append_character_def split_beta Let_def split: sum.split append_reply.split)
qed

lemma run_call:
  assumes "call_ok call" "\<And>i t. call = CallClearTurns i t \<Longrightarrow> plain_identity i"
    and "conv_ok c (r_view R s)" "roomy c (r_view R s)" "good_store c"
  shows "\<exists>p. command_run R c s p (after_call R c call s)"
proof -
  have here: "\<exists>p. command_run R c s p s" by (intro exI) (rule run_start)
  note now = run_now [OF here]
  show ?thesis
  proof (cases call)
    case (CallBegin sc request content)
    then show ?thesis using run_begin [OF here] assms by simp
  next
    case (CallAppend sc b token speaker display avatar content)
    then show ?thesis using run_append [OF here] assms by simp
  next
    case (CallSave sc b token release)
    let ?b1 = "b\<lparr>bt_updated := fst (env_now R s)\<rparr>" and ?d = "beijing_day (bt_created b)"
    have doc: "doc_ok (marshal_batch ?b1)" by (rule marshal_doc_ok) (use assms(1) CallSave in simp_all)
    have "\<exists>p. command_run R c s p (snd (round_trip R (save_batch_script R (lease_key c sc) (batch_key c sc (bt_id b))
        (requests_key c sc ?d) token (marshal_batch ?b1) (bt_request b) (milliseconds (cs_ttl c)) release
        (milliseconds (cs_lease_ttl c))) (snd (env_now R s))))"
      by (rule run_round_trip [OF now, where cmd = "OpSave sc (bt_id b) ?d token (marshal_batch ?b1) (bt_request b) release"])
        (use assms(1) CallSave doc in simp_all)
    then show ?thesis using CallSave by (simp add: save_batch_def split_beta Let_def split: sum.split)
  next
    case (CallInterrupt sc bid request token created)
    let ?d = "beijing_day created"
    have "\<exists>p. command_run R c s p (snd (round_trip R (interrupt_batch_script R (lease_key c sc) (batch_key c sc bid)
        (requests_key c sc ?d) token request (milliseconds (cs_ttl c)) (fst (env_now R s))) (snd (env_now R s))))"
      by (rule run_round_trip [OF now, where cmd = "OpInterrupt sc bid ?d token request (fst (env_now R s))"])
        (use assms(1) CallInterrupt in simp_all)
    then show ?thesis using CallInterrupt
      by (simp add: interrupt_batch_def split_beta Let_def split: sum.split interrupt_reply.split blob.split option.split)
  next
    case (CallMessages sc t)
    let ?m = "migrate_legacy_scope R c sc (beijing_day t) s"
    have m: "\<exists>p. command_run R c s p (snd ?m)" by (rule run_migrate [OF here]) (use assms(1) CallMessages in simp)
    show ?thesis
      using m run_reading [OF m, of "reading (r_lrange R (messages_key c sc (beijing_day t)) 0 (- 1))"] CallMessages
      by (simp add: messages_for_date_scope_def split_beta Let_def reading_def split: sum.split)
  next
    case (CallClearToday sc)
    let ?e = "round_trip R (reading (r_exists R (lease_key c sc))) s"
    have e: "\<exists>p. command_run R c s p (snd ?e)" by (rule run_reading [OF here]) (simp add: reading_def)
    show ?thesis
      using e run_clear_scope [OF run_now [OF e], of sc] assms(1) CallClearToday
      by (simp add: clear_scope_today_def split_beta Let_def split: sum.split)
  next
    case (CallClearDate sc t)
    then show ?thesis using run_clear_scope [OF here] assms(1) by simp
  next
    case (CallAddTurn i role content)
    let ?now = "fst (env_now R s)" and ?s1 = "snd (env_now R s)"
    let ?t = "zero_turn\<lparr>tn_id := fst (new_turn_id R ?s1), tn_role := role, tn_content := content, tn_created := ?now\<rparr>"
    have "\<exists>p. command_run R c s p (snd (round_trip R (writing (add_turn_pipe R c i (beijing_day ?now) ?t)) (snd (new_turn_id R ?s1))))"
      by (rule run_round_trip [OF run_draw [OF now], where cmd = "OpAddTurn i (beijing_day ?now) ?t"])
        (use assms(1) CallAddTurn in \<open>simp_all add: writing_def\<close>)
    then show ?thesis using CallAddTurn
      by (simp add: add_turn_def split_beta Let_def split: sum.split)
  next
    case (CallClearTurns i t)
    have "\<exists>p. command_run R c s p (snd (round_trip R (writing (clear_turns_pipe R c i (beijing_day t))) s))"
      by (rule run_round_trip [OF here, where cmd = "OpClearTurns i (beijing_day t)"])
        (use assms(2) CallClearTurns in \<open>simp_all add: writing_def\<close>)
    then show ?thesis using CallClearTurns by (simp add: clear_date_def Let_def)
  qed
qed

end

section \<open>The guarantee, and the race it leaves\<close>

text \<open>
  C7. Nobody speaks into a turn. From the script that begins a batch on, let any clients do
  whatever the methods do, in any interleaving, with only the token of the batch its own (an
  append is of a batch with planned speakers, as the application's are). As long as the lease of
  the batch is still held:
  while the list of the day is not found empty on the way, it is what an older format moved in
  front, everything that was there before, the message that was asked, and the replies appended
  under the token, in their order and nothing in between or behind;
  if it was found empty, it is what was moved in front since and the replies appended under the
  token since;
  and only a clearing of this very list, or time (its expiry), makes it empty.
\<close>

theorem turns_do_not_mix:
  assumes "quiet_env R" "good_store c" "plain_scope sc" "conv_ok c (r_view R s)" "doc_ok data"
    and "sequence_at (r_view R s) (sequence_key c sc d) < 2 ^ 52"
    and "begin_batch_script R (begin_keys_of c sc d bid) request data token (milliseconds (cs_ttl c))
      (milliseconds (cs_lease_ttl c)) member s = (Some (ReplyStarted doc token), s0)"
    and "command_run R c s0 path s1" "token_is_fresh token path"
    and "string_of (r_view R s1) (lease_key c sc) = Some (Raw token)"
  shows "(never_empty R c sc d path \<longrightarrow>
      list_of (r_view R s1) (messages_key c sc d) =
        moved_on_path R c sc d s0 path @ list_of (r_view R s) (messages_key c sc d) @
        TurnDoc (bd_user doc) # own_replies c sc d token path) \<and>
    (\<forall>p1 cmd reply t p2. path = p1 @ (cmd, reply, t) # p2 \<longrightarrow> list_of (r_view R t) (messages_key c sc d) = [] \<longrightarrow>
      never_empty R c sc d p2 \<longrightarrow>
      list_of (r_view R s1) (messages_key c sc d) = moved_on_path R c sc d t p2 @ own_replies c sc d token p2) \<and>
    (\<forall>p1 cmd reply t p2. path = p1 @ (cmd, reply, t) # p2 \<longrightarrow>
      list_of (r_view R (path_end s0 p1)) (messages_key c sc d) \<noteq> [] \<longrightarrow> list_of (r_view R t) (messages_key c sc d) = [] \<longrightarrow>
      may_empty c sc d cmd)"
proof -
  have R: "redis_service R" using assms(1) by (simp add: quiet_env_def go_env_def)
  have ttl: "0 < milliseconds (cs_ttl c)" "0 < milliseconds (cs_lease_ttl c)" using good_store_ms [OF assms(2)] by simp_all
  have decided: "known_request (begin_keys_of c sc d bid) request (r_view R s) = None \<and>
      value_at (r_view R s) (lease_key c sc) = None \<and>
      list_of (r_view R s0) (messages_key c sc d) = list_of (r_view R s) (messages_key c sc d) @ [TurnDoc (bd_user doc)]"
    using begin_decided [OF R assms(4,3,5) ttl assms(6,7)] by (auto split: option.splits if_splits)
  have "snd (begin_batch_script R (begin_keys_of c sc d bid) request data token (milliseconds (cs_ttl c))
      (milliseconds (cs_lease_ttl c)) member s) = s0" using assms(7) by simp
  then have "conv_ok c (r_view R s0)"
    using redis_service.begin_script_ok [OF R assms(4,3) _ assms(5) ttl, of d bid request token member] assms(6) by simp
  from quiet_env.turn_kept_together [OF assms(1,8) this assms(3,2,9,10), of d] show ?thesis
    unfolding turn_kept_def Let_def run_path_end [OF assms(8)] conjunct2 [OF conjunct2 [OF decided]]
    by (simp only: append_assoc append.simps)
qed

definition demo_reply :: turn where
  "demo_reply = zero_turn\<lparr>tn_id := ''t2'', tn_role := role_assistant, tn_content := ''hi''\<rparr>"

definition demo_data :: batch_doc where
  "demo_data = marshal_batch (demo_batch\<lparr>bt_messages := Some [demo_reply]\<rparr>)"

lemma demo_data_facts:
  "bd_planned demo_data = JArray [''haruhi'']" "bd_messages demo_data = JArray [demo_reply]"
  by (simp_all add: demo_data_def marshal_batch_def marshal_slice_def demo_batch_def)

theorem turns_do_not_mix_witness:
  "\<exists>doc s0 path s1 m. begin_batch_script conv_env (begin_keys_of demo_conv demo_scope (beijing_day conv_now) ''b1'') ''r1''
       (marshal_batch (fresh_batch demo_scope ''b1'' ''t1'' ''r1'' ''hello'' conv_now)) ''tok''
       (milliseconds (cs_ttl demo_conv)) (milliseconds (cs_lease_ttl demo_conv)) ''m'' conv_begin =
       (Some (ReplyStarted doc ''tok''), s0) \<and>
     command_run conv_env demo_conv s0 path s1 \<and> length path = 2 \<and>
     own_replies demo_conv demo_scope (beijing_day conv_now) ''tok'' path = [TurnDoc m] \<and>
     list_of (r_view conv_env s1) (messages_key demo_conv demo_scope (beijing_day conv_now)) =
       [TurnDoc (bd_user doc), TurnDoc m]"
proof -
  let ?d = "beijing_day conv_now" and ?T = "milliseconds (cs_ttl demo_conv)" and ?L = "milliseconds (cs_lease_ttl demo_conv)"
  let ?data = "marshal_batch (fresh_batch demo_scope ''b1'' ''t1'' ''r1'' ''hello'' conv_now)"
  have ttl: "0 < ?T" "0 < ?L" using good_store_ms [OF demo_conv_facts(1)] by simp_all
  have doc: "doc_ok ?data" by (rule marshal_doc_ok) (simp_all add: fresh_batch_def)
  have none: "known_request (begin_keys_of demo_conv demo_scope ?d ''b1'') ''r1'' (r_view conv_env conv_begin) = None"
    by (simp add: known_request_def)
  have created: "bt_created demo_batch = conv_now" by simp
  obtain s0 where b: "begin_batch_script conv_env (begin_keys_of demo_conv demo_scope ?d ''b1'') ''r1'' ?data ''tok'' ?T ?L ''m'' conv_begin =
      (Some (ReplyStarted (started_doc ?data (nat (0 + 1))) ''tok''), s0)" "conv_ok demo_conv (r_view conv_env s0)"
    "list_of (r_view conv_env s0) (messages_key demo_conv demo_scope ?d) =
      list_of (r_view conv_env conv_begin) (messages_key demo_conv demo_scope ?d) @ [TurnDoc ((bd_user ?data)\<lparr>tn_sequence := nat (0 + 1)\<rparr>)]"
    "string_of (r_view conv_env s0) (lease_key demo_conv demo_scope) = Some (Raw ''tok'')"
    "sequence_at (r_view conv_env s0) (sequence_key demo_conv demo_scope ?d) = 0 + 1"
    by (rule ref_env.begin_started [of demo_conv "()" conv_begin demo_scope ?d "''b1''" "''r1''" 0 ?data ?T ?L "''tok''" "''m''"])
      (use none doc ttl in \<open>simp_all add: in_int64_def\<close>)
  let ?append = "\<lambda>token. OpAppend demo_scope demo_batch token demo_reply demo_data ''r1''"
  obtain s1 where a: "append_character_script conv_env (append_keys_of demo_conv demo_scope demo_batch) ''tok'' demo_reply demo_data ''r1'' ?T ?L s0 =
      (Some (ReplyAppended (demo_reply\<lparr>tn_sequence := nat (1 + 1)\<rparr>) (appended_doc demo_data (nat (1 + 1)))), s1)"
    "conv_ok demo_conv (r_view conv_env s1)"
    "list_of (r_view conv_env s1) (messages_key demo_conv demo_scope ?d) =
      list_of (r_view conv_env s0) (messages_key demo_conv demo_scope ?d) @ [TurnDoc (demo_reply\<lparr>tn_sequence := nat (1 + 1)\<rparr>)]"
    "string_of (r_view conv_env s1) (lease_key demo_conv demo_scope) = Some (Raw ''tok'')"
    "sequence_at (r_view conv_env s1) (sequence_key demo_conv demo_scope ?d) = 1 + 1"
    by (rule ref_env.append_done [OF b(2) demo_conv_facts(2) b(4), of demo_batch 1 demo_data "[''haruhi'']" "[demo_reply]" ?T ?L
          demo_reply "''r1''", unfolded created]) (use b(5) demo_data_facts ttl in \<open>simp_all add: in_int64_def\<close>)
  have fenced: "append_character_script conv_env (append_keys_of demo_conv demo_scope demo_batch) ''stale'' demo_reply demo_data ''r1'' ?T ?L s1 =
      (Some ReplyLeaseLost, s1)"
    by (rule ref_env.append_fenced [OF a(2) demo_conv_facts(2)]) (use a(4) in simp)
  let ?p1 = "[(Some (?append ''tok''), Some (demo_reply\<lparr>tn_sequence := nat (1 + 1)\<rparr>), s1)]"
  let ?path = "?p1 @ [(Some (?append ''stale''), None, s1)]"
  have run1: "command_run conv_env demo_conv s0 ([] @ ?p1) s1"
    by (rule run_command [OF run_start]) (use a(1) b(5) demo_data_facts in simp_all)
  have run: "command_run conv_env demo_conv s0 ?path s1"
    by (rule run_command [OF run1 [unfolded append_Nil]]) (use fenced a(5) demo_data_facts in simp_all)
  have fresh: "token_is_fresh ''tok'' ?path" by (simp add: token_is_fresh_def)
  have own: "own_replies demo_conv demo_scope ?d ''tok'' ?path = [TurnDoc (demo_reply\<lparr>tn_sequence := nat (1 + 1)\<rparr>)]"
    by (simp add: own_replies_def)
  have full: "never_empty conv_env demo_conv demo_scope ?d ?path"
    unfolding never_empty_def using a(3) by simp
  have moved: "moved_on_path conv_env demo_conv demo_scope ?d s0 ?path = []" by simp
  have start: "list_of (r_view conv_env conv_begin) (messages_key demo_conv demo_scope ?d) = []"
    "sequence_at (r_view conv_env conv_begin) (sequence_key demo_conv demo_scope ?d) < 2 ^ 52"
    "conv_ok demo_conv (r_view conv_env conv_begin)" by simp_all
  note shape = turns_do_not_mix [OF ref_env.quiet_env_axioms demo_conv_facts(1,2) start(3) doc start(2) b(1) run fresh a(4),
      THEN conjunct1, rule_format, OF full, unfolded own moved start(1) append_Nil]
  have "length ?path = 2" by simp
  then show ?thesis using b(1) run own shape by blast
qed

text \<open>What clearing leaves behind: no messages, a number that starts again, and the lease.\<close>

context redis_service
begin

lemma clear_scope_leaves:
  assumes sc: "plain_scope sc"
  shows "list_of (r_view R (clear_scope_pipe R c sc d s)) (messages_key c sc d) = []"
    and "sequence_at (r_view R (clear_scope_pipe R c sc d s)) (sequence_key c sc d) = 0"
    and "string_of (r_view R (clear_scope_pipe R c sc d s)) (lease_key c sc) = string_of (r_view R s) (lease_key c sc)"
proof -
  let ?s1 = "r_del R (messages_key c sc d) s"
  let ?s2 = "r_del R (sequence_key c sc d) ?s1" and ?A = "{active_scopes_key c d, active_key c d}"
  have rest: "same_but ?A (r_view R ?s2) (r_view R (clear_scope_pipe R c sc d s))"
    unfolding clear_scope_pipe_def Let_def
    by (auto intro!: apart_one [OF apart_one [OF same_but_refl apart(12)] apart(12)] apart_one [OF same_but_refl apart(12)])
  have "list_of (r_view R (clear_scope_pipe R c sc d s)) (messages_key c sc d) = list_of (r_view R ?s2) (messages_key c sc d)"
    by (rule same_but_typed(6) [OF rest]) (use sc in auto)
  moreover have "list_of (r_view R ?s2) (messages_key c sc d) = list_of (r_view R ?s1) (messages_key c sc d)"
    by (rule same_but_typed(6) [OF del_view]) (use sc in auto)
  ultimately show "list_of (r_view R (clear_scope_pipe R c sc d s)) (messages_key c sc d) = []"
    by (simp add: del redis_simps)
  have "string_of (r_view R (clear_scope_pipe R c sc d s)) (sequence_key c sc d) = string_of (r_view R ?s2) (sequence_key c sc d)"
    by (rule same_but_typed(4) [OF rest]) (use sc in auto)
  then show "sequence_at (r_view R (clear_scope_pipe R c sc d s)) (sequence_key c sc d) = 0"
    by (simp add: sequence_at_def num_of_def del redis_simps)
  have "string_of (r_view R (clear_scope_pipe R c sc d s)) (lease_key c sc) = string_of (r_view R ?s2) (lease_key c sc)"
    by (rule same_but_typed(4) [OF rest]) (use sc in auto)
  moreover have "string_of (r_view R ?s2) (lease_key c sc) = string_of (r_view R ?s1) (lease_key c sc)"
    by (rule same_but_typed(4) [OF del_view]) (use sc in auto)
  moreover have "string_of (r_view R ?s1) (lease_key c sc) = string_of (r_view R s) (lease_key c sc)"
    by (rule same_but_typed(4) [OF del_view]) (use sc in auto)
  ultimately show "string_of (r_view R (clear_scope_pipe R c sc d s)) (lease_key c sc) = string_of (r_view R s) (lease_key c sc)"
    by simp
qed

lemma clear_scope_keeps: "conv_ok c (r_view R s) \<Longrightarrow> conv_ok c (r_view R (clear_scope_pipe R c sc d s))"
  by (auto simp: clear_scope_pipe_def Let_def intro!: srem_ok [OF _ kind_active] srem_ok [OF _ kind_scopes] del_ok)

lemma migrate_answers:
  assumes "conv_ok c (r_view R s)" "plain_scope sc" "0 < ttl"
  obtains n s' where "migrate_legacy_script R (turns_key c (sc_identity sc) d) (messages_key c sc d) (sequence_key c sc d) ttl s = (Some n, s')"
    "conv_ok c (r_view R s')" "string_of (r_view R s') (lease_key c sc) = string_of (r_view R s) (lease_key c sc)"
proof (cases "value_at (r_view R s) (turns_key c (sc_identity sc) d) = None")
  case True
  have "is_list_key (r_view R s) (messages_key c sc d)" using conv_messages(1) [OF assms(1) kind_messages [OF assms(2)]] by simp
  then show ?thesis by (rule that [OF migrate_nothing [OF True] assms(1) refl])
next
  case False
  obtain n s' where r: "migrate_legacy_script R (turns_key c (sc_identity sc) d) (messages_key c sc d) (sequence_key c sc d) ttl s = (Some n, s')"
    "conv_ok c (r_view R s')"
    "same_but {turns_key c (sc_identity sc) d, messages_key c sc d, sequence_key c sc d} (r_view R s) (r_view R s')"
    by (rule migrate_done [OF assms False]) blast
  show ?thesis
    by (rule that [OF r(1,2) same_but_typed(4) [OF r(3)]]) (use assms(2) scope_keys_eq [OF assms(2)] in auto)
qed

end

context go_env
begin

text \<open>Clearing a day whatever the requests find on arriving: the list, the number and the lease after it.\<close>

lemma clear_scope_date_leaves:
  assumes ok: "conv_ok c (r_view R s4)" and sc: "plain_scope sc" and store: "good_store c"
    and first: "r_arrive R s = (Delivered, s4)"
    and second: "sc_conversation sc = default_conversation \<Longrightarrow>
      r_arrive R (snd (migrate_legacy_script R (turns_key c (sc_identity sc) (beijing_day t)) (messages_key c sc (beijing_day t))
        (sequence_key c sc (beijing_day t)) (milliseconds (cs_ttl c)) s4)) = (Delivered, s5) \<and>
      r_view R s5 = r_view R (snd (migrate_legacy_script R (turns_key c (sc_identity sc) (beijing_day t))
        (messages_key c sc (beijing_day t)) (sequence_key c sc (beijing_day t)) (milliseconds (cs_ttl c)) s4))"
  obtains s6 where "clear_scope_date R c sc t s = (Inr (), s6)" "conv_ok c (r_view R s6)"
    "list_of (r_view R s6) (messages_key c sc (beijing_day t)) = []"
    "sequence_at (r_view R s6) (sequence_key c sc (beijing_day t)) = 0"
    "string_of (r_view R s6) (lease_key c sc) = string_of (r_view R s4) (lease_key c sc)"
proof (cases "sc_conversation sc = default_conversation")
  case True
  obtain n s' where m: "migrate_legacy_script R (turns_key c (sc_identity sc) (beijing_day t)) (messages_key c sc (beijing_day t))
      (sequence_key c sc (beijing_day t)) (milliseconds (cs_ttl c)) s4 = (Some n, s')"
    "conv_ok c (r_view R s')" "string_of (r_view R s') (lease_key c sc) = string_of (r_view R s4) (lease_key c sc)"
    by (rule migrate_answers [OF ok sc conjunct1 [OF good_store_ms [OF store]]])
  have s5: "r_arrive R s' = (Delivered, s5)" "r_view R s5 = r_view R s'" using second [OF True] m(1) by simp_all
  let ?s6 = "clear_scope_pipe R c sc (beijing_day t) s5"
  have "clear_scope_date R c sc t s = (Inr (), ?s6)"
    using m(1) s5(1) first True
    by (simp add: clear_scope_date_def migrate_legacy_scope_def round_trip_def writing_def Let_def)
  then show ?thesis using that clear_scope_leaves [OF sc, of c "beijing_day t" s5] clear_scope_keeps m(2,3) s5(2) by simp
next
  case False
  let ?s6 = "clear_scope_pipe R c sc (beijing_day t) s4"
  have "clear_scope_date R c sc t s = (Inr (), ?s6)"
    using first False by (simp add: clear_scope_date_def migrate_legacy_scope_def round_trip_def writing_def Let_def)
  then show ?thesis using that clear_scope_leaves [OF sc, of c "beijing_day t" s4] clear_scope_keeps ok by simp
qed

end

text \<open>
  C15. \<open>ClearScopeToday\<close> looks at the lease in one round trip and deletes in others, and between
  two round trips of a call another client's script may run. Say the look finds no lease, and
  before the next request arrives the turn of another client begins. Then the call does not
  notice: it returns no error, the list of today is empty, its number starts again and the lease
  stays with the turn, whose next append becomes message number one of a list in which its own
  question is missing. Had the look arrived after the beginning, the call had answered that the
  conversation is busy, and written nothing.
\<close>

theorem clear_races_with_turn:
  assumes "go_env R" "good_store c" "plain_scope sc" "conv_ok c (r_view R s1)" "doc_ok data"
    and "sequence_at (r_view R s1) (sequence_key c sc (beijing_day t)) < 2 ^ 52"
    and "r_arrive R s = (Delivered, s1)" "env_now R s1 = (t, s2)" "r_view R s3 = r_view R s1"
    and "begin_batch_script R (begin_keys_of c sc (beijing_day t) bid) request data token (milliseconds (cs_ttl c))
      (milliseconds (cs_lease_ttl c)) member s3 = (Some (ReplyStarted doc token), s4)"
    and "r_arrive R s2 = (Delivered, s4)"
    and "sc_conversation sc = default_conversation \<Longrightarrow>
      r_arrive R (snd (migrate_legacy_script R (turns_key c (sc_identity sc) (beijing_day t)) (messages_key c sc (beijing_day t))
        (sequence_key c sc (beijing_day t)) (milliseconds (cs_ttl c)) s4)) = (Delivered, s5) \<and>
      r_view R s5 = r_view R (snd (migrate_legacy_script R (turns_key c (sc_identity sc) (beijing_day t))
        (messages_key c sc (beijing_day t)) (sequence_key c sc (beijing_day t)) (milliseconds (cs_ttl c)) s4))"
    and "beijing_day (bt_created b) = beijing_day t" "bd_planned data' = JArray ps" "ps \<noteq> []"
      "bd_messages data' = JArray ms" "ms \<noteq> []"
  shows "(\<exists>s6 m' s7. clear_scope_today R c sc s = (Inr (), s6) \<and>
      list_of (r_view R s6) (messages_key c sc (beijing_day t)) = [] \<and>
      sequence_at (r_view R s6) (sequence_key c sc (beijing_day t)) = 0 \<and>
      string_of (r_view R s6) (lease_key c sc) = Some (Raw token) \<and>
      run_command R c (OpAppend sc b token m data' request) s6 = (Some m', s7) \<and> tn_sequence m' = 1 \<and>
      list_of (r_view R s7) (messages_key c sc (beijing_day t)) = [TurnDoc m']) \<and>
    (\<forall>s0. r_arrive R s0 = (Delivered, s4) \<longrightarrow> clear_scope_today R c sc s0 = (Inl ErrConversationBusy, s4))"
proof -
  have R: "redis_service R" using assms(1) by (simp add: go_env_def)
  have ttl: "0 < milliseconds (cs_ttl c)" "0 < milliseconds (cs_lease_ttl c)" using good_store_ms [OF assms(2)] by simp_all
  have ok3: "conv_ok c (r_view R s3)" and room: "sequence_at (r_view R s3) (sequence_key c sc (beijing_day t)) < 2 ^ 52"
    using assms(4,6,9) by simp_all
  have "value_at (r_view R s3) (lease_key c sc) = None" and held: "string_of (r_view R s4) (lease_key c sc) = Some (Raw token)"
    using begin_decided [OF R ok3 assms(3,5) ttl room assms(10)] by (auto split: option.splits if_splits)
  then have free: "\<not> r_exists R (lease_key c sc) s1" using assms(9) by (simp add: redis_service.exists [OF R])
  have busy: "r_exists R (lease_key c sc) s4" using held by (auto simp: redis_service.exists [OF R] string_of_def split: option.splits)
  have ok4: "conv_ok c (r_view R s4)"
    using redis_service.begin_script_ok [OF R ok3 assms(3) _ assms(5) ttl, of "beijing_day t" bid request token member] room assms(10)
    by simp
  obtain s6 where s6: "clear_scope_date R c sc t s2 = (Inr (), s6)" "conv_ok c (r_view R s6)"
    "list_of (r_view R s6) (messages_key c sc (beijing_day t)) = []"
    "sequence_at (r_view R s6) (sequence_key c sc (beijing_day t)) = 0"
    "string_of (r_view R s6) (lease_key c sc) = string_of (r_view R s4) (lease_key c sc)"
    by (rule go_env.clear_scope_date_leaves [OF assms(1) ok4 assms(3,2,11,12)])
  obtain s7 where a: "append_character_script R (append_keys_of c sc b) token m data' request (milliseconds (cs_ttl c))
      (milliseconds (cs_lease_ttl c)) s6 =
      (Some (ReplyAppended (m\<lparr>tn_sequence := nat (0 + 1)\<rparr>) (appended_doc data' (nat (0 + 1)))), s7)"
    "list_of (r_view R s7) (messages_key c sc (beijing_day t)) =
      list_of (r_view R s6) (messages_key c sc (beijing_day t)) @ [TurnDoc (m\<lparr>tn_sequence := nat (0 + 1)\<rparr>)]"
    by (rule redis_service.append_done [OF R s6(2) assms(3), of token b 0 data' ps ms "milliseconds (cs_ttl c)"
          "milliseconds (cs_lease_ttl c)" m request, unfolded assms(13)])
      (use s6 held assms(14-17) ttl in \<open>auto simp: in_int64_def\<close>)
  have "clear_scope_today R c sc s = (Inr (), s6)"
    using assms(7,8) free s6(1) by (simp add: clear_scope_today_def round_trip_def reading_def)
  moreover have "clear_scope_today R c sc s0 = (Inl ErrConversationBusy, s4)" if "r_arrive R s0 = (Delivered, s4)" for s0
    using that busy by (simp add: clear_scope_today_def round_trip_def reading_def)
  ultimately show ?thesis using s6(3-5) held a by simp
qed

text \<open>
  The witness: a server at which, once the first request has arrived, a turn of another client
  begins before the next one unless there is a lease.
\<close>

definition race_begin :: "ref_world \<Rightarrow> begin_reply option \<times> ref_world" where
  "race_begin = begin_batch_script conv_env (begin_keys_of demo_conv demo_scope (beijing_day conv_now) ''b1'') ''r1''
     (marshal_batch (fresh_batch demo_scope ''b1'' ''t1'' ''r1'' ''hello'' conv_now)) ''tok''
     (milliseconds (cs_ttl demo_conv)) (milliseconds (cs_lease_ttl demo_conv)) ''m''"

definition race_arrive :: "ref_world \<Rightarrow> delivery \<times> ref_world" where
  "race_arrive s = (Delivered,
     case rf_net s of
       x # net \<Rightarrow> s\<lparr>rf_net := net\<rparr>
     | [] \<Rightarrow> if value_at (r_view conv_env s) (lease_key demo_conv demo_scope) = None then snd (race_begin s) else s)"

definition race_env :: "ref_world env" where
  "race_env = conv_env\<lparr>r_arrive := race_arrive\<rparr>"

lemma race_go_env: "go_env race_env"
  using ref_env.go_env_axioms unfolding race_env_def go_env_def go_env_axioms_def redis_service_arrive by simp

lemma race_same: "begin_batch_script race_env = begin_batch_script conv_env"
  unfolding race_env_def fun_eq_iff by (simp add: begin_batch_script_def find_request_def Let_def cong: if_cong option.case_cong blob.case_cong prod.case_cong)

theorem clear_races_with_turn_witness:
  "\<exists>doc s0 s4 s6 m s7. race_begin conv_begin = (Some (ReplyStarted doc ''tok''), s4) \<and>
     clear_scope_today race_env demo_conv demo_scope s0 = (Inr (), s6) \<and>
     list_of (r_view race_env s6) (messages_key demo_conv demo_scope (beijing_day conv_now)) = [] \<and>
     run_command race_env demo_conv (OpAppend demo_scope demo_batch ''tok'' demo_reply demo_data ''r1'') s6 = (Some m, s7) \<and>
     list_of (r_view race_env s7) (messages_key demo_conv demo_scope (beijing_day conv_now)) = [TurnDoc m]"
proof -
  let ?d = "beijing_day conv_now" and ?T = "milliseconds (cs_ttl demo_conv)" and ?L = "milliseconds (cs_lease_ttl demo_conv)"
  let ?data = "marshal_batch (fresh_batch demo_scope ''b1'' ''t1'' ''r1'' ''hello'' conv_now)"
  let ?migrate = "migrate_legacy_script race_env (turns_key demo_conv (sc_identity demo_scope) ?d) (messages_key demo_conv demo_scope ?d)
    (sequence_key demo_conv demo_scope ?d) ?T"
  have ttl: "0 < ?T" "0 < ?L" using good_store_ms [OF demo_conv_facts(1)] by simp_all
  have doc: "doc_ok ?data" by (rule marshal_doc_ok) (simp_all add: fresh_batch_def)
  have none: "known_request (begin_keys_of demo_conv demo_scope ?d ''b1'') ''r1'' (r_view conv_env conv_begin) = None"
    by (simp add: known_request_def)
  obtain s4 where b: "race_begin conv_begin = (Some (ReplyStarted (started_doc ?data (nat (0 + 1))) ''tok''), s4)"
    "string_of (r_view conv_env s4) (lease_key demo_conv demo_scope) = Some (Raw ''tok'')" "conv_ok demo_conv (r_view conv_env s4)"
    unfolding race_begin_def
    by (rule ref_env.begin_started [of demo_conv "()" conv_begin demo_scope ?d "''b1''" "''r1''" 0 ?data ?T ?L "''tok''" "''m''"])
      (use none doc ttl in \<open>simp_all add: in_int64_def\<close>)
  let ?s = "conv_begin\<lparr>rf_net := [(Delivered, 0)]\<rparr>"
  have view: "r_view race_env = r_view conv_env" by (simp add: race_env_def)
  have start: "r_arrive race_env ?s = (Delivered, conv_begin)" "env_now race_env conv_begin = (conv_now, conv_begin)"
    by (simp_all add: race_env_def race_arrive_def ref_start_def ref_now_def)
  have second: "r_arrive race_env conv_begin = (Delivered, s4)"
    using b(1) by (simp add: race_env_def race_arrive_def ref_start_def [of conv_now, THEN arg_cong [of _ _ rf_net]])
  have ok: "conv_ok demo_conv (r_view race_env s4)" using b(3) view by simp
  obtain n s' where m: "?migrate s4 = (Some n, s')"
    "string_of (r_view race_env s') (lease_key demo_conv demo_scope) = string_of (r_view race_env s4) (lease_key demo_conv demo_scope)"
    by (rule redis_service.migrate_answers [OF go_env.axioms(1) [OF race_go_env] ok demo_conv_facts(2) ttl(1)])
  then have "value_at (r_view conv_env s') (lease_key demo_conv demo_scope) \<noteq> None"
    using b(2) view by (auto simp: string_of_def split: option.splits)
  then obtain s5 where third: "r_arrive race_env (snd (?migrate s4)) = (Delivered, s5)" "r_view race_env s5 = r_view race_env (snd (?migrate s4))"
    using m(1) by (auto simp: race_env_def race_arrive_def ref_view_def split: list.splits)
  have room: "sequence_at (r_view race_env conv_begin) (sequence_key demo_conv demo_scope ?d) < 2 ^ 52"
    and clean: "conv_ok demo_conv (r_view race_env conv_begin)"
    using view by simp_all
  have began: "begin_batch_script race_env (begin_keys_of demo_conv demo_scope ?d ''b1'') ''r1'' ?data ''tok'' ?T ?L ''m'' conv_begin =
      (Some (ReplyStarted (started_doc ?data (nat (0 + 1))) ''tok''), s4)"
    using b(1) by (simp add: race_begin_def race_same)
  have created: "beijing_day (bt_created demo_batch) = beijing_day conv_now" by simp
  have full: "[''haruhi''] \<noteq> []" "[demo_reply] \<noteq> []" by simp_all
  from clear_races_with_turn [where b = demo_batch and m = demo_reply and request = "''r1''" and s = ?s and ?s5.0 = s5, OF race_go_env
      demo_conv_facts(1,2) clean doc room start refl began second conjI [OF third] created demo_data_facts(1) full(1) demo_data_facts(2) full(2)]
  show ?thesis using b(1) by blast
qed

text \<open>
  The atomic commands are enough: whatever method of the store a client calls, with
  whatever is lost on the way, its effect is that of a sequence of commands and pauses. So the
  interleavings of commands contain every schedule of calls.
\<close>

theorem calls_are_commands:
  assumes "quiet_env R" "good_store c" "conv_ok c (r_view R s)" "roomy c (r_view R s)" "call_ok call"
    and "\<And>i t. call = CallClearTurns i t \<Longrightarrow> plain_identity i"
  shows "\<exists>path. command_run R c s path (after_call R c call s)"
  by (rule quiet_env.run_call [OF assms(1,5,6,3,4,2)])

theorem calls_are_commands_witness:
  "\<exists>path. command_run conv_env demo_conv conv_begin path
     (after_call conv_env demo_conv (CallBegin demo_scope ''r1'' ''hello'') conv_begin)"
  by (rule calls_are_commands [OF ref_env.quiet_env_axioms demo_conv_facts(1)]) simp_all

end
