(* ===== verification/Lifecycle.thy ===== *)
theory Lifecycle
  imports Startup Replies
begin

text \<open>
  The programs under \<open>cmd\<close> from their first line to their last: \<open>agent/main.go\<close>,
  \<open>gateway/main.go\<close> and \<open>seed-admin/main.go\<close>, with the logger of \<open>internal/logging\<close>. What the
  standard library and the drivers do for them (signals, connections, listening, serving) are
  the operations of a host. A panic is the error of the program and runs what was deferred.
\<close>

section \<open>The host\<close>

datatype log_level = LevelInfo | LevelWarn | LevelError

record logger =
  lo_component :: string
  lo_level :: log_level

text \<open>\<open>logging.New\<close> never fails; the attributes of the lines are left out.\<close>

definition new_logging :: "string \<Rightarrow> go_error + logger" where
  "new_logging name = Inr \<lparr>lo_component = name, lo_level = LevelInfo\<rparr>"

record redis_options =
  ro_addr :: string
  ro_dial :: time
  ro_read :: time
  ro_write :: time
  ro_retries :: int

text \<open>
  What both services ask of the world: log lines, the context that signals cancel
  (\<open>signal.NotifyContext\<close> and its stop function), a context with a deadline and its cancel
  function, PostgreSQL (\<open>gorm.Open\<close> with whether errors are translated, \<open>db.DB\<close>, \<open>Close\<close>, \<open>Ping\<close>)
  and the Redis client. \<open>ho_select\<close> waits until serving ended, with the error of the server, or
  a signal arrived.
\<close>

record 's host =
  ho_log :: "logger \<Rightarrow> log_level \<Rightarrow> string \<Rightarrow> 's \<Rightarrow> 's"
  ho_notify :: "'s \<Rightarrow> 's"
  ho_stop_notify :: "'s \<Rightarrow> 's"
  ho_with_timeout :: "time \<Rightarrow> 's \<Rightarrow> 's"
  ho_cancel :: "'s \<Rightarrow> 's"
  ho_open_db :: "string \<Rightarrow> bool \<Rightarrow> ('s, unit) io"
  ho_db_handle :: "('s, unit) io"
  ho_close_db :: "'s \<Rightarrow> 's"
  ho_ping_db :: "('s, unit) io"
  ho_open_redis :: "redis_options \<Rightarrow> 's \<Rightarrow> 's"
  ho_close_redis :: "'s \<Rightarrow> 's"
  ho_ping_redis :: "('s, unit) io"
  ho_select :: "'s \<Rightarrow> go_error option option \<times> 's"

definition millisecond :: time where
  "millisecond = 1000000"

definition service_redis :: "string \<Rightarrow> redis_options" where
  "service_redis addr = \<lparr>ro_addr = addr, ro_dial = 500 * millisecond, ro_read = 500 * millisecond,
     ro_write = 500 * millisecond, ro_retries = - 1\<rparr>"

text \<open>A step whose failure is logged and ends the program with a panic.\<close>

definition or_panic :: "('s, 'z) host_scheme \<Rightarrow> logger \<Rightarrow> string \<Rightarrow> ('s, 'a) io \<Rightarrow> ('s, 'a) io" where
  "or_panic H l msg m s =
     (case m s of
        (Inl e, s1) \<Rightarrow> (Inl e, ho_log H l LevelError msg s1)
      | (Inr x, s1) \<Rightarrow> (Inr x, s1))"

section \<open>The agent\<close>

record chat_model_config =
  cc_key :: string
  cc_model :: string
  cc_base :: string
  cc_timeout :: time

text \<open>
  \<open>ah_every\<close> starts a goroutine with a ticker that hands a value from tick to tick until the
  signal; \<open>ah_serve\<close> starts serving in the background; \<open>ah_graceful_stop\<close> stops gracefully and
  waits so long for it, and tells whether it was done in time.
\<close>

record 's agent_host = "'s host" +
  ah_chat_model :: "chat_model_config \<Rightarrow> ('s, 's chat) io"
  ah_listen :: "string \<Rightarrow> ('s, unit) io"
  ah_set_status :: "string \<Rightarrow> bool \<Rightarrow> 's \<Rightarrow> 's"
  ah_shutdown_health :: "'s \<Rightarrow> 's"
  ah_every :: "time \<Rightarrow> (bool \<Rightarrow> 's \<Rightarrow> bool \<times> 's) \<Rightarrow> bool \<Rightarrow> 's \<Rightarrow> 's"
  ah_serve :: "'s agent_server \<Rightarrow> 's \<Rightarrow> 's"
  ah_graceful_stop :: "time \<Rightarrow> 's \<Rightarrow> bool \<times> 's"
  ah_stop :: "'s \<Rightarrow> 's"

definition deepseek_config :: "agent_config \<Rightarrow> chat_model_config" where
  "deepseek_config cfg = \<lparr>cc_key = ac_deepseek_key cfg, cc_model = ac_deepseek_model cfg,
     cc_base = ''https://api.deepseek.com'', cc_timeout = 30 * second\<rparr>"

definition agent_checks :: "('s, 'z) agent_host_scheme \<Rightarrow> ('s, unit) io list" where
  "agent_checks H = [ho_ping_db H, ho_ping_redis H]"

definition check_dependencies :: "('s, 'z) agent_host_scheme \<Rightarrow> 's \<Rightarrow> bool \<times> 's" where
  "check_dependencies H s =
     (let (ready, s1) = update_agent_serving_status (ah_set_status H) (agent_checks H)
            (ho_with_timeout H (2 * second) s)
      in (ready, ho_cancel H s1))"

text \<open>One tick of the loop that watches the dependencies: a change of the readiness is logged.\<close>

definition readiness_tick :: "('s, 'z) agent_host_scheme \<Rightarrow> logger \<Rightarrow> bool \<Rightarrow> 's \<Rightarrow> bool \<times> 's" where
  "readiness_tick H l previous s =
     (let (current, s1) = check_dependencies H s
      in (current, if current \<noteq> previous then ho_log H l LevelInfo ''agent readiness changed'' s1 else s1))"

definition agent_shutdown :: "('s, 'z) agent_host_scheme \<Rightarrow> logger \<Rightarrow> 's \<Rightarrow> 's" where
  "agent_shutdown H l s =
     (let s1 = ah_shutdown_health H (ho_log H l LevelInfo ''agent shutting down'' s);
          (stopped, s2) = ah_graceful_stop H (20 * second) s1
      in if stopped then s2 else ah_stop H (ho_log H l LevelWarn ''agent graceful shutdown timed out'' s2))"

definition agent_serving :: "('s, 'z) agent_host_scheme \<Rightarrow> logger \<Rightarrow> 's agent_server \<Rightarrow> ('s, unit) io" where
  "agent_serving H l server s =
     (let s1 = initialize_agent_health (ah_set_status H) s;
          (ready, s2) = check_dependencies H s1;
          s3 = (if ready then s2 else ho_log H l LevelWarn ''agent dependencies not ready'' s2);
          s4 = ah_serve H server (ah_every H (5 * second) (readiness_tick H l) ready s3);
          (ended, s5) = ho_select H (ho_log H l LevelInfo ''agent grpc serving'' s4)
      in case ended of
           Some None \<Rightarrow> (Inr (), s5)
         | Some (Some e) \<Rightarrow> (Inl e, ho_log H l LevelError ''serve failed'' s5)
         | None \<Rightarrow> (Inr (), agent_shutdown H l s5))"

text \<open>\<open>memory.NewRepo\<close> wraps the database and never fails.\<close>

definition new_repo :: "('s, unit) io" where
  "new_repo = Pair (Inr ())"

definition agent_main :: "('s, 'z) agent_host_scheme \<Rightarrow> process \<Rightarrow> ('s, unit) io" where
  "agent_main H P =
     ebind (Pair (new_logging ''agent'')) (\<lambda>l.
     ebind (or_panic H l ''config load failed'' (Pair (load_agent P))) (\<lambda>cfg s.
     deferring (ho_stop_notify H)
       (ebind (or_panic H l ''db open failed'' (ho_open_db H (ac_pg_dsn cfg) False)) (\<lambda>_.
        ebind (or_panic H l ''db handle failed'' (ho_db_handle H)) (\<lambda>_.
        deferring (ho_close_db H)
          (ebind (or_panic H l ''repo init failed'' new_repo) (\<lambda>_ s.
           deferring (ho_close_redis H)
             (ebind (or_panic H l ''chat model init failed'' (ah_chat_model H (deepseek_config cfg))) (\<lambda>model.
              ebind (or_panic H l ''listen failed'' (ah_listen H (ac_agent_addr cfg))) (\<lambda>_.
              agent_serving H l (new_agent model (deepseek_model model)))))
             (ho_open_redis H (service_redis (ac_redis_addr cfg)) s))))))
       (ho_notify H s)))"

section \<open>The gateway\<close>

record http_options =
  hp_addr :: string
  hp_read_header :: time
  hp_idle :: time
  hp_write :: time

record 's gateway_host = "'s host" +
  gh_dial :: "string \<Rightarrow> ('s, 's agent_stub) io"
  gh_hang_up :: "'s \<Rightarrow> 's"
  gh_start_cron :: "int \<Rightarrow> string \<Rightarrow> ('s \<Rightarrow> 's) \<Rightarrow> 's \<Rightarrow> 's"
  gh_stop_cron :: "'s \<Rightarrow> 's"
  gh_serve :: "http_options \<Rightarrow> 's handlers \<Rightarrow> (string \<times> ('s, unit) io option) list \<Rightarrow> 's \<Rightarrow> 's"
  gh_shutdown :: "('s, unit) io"
  gh_close_server :: "'s \<Rightarrow> 's"

text \<open>The sentinel of \<open>net/http\<close> for a server that was shut down.\<close>

definition err_server_closed :: go_error where
  "err_server_closed = ErrText ''http: Server closed''"

definition gateway_server :: "gateway_config \<Rightarrow> http_options" where
  "gateway_server cfg = \<lparr>hp_addr = gc_http_addr cfg, hp_read_header = 10 * second, hp_idle = 60 * second,
     hp_write = 90 * second\<rparr>"

text \<open>\<open>StartCron\<close>: the nightly run, at midnight of the zone eight hours ahead of UTC.\<close>

definition maintenance_offset :: int where
  "maintenance_offset = 8 * 60 * 60"

definition start_cron ::
  "('s, 'z) gateway_host_scheme \<Rightarrow> ('s \<Rightarrow> time \<times> 's) \<Rightarrow> 's agent_caller \<Rightarrow> 's token_source \<Rightarrow> 's pusher \<Rightarrow> 's \<Rightarrow> 's" where
  "start_cron H clock agent tokens push =
     gh_start_cron H maintenance_offset ''0 0 * * *'' (run_maintenance clock agent tokens push)"

definition gateway_shutdown :: "('s, 'z) gateway_host_scheme \<Rightarrow> logger \<Rightarrow> ('s, unit) io" where
  "gateway_shutdown H l s =
     deferring (ho_cancel H)
       (\<lambda>s. case gh_shutdown H s of
          (Inl _, s1) \<Rightarrow> (Inr (), gh_close_server H (ho_log H l LevelError ''gateway graceful shutdown failed'' s1))
        | (Inr _, s1) \<Rightarrow> (Inr (), s1))
       (ho_with_timeout H (35 * second) (ho_log H l LevelInfo ''gateway shutting down'' s))"

definition gateway_serving ::
  "('s, 'z) gateway_host_scheme \<Rightarrow> logger \<Rightarrow> gateway_config \<Rightarrow> 's agent_caller \<Rightarrow> 's handlers \<Rightarrow> ('s, unit) io" where
  "gateway_serving H l cfg agent h s =
     (let s1 = gh_serve H (gateway_server cfg) h (gateway_readiness agent (ho_ping_db H) (ho_ping_redis H)) s;
          (ended, s2) = ho_select H (ho_log H l LevelInfo ''gateway http serving'' s1)
      in case ended of
           Some None \<Rightarrow> (Inr (), s2)
         | Some (Some e) \<Rightarrow>
             if e = err_server_closed then (Inr (), s2)
             else (Inl e, ho_log H l LevelError ''http serve failed'' s2)
         | None \<Rightarrow> gateway_shutdown H l s2)"

text \<open>
  The job of cron is stopped when the program ends, before the connections are closed. What
  the integration of WeChat is built from is given as for \<open>gateway_handlers\<close>.
\<close>

definition gateway_with_wechat ::
  "('s, 'y) env_scheme \<Rightarrow> ('s, 'z) gateway_host_scheme \<Rightarrow> logger \<Rightarrow> gateway_config \<Rightarrow> 's agent_caller \<Rightarrow>
   's handlers \<Rightarrow> ('s, unit) io" where
  "gateway_with_wechat R H l cfg agent h s =
     (if gc_wechat_enabled cfg
      then deferring (gh_stop_cron H)
        (\<lambda>s. gateway_serving H l cfg agent h (ho_log H l LevelInfo ''wechat integration enabled'' s))
        (start_cron H (env_now R) agent (hd_tokens h) (hd_pusher h) s)
      else gateway_serving H l cfg agent h (ho_log H l LevelInfo ''wechat integration disabled'' s))"

definition gateway_main ::
  "('s, 'y) env_scheme \<Rightarrow> ('s, 'z) gateway_host_scheme \<Rightarrow> process \<Rightarrow>
   (string \<Rightarrow> string \<Rightarrow> token_cache \<Rightarrow> 's token_source) \<Rightarrow> 's token_source \<Rightarrow> 's pusher \<Rightarrow> 's pusher \<Rightarrow>
   (string \<Rightarrow> ('s, bool) io) \<Rightarrow> ('s, unit) io" where
  "gateway_main R H P tokens no_tokens push no_push plain =
     ebind (Pair (new_logging ''gateway'')) (\<lambda>l.
     ebind (or_panic H l ''config load failed'' (Pair (load_gateway P))) (\<lambda>cfg s.
     deferring (ho_stop_notify H)
       (ebind (or_panic H l ''grpc client failed'' (gh_dial H (gc_agent_addr cfg))) (\<lambda>stub.
        deferring (gh_hang_up H) (\<lambda>s.
        deferring (ho_close_redis H)
          (ebind (or_panic H l ''postgres client failed'' (ho_open_db H (gc_pg_dsn cfg) True)) (\<lambda>_.
           ebind (or_panic H l ''postgres handle failed'' (ho_db_handle H)) (\<lambda>_.
           deferring (ho_close_db H)
             (ebind (or_panic H l ''auth service failed'' (Pair (gateway_auth cfg))) (\<lambda>auth.
              ebind (or_panic H l ''quota service failed'' (Pair (new_quota quota_prefix (gc_quota_limit cfg)))) (\<lambda>q.
              gateway_with_wechat R H l cfg (new_agent_client stub)
                (gateway_handlers R cfg auth q (new_agent_client stub) tokens no_tokens push no_push plain)))))))
          (ho_open_redis H (service_redis (gc_redis_addr cfg)) s))))
       (ho_notify H s)))"

section \<open>The administrator\<close>

text \<open>\<open>log.Fatalf\<close> ends the process at once: nothing that was deferred runs.\<close>

definition seed_admin :: "('s, 'y) auth_env_scheme \<Rightarrow> ('s, 'z) host_scheme \<Rightarrow> process \<Rightarrow> ('s, user) io" where
  "seed_admin R H P =
     ebind (Pair (required_env P ''PG_DSN'')) (\<lambda>dsn.
     ebind (Pair (required_env P ''ADMIN_EMAIL'')) (\<lambda>email.
     ebind (Pair (required_env P ''ADMIN_PASSWORD'')) (\<lambda>password.
     ebind (ho_open_db H dsn True) (\<lambda>_.
     ebind (ho_db_handle H) (\<lambda>_ s.
       case ensure_admin R email password s of
         (Inl e, s1) \<Rightarrow> (Inl e, s1)
       | (Inr u, s1) \<Rightarrow> (Inr u, ho_close_db H s1))))))"

end
