(* ===== verification/Lifecycle_Correct.thy ===== *)
theory Lifecycle_Correct
  imports Lifecycle Startup_Correct "HOL-Library.Multiset"
begin

text \<open>
  Two things a service owes its surroundings when it ends. Whatever goes wrong on the way, it
  gives back what it opened, each thing once; and an agent that was told to stop reports that it
  is not serving before it stops taking calls, and never again reports that it is, whatever the
  goroutine that watches its dependencies was doing at that moment.
\<close>

section \<open>What the main goroutine holds\<close>

datatype resource = Signals | Deadline | Database | RedisClient | AgentConnection | NightlyRun

text \<open>
  The host keeps account: \<open>held\<close> is what the main goroutine has opened and not given back.
  Opening that fails opens nothing; other operations leave the account alone.
\<close>

locale orderly_host =
  fixes H :: "('s, 'z) host_scheme" and held :: "'s \<Rightarrow> resource multiset"
  assumes held_log: "held (ho_log H l v msg s) = held s"
    and held_notify: "held (ho_notify H s) = add_mset Signals (held s)"
    and held_stop_notify: "held (ho_stop_notify H s) = held s - {#Signals#}"
    and held_with_timeout: "held (ho_with_timeout H t s) = add_mset Deadline (held s)"
    and held_cancel: "held (ho_cancel H s) = held s - {#Deadline#}"
    and held_open_db: "ho_open_db H dsn b s = (r, s') \<Longrightarrow>
      held s' = (case r of Inl e \<Rightarrow> held s | Inr u \<Rightarrow> add_mset Database (held s))"
    and held_db_handle: "held (snd (ho_db_handle H s)) = held s"
    and held_close_db: "held (ho_close_db H s) = held s - {#Database#}"
    and held_ping_db: "held (snd (ho_ping_db H s)) = held s"
    and held_open_redis: "held (ho_open_redis H ro s) = add_mset RedisClient (held s)"
    and held_close_redis: "held (ho_close_redis H s) = held s - {#RedisClient#}"
    and held_ping_redis: "held (snd (ho_ping_redis H s)) = held s"
    and held_select: "held (snd (ho_select H s)) = held s"

locale orderly_agent = orderly_host H held
  for H :: "('s, 'z) agent_host_scheme" and held :: "'s \<Rightarrow> resource multiset" +
  assumes held_chat_model: "held (snd (ah_chat_model H cc s)) = held s"
    and held_listen: "held (snd (ah_listen H addr s)) = held s"
    and held_set_status: "held (ah_set_status H n b s) = held s"
    and held_shutdown_health: "held (ah_shutdown_health H s) = held s"
    and held_every: "held (ah_every H t tick b s) = held s"
    and held_serve: "held (ah_serve H server s) = held s"
    and held_graceful_stop: "held (snd (ah_graceful_stop H t s)) = held s"
    and held_stop: "held (ah_stop H s) = held s"

locale orderly_gateway = orderly_host H held
  for H :: "('s, 'z) gateway_host_scheme" and held :: "'s \<Rightarrow> resource multiset" +
  assumes held_dial: "gh_dial H addr s = (r, s') \<Longrightarrow>
      held s' = (case r of Inl e \<Rightarrow> held s | Inr stub \<Rightarrow> add_mset AgentConnection (held s))"
    and held_hang_up: "held (gh_hang_up H s) = held s - {#AgentConnection#}"
    and held_start_cron: "held (gh_start_cron H offset spec job s) = add_mset NightlyRun (held s)"
    and held_stop_cron: "held (gh_stop_cron H s) = held s - {#NightlyRun#}"
    and held_serve_http: "held (gh_serve H ho h checks s) = held s"
    and held_shutdown: "held (snd (gh_shutdown H s)) = held s"
    and held_close_server: "held (gh_close_server H s) = held s"

text \<open>
  A part of a program that holds in the end what it held at the start; and one that may in
  addition have left the database open, with an error for which there is a reason.
\<close>

definition keeps :: "('s \<Rightarrow> resource multiset) \<Rightarrow> ('s, 'a) io \<Rightarrow> bool" where
  "keeps held m \<longleftrightarrow> (\<forall>s. held (snd (m s)) = held s)"

definition settles :: "('s \<Rightarrow> resource multiset) \<Rightarrow> (go_error \<Rightarrow> bool) \<Rightarrow> ('s, 'a) io \<Rightarrow> bool" where
  "settles held reason m \<longleftrightarrow> (\<forall>s. held (snd (m s)) = held s \<or>
     (\<exists>e. fst (m s) = Inl e \<and> reason e \<and> held (snd (m s)) = add_mset Database (held s)))"

named_theorems ledger_intros \<open>how the account of a program follows from its parts\<close>

lemma keeps_pair [ledger_intros]: "keeps held (Pair r)"
  by (simp add: keeps_def)

lemma keeps_bind [ledger_intros]: "keeps held m \<Longrightarrow> (\<And>x. keeps held (k x)) \<Longrightarrow> keeps held (ebind m k)"
  by (simp add: keeps_def ebind_def split: prod.split sum.split) (metis snd_conv)

lemma keeps_deferring:
  assumes "keeps held m" "\<And>s. held (open s) = add_mset r (held s)" "\<And>s. held (close s) = held s - {#r#}"
  shows "keeps held (\<lambda>s. deferring close m (open s))"
  using assms by (simp add: keeps_def deferring_def split_beta)

lemma settles_pair_bind [ledger_intros]: "(\<And>x. settles held reason (k x)) \<Longrightarrow> settles held reason (ebind (Pair r) k)"
  by (cases r) (simp_all add: settles_def ebind_def)

lemma settles_bind: "keeps held m \<Longrightarrow> (\<And>x. settles held reason (k x)) \<Longrightarrow> settles held reason (ebind m k)"
  by (simp add: settles_def keeps_def ebind_def split: prod.split sum.split) (metis snd_conv)

lemma settles_deferring:
  assumes "settles held reason m" "\<And>s. held (open s) = add_mset r (held s)" "\<And>s. held (close s) = held s - {#r#}"
    and "r \<noteq> Database"
  shows "settles held reason (\<lambda>s. deferring close m (open s))"
  unfolding settles_def
proof
  fix s
  have "held (snd (m (open s))) = held (open s) \<or>
      (\<exists>e. fst (m (open s)) = Inl e \<and> reason e \<and> held (snd (m (open s))) = add_mset Database (held (open s)))"
    using assms(1) by (simp add: settles_def)
  then show "held (snd (deferring close m (open s))) = held s \<or>
      (\<exists>e. fst (deferring close m (open s)) = Inl e \<and> reason e \<and>
         held (snd (deferring close m (open s))) = add_mset Database (held s))"
    using assms(2-4) by (auto simp: deferring_def split_beta)
qed

text \<open>What is opened by a step that can fail, and released by what is deferred behind it.\<close>

lemma settles_opened:
  assumes "\<And>s r' s'. m s = (r', s') \<Longrightarrow> held s' = (case r' of Inl e \<Rightarrow> held s | Inr x \<Rightarrow> add_mset r (held s))"
    and "\<And>x. settles held reason (k x)" "\<And>s. held (close s) = held s - {#r#}" "r \<noteq> Database"
  shows "settles held reason (ebind m (\<lambda>x. deferring close (k x)))"
  unfolding settles_def
proof
  fix s
  obtain r' s1 where m: "m s = (r', s1)" by fastforce
  note h = assms(1) [OF m]
  show "held (snd (ebind m (\<lambda>x. deferring close (k x)) s)) = held s \<or>
      (\<exists>e. fst (ebind m (\<lambda>x. deferring close (k x)) s) = Inl e \<and> reason e \<and>
         held (snd (ebind m (\<lambda>x. deferring close (k x)) s)) = add_mset Database (held s))"
  proof (cases r')
    case (Inl e)
    then show ?thesis using h m by (simp add: ebind_def)
  next
    case (Inr x)
    have "held (snd (k x s1)) = held s1 \<or>
        (\<exists>e. fst (k x s1) = Inl e \<and> reason e \<and> held (snd (k x s1)) = add_mset Database (held s1))"
      using assms(2) by (simp add: settles_def)
    then show ?thesis using Inr h m assms(3,4) by (auto simp: ebind_def deferring_def split_beta)
  qed
qed

text \<open>The database: opened, and closed once its handle is there.\<close>

lemma settles_database:
  assumes "\<And>s r' s'. m s = (r', s') \<Longrightarrow> held s' = (case r' of Inl e \<Rightarrow> held s | Inr (x :: unit) \<Rightarrow> add_mset Database (held s))"
    and "keeps held handle" "\<And>s e s'. handle s = (Inl e, s') \<Longrightarrow> reason e"
    and "keeps held rest" "\<And>s. held (close s) = held s - {#Database#}"
  shows "settles held reason (ebind m (\<lambda>_. ebind handle (\<lambda>_. deferring close rest)))"
  unfolding settles_def
proof
  fix s
  let ?p = "ebind m (\<lambda>_. ebind handle (\<lambda>_. deferring close rest))"
  obtain r' s1 where m: "m s = (r', s1)" by fastforce
  obtain r2 s2 where h: "handle s1 = (r2, s2)" by fastforce
  have "held s2 = held s1" using assms(2) h by (metis keeps_def snd_conv)
  moreover have "held (snd (rest s2)) = held s2" using assms(4) by (simp add: keeps_def)
  ultimately show "held (snd (?p s)) = held s \<or>
      (\<exists>e. fst (?p s) = Inl e \<and> reason e \<and> held (snd (?p s)) = add_mset Database (held s))"
    using assms(1) [OF m] assms(3) [of s1] assms(5) m h
    by (cases r'; cases r2) (auto simp: ebind_def deferring_def split_beta)
qed

section \<open>Both services\<close>

context orderly_host
begin

lemmas held_laws = held_log held_notify held_stop_notify held_with_timeout held_cancel held_db_handle held_close_db
  held_ping_db held_open_redis held_close_redis held_ping_redis held_select

lemma keeps_or_panic [ledger_intros]: "keeps held m \<Longrightarrow> keeps held (or_panic H l msg m)"
  by (simp add: keeps_def or_panic_def held_log split: prod.split sum.split) (metis snd_conv)

lemma opened_or_panic:
  assumes "\<And>s r' s'. m s = (r', s') \<Longrightarrow> held s' = (case r' of Inl e \<Rightarrow> held s | Inr x \<Rightarrow> add_mset r (held s))"
    and "or_panic H l msg m s = (r', s')"
  shows "held s' = (case r' of Inl e \<Rightarrow> held s | Inr x \<Rightarrow> add_mset r (held s))"
proof -
  obtain r1 s1 where m: "m s = (r1, s1)" by fastforce
  show ?thesis using assms(1) [OF m] assms(2) m by (cases r1) (auto simp: or_panic_def held_log)
qed

lemma keeps_handle [ledger_intros]: "keeps held (ho_db_handle H)"
  by (simp add: keeps_def held_db_handle)

lemma handle_reason: "or_panic H l msg (ho_db_handle H) s = (Inl e, s') \<Longrightarrow> \<exists>s1 s2. ho_db_handle H s1 = (Inl e, s2)"
  by (auto simp: or_panic_def split: prod.splits sum.splits)

end

context orderly_agent
begin

lemma held_checks: "held (snd (update_agent_serving_status (ah_set_status H) [ho_ping_db H, ho_ping_redis H] s)) = held s"
proof -
  obtain r1 s1 where a: "ho_ping_db H s = (r1, s1)" by fastforce
  obtain r2 s2 where b: "ho_ping_redis H s1 = (r2, s2)" by fastforce
  show ?thesis using held_ping_db [of s] held_ping_redis [of s1] a b
    by (cases r1; cases r2) (simp_all add: held_set_status)
qed

lemma held_check_dependencies: "held (snd (check_dependencies H s)) = held s"
  by (simp add: check_dependencies_def agent_checks_def split_beta held_checks held_cancel held_with_timeout del: update_agent_serving_status.simps)

lemma keeps_serving [ledger_intros]: "keeps held (agent_serving H l server)"
  unfolding keeps_def agent_serving_def
  by (auto simp: split_beta Let_def held_laws held_select held_log held_serve held_every held_check_dependencies
      held_set_status initialize_agent_health_def agent_shutdown_def held_shutdown_health held_graceful_stop held_stop
      split: option.split)

lemma agent_settles: "settles held (\<lambda>e. \<exists>s1 s2. ho_db_handle H s1 = (Inl e, s2)) (agent_main H P)"
proof -
  have model: "keeps held (ah_chat_model H cc)" "keeps held (ah_listen H addr)" for cc addr
    by (simp_all add: keeps_def held_chat_model held_listen)
  have inner: "keeps held (ebind (or_panic H l msg new_repo) (\<lambda>_ s. deferring (ho_close_redis H)
      (ebind (or_panic H l msg1 (ah_chat_model H cc)) (\<lambda>model. ebind (or_panic H l msg2 (ah_listen H addr)) (\<lambda>_.
         agent_serving H l (server model)))) (ho_open_redis H ro s)))" for l msg cc msg1 msg2 addr server ro
    unfolding new_repo_def
    by (intro ledger_intros keeps_deferring [OF _ held_open_redis held_close_redis] model)
  show ?thesis unfolding agent_main_def
    by (intro settles_pair_bind settles_bind [OF keeps_or_panic [OF keeps_pair]]
        settles_deferring [OF _ held_notify held_stop_notify]
        settles_database [OF opened_or_panic [OF held_open_db]] keeps_or_panic keeps_handle inner held_close_db) (auto dest: handle_reason)
qed

end

context orderly_gateway
begin

lemma keeps_gateway_serving [ledger_intros]: "keeps held (gateway_serving H l cfg agent h)"
proof -
  have "held (snd (gateway_shutdown H l s)) = held s" for s
  proof -
    let ?s1 = "ho_with_timeout H (35 * second) (ho_log H l LevelInfo ''gateway shutting down'' s)"
    obtain r s2 where "gh_shutdown H ?s1 = (r, s2)" by fastforce
    then show ?thesis using held_shutdown [of ?s1]
      by (cases r) (simp_all add: gateway_shutdown_def deferring_def held_log held_close_server held_cancel held_with_timeout)
  qed
  then show ?thesis unfolding keeps_def gateway_serving_def
    by (auto simp: split_beta Let_def held_select held_log held_serve_http split: option.split)
qed

lemma keeps_with_wechat [ledger_intros]: "keeps held (gateway_with_wechat R H l cfg agent h)"
proof -
  have k: "keeps held (\<lambda>s. gateway_serving H l cfg agent h (ho_log H l LevelInfo msg s))" for msg
    using keeps_gateway_serving [of l cfg agent h] by (simp add: keeps_def held_log)
  have "keeps held (\<lambda>s. deferring (gh_stop_cron H)
      (\<lambda>s. gateway_serving H l cfg agent h (ho_log H l LevelInfo ''wechat integration enabled'' s))
      (start_cron H (env_now R) agent (hd_tokens h) (hd_pusher h) s))"
    unfolding start_cron_def by (rule keeps_deferring [OF k held_start_cron held_stop_cron])
  then show ?thesis using k [of "''wechat integration disabled''"] by (cases "gc_wechat_enabled cfg") (simp_all add: gateway_with_wechat_def [abs_def])
qed

lemma opened_dial: "or_panic H l msg (gh_dial H addr) s = (r', s') \<Longrightarrow>
    held s' = (case r' of Inl e \<Rightarrow> held s | Inr stub \<Rightarrow> add_mset AgentConnection (held s))"
  by (rule opened_or_panic [OF held_dial])

lemma settles_dial: "(\<And>stub. settles held reason (k stub)) \<Longrightarrow>
    settles held reason (ebind (or_panic H l msg (gh_dial H addr)) (\<lambda>stub. deferring (gh_hang_up H) (k stub)))"
  by (rule settles_opened [where r = AgentConnection]) (simp_all add: opened_dial held_hang_up)

lemma gateway_settles: "settles held (\<lambda>e. \<exists>s1 s2. ho_db_handle H s1 = (Inl e, s2))
    (gateway_main R H P tokens no_tokens push no_push plain)"
  unfolding gateway_main_def
  by (intro settles_pair_bind settles_bind [OF keeps_or_panic [OF keeps_pair]]
      settles_deferring [OF _ held_notify held_stop_notify] settles_dial
      settles_deferring [OF _ held_open_redis held_close_redis]
      settles_database [OF opened_or_panic [OF held_open_db]] held_close_db ledger_intros) (auto dest: handle_reason)

end

text \<open>
  C35. A service gives back what it opened. However the agent or the gateway ends, by a signal,
  because serving ended, or by the panic of any step of its start, its main goroutine has
  released each signal handler, deadline, connection, client and nightly run exactly once, as
  often as it opened them. The one exception is a database whose handle could not be had. (The
  listener is not in the account, the server that serves on it closes it; and an open that
  fails is taken to hold nothing.)
\<close>

theorem services_give_back:
  assumes "orderly_agent A held" "orderly_gateway G held'"
  shows "(held (snd (agent_main A P s)) = held s \<or>
      (\<exists>e s1 s2. fst (agent_main A P s) = Inl e \<and> ho_db_handle A s1 = (Inl e, s2) \<and>
         held (snd (agent_main A P s)) = add_mset Database (held s))) \<and>
    (let run = gateway_main R G P' tokens no_tokens push no_push plain t
     in held' (snd run) = held' t \<or>
       (\<exists>e s1 s2. fst run = Inl e \<and> ho_db_handle G s1 = (Inl e, s2) \<and> held' (snd run) = add_mset Database (held' t)))"
  using orderly_agent.agent_settles [OF assms(1), of P]
    orderly_gateway.gateway_settles [OF assms(2), of R P' tokens no_tokens push no_push plain]
  unfolding settles_def Let_def by blast

section \<open>A host for the witnesses\<close>

text \<open>
  Which steps fail and how serving ends is part of the world, like the account and the statuses
  the health server reports.
\<close>

record stage = ref_world +
  st_held :: "resource multiset"
  st_broken :: "resource set"
  st_model_fails :: bool
  st_end :: "go_error option option"
  st_late :: bool
  st_status :: "string \<Rightarrow> bool option"
  st_down :: bool

definition hold :: "resource \<Rightarrow> stage \<Rightarrow> stage" where
  "hold r s = s\<lparr>st_held := add_mset r (st_held s)\<rparr>"

definition give_back :: "resource \<Rightarrow> stage \<Rightarrow> stage" where
  "give_back r s = s\<lparr>st_held := st_held s - {#r#}\<rparr>"

definition try_hold :: "resource \<Rightarrow> 'a \<Rightarrow> (stage, 'a) io" where
  "try_hold r x s = (if r \<in> st_broken s then (Inl ErrService, s) else (Inr x, hold r s))"

definition stage_status :: "string \<Rightarrow> bool \<Rightarrow> stage \<Rightarrow> stage" where
  "stage_status n b s = (if st_down s then s else s\<lparr>st_status := (st_status s)(n \<mapsto> b)\<rparr>)"

definition stage_shutdown :: "stage \<Rightarrow> stage" where
  "stage_shutdown s = s\<lparr>st_status := (\<lambda>n. map_option (\<lambda>_. False) (st_status s n)), st_down := True\<rparr>"

definition stage_model :: "chat_model_config \<Rightarrow> (stage, stage chat) io" where
  "stage_model cc s = (if st_model_fails s then Inl ErrService else Inr (\<lambda>_. Pair (Inr None)), s)"

definition idle_stub :: "'s agent_stub" where
  "idle_stub = \<lparr>as_reply = (\<lambda>_. Pair (Inr [])), as_spaces = (\<lambda>_ _. Pair (Inr [])), as_send = (\<lambda>_. Pair (Inr None)),
     as_messages = (\<lambda>_. Pair (Inr [])), as_delete = (\<lambda>_. Pair (Inr ())), as_maintenance = (\<lambda>_. Pair (Inr [])),
     as_check = Pair (Inr ())\<rparr>"

definition no_tokens :: "'s token_source" where
  "no_tokens = \<lparr>ts_get = Pair (Inl (WxOther ErrService)), ts_refresh = Pair (Inl (WxOther ErrService))\<rparr>"

definition no_push :: "'s pusher" where
  "no_push = (\<lambda>_ _ _. Pair (Inl (WxOther ErrService)))"

definition stage_host :: "'z \<Rightarrow> (stage, 'z) host_scheme" where
  "stage_host z = \<lparr>ho_log = (\<lambda>_ _ _ s. s), ho_notify = hold Signals, ho_stop_notify = give_back Signals,
     ho_with_timeout = (\<lambda>_. hold Deadline), ho_cancel = give_back Deadline,
     ho_open_db = (\<lambda>_ _. try_hold Database ()), ho_db_handle = Pair (Inr ()), ho_close_db = give_back Database,
     ho_ping_db = Pair (Inr ()), ho_open_redis = (\<lambda>_. hold RedisClient), ho_close_redis = give_back RedisClient,
     ho_ping_redis = Pair (Inr ()), ho_select = (\<lambda>s. (st_end s, s)), \<dots> = z\<rparr>"

definition stage_agent :: "stage agent_host" where
  "stage_agent = stage_host \<lparr>ah_chat_model = stage_model, ah_listen = (\<lambda>_. Pair (Inr ())), ah_set_status = stage_status,
     ah_shutdown_health = stage_shutdown, ah_every = (\<lambda>_ _ _ s. s), ah_serve = (\<lambda>_ s. s),
     ah_graceful_stop = (\<lambda>_ s. (\<not> st_late s, s)), ah_stop = (\<lambda>s. s)\<rparr>"

definition stage_gateway :: "stage gateway_host" where
  "stage_gateway = stage_host \<lparr>gh_dial = (\<lambda>_. try_hold AgentConnection idle_stub), gh_hang_up = give_back AgentConnection,
     gh_start_cron = (\<lambda>_ _ _. hold NightlyRun), gh_stop_cron = give_back NightlyRun, gh_serve = (\<lambda>_ _ _ s. s),
     gh_shutdown = (\<lambda>s. (if st_late s then Inl ErrService else Inr (), s)), gh_close_server = (\<lambda>s. s)\<rparr>"

lemma stage_held [simp]:
  "st_held (hold r s) = add_mset r (st_held s)" "st_held (give_back r s) = st_held s - {#r#}"
  "st_held (stage_status n b s) = st_held s" "st_held (stage_shutdown s) = st_held s"
  "st_held (snd (stage_model cc s)) = st_held s"
  by (simp_all add: hold_def give_back_def stage_status_def stage_shutdown_def stage_model_def)

lemma orderly_stage: "orderly_host (stage_host z) st_held"
  by unfold_locales (auto simp: stage_host_def try_hold_def split: if_splits)

interpretation stage_agent: orderly_agent stage_agent st_held
  unfolding stage_agent_def
  by (intro orderly_agent.intro orderly_stage orderly_agent_axioms.intro)
    (simp_all add: stage_host_def)

interpretation stage_gateway: orderly_gateway stage_gateway st_held
  unfolding stage_gateway_def
  by (intro orderly_gateway.intro orderly_stage orderly_gateway_axioms.intro)
    (auto simp: stage_host_def try_hold_def split: if_splits)

definition first_stage :: stage where
  "first_stage = ref_world.extend (ref_start 0) \<lparr>st_held = {#}, st_broken = {}, st_model_fails = False, st_end = None,
     st_late = True, st_status = Map.empty, st_down = False\<rparr>"

text \<open>An agent whose language model cannot be had, and a gateway that is told to stop and does not in time.\<close>

theorem services_give_back_witness:
  "fst (agent_main stage_agent (default_process\<lparr>pr_getenv := \<lambda>_. ''x''\<rparr>) (first_stage\<lparr>st_model_fails := True\<rparr>)) = Inl ErrService \<and>
   st_held (snd (agent_main stage_agent (default_process\<lparr>pr_getenv := \<lambda>_. ''x''\<rparr>) (first_stage\<lparr>st_model_fails := True\<rparr>))) = {#} \<and>
   st_held (snd (gateway_main (ref_env ()) stage_gateway default_process (\<lambda>_ _ _. no_tokens) no_tokens
     no_push no_push (\<lambda>_. Pair (Inr False)) first_stage)) = {#}"
proof -
  have handle: "ho_db_handle stage_agent s1 \<noteq> (Inl e, s2)" "ho_db_handle stage_gateway s1 \<noteq> (Inl e, s2)" for e s1 s2
    by (simp_all add: stage_agent_def stage_gateway_def stage_host_def)
  have empty: "st_held first_stage = {#}" "st_held (first_stage\<lparr>st_model_fails := True\<rparr>) = {#}"
    by (simp_all add: first_stage_def ref_world.defs)
  have "fst (agent_main stage_agent (default_process\<lparr>pr_getenv := \<lambda>_. ''x''\<rparr>) (first_stage\<lparr>st_model_fails := True\<rparr>)) = Inl ErrService"
    by (simp add: agent_main_def new_logging_def ebind_def or_panic_def load_agent_def Let_def env_or_def deferring_def
        stage_agent_def stage_host_def try_hold_def hold_def first_stage_def ref_world.defs new_repo_def stage_model_def split_beta)
  then show ?thesis
    using services_give_back [OF stage_agent.orderly_agent_axioms stage_gateway.orderly_gateway_axioms,
        of "default_process\<lparr>pr_getenv := \<lambda>_. ''x''\<rparr>" "first_stage\<lparr>st_model_fails := True\<rparr>" "ref_env ()" default_process
          "\<lambda>_ _ _. no_tokens" no_tokens no_push no_push "\<lambda>_. Pair (Inr False)" first_stage]
    by (simp only: Let_def handle empty simp_thms)
qed

end
