(* ===== verification/Readiness.thy ===== *)
theory Readiness
  imports Lifecycle_Correct
begin

text \<open>
  The two goroutines of the agent that report its health: the main one, from waiting for the end
  on, and the one that watches the dependencies. They share the health server of gRPC and run
  at the same time, so that a check of the dependencies may straddle the moment the agent is told
  to stop. The steps of the machine are the single operations of both.
\<close>

section \<open>The machine\<close>

datatype main_state = Selecting | Told | Draining | Overdue | Finished bool

datatype watch_state = Waiting bool | Checking bool nat | Reporting bool bool | Gone

type_synonym 's agent_state = "main_state \<times> watch_state \<times> 's"

text \<open>
  The main goroutine, from \<open>select\<close> to the end of \<open>main\<close> (\<open>Finished True\<close> after a signal); the
  watcher, which hands on the readiness it reported last, from one tick to the next.
\<close>

inductive agent_step :: "('s, 'z) agent_host_scheme \<Rightarrow> logger \<Rightarrow> 's agent_state \<Rightarrow> 's agent_state \<Rightarrow> bool"
  for H :: "('s, 'z) agent_host_scheme" and l :: logger
where
  told: "ho_select H s = (None, s') \<Longrightarrow>
    agent_step H l (Selecting, w, s) (Told, w, ho_log H l LevelInfo ''agent shutting down'' s')"
| served: "ho_select H s = (Some None, s') \<Longrightarrow> agent_step H l (Selecting, w, s) (Finished False, w, s')"
| failed: "ho_select H s = (Some (Some e), s') \<Longrightarrow>
    agent_step H l (Selecting, w, s) (Finished False, w, ho_log H l LevelError ''serve failed'' s')"
| reported_down: "agent_step H l (Told, w, s) (Draining, w, ah_shutdown_health H s)"
| drained: "ah_graceful_stop H (20 * second) s = (True, s') \<Longrightarrow> agent_step H l (Draining, w, s) (Finished True, w, s')"
| overdue: "ah_graceful_stop H (20 * second) s = (False, s') \<Longrightarrow>
    agent_step H l (Draining, w, s) (Overdue, w, ho_log H l LevelWarn ''agent graceful shutdown timed out'' s')"
| stopped: "agent_step H l (Overdue, w, s) (Finished True, w, ah_stop H s)"
| tick: "agent_step H l (m, Waiting p, s) (m, Checking p 0, ho_with_timeout H (2 * second) s)"
| passed: "n < length (agent_checks H) \<Longrightarrow> (agent_checks H ! n) s = (Inr u, s') \<Longrightarrow>
    agent_step H l (m, Checking p n, s) (m, Checking p (Suc n), s')"
| refused: "n < length (agent_checks H) \<Longrightarrow> (agent_checks H ! n) s = (Inl e, s') \<Longrightarrow>
    agent_step H l (m, Checking p n, s) (m, Reporting p False, s')"
| all_passed: "n = length (agent_checks H) \<Longrightarrow> agent_step H l (m, Checking p n, s) (m, Reporting p True, s)"
| reported: "agent_step H l (m, Reporting p b, s) (m, Waiting b,
    (if b \<noteq> p then ho_log H l LevelInfo ''agent readiness changed'' else id) (ho_cancel H (ah_set_status H [] b s)))"
| gone: "m \<noteq> Selecting \<Longrightarrow> agent_step H l (m, Waiting p, s) (m, Gone, s)"

abbreviation agent_steps :: "('s, 'z) agent_host_scheme \<Rightarrow> logger \<Rightarrow> 's agent_state \<Rightarrow> 's agent_state \<Rightarrow> bool" where
  "agent_steps H l \<equiv> (agent_step H l)\<^sup>*\<^sup>*"

inductive_cases agent_stepE: "agent_step H l (m, w, s) st"

section \<open>Undisturbed, the goroutines run the code of the program\<close>

lemma checks_run:
  assumes "update_agent_serving_status (ah_set_status H) (drop n (agent_checks H)) s = (c, s')" "n \<le> length (agent_checks H)"
  shows "\<exists>s1. agent_steps H l (m, Checking p n, s) (m, Reporting p c, s1) \<and> s' = ah_set_status H [] c s1"
  using assms
proof (induction "length (agent_checks H) - n" arbitrary: n s)
  case 0
  then show ?case using all_passed [of n H l m p s] by auto
next
  case (Suc k)
  then have n: "n < length (agent_checks H)" by simp
  then have d: "drop n (agent_checks H) = agent_checks H ! n # drop (Suc n) (agent_checks H)" by (simp add: Cons_nth_drop_Suc)
  obtain r s2 where r: "(agent_checks H ! n) s = (r, s2)" by fastforce
  show ?case
  proof (cases r)
    case (Inl e)
    then show ?thesis using refused [OF n, of s e s2 l m p] r Suc.prems(1) by (auto simp: d)
  next
    case (Inr u)
    have "update_agent_serving_status (ah_set_status H) (drop (Suc n) (agent_checks H)) s2 = (c, s')"
      using Suc.prems(1) r Inr by (simp add: d)
    moreover have "k = length (agent_checks H) - Suc n" "Suc n \<le> length (agent_checks H)" using Suc.hyps(2) n by simp_all
    ultimately obtain s1 where
      "agent_steps H l (m, Checking p (Suc n), s2) (m, Reporting p c, s1)" "s' = ah_set_status H [] c s1"
      using Suc.hyps(1) by blast
    then show ?thesis
      using passed [OF n, of s u s2 l m p] r Inr by (auto intro: converse_rtranclp_into_rtranclp)
  qed
qed

lemma tick_runs: "agent_steps H l (m, Waiting p, s) (m, Waiting (fst (readiness_tick H l p s)), snd (readiness_tick H l p s))"
proof -
  obtain c s' where r: "update_agent_serving_status (ah_set_status H) (agent_checks H) (ho_with_timeout H (2 * second) s) = (c, s')"
    by fastforce
  then obtain s1 where "agent_steps H l (m, Checking p 0, ho_with_timeout H (2 * second) s) (m, Reporting p c, s1)"
    "s' = ah_set_status H [] c s1"
    using checks_run [of H 0 "ho_with_timeout H (2 * second) s" c s' l m p] by auto
  then have "agent_steps H l (m, Waiting p, s) (m, Waiting c,
      (if c \<noteq> p then ho_log H l LevelInfo ''agent readiness changed'' else id) (ho_cancel H s'))"
    using tick [of H l m p s] reported [of H l m p c s1] by (meson converse_rtranclp_into_rtranclp rtranclp.rtrancl_into_rtrancl)
  then show ?thesis by (cases "c = p") (simp_all add: readiness_tick_def check_dependencies_def r)
qed

lemma shutdown_runs:
  assumes "ho_select H s = (None, s')"
  shows "agent_steps H l (Selecting, w, s) (Finished True, w, agent_shutdown H l s')"
proof -
  let ?s1 = "ah_shutdown_health H (ho_log H l LevelInfo ''agent shutting down'' s')"
  obtain b s2 where g: "ah_graceful_stop H (20 * second) ?s1 = (b, s2)" by fastforce
  have "agent_steps H l (Selecting, w, s) (Draining, w, ?s1)"
    using told [OF assms, of l w] reported_down [of H l w] by (meson converse_rtranclp_into_rtranclp rtranclp.rtrancl_refl)
  moreover have "agent_steps H l (Draining, w, ?s1) (Finished True, w, agent_shutdown H l s')"
  proof (cases b)
    case True
    then show ?thesis using drained [of H ?s1 s2 l w] g by (simp add: agent_shutdown_def r_into_rtranclp)
  next
    case False
    then show ?thesis using overdue [of H ?s1 s2 l w] stopped [of H l w] g
      by (simp add: agent_shutdown_def) (meson converse_rtranclp_into_rtranclp rtranclp.rtrancl_refl)
  qed
  ultimately show ?thesis by simp
qed

section \<open>Once down, down\<close>

text \<open>
  What the documentation of the health server promises: a status is what it was last set to,
  until the server is shut down; then every status becomes not serving, and setting has no effect.
\<close>

locale health_server =
  fixes H :: "('s, 'z) agent_host_scheme" and status :: "'s \<Rightarrow> string \<Rightarrow> bool option" and down :: "'s \<Rightarrow> bool"
  assumes set_status: "status (ah_set_status H n b s) = (if down s then status s else (status s)(n \<mapsto> b))"
    and set_down: "down (ah_set_status H n b s) = down s"
    and shutdown_status: "status (ah_shutdown_health H s) n = map_option (\<lambda>_. False) (status s n)"
    and shutdown_down: "down (ah_shutdown_health H s)"
    and log_status: "status (ho_log H l v msg s) = status s" "down (ho_log H l v msg s) = down s"
    and timeout_status: "status (ho_with_timeout H t s) = status s" "down (ho_with_timeout H t s) = down s"
    and cancel_status: "status (ho_cancel H s) = status s" "down (ho_cancel H s) = down s"
    and db_status: "status (snd (ho_ping_db H s)) = status s" "down (snd (ho_ping_db H s)) = down s"
    and redis_status: "status (snd (ho_ping_redis H s)) = status s" "down (snd (ho_ping_redis H s)) = down s"
    and graceful_status: "status (snd (ah_graceful_stop H t s)) = status s" "down (snd (ah_graceful_stop H t s)) = down s"
    and stop_status: "status (ah_stop H s) = status s" "down (ah_stop H s) = down s"

definition stopping :: "main_state \<Rightarrow> bool" where
  "stopping m \<longleftrightarrow> m \<in> {Draining, Overdue, Finished True}"

definition quiet :: "('s \<Rightarrow> string \<Rightarrow> bool option) \<Rightarrow> ('s \<Rightarrow> bool) \<Rightarrow> 's agent_state \<Rightarrow> bool" where
  "quiet status down st \<longleftrightarrow> (case st of (m, w, s) \<Rightarrow> stopping m \<longrightarrow> down s \<and> (\<forall>n. status s n \<noteq> Some True))"

context health_server
begin

lemmas status_laws = set_status set_down shutdown_status shutdown_down log_status timeout_status cancel_status db_status
  redis_status graceful_status stop_status

lemma check_status:
  assumes "n < length (agent_checks H)" "(agent_checks H ! n) s = (r, s')"
  shows "status s' = status s \<and> down s' = down s"
proof -
  have "n = 0 \<or> n = 1" using assms(1) by (auto simp: agent_checks_def)
  then show ?thesis using assms(2) db_status [of s] redis_status [of s] by (auto simp: agent_checks_def)
qed

lemma quiet_step:
  assumes "agent_step H l st st'" "quiet status down st"
  shows "quiet status down st'"
  using assms
proof cases
  case (drained s s' w)
  then show ?thesis using assms(2) graceful_status [of "20 * second" s] by (simp add: quiet_def stopping_def)
next
  case (overdue s s' w)
  then show ?thesis using assms(2) graceful_status [of "20 * second" s] by (simp add: quiet_def stopping_def log_status)
next
  case (passed n s u s' m p)
  then show ?thesis using assms(2) check_status [OF passed(3,4)] by (simp add: quiet_def)
next
  case (refused n s e s' m p)
  then show ?thesis using assms(2) check_status [OF refused(3,4)] by (simp add: quiet_def)
qed (use assms(2) in \<open>auto simp: quiet_def stopping_def status_laws\<close>)

lemma quiet_steps: "agent_steps H l st st' \<Longrightarrow> quiet status down st \<Longrightarrow> quiet status down st'"
  by (induction rule: rtranclp_induct) (auto intro: quiet_step)

end

text \<open>
  C36. Told to stop, the agent is down for good. Let the goroutine that watches the dependencies
  run at the same time, anywhere in a check, with every interleaving: from the moment the main
  goroutine begins to drain the calls until the process ends, no service of the agent, not even
  its liveness, is reported as serving.
\<close>

theorem no_serving_while_stopping:
  assumes "health_server H status down" "agent_steps H l (Selecting, Waiting p, s) (m, w, t)" "stopping m"
  shows "down t \<and> status t n \<noteq> Some True"
proof -
  have "quiet status down (Selecting, Waiting p, s)" by (simp add: quiet_def stopping_def)
  from health_server.quiet_steps [OF assms(1,2) this] show ?thesis
    using assms(3) by (simp add: quiet_def)
qed

interpretation stage_health: health_server stage_agent st_status st_down
  by unfold_locales (auto simp: stage_agent_def stage_host_def stage_status_def stage_shutdown_def hold_def give_back_def)

text \<open>The watcher found everything well just before the agent was told to stop, and reports it after.\<close>

definition live_stage :: stage where
  "live_stage = first_stage\<lparr>st_status := [agent_liveness_service \<mapsto> True]\<rparr>"

definition stage_log :: logger where
  "stage_log = \<lparr>lo_component = ''agent'', lo_level = LevelInfo\<rparr>"

theorem no_serving_while_stopping_witness:
  "\<exists>t. agent_steps stage_agent stage_log (Selecting, Waiting False, live_stage) (Draining, Waiting True, t) \<and>
     st_status t agent_liveness_service = Some False \<and> st_status t [] \<noteq> Some True"
proof -
  let ?s1 = "hold Deadline live_stage"
  let ?t = "ho_cancel stage_agent (ah_set_status stage_agent [] True (ah_shutdown_health stage_agent ?s1))"
  have log: "ho_log stage_agent l v msg s = s" for l v msg s by (simp add: stage_agent_def stage_host_def)
  note step = r_into_rtranclp [of "agent_step stage_agent stage_log"]
  have c: "agent_checks stage_agent = [Pair (Inr ()), Pair (Inr ())]"
    by (simp add: agent_checks_def stage_agent_def stage_host_def)
  have "agent_steps stage_agent stage_log (Selecting, Waiting False, live_stage) (Selecting, Checking False 0, ?s1)"
    using step [OF tick [of stage_agent stage_log Selecting False live_stage]] by (simp add: stage_agent_def stage_host_def)
  also have "agent_steps stage_agent stage_log (Selecting, Checking False 0, ?s1) (Selecting, Checking False 1, ?s1)"
    using step [OF passed [of 0 stage_agent ?s1 "()" ?s1 stage_log Selecting False]] by (simp add: c)
  also have "agent_steps stage_agent stage_log (Selecting, Checking False 1, ?s1) (Selecting, Checking False 2, ?s1)"
    using step [OF passed [of 1 stage_agent ?s1 "()" ?s1 stage_log Selecting False]] by (simp add: c numeral_2_eq_2)
  also have "agent_steps stage_agent stage_log (Selecting, Checking False 2, ?s1) (Selecting, Reporting False True, ?s1)"
    using step [OF all_passed [of 2 stage_agent stage_log Selecting False ?s1]] by (simp add: c)
  also have "agent_steps stage_agent stage_log (Selecting, Reporting False True, ?s1) (Told, Reporting False True, ?s1)"
    using step [OF told [of stage_agent ?s1 ?s1 stage_log "Reporting False True"]]
    by (simp add: log) (simp add: stage_agent_def stage_host_def hold_def live_stage_def first_stage_def ref_world.defs)
  also have "agent_steps stage_agent stage_log (Told, Reporting False True, ?s1)
      (Draining, Reporting False True, ah_shutdown_health stage_agent ?s1)"
    by (rule step [OF reported_down])
  also have "agent_steps stage_agent stage_log (Draining, Reporting False True, ah_shutdown_health stage_agent ?s1)
      (Draining, Waiting True, ?t)"
    using step [OF reported [of stage_agent stage_log Draining False True "ah_shutdown_health stage_agent ?s1"]] by (simp add: log)
  finally have run: "agent_steps stage_agent stage_log (Selecting, Waiting False, live_stage) (Draining, Waiting True, ?t)" .
  have "st_status ?t agent_liveness_service = Some False"
    by (simp add: stage_health.status_laws) (auto simp: hold_def live_stage_def)
  moreover have "st_status ?t [] \<noteq> Some True"
    using no_serving_while_stopping [OF stage_health.health_server_axioms run, of "[]"] by (simp add: stopping_def)
  ultimately show ?thesis using run by blast
qed

end
