(* ===== verification/Test_Database.thy ===== *)
theory Test_Database
  imports Lifecycle_Correct Web_Ui
begin

text \<open>
  Package \<open>internal/testdb\<close>: a database for one test, in a schema of its own with the migrations
  applied, and the walk up the directories to the root of the repository. \<open>filepath\<close> is
  translated for Unix; the database, the files and the process are a host, and a test that fails
  or is skipped ends here with an error (the text of the cause is left out).
\<close>

section \<open>Paths\<close>

text \<open>
  \<open>filepath.Clean\<close>: empty elements and \<open>.\<close> go, \<open>..\<close> takes the element before it, and what cannot be
  taken is dropped at the root and kept elsewhere. The elements that remain are collected last first.
\<close>

fun clean_rest :: "bool \<Rightarrow> string list \<Rightarrow> string list \<Rightarrow> string list" where
  "clean_rest rooted out [] = rev out"
| "clean_rest rooted out (e # es) =
     (if e = [] \<or> e = ''.'' then clean_rest rooted out es
      else if e = ''..'' then
        (case out of
           [] \<Rightarrow> clean_rest rooted (if rooted then [] else [e]) es
         | x # xs \<Rightarrow> clean_rest rooted (if x = ''..'' then e # out else xs) es)
      else clean_rest rooted (e # out) es)"

definition is_rooted :: "string \<Rightarrow> bool" where
  "is_rooted p \<longleftrightarrow> p \<noteq> [] \<and> hd p = CHR ''/''"

definition render_path :: "bool \<Rightarrow> string list \<Rightarrow> string" where
  "render_path rooted es = (if rooted then ''/'' @ join ''/'' es else if es = [] then ''.'' else join ''/'' es)"

definition clean_path :: "string \<Rightarrow> string" where
  "clean_path p = (if p = [] then ''.'' else render_path (is_rooted p) (clean_rest (is_rooted p) [] (split_all (CHR ''/'') p)))"

text \<open>\<open>filepath.Dir\<close> cleans the path up to its last slash; \<open>Join\<close> cleans what is not empty.\<close>

definition path_dir :: "string \<Rightarrow> string" where
  "path_dir p = clean_path (rev (dropWhile (\<lambda>c. c \<noteq> CHR ''/'') (rev p)))"

definition path_join :: "string list \<Rightarrow> string" where
  "path_join es = (let xs = filter (\<lambda>e. e \<noteq> []) es in if xs = [] then [] else clean_path (join ''/'' xs))"

section \<open>The root of the repository\<close>

record 's test_host = "'s host" +
  te_pid :: int
  te_unix_nano :: "'s \<Rightarrow> int \<times> 's"
  te_counter :: "'s \<Rightarrow> 64 word"
  te_set_counter :: "64 word \<Rightarrow> 's \<Rightarrow> 's"
  te_set_max_open :: "int \<Rightarrow> 's \<Rightarrow> 's"
  te_exec :: "string \<Rightarrow> ('s, unit) io"
  te_glob :: "string \<Rightarrow> ('s, string list) io"
  te_read_file :: "string \<Rightarrow> ('s, string) io"
  te_getwd :: "('s, string) io"
  te_stat :: "string \<Rightarrow> ('s, unit) io"

text \<open>A path gets shorter from directory to directory, until it is its own directory.\<close>

definition weight :: "string list \<Rightarrow> nat" where
  "weight es = sum_list (map (\<lambda>e. Suc (length e)) es)"

lemma weight_simps [simp]: "weight [] = 0" "weight (e # es) = Suc (length e) + weight es" "weight (rev es) = weight es"
proof -
  show "weight (rev es) = weight es" unfolding weight_def rev_map [symmetric] by (rule sum_list_rev)
qed (simp_all add: weight_def)

lemma length_join: "es \<noteq> [] \<Longrightarrow> Suc (length (join ''/'' es)) = weight es"
  by (induction "''/''" es rule: join.induct) simp_all

lemma weight_split: "weight (split_all (CHR ''/'') p) = Suc (length p)"
  by (induction p) (auto split: list.split)

lemma weight_clean: "weight (clean_rest rooted out es) \<le> weight out + weight es"
proof (induction rooted out es rule: clean_rest.induct)
  case (2 rooted out e es)
  consider "e = [] \<or> e = ''.''" | "e = ''..''" "out = []" rooted | "e = ''..''" "out = []" "\<not> rooted"
    | x xs where "e = ''..''" "out = x # xs" | "e \<noteq> []" "e \<noteq> ''.''" "e \<noteq> ''..''"
    by (cases out) auto
  then show ?case using 2 by cases (auto intro: order_trans)
qed simp

lemma clean_path_le: "p \<noteq> [] \<Longrightarrow> length (clean_path p) \<le> length p"
proof -
  assume p: "p \<noteq> []"
  let ?es = "clean_rest (is_rooted p) [] (split_all (CHR ''/'') p)"
  show ?thesis
  proof (cases "is_rooted p")
    case True
    then obtain q where q: "p = CHR ''/'' # q" by (cases p) (auto simp: is_rooted_def)
    have "weight ?es \<le> length p" using weight_clean [of True "[]" "split_all (CHR ''/'') q"] True by (simp add: q weight_split)
    then show ?thesis using p True length_join [of ?es] q by (cases "?es = []") (simp_all add: clean_path_def render_path_def)
  next
    case False
    have "weight ?es \<le> Suc (length p)" using weight_clean [of False "[]" "split_all (CHR ''/'') p"] False by (simp add: weight_split)
    moreover have "Suc 0 \<le> length p" using p by (cases p) simp_all
    ultimately show ?thesis using p False length_join [of ?es]
      by (cases "?es = []") (simp_all add: clean_path_def render_path_def)
  qed
qed

lemma split_all_trailing: "split_all sep (a @ [sep]) = split_all sep a @ [[]]"
  using split_all_snoc [of sep "[]" a] by simp

lemma clean_rest_trailing: "clean_rest rooted out (es @ [[]]) = clean_rest rooted out es"
  by (induction rooted out es rule: clean_rest.induct) (auto split: list.split)

lemma clean_path_trailing: "r \<noteq> [] \<Longrightarrow> clean_path (r @ ''/'') = clean_path r"
  by (simp add: clean_path_def is_rooted_def split_all_trailing clean_rest_trailing)

definition height :: "string \<Rightarrow> nat" where
  "height p = (if p = ''.'' then 0 else Suc (length p))"

lemma path_dir_lower:
  assumes "path_dir p \<noteq> p"
  shows "height (path_dir p) < height p"
proof (cases "CHR ''/'' \<in> set p")
  case False
  then have "dropWhile (\<lambda>c. c \<noteq> CHR ''/'') (rev p) = []" by (auto simp: dropWhile_eq_Nil_conv)
  then have "path_dir p = ''.''" by (simp add: path_dir_def clean_path_def)
  then show ?thesis using assms by (auto simp: height_def)
next
  case True
  then obtain r t where p: "p = r @ CHR ''/'' # t" "CHR ''/'' \<notin> set t" using split_list_last by metis
  have d: "path_dir p = clean_path (r @ ''/'')"
    using p by (simp add: path_dir_def dropWhile_sep)
  have not_dot: "p \<noteq> ''.''" using True by auto
  show ?thesis
  proof (cases "r = []")
    case True
    then have "path_dir p = ''/''"
      by (simp add: d clean_path_def render_path_def is_rooted_def)
    then show ?thesis using assms p True not_dot by (auto simp: height_def)
  next
    case False
    have "length (path_dir p) \<le> length r" using clean_path_le [OF False] by (simp add: d clean_path_trailing [OF False])
    then show ?thesis using p not_dot by (simp add: height_def)
  qed
qed

function climb :: "('s, 'z) test_host_scheme \<Rightarrow> string \<Rightarrow> ('s, string) io" where
  "climb H dir s =
     (case te_stat H (path_join [dir, ''go.mod'']) s of
        (Inr _, s1) \<Rightarrow> (Inr dir, s1)
      | (Inl _, s1) \<Rightarrow>
          if path_dir dir = dir then (Inl (ErrText (''go.mod not found while walking from '' @ dir)), s1)
          else climb H (path_dir dir) s1)"
  by pat_completeness auto
termination
  by (relation "measure (\<lambda>(H, dir, s). height dir)") (auto dest: path_dir_lower)

declare climb.simps [simp del]

definition repo_root :: "('s, 'z) test_host_scheme \<Rightarrow> ('s, string) io" where
  "repo_root H s =
     (case te_getwd H s of
        (Inl _, s1) \<Rightarrow> (Inl (ErrText ''get working directory''), s1)
      | (Inr dir, s1) \<Rightarrow> climb H dir s1)"

section \<open>Opening\<close>

definition unique_schema_name :: "('s, 'z) test_host_scheme \<Rightarrow> string \<Rightarrow> 's \<Rightarrow> string \<times> 's" where
  "unique_schema_name H pre s =
     (let (nanos, s1) = te_unix_nano H s; n = te_counter H s1 + 1
      in (pre @ ''_'' @ show_int (te_pid H) @ ''_'' @ show_int nanos @ ''_'' @ show_nat (unat n), te_set_counter H n s1))"

text \<open>\<open>t.Fatalf\<close> with the error it formats.\<close>

definition or_fatal :: "string \<Rightarrow> ('s, 'a) io \<Rightarrow> ('s, 'a) io" where
  "or_fatal msg m s = (case m s of (Inl _, s1) \<Rightarrow> (Inl (ErrText msg), s1) | (Inr x, s1) \<Rightarrow> (Inr x, s1))"

fun apply_files :: "('s, 'z) test_host_scheme \<Rightarrow> string list \<Rightarrow> ('s, unit) io" where
  "apply_files H [] = Pair (Inr ())"
| "apply_files H (path # paths) =
     ebind (or_fatal (''read migration '' @ path_base path) (te_read_file H path)) (\<lambda>up_sql.
     ebind (or_fatal (''apply migration '' @ path_base path) (te_exec H up_sql)) (\<lambda>_.
     apply_files H paths))"

definition apply_migrations :: "('s, 'z) test_host_scheme \<Rightarrow> ('s, unit) io" where
  "apply_migrations H =
     ebind (repo_root H) (\<lambda>root.
     ebind (or_fatal ''list migrations'' (te_glob H (path_join [root, ''db'', ''migrations'', ''*.up.sql'']))) (\<lambda>paths.
     if paths = [] then Pair (Inl (ErrText ''no migrations found'')) else apply_files H (sort paths)))"

definition truncate_tables :: "('s, 'z) test_host_scheme \<Rightarrow> ('s, unit) io" where
  "truncate_tables H =
     or_fatal ''truncate test tables'' (te_exec H ''TRUNCATE TABLE messages, memory_summaries RESTART IDENTITY CASCADE'')"

text \<open>
  \<open>Open\<close> answers with what is to be cleaned up, last registered first, which is the order in which
  it runs when the test has ended. A test without a database is skipped.
\<close>

definition open_test_db :: "('s, 'z) test_host_scheme \<Rightarrow> process \<Rightarrow> 's \<Rightarrow> (go_error + unit) \<times> ('s \<Rightarrow> 's) list \<times> 's" where
  "open_test_db H P s =
     (let dsn = pr_getenv P ''PG_DSN''
      in if dsn = [] then (Inl (ErrText ''PG_DSN is required for PostgreSQL-backed tests''), [], s)
         else case ebind (or_fatal ''open postgres test db'' (ho_open_db H dsn False))
                     (\<lambda>_. or_fatal ''get postgres test db handle'' (ho_db_handle H)) s of
           (Inl e, s1) \<Rightarrow> (Inl e, [], s1)
         | (Inr _, s1) \<Rightarrow>
             (let (schema, s2) = unique_schema_name H ''test'' (te_set_max_open H 1 s1)
              in case or_fatal ''create test schema'' (te_exec H (''CREATE SCHEMA '' @ schema)) s2 of
                   (Inl e, s3) \<Rightarrow> (Inl e, [ho_close_db H], s3)
                 | (Inr _, s3) \<Rightarrow>
                     (let drop_schema = (\<lambda>s. snd (te_exec H (''DROP SCHEMA '' @ schema @ '' CASCADE'') s));
                          (r, s4) = ebind (or_fatal ''set test schema search_path'' (te_exec H (''SET search_path TO '' @ schema)))
                            (\<lambda>_. ebind (apply_migrations H) (\<lambda>_. truncate_tables H)) s3
                      in (r, [drop_schema, ho_close_db H], s4))))"

definition run_cleanups :: "('s \<Rightarrow> 's) list \<Rightarrow> 's \<Rightarrow> 's" where
  "run_cleanups cleanups s = fold (\<lambda>f. f) cleanups s"

section \<open>The walk finds the nearest root\<close>

definition rooted_path :: "string list \<Rightarrow> string" where
  "rooted_path xs = ''/'' @ join ''/'' xs"

definition proper :: "string list \<Rightarrow> bool" where
  "proper xs \<longleftrightarrow> (\<forall>x \<in> set xs. x \<noteq> [] \<and> x \<noteq> ''.'' \<and> x \<noteq> ''..'' \<and> CHR ''/'' \<notin> set x)"

lemma split_all_join: "xs \<noteq> [] \<Longrightarrow> \<forall>x \<in> set xs. CHR ''/'' \<notin> set x \<Longrightarrow> split_all (CHR ''/'') (join ''/'' xs) = xs"
  by (induction "''/''" xs rule: join.induct) (auto simp: split_all_cut split_all_last)

lemma clean_proper: "proper xs \<Longrightarrow> clean_rest rooted out xs = rev out @ xs"
  by (induction xs arbitrary: out) (simp_all add: proper_def)

lemma clean_rooted:
  assumes "proper xs" "xs \<noteq> []"
  shows "clean_path (rooted_path xs) = rooted_path xs"
proof -
  have "split_all (CHR ''/'') (join ''/'' xs) = xs" using assms by (intro split_all_join) (auto simp: proper_def)
  then show ?thesis using clean_proper [OF assms(1), of True "[]"]
    by (simp add: clean_path_def rooted_path_def is_rooted_def render_path_def)
qed

lemma join_append: "xs \<noteq> [] \<Longrightarrow> join sep (xs @ [x]) = join sep xs @ sep @ x"
  by (induction sep xs rule: join.induct) (auto simp: neq_Nil_conv)

lemma rooted_dir:
  assumes "proper (xs @ [x])"
  shows "path_dir (rooted_path (xs @ [x])) = rooted_path xs"
proof (cases "xs = []")
  case True
  have "dropWhile (\<lambda>c. c \<noteq> CHR ''/'') (rev x @ CHR ''/'' # []) = CHR ''/'' # []"
    using assms by (intro dropWhile_sep) (simp add: proper_def)
  then show ?thesis
    by (simp add: True path_dir_def rooted_path_def clean_path_def is_rooted_def render_path_def)
next
  case False
  have "dropWhile (\<lambda>c. c \<noteq> CHR ''/'') (rev x @ CHR ''/'' # (rev (join ''/'' xs) @ ''/'')) = CHR ''/'' # (rev (join ''/'' xs) @ ''/'')"
    using assms by (intro dropWhile_sep) (simp add: proper_def)
  then have "path_dir (rooted_path (xs @ [x])) = clean_path (rooted_path xs @ ''/'')"
    by (simp add: path_dir_def rooted_path_def join_append [OF False])
  also have "\<dots> = rooted_path xs"
    using clean_rooted [of xs] assms False clean_path_trailing [of "rooted_path xs"] by (simp add: rooted_path_def proper_def)
  finally show ?thesis .
qed

lemma root_dir: "path_dir (rooted_path []) = rooted_path []"
  by (simp add: path_dir_def rooted_path_def clean_path_def is_rooted_def render_path_def)

lemma rooted_differs: "rooted_path xs \<noteq> rooted_path (xs @ [x])" if "x \<noteq> []"
proof -
  have "length (rooted_path xs) < length (rooted_path (xs @ [x]))"
    using that by (cases "xs = []") (simp_all add: rooted_path_def join_append)
  then show ?thesis by auto
qed

lemma rooted_join:
  assumes "proper xs" "proper [x]"
  shows "path_join [rooted_path xs, x] = rooted_path (xs @ [x])"
proof -
  have x: "x \<noteq> []" "CHR ''/'' \<notin> set x" using assms(2) by (simp_all add: proper_def)
  have split: "split_all (CHR ''/'') (join ''/'' xs @ CHR ''/'' # x) = (if xs = [] then [[]] else xs) @ [x]"
  proof (cases "xs = []")
    case True
    then show ?thesis using split_all_cut [of "CHR ''/''" "[]" x] split_all_last [OF x(2)] by simp
  next
    case False
    have "split_all (CHR ''/'') (join ''/'' (xs @ [x])) = xs @ [x]"
      using assms by (intro split_all_join) (auto simp: proper_def)
    then show ?thesis using False by (simp add: join_append)
  qed
  have "proper (xs @ [x])" using assms by (simp add: proper_def)
  then show ?thesis
    using x split clean_proper [of "xs @ [x]" True "[]"]
    by (simp add: path_join_def rooted_path_def clean_path_def is_rooted_def render_path_def split: if_splits)
qed

text \<open>The directories on the way up, and the nearest one that holds the file.\<close>

fun nearest :: "(string list \<Rightarrow> bool) \<Rightarrow> string list \<Rightarrow> string list option" where
  "nearest has xs = (if has xs then Some xs else if xs = [] then None else nearest has (butlast xs))"

declare nearest.simps [simp del]

lemma climb_nearest:
  assumes "\<And>p s. te_stat H p s = (if p \<in> files then Inr () else Inl ErrService, s)" "proper xs"
  shows "climb H (rooted_path xs) s =
    (case nearest (\<lambda>ys. rooted_path (ys @ [''go.mod'']) \<in> files) xs of
       Some ys \<Rightarrow> Inr (rooted_path ys)
     | None \<Rightarrow> Inl (ErrText (''go.mod not found while walking from '' @ rooted_path [])), s)"
  using assms(2)
proof (induction xs rule: rev_induct)
  case Nil
  have "path_join [rooted_path [], ''go.mod''] = rooted_path [''go.mod'']"
    using rooted_join [of "[]" "''go.mod''"] by (simp add: proper_def)
  then show ?case by (simp add: climb.simps [of H "rooted_path []"] assms(1) root_dir nearest.simps)
next
  case (snoc x xs)
  have "path_join [rooted_path (xs @ [x]), ''go.mod''] = rooted_path ((xs @ [x]) @ [''go.mod''])"
    by (rule rooted_join [OF snoc.prems]) (simp add: proper_def)
  moreover have "proper xs" "x \<noteq> []" using snoc.prems by (simp_all add: proper_def)
  ultimately show ?case
    using snoc.IH rooted_differs [OF \<open>x \<noteq> []\<close>, of xs]
    by (simp add: climb.simps [of H "rooted_path (xs @ [x])"] assms(1) rooted_dir [OF snoc.prems] nearest.simps [of _ "xs @ [x]"])
qed

lemma nearest_spec:
  "case nearest has xs of
     Some ys \<Rightarrow> prefix ys xs \<and> has ys \<and> (\<forall>zs. prefix zs xs \<longrightarrow> length ys < length zs \<longrightarrow> \<not> has zs)
   | None \<Rightarrow> \<forall>ys. prefix ys xs \<longrightarrow> \<not> has ys"
proof (induction xs rule: rev_induct)
  case Nil
  then show ?case by (simp add: nearest.simps)
next
  case (snoc x xs)
  show ?case
  proof (cases "has (xs @ [x])")
    case True
    then show ?thesis by (auto simp: nearest.simps [of _ "xs @ [x]"] dest: prefix_length_le)
  next
    case False
    then show ?thesis using snoc.IH
      by (auto simp: nearest.simps [of _ "xs @ [x]"] split: option.splits)
  qed
qed

text \<open>
  The walk to the root of the repository ends in every directory, at any path whatever; and
  from a directory given by its elements it finds the nearest one, going up, that holds
  \<open>go.mod\<close>, and fails only when none of them does.
\<close>

theorem repo_root_is_nearest:
  assumes "te_getwd H s = (Inr (rooted_path xs), s1)" "proper xs"
    and "\<And>p t. te_stat H p t = (if p \<in> files then Inr () else Inl ErrService, t)"
  shows "case fst (repo_root H s) of
      Inr dir \<Rightarrow> \<exists>ys. dir = rooted_path ys \<and> prefix ys xs \<and> rooted_path (ys @ [''go.mod'']) \<in> files \<and>
        (\<forall>zs. prefix zs xs \<longrightarrow> length ys < length zs \<longrightarrow> rooted_path (zs @ [''go.mod'']) \<notin> files)
    | Inl e \<Rightarrow> \<forall>ys. prefix ys xs \<longrightarrow> rooted_path (ys @ [''go.mod'']) \<notin> files"
  using climb_nearest [OF assms(3,2), of s1] nearest_spec [where has = "\<lambda>ys. rooted_path (ys @ [''go.mod'']) \<in> files" and xs = xs]
  by (auto simp: repo_root_def assms(1) split: option.splits)

definition demo_files :: "stage test_host" where
  "demo_files = stage_host \<lparr>te_pid = 1, te_unix_nano = Pair 0, te_counter = (\<lambda>_. 0), te_set_counter = (\<lambda>_ s. s),
     te_set_max_open = (\<lambda>_ s. s), te_exec = (\<lambda>_. Pair (Inr ())), te_glob = (\<lambda>_. Pair (Inr [])),
     te_read_file = (\<lambda>_. Pair (Inr [])), te_getwd = Pair (Inr ''/repo/internal/testdb''),
     te_stat = (\<lambda>p. Pair (if p \<in> {''/repo/go.mod''} then Inr () else Inl ErrService))\<rparr>"

theorem repo_root_is_nearest_witness: "fst (repo_root demo_files first_stage) = Inr ''/repo''"
proof -
  have wd: "te_getwd demo_files first_stage = (Inr (rooted_path [''repo'', ''internal'', ''testdb'']), first_stage)"
    by (simp add: demo_files_def stage_host_def rooted_path_def)
  have files: "te_stat demo_files p t = (if p \<in> {''/repo/go.mod''} then Inr () else Inl ErrService, t)" for p t
    by (simp add: demo_files_def stage_host_def)
  have proper: "proper [''repo'', ''internal'', ''testdb'']" by (simp add: proper_def)
  have p: "prefix ys [''repo'', ''internal'', ''testdb''] \<longleftrightarrow> ys \<in> {[], [''repo''], [''repo'', ''internal''], [''repo'', ''internal'', ''testdb'']}" for ys
    by (auto simp: prefix_Cons)
  show ?thesis
    using repo_root_is_nearest [OF wd proper files] 
    by (cases "fst (repo_root demo_files first_stage)") (auto simp: p rooted_path_def)
qed

end
