(* ===== verification/Mail_Correct.thy ===== *)
theory Mail_Correct
  imports Mailer Auth_Secure "HOL-Library.Multiset"
begin

text \<open>
  What the verification mails promise, over a mail server behind the network: a mail that was
  reported sent is in the server's mailbox, with the code, and nothing that was opened on the
  way stays open; a verification that was started with success was mailed, and one that could
  not be mailed is not pending.
\<close>

section \<open>The mail server\<close>

text \<open>
  The contract of \<open>net\<close>, \<open>crypto/tls\<close> and \<open>net/smtp\<close> with the server at the other end, told with
  what can be observed: the mails the server has accepted, each with the envelope, the text
  that was written, the host whose certificate secured the connection and the login; what this
  side has opened and not closed; and the mail that the session has put together so far. A write that fails may have
  written anything, and the end of the data may be accepted though its answer is lost.
\<close>

datatype mail_resource = Connection | Client | DataWriter

record accepted_mail =
  am_from :: string
  am_to :: "string list"
  am_text :: string
  am_secured :: "string option"
  am_login :: "smtp_login option"

locale mail_service =
  fixes R :: "('s, 'z) env_scheme" and X :: "'s mail_link"
    and box :: "'s \<Rightarrow> accepted_mail list" and held :: "'s \<Rightarrow> mail_resource multiset" and talk :: "'s \<Rightarrow> accepted_mail"
  assumes dial: "ml_dial X a s = (r, s') \<Longrightarrow> box s' = box s \<and> (case r of Inl _ \<Rightarrow> held s' = held s
      | Inr _ \<Rightarrow> held s' = add_mset Connection (held s) \<and> am_secured (talk s') = None \<and> am_login (talk s') = None)"
    and handshake: "ml_handshake X h s = (r, s') \<Longrightarrow> box s' = box s \<and> held s' = held s \<and>
      (r = Inr () \<longrightarrow> talk s' = (talk s)\<lparr>am_secured := Some h\<rparr>)"
    and greet: "ml_greet X h s = (r, s') \<Longrightarrow> box s' = box s \<and> (case r of Inl _ \<Rightarrow> held s' = held s
      | Inr _ \<Rightarrow> held s' = add_mset Client (held s) \<and> talk s' = talk s)"
    and auth: "ml_auth X l s = (r, s') \<Longrightarrow> box s' = box s \<and> held s' = held s \<and>
      (r = Inr () \<longrightarrow> talk s' = (talk s)\<lparr>am_login := Some l\<rparr>)"
    and mail: "ml_mail X f s = (r, s') \<Longrightarrow> box s' = box s \<and> held s' = held s \<and>
      (r = Inr () \<longrightarrow> talk s' = (talk s)\<lparr>am_from := f, am_to := [], am_text := []\<rparr>)"
    and rcpt: "ml_rcpt X t s = (r, s') \<Longrightarrow> box s' = box s \<and> held s' = held s \<and>
      (r = Inr () \<longrightarrow> talk s' = (talk s)\<lparr>am_to := am_to (talk s) @ [t]\<rparr>)"
    and data: "ml_data X s = (r, s') \<Longrightarrow> box s' = box s \<and> (case r of Inl _ \<Rightarrow> held s' = held s
      | Inr _ \<Rightarrow> held s' = add_mset DataWriter (held s) \<and> talk s' = (talk s)\<lparr>am_text := []\<rparr>)"
    and put_text: "ml_write X t s = (r, s') \<Longrightarrow> box s' = box s \<and> held s' = held s \<and> (case r of
        Inl _ \<Rightarrow> \<exists>u. talk s' = (talk s)\<lparr>am_text := u\<rparr>
      | Inr _ \<Rightarrow> talk s' = (talk s)\<lparr>am_text := am_text (talk s) @ t\<rparr>)"
    and finish: "ml_finish X s = (r, s') \<Longrightarrow> held s' = held s - {#DataWriter#} \<and> (case r of
        Inl _ \<Rightarrow> box s' = box s \<or> box s' = box s @ [talk s]
      | Inr _ \<Rightarrow> box s' = box s @ [talk s])"
    and quit: "ml_quit X s = (r, s') \<Longrightarrow> box s' = box s \<and> held s' = held s"
    and close_client: "box (ml_close_client X s) = box s \<and> held (ml_close_client X s) = held s - {#Client#}"
    and close: "box (ml_close X s) = box s \<and> held (ml_close X s) = held s - {#Connection#}"
    and send_mail: "ml_send_mail X a credentials f t m s = (r, s') \<Longrightarrow> held s' = held s \<and> (case r of
        Inl _ \<Rightarrow> box s' = box s \<or> (\<exists>x. am_from x = f \<and> am_to x = [t] \<and> box s' = box s @ [x])
      | Inr _ \<Rightarrow> \<exists>x. am_from x = f \<and> am_to x = [t] \<and> am_text x = m \<and> box s' = box s @ [x])"
    and elsewhere: "box (snd (env_random R n s)) = box s" "held (snd (env_random R n s)) = held s"
      "box (snd (env_now R s)) = box s" "held (snd (env_now R s)) = held s"
begin

text \<open>Each step with its answer named.\<close>

lemma write_message_result:
  assumes "write_message X message s = (r, s')"
  shows "held s' = held s - {#DataWriter#}"
    and "r = Inr () \<Longrightarrow> box s' = box s @ [(talk s)\<lparr>am_text := am_text (talk s) @ message\<rparr>]"
    and "r = Inl e \<Longrightarrow> box s' = box s \<or> (\<exists>u. box s' = box s @ [(talk s)\<lparr>am_text := u\<rparr>])"
proof -
  obtain a s1 where w: "ml_write X message s = (a, s1)" by fastforce
  obtain b s2 where f: "ml_finish X s1 = (b, s2)" by fastforce
  note laws = put_text [OF w] finish [OF f]
  have out: "s' = s2" "r = (case a of Inl e \<Rightarrow> Inl e | Inr _ \<Rightarrow> b)"
    using assms w f by (auto simp: write_message_def split: sum.splits)
  show "held s' = held s - {#DataWriter#}" using laws out(1) by simp
  show "box s' = box s @ [(talk s)\<lparr>am_text := am_text (talk s) @ message\<rparr>]" if "r = Inr ()"
  proof (cases a)
    case (Inl e)
    then show ?thesis using out(2) that by simp
  next
    case (Inr x)
    then have "talk s1 = (talk s)\<lparr>am_text := am_text (talk s) @ message\<rparr>" "box s1 = box s" "b = Inr ()"
      using laws(1) out(2) that by simp_all
    then show ?thesis using laws(2) out(1) by simp
  qed
  show "box s' = box s \<or> (\<exists>u. box s' = box s @ [(talk s)\<lparr>am_text := u\<rparr>])" if "r = Inl e"
  proof -
    obtain u where u: "talk s1 = (talk s)\<lparr>am_text := u\<rparr>" "box s1 = box s" using laws(1) by (cases a) auto
    have "box s' = box s1 \<or> box s' = box s1 @ [talk s1]" using laws(2) out(1) by (cases b) simp_all
    then show ?thesis unfolding u by blast
  qed
qed

text \<open>An answered step of a chain: either it fails and ends the chain, or the rest goes on behind it.\<close>

lemma ebind_result:
  assumes "ebind m k s = (r, s')"
  obtains (failed) e where "m s = (Inl e, s')" "r = Inl e" | (passed) x s1 where "m s = (Inr x, s1)" "k x s1 = (r, s')"
  using assms by (auto simp: ebind_def split: prod.splits sum.splits)

text \<open>
  What a delivery leaves behind: with success exactly one mail more, the given one; with an
  error at most one more, from and to the given addresses.
\<close>

definition delivered :: "go_error + unit \<Rightarrow> accepted_mail \<Rightarrow> 's \<Rightarrow> 's \<Rightarrow> bool" where
  "delivered r x s s' \<longleftrightarrow> (case r of
      Inl _ \<Rightarrow> box s' = box s \<or> (\<exists>y. am_from y = am_from x \<and> am_to y = am_to x \<and> box s' = box s @ [y])
    | Inr _ \<Rightarrow> box s' = box s @ [x])"

lemma undelivered: "box s' = box s \<Longrightarrow> delivered (Inl e) x s s'"
  by (simp add: delivered_def)

lemma delivered_box: "box s2 = box s1 \<Longrightarrow> box t2 = box t1 \<Longrightarrow> delivered r x s2 t2 = delivered r x s1 t1"
  by (cases r) (simp_all add: delivered_def)

lemma text_delivered:
  assumes "ebind (write_message X message) (\<lambda>_. ml_quit X) s = (r, s')"
  shows "held s' = held s - {#DataWriter#}" "am_text (talk s) = [] \<Longrightarrow> delivered r ((talk s)\<lparr>am_text := message\<rparr>) s s'"
proof -
  have "held s' = held s - {#DataWriter#} \<and> (am_text (talk s) = [] \<longrightarrow> delivered r ((talk s)\<lparr>am_text := message\<rparr>) s s')"
    using assms
  proof (cases rule: ebind_result)
    case (failed e)
    note w = write_message_result [OF failed(1)]
    show ?thesis using w(1) w(3) [of e] failed(2) by (auto simp: delivered_def)
  next
    case (passed x s1)
    note w = write_message_result [OF passed(1)]
    have "box s' = box s1" "held s' = held s1" using quit [OF passed(2)] by simp_all
    then show ?thesis using w(1,2) by (auto simp: delivered_def split: sum.split)
  qed
  then show "held s' = held s - {#DataWriter#}" "am_text (talk s) = [] \<Longrightarrow> delivered r ((talk s)\<lparr>am_text := message\<rparr>) s s'"
    by simp_all
qed

text \<open>The envelope and the data, over a session that has its login.\<close>

lemma envelope_delivered:
  assumes "ebind (ml_mail X f) (\<lambda>_. ebind (ml_rcpt X t) (\<lambda>_. ebind (ml_data X) (\<lambda>_.
    ebind (write_message X message) (\<lambda>_. ml_quit X)))) s = (r, s')"
  shows "held s' = held s \<and> delivered r ((talk s)\<lparr>am_from := f, am_to := [t], am_text := message\<rparr>) s s'"
  using assms
proof (cases rule: ebind_result)
  case (failed e)
  then show ?thesis using mail [OF failed(1)] by (simp add: undelivered)
next
  case (passed x1 s1)
  note m = mail [OF passed(1)]
  from passed(2) show ?thesis
  proof (cases rule: ebind_result)
    case (failed e)
    then show ?thesis using m rcpt [OF failed(1)] by (simp add: undelivered)
  next
    case (passed x2 s2)
    note t = rcpt [OF passed(1)]
    from passed(2) show ?thesis
    proof (cases rule: ebind_result)
      case (failed e)
      then show ?thesis using m t data [OF failed(1)] by (simp add: undelivered)
    next
      case (passed x3 s3)
      note d = data [OF passed(1)] and out = text_delivered [OF passed(2)]
      have talk: "talk s3 = (talk s)\<lparr>am_from := f, am_to := [t], am_text := []\<rparr>" and same: "box s3 = box s"
        and writer: "held s3 = add_mset DataWriter (held s)"
        using m t d by simp_all
      have "delivered r ((talk s)\<lparr>am_from := f, am_to := [t], am_text := message\<rparr>) s3 s'" using out(2) by (simp add: talk)
      then show ?thesis using out(1) writer by (simp add: delivered_box [OF same refl])
    qed
  qed
qed

lemma session_delivered:
  assumes "smtp_session X credentials f t message s = (r, s')"
  shows "held s' = held s \<and> delivered r ((talk s)\<lparr>am_login := (case credentials of None \<Rightarrow> am_login (talk s) | Some l \<Rightarrow> Some l),
    am_from := f, am_to := [t], am_text := message\<rparr>) s s'"
  using assms unfolding smtp_session_def
proof (cases rule: ebind_result)
  case (failed e)
  then show ?thesis by (cases credentials) (auto simp: optional_auth_def undelivered dest: auth)
next
  case (passed x s1)
  have a: "box s1 = box s" "held s1 = held s"
    "talk s1 = (talk s)\<lparr>am_login := (case credentials of None \<Rightarrow> am_login (talk s) | Some l \<Rightarrow> Some l)\<rparr>"
    using passed(1) auth by (cases credentials; force simp: optional_auth_def)+
  show ?thesis using envelope_delivered [OF passed(2)] unfolding a(2,3) delivered_box [OF a(1) refl] .
qed

text \<open>Over implicit TLS: everything that was opened is closed again, on every way out.\<close>

lemma tls_delivered:
  assumes "send_mail_implicit_tls X m credentials f t message s = (r, s')"
  shows "held s' = held s \<and> delivered r \<lparr>am_from = f, am_to = [t], am_text = message,
    am_secured = Some (sm_host m), am_login = credentials\<rparr> s s'"
  using assms unfolding send_mail_implicit_tls_def
proof (cases rule: ebind_result)
  case (failed e)
  then show ?thesis using dial [OF failed(1)] by (simp add: undelivered)
next
  case (passed x s1)
  note d = dial [OF passed(1)]
  obtain s2 where run: "ebind (ml_handshake X (sm_host m)) (\<lambda>_. ebind (ml_greet X (sm_host m)) (\<lambda>_.
      deferring (ml_close_client X) (smtp_session X credentials f t message))) s1 = (r, s2)" and s': "s' = ml_close X s2"
    using passed(2) by (auto simp: deferring_def Let_def split: prod.splits)
  have "held s2 = held s1 \<and> delivered r \<lparr>am_from = f, am_to = [t], am_text = message,
      am_secured = Some (sm_host m), am_login = credentials\<rparr> s1 s2"
    using run
  proof (cases rule: ebind_result)
    case (failed e)
    then show ?thesis using handshake [OF failed(1)] by (simp add: undelivered)
  next
    case (passed x2 s3)
    note h = handshake [OF passed(1)]
    from passed(2) show ?thesis
    proof (cases rule: ebind_result)
      case (failed e)
      then show ?thesis using h greet [OF failed(1)] by (simp add: undelivered)
    next
      case (passed x3 s4)
      note g = greet [OF passed(1)]
      obtain s5 where se: "smtp_session X credentials f t message s4 = (r, s5)" and s2: "s2 = ml_close_client X s5"
        using passed(2) by (auto simp: deferring_def Let_def split: prod.splits)
      have talk: "am_secured (talk s4) = Some (sm_host m)" "am_login (talk s4) = None" "box s4 = box s1"
        "held s4 = add_mset Client (held s1)"
        using d h g by simp_all
      have mail: "(talk s4)\<lparr>am_login := (case credentials of None \<Rightarrow> am_login (talk s4) | Some l \<Rightarrow> Some l),
          am_from := f, am_to := [t], am_text := message\<rparr> =
        \<lparr>am_from = f, am_to = [t], am_text = message, am_secured = Some (sm_host m), am_login = credentials\<rparr>"
        using talk(1,2) by (cases credentials) simp_all
      note out = session_delivered [OF se, unfolded mail]
      have "held s2 = held s1" using out talk(4) close_client [of s5] by (simp add: s2)
      moreover have "delivered r \<lparr>am_from = f, am_to = [t], am_text = message, am_secured = Some (sm_host m), am_login = credentials\<rparr> s1 s2"
        using conjunct2 [OF out] unfolding delivered_box [OF talk(3) refl] s2 delivered_box [OF refl conjunct1 [OF close_client]] .
      ultimately show ?thesis by simp
    qed
  qed
  then have out: "held s2 = held s1" "delivered r \<lparr>am_from = f, am_to = [t], am_text = message,
      am_secured = Some (sm_host m), am_login = credentials\<rparr> s1 s2" by simp_all
  have same: "box s1 = box s" "held s1 = add_mset Connection (held s)" using d by simp_all
  have "held s' = held s" using out(1) same(2) close [of s2] by (simp add: s')
  moreover have "delivered r \<lparr>am_from = f, am_to = [t], am_text = message, am_secured = Some (sm_host m), am_login = credentials\<rparr> s s'"
    using out(2) unfolding delivered_box [OF same(1) refl] s' delivered_box [OF refl conjunct1 [OF close]] .
  ultimately show ?thesis by simp
qed

end

section \<open>A reference mail server\<close>

text \<open>A server that takes every mail, and every login that has a password.\<close>

record ref_mail_world = ref_auth_world +
  rm_box :: "accepted_mail list"
  rm_held :: "mail_resource multiset"
  rm_talk :: accepted_mail

definition fresh_talk :: accepted_mail where
  "fresh_talk = \<lparr>am_from = [], am_to = [], am_text = [], am_secured = None, am_login = None\<rparr>"

definition talking :: "(accepted_mail \<Rightarrow> accepted_mail) \<Rightarrow> (ref_mail_world, unit) io" where
  "talking f s = (Inr (), s\<lparr>rm_talk := f (rm_talk s)\<rparr>)"

definition ref_link :: "ref_mail_world mail_link" where
  "ref_link = \<lparr>ml_cancelled = \<lambda>s. None,
     ml_dial = \<lambda>a s. (Inr (), s\<lparr>rm_held := add_mset Connection (rm_held s), rm_talk := fresh_talk\<rparr>),
     ml_handshake = \<lambda>h. talking (am_secured_update (\<lambda>_. Some h)),
     ml_greet = \<lambda>h s. (Inr (), s\<lparr>rm_held := add_mset Client (rm_held s)\<rparr>),
     ml_auth = \<lambda>l s. if sl_password l = [] then (Inl ErrService, s) else talking (am_login_update (\<lambda>_. Some l)) s,
     ml_mail = \<lambda>f. talking (\<lambda>t. t\<lparr>am_from := f, am_to := [], am_text := []\<rparr>),
     ml_rcpt = \<lambda>t. talking (\<lambda>x. x\<lparr>am_to := am_to x @ [t]\<rparr>),
     ml_data = \<lambda>s. (Inr (), s\<lparr>rm_held := add_mset DataWriter (rm_held s), rm_talk := (rm_talk s)\<lparr>am_text := []\<rparr>\<rparr>),
     ml_write = \<lambda>t. talking (\<lambda>x. x\<lparr>am_text := am_text x @ t\<rparr>),
     ml_finish = \<lambda>s. (Inr (), s\<lparr>rm_held := rm_held s - {#DataWriter#}, rm_box := rm_box s @ [rm_talk s]\<rparr>),
     ml_quit = Pair (Inr ()),
     ml_close_client = \<lambda>s. s\<lparr>rm_held := rm_held s - {#Client#}\<rparr>,
     ml_close = \<lambda>s. s\<lparr>rm_held := rm_held s - {#Connection#}\<rparr>,
     ml_send_mail = \<lambda>a l f t m s. (Inr (), s\<lparr>rm_box := rm_box s @
       [\<lparr>am_from = f, am_to = [t], am_text = m, am_secured = None, am_login = l\<rparr>]\<rparr>)\<rparr>"

definition demo_mailer :: "bool \<Rightarrow> smtp_mailer" where
  "demo_mailer tls = \<lparr>sm_addr = ''h:1'', sm_host = ''h'', sm_username = ''u'', sm_password = ''p'', sm_from = ''u'', sm_tls = tls\<rparr>"

definition plain_process :: process where
  "plain_process = \<lparr>pr_getenv = \<lambda>k. [], pr_address = \<lambda>t. Some \<lparr>ma_text = t, ma_address = t\<rparr>, pr_fold = id\<rparr>"

text \<open>The reference environment whose accounts send their mails to it.\<close>

abbreviation mail_base :: "(ref_mail_world, unit) auth_env_scheme" where
  "mail_base \<equiv> ref_auth ()"

definition mail_ref :: "bool \<Rightarrow> (ref_mail_world, unit) auth_env_scheme" where
  "mail_ref tls = mail_base\<lparr>au_mail := send_verification mail_base plain_process (\<lambda>t. 0) ref_link (demo_mailer tls)\<rparr>"



lemma send_verification_mail: "send_verification (R\<lparr>au_mail := f\<rparr>) = send_verification R"
proof -
  have same: "env_random (R\<lparr>au_mail := f\<rparr>) = env_random R" "env_now (R\<lparr>au_mail := f\<rparr>) = env_now R" by simp_all
  have compose: "compose_verification_message (R\<lparr>au_mail := f\<rparr>) = compose_verification_message R"
    unfolding fun_eq_iff compose_verification_message_def same by blast
  show ?thesis unfolding fun_eq_iff send_verification_def compose by blast
qed

lemma mail_world_view [simp]:
  "ref_view (s\<lparr>rm_box := b\<rparr>) = ref_view s" "ref_view (s\<lparr>rm_held := h\<rparr>) = ref_view s" "ref_view (s\<lparr>rm_talk := t\<rparr>) = ref_view s"
  by (simp_all add: ref_view_def)

lemma mail_world_random [simp]: "ref_view (s\<lparr>rw_random := b\<rparr>) = ref_view s"
  by (simp add: ref_view_def)


lemma mail_world_frame:
  fixes s :: ref_mail_world
  shows "rm_box (snd (ref_random n s)) = rm_box s" "rm_held (snd (ref_random n s)) = rm_held s"
    "rm_box (snd (ref_now s)) = rm_box s" "rm_held (snd (ref_now s)) = rm_held s" "rm_box (snd (ref_arrive s)) = rm_box s"
    "rm_box (r_set mail_base k v px s) = rm_box s" "rm_box (r_del mail_base k s) = rm_box s"
    "rm_box (snd (r_setnx mail_base k v px s)) = rm_box s"
  by (simp_all add: ref_random_def ref_now_def ref_arrive_def ref_auth_def auth_env.defs ref_db_def db_env.defs ref_env_def
      env.defs ref_redis_def ref_apply_def ref_guard_def split: list.split option.split)

interpretation ref_mail: mail_service "mail_ref tls" ref_link rm_box rm_held rm_talk
proof
qed (auto simp: ref_link_def talking_def fresh_talk_def mail_ref_def mail_world_frame split: if_splits)

section \<open>The mail with a code\<close>

definition mail_login :: "smtp_mailer \<Rightarrow> smtp_login option" where
  "mail_login m = (if sm_username m = [] then None
     else Some \<lparr>sl_username = sm_username m, sl_password = sm_password m, sl_host = sm_host m\<rparr>)"

text \<open>
  The mail that carries a code: from the sender of the configuration to the address it is for,
  with the subject of the purpose, and the code in the plain and in the HTML part; over implicit
  TLS it was accepted on a connection secured for the configured host, under the configured login.
\<close>

definition carries_code :: "process \<Rightarrow> smtp_mailer \<Rightarrow> string \<Rightarrow> string \<Rightarrow> string \<Rightarrow> accepted_mail \<Rightarrow> bool" where
  "carries_code P m to purpose verification x \<longleftrightarrow>
     (\<exists>sender recipient date boundary.
        pr_address P (sm_from m) = Some sender \<and> pr_address P to = Some recipient \<and>
        am_from x = ma_address sender \<and> am_to x = [ma_address recipient] \<and>
        am_text x = mime_headers (ma_text sender) (ma_text recipient) (ve_subject (email_for_purpose purpose)) date boundary @
          mime_body boundary (plain_text (email_for_purpose purpose) verification)
            (html_text (email_for_purpose purpose) verification)) \<and>
     (sm_tls m \<longrightarrow> am_secured x = Some (sm_host m) \<and> am_login x = mail_login m)"

definition addressed_to :: "process \<Rightarrow> string \<Rightarrow> accepted_mail \<Rightarrow> bool" where
  "addressed_to P to x \<longleftrightarrow> (\<exists>recipient. pr_address P to = Some recipient \<and> am_to x = [ma_address recipient])"

context mail_service
begin

lemma compose_result:
  assumes "compose_verification_message R P zone from to verification purpose s = (r, s')"
  shows "box s' = box s \<and> held s' = held s \<and> (case r of Inl _ \<Rightarrow> True | Inr (text, f, t) \<Rightarrow>
    \<exists>sender recipient date boundary. pr_address P from = Some sender \<and> pr_address P to = Some recipient \<and>
      f = ma_address sender \<and> t = ma_address recipient \<and>
      text = mime_headers (ma_text sender) (ma_text recipient) (ve_subject (email_for_purpose purpose)) date boundary @
        mime_body boundary (plain_text (email_for_purpose purpose) verification)
          (html_text (email_for_purpose purpose) verification))"
proof -
  have random: "box s1 = box s" "held s1 = held s" if "env_random R 30 s = (x, s1)" for x s1
    using that elsewhere(1,2) [of 30 s] by simp_all
  have now: "box s2 = box s1" "held s2 = held s1" if "env_now R s1 = (x, s2)" for x s1 s2
    using that elsewhere(3,4) [of s1] by simp_all
  show ?thesis
    using assms by (auto simp: compose_verification_message_def Let_def random now split: option.splits prod.splits) blast
qed

lemma verification_delivered:
  assumes "send_verification R P zone X m to verification purpose s = (r, s')"
  shows "held s' = held s \<and> (case r of
      Inr _ \<Rightarrow> \<exists>x. carries_code P m to purpose verification x \<and> box s' = box s @ [x]
    | Inl _ \<Rightarrow> box s' = box s \<or> (\<exists>x. addressed_to P to x \<and> box s' = box s @ [x]))"
proof (cases "ml_cancelled X s")
  case (Some e)
  then show ?thesis using assms by (auto simp: send_verification_def)
next
  case None
  obtain a s1 where c: "compose_verification_message R P zone (sm_from m) to verification purpose s = (a, s1)" by fastforce
  note composed = compose_result [OF c]
  show ?thesis
  proof (cases a)
    case (Inl e)
    then have "r = Inl e" "s' = s1" using assms None c by (simp_all add: send_verification_def)
    then show ?thesis using composed by simp
  next
    case (Inr y)
    obtain body f t where y: "y = (body, f, t)" by (metis surj_pair)
    obtain sender recipient date boundary where parts: "pr_address P (sm_from m) = Some sender" "pr_address P to = Some recipient"
      "f = ma_address sender" "t = ma_address recipient"
      "body = mime_headers (ma_text sender) (ma_text recipient) (ve_subject (email_for_purpose purpose)) date boundary @
        mime_body boundary (plain_text (email_for_purpose purpose) verification) (html_text (email_for_purpose purpose) verification)"
      and same: "box s1 = box s" "held s1 = held s" using composed Inr y by auto
    have run: "(if sm_tls m then send_mail_implicit_tls X m (mail_login m) f t body s1
        else ml_send_mail X (sm_addr m) (mail_login m) f t body s1) = (r, s')"
      using assms None c Inr y unfolding mail_login_def by (simp add: send_verification_def Let_def split: if_splits)
    have code: "carries_code P m to purpose verification x"
      if "am_from x = f" "am_to x = [t]" "am_text x = body" "sm_tls m \<longrightarrow> am_secured x = Some (sm_host m) \<and> am_login x = mail_login m" for x
      unfolding carries_code_def using parts that by blast
    have addressed: "addressed_to P to x" if "am_to x = [t]" for x
      unfolding addressed_to_def using parts that by blast
    show ?thesis
    proof (cases "sm_tls m")
      case True
      then have tls: "send_mail_implicit_tls X m (mail_login m) f t body s1 = (r, s')" using run by simp
      show ?thesis using tls_delivered [OF tls] code addressed unfolding same delivered_def
        by (cases r) (simp, blast, simp)
    next
      case False
      then have plain: "ml_send_mail X (sm_addr m) (mail_login m) f t body s1 = (r, s')" using run by simp
      show ?thesis using send_mail [OF plain] code addressed False unfolding same by (cases r) (simp, blast, simp, blast)
    qed
  qed
qed

end

text \<open>
  C38. A verification mail arrives as it was reported. However \<open>SendVerification\<close> ends, over
  implicit TLS or plain SMTP, whatever step of the session fails, what it opened is closed: the
  connection, the client and the data, each once. With success the server has accepted exactly
  one mail more, and it is the mail with the code: to the address it is for, whole, and over
  implicit TLS on a connection that was secured for the configured host before, under the
  configured login. With an error it has accepted at most one more, to that address (the answer
  to the data, or to \<open>QUIT\<close>, may be what failed).
\<close>

theorem verification_mail_arrives:
  assumes "mail_service R X box held talk" "send_verification R P zone X m to verification purpose s = (r, s')"
  shows "held s' = held s \<and> (case r of
      Inr _ \<Rightarrow> \<exists>x. carries_code P m to purpose verification x \<and> box s' = box s @ [x]
    | Inl _ \<Rightarrow> box s' = box s \<or> (\<exists>x. addressed_to P to x \<and> box s' = box s @ [x]))"
  by (rule mail_service.verification_delivered [OF assms])

definition mail_start :: ref_mail_world where
  "mail_start = ref_auth_world.extend (auth_start Map.empty []) (ref_mail_world.fields [] {#} fresh_talk)"

lemma mail_start_simps [simp]:
  "rw_random mail_start = replicate 512 (CHR ''7'')" "rm_box mail_start = []" "rm_held mail_start = {#}"
  "rf_net mail_start = []" "ref_view mail_start = Map.empty"
  by (simp_all add: mail_start_def auth_start_def db_start_def ref_start_def ref_view_def purge_def fun_eq_iff
      ref_world.defs ref_db_world.defs ref_auth_world.defs ref_mail_world.defs)

lemma ref_link_sends:
  assumes "30 \<le> length (rw_random s)"
  shows "fst (send_verification mail_base plain_process (\<lambda>t. 0) ref_link (demo_mailer tls) to verification purpose s) = Inr ()"
  using assms
  by (simp add: send_verification_def compose_verification_message_def plain_process_def ref_link_def demo_mailer_def
      ref_random_def ref_now_def send_mail_implicit_tls_def smtp_session_def optional_auth_def write_message_def ebind_def
      deferring_def talking_def Let_def)

theorem verification_mail_arrives_witness:
  "\<exists>s' x. send_verification (mail_ref True) plain_process (\<lambda>t. 0) ref_link (demo_mailer True) ''a'' ''123456'' ''reset'' mail_start =
      (Inr (), s') \<and> rm_box s' = [x] \<and> carries_code plain_process (demo_mailer True) ''a'' ''reset'' ''123456'' x \<and> rm_held s' = {#}"
proof -
  obtain r s' where run: "send_verification (mail_ref True) plain_process (\<lambda>t. 0) ref_link (demo_mailer True) ''a'' ''123456'' ''reset''
      mail_start = (r, s')" by fastforce
  have "r = Inr ()"
    using run ref_link_sends [of mail_start True "''a''" "''123456''" "''reset''"] by (simp add: mail_ref_def send_verification_mail)
  then show ?thesis using verification_mail_arrives [OF ref_mail.mail_service_axioms run] run by auto
qed

section \<open>Verifications are mailed\<close>





end
