(* ===== verification/Spec2Isabelle.thy ===== *)
theory Spec2Isabelle
  imports Quota_Correct Persona Conversation_Correct Redis_Stores Maintenance_Correct Agent_Correct
    Auth_Secure Gateway_Correct Json_Fuel Web_Ui Deployment Conversation_Turns Readiness Test_Database Mail_Correct
begin

text \<open>
  \<^bold>\<open>The Anime Companion services.\<close> Two Go services let users chat with five characters. The
  \<^emph>\<open>gateway\<close> (\<open>src/cmd/gateway\<close>, \<open>src/internal/gateway\<close>) answers HTTP: it signs users in, limits
  their rate, charges each message to a daily quota and pushes answers to WeChat. The \<^emph>\<open>agent\<close>
  (\<open>src/cmd/agent\<close>, \<open>src/internal/agent\<close>) is called over gRPC: it keeps the conversations of the day
  in Redis, lets a language model plan the speakers and speak for them, and once a day moves
  the conversations to a relational archive with a summary. This development models the Go
  code under \<open>src/internal\<close> and the wiring under \<open>src/cmd\<close>, and proves what each part promises and
  what the two services do together.

  \<^bold>\<open>How code becomes definitions.\<close> Code that reads or changes the world is a function
  \<open>'s \<Rightarrow> 'r \<times> 's\<close> over an unknown world \<open>'s\<close>. What lies outside the repository is a record of
  operations that the definitions take as an argument: \<open>'s redis\<close> (the commands of the server),
  extended by \<open>env\<close> (clock, random bytes, SHA-256, UUIDs, \<open>SCAN\<close>), \<open>db_env\<close> (one field per SQL statement)
  and \<open>auth_env\<close> (the table of users, Argon2id, the mailer). Locales state the documented laws:
  \<open>redis_service\<close> (the effect of each command on the view of the keys, and that it touches no other key),
  \<open>quiet_redis\<close> and \<open>quiet_env\<close> (nobody else writes, keys may expire, requests and replies may get lost),
  \<open>calm_env\<close> (every request is served at once), \<open>database\<close>, \<open>calm_app\<close>, \<open>auth_service\<close>, \<open>accounts\<close>. The
  programs under \<open>cmd\<close> run over a \<open>host\<close> (\<open>orderly_host\<close>, \<open>health_server\<close>), the mailer over a mail server
  (\<open>mail_service\<close>, and beside the accounts \<open>mailing\<close>). Each locale is interpreted on a reference,
  which carries the witnesses of the properties.
  A pair of a result and an error is a sum, \<open>Inl\<close> the error; an error is a constructor of
  \<open>go_error\<close>. A Lua script is a function of the server state, run as a whole, as Redis does; a
  round trip may lose the request or the reply. Strings are bytes, as in Go, and texts outside
  ASCII are written by their code points. Integers that travel through Redis or Lua are kept
  within 64 bits, with Lua's numbers exact below \<open>2 ^ 53\<close>.
\<close>

text \<open>
  \<^bold>\<open>The theories, from the bottom up.\<close>

  \<^item> \<open>Prelude\<close>, \<open>Go_Strings\<close>, \<open>Go_Time\<close>: errors and sequencing; UTF-8, \<open>strings\<close>, decimal numbers;
    instants, Beijing days and \<open>time.Format\<close>. \<open>Documents\<close>: the JSON documents of the store, as what
    \<open>cjson\<close> and \<open>encoding/json\<close> make of them. \<open>Redis\<close>, \<open>Redis_Reference\<close>, \<open>Go_Env\<close>: the server, its
    reference, and the environment.
  \<^item> \<open>Quota\<close> (\<open>quota/quota.go\<close>): the scripts and \<open>Reserve\<close>, \<open>Settle\<close>, \<open>Snapshot\<close>. \<open>Quota_Ledger\<close>: the abstract
    ledger, a map from requests to \<open>Reserved\<close> or \<open>Charged\<close>, which the scripts refine. \<open>Quota_Runs\<close>: any
    number of callers interleaved, as the inductive relation \<open>quota_run\<close>. \<open>Quota_Correct\<close>: no
    overspending, the contract of both operations, retries and midnight.
  \<^item> \<open>Conversation\<close> (\<open>conversation.go\<close>, \<open>redis_store.go\<close>, \<open>structured_store.go\<close>): keys, scripts, methods.
    \<open>Conversation_Keys\<close>: keys of different kinds or conversations differ, and the typing \<open>conv_ok\<close> of the
    key space. \<open>Conversation_Scripts\<close>: every script, branch by branch. \<open>Conversation_Runs\<close>: every method
    over a lossy network, and the relation \<open>conv_run\<close>. \<open>Conversation_Correct\<close>: decodability, beginning,
    fencing by the lease, appending, replay, interruption, the members of the active set.
    \<open>Conversation_Turns\<close>: the methods as sequences of atomic commands, \<open>command_run\<close>, any interleaving of
    them, what a lease guarantees there, and the race that \<open>ClearScopeToday\<close> leaves.
  \<^item> \<open>Redis_Stores\<close> (\<open>redisstore/redis.go\<close>, \<open>gateway/dedupe.go\<close>): the contract \<open>deduper\<close> on both its
    implementations, the token cache, the limiter.
  \<^item> \<open>Persona\<close> (\<open>persona/\<close>), \<open>Spaces\<close> (\<open>orchestration/types.go\<close>, \<open>context.go\<close>, \<open>planning.go\<close>), \<open>Replies\<close>
    (\<open>orchestration/deepseek.go\<close>, \<open>chat/\<close>, \<open>summarize/\<close>): characters and their aliases, the history
    window, the speakers of a turn, the prompts and the reading of the model's answers.
  \<^item> \<open>Memory\<close> (\<open>memory/\<close>): the archive; its writes are all or nothing, and repeatable.
  \<^item> \<open>Orchestration\<close> (\<open>orchestration/application.go\<close>, \<open>maintenance.go\<close>): a user's turn and the nightly
    move. \<open>Orchestration_Correct\<close>, \<open>Orchestration_Live\<close>: the reported turn is the stored one, the lease is
    given back on every way out, every valid message is answered, an append needs a plan. \<open>Maintenance_Correct\<close>: nothing is deleted from Redis
    before the archive holds it.
  \<^item> \<open>Agent\<close> (\<open>agent/server.go\<close>): the service, with the conversation application and without;
    \<open>Agent_Correct\<close>: a refusal is free of effects. \<open>Agent_Client\<close> (\<open>gateway/agent_client.go\<close>): the
    gateway's side; \<open>direct_stub\<close> connects it to the modelled service.
  \<^item> \<open>Auth_Crypto\<close>, \<open>Auth\<close>, \<open>Mailer\<close> (\<open>auth/\<close>): encodings and password hashes, captchas, verification,
    login, reset, sessions, the administrator, the mails. \<open>Auth_Correct\<close>, \<open>Auth_Secure\<close>: what an attacker
    and what a user can rely on. \<open>Mail_Correct\<close>: what was reported sent is in the server's mailbox, and
    what was opened on the way is closed.
  \<^item> \<open>Json\<close>, \<open>WeChat\<close> (\<open>wechat/\<close>): reading JSON objects, signatures, the access token, pushing a text.
    \<open>Json_Fuel\<close>: the reader never runs out of fuel.
  \<^item> \<open>Gateway\<close> (the handlers of \<open>gateway/\<close>), \<open>Gateway_Quota\<close> (the locale \<open>turn_quota\<close>: what a handler needs of
    a quota manager, met by the quota of \<open>Quota\<close>), \<open>Gateway_Correct\<close>: turns and the ledger, tokens of
    WeChat, sessions.
  \<^item> \<open>Web_Ui\<close> (\<open>webui/webui.go\<close>): which embedded file, or which redirection, answers a path.
  \<^item> \<open>Config\<close> (\<open>config/config.go\<close>), \<open>Startup\<close> (\<open>cmd/\<close>): the configuration and the services built from it;
    \<open>Startup_Correct\<close>. \<open>Lifecycle\<close>: the \<open>main\<close> functions from the first line to the last, with what is deferred,
    over a host; \<open>Lifecycle_Correct\<close>: what is opened is given back; \<open>Readiness\<close>: the goroutines of the agent
    as the relation \<open>agent_step\<close>. \<open>Test_Database\<close> (\<open>testdb/testdb.go\<close>). \<open>Footprint\<close>: the keys each operation may touch (\<open>within\<close>). \<open>Deployment\<close>: gateway,
    client and agent on one server, where the footprints keep the components' data apart.
\<close>

text \<open>
  \<^bold>\<open>What the properties say.\<close> C1 is about the deployed services: a user's message is charged
  exactly if it got a reply. C2 to C6 are the quota, C7 to C15 the conversation store (C7 over
  every interleaving of commands; C15 is a race that the lease does not rule out), C16 the
  limiter, C17 and C18 the application, C19 the archive, C20 to C23 what the model is told and
  what is made of its answer, C24 the nightly run, C25 the agent's refusals, C26 to C31
  authentication, C32 to C34 the gateway, C35 and C36 the end of both services, C37 the
  configuration, C38 and C39 the mails, C40 an append that comes before its plan. Other theorems stand without a number: the
  window of the deduper, the interruption of a batch, the second push to WeChat, the answers of
  the web application, the walk to the root of the repository, the fuel of the JSON reader.

  \<^bold>\<open>Bounds.\<close> Properties that count speak of counters below \<open>2 ^ 52\<close> and limits below \<open>2 ^ 53\<close>, where
  Lua's arithmetic is exact: \<open>ledgers_ok\<close> and \<open>lua_exact\<close> for the quota (\<open>quota_ready\<close> leaves room for
  the steps of one turn), \<open>roomy\<close> and \<open>at_rest\<close> for the sequence numbers of a conversation. Dates are
  those that \<open>2006-01-02\<close> prints with four digits of the year (\<open>layout_day\<close>). Identifiers of users
  are free of the separator where keys or members are to be told apart (\<open>plain_scope\<close>); the
  gateway's own identifiers are UUIDs. Only the JSON reader runs on fuel, \<open>2 * n + 1\<close> for a text
  of \<open>n\<close> bytes, which \<open>json_fuel_is_enough\<close> shows to be enough; every other loop is a terminating
  function. \<open>cjson.encode\<close> writes numbers with 14 significant digits, so a message number from
  \<open>10 ^ 14\<close> on would come back rounded; the model keeps it exact.

  \<^bold>\<open>What is assumed of the network.\<close> A server that serves every request at once (\<open>calm_env\<close>,
  \<open>calm_auth\<close>, \<open>calm_accounts\<close>, \<open>calm_app\<close>) is assumed where an exact charge or a liveness is claimed (C1,
  C17, C32, C33), and in C29, C31 and C34 of the accounts. Everything else that speaks of Redis
  holds on a server that loses requests and replies, nobody else writing to the keys in question
  where the text does not speak of several callers.

  \<^bold>\<open>Not modelled.\<close>
  \<^item> The generated code \<open>gen/agentv1\<close>: its messages are records, its transport the record
    \<open>agent_stub\<close>. Nothing is known of the code behind it.
  \<^item> Third-party code is a parameter: Redis, PostgreSQL with gorm (one field per statement),
    the language model behind \<open>eino\<close>, Argon2id, SHA-1 and SHA-256, the HTTP transport, \<open>net/smtp\<close> and TLS,
    \<open>mail.ParseAddress\<close>, the XML decoder, the registry of gRPC health, the case folding of runes
    outside ASCII.
  \<^item> gin's binding of JSON bodies (a handler takes the bound value, or none), its route of the
    older address \<open>/app\<close> of the web application, and the cron scheduler, which calls the nightly run
    that is modelled. Contents of files and conditional requests for them.
  \<^item> What the standard library and the drivers do behind the operations of a host (\<open>host\<close> and its
    extensions): the signals, sockets and pools themselves. The handlers and goroutines that run
    while \<open>main\<close> waits are models of their own, not part of the run of \<open>main\<close>.
  \<^item> Cancellation and deadlines of contexts (a call that is cut short is a request or a reply
    lost), the goroutines behind \<open>HandleAsync\<close> (run as a call of their own), and the calls of a
    logger outside the \<open>main\<close> functions, whose lines are modelled without their attributes.
  \<^item> The limit of 10000 on the nesting of JSON in \<open>encoding/json\<close>.
\<close>

end
